(* ===== verification/VK_Prelude.thy ===== *)
theory VK_Prelude
  imports Main "HOL-Library.Word"
begin

section \<open>Prelude: machine integers, faults, byte memory\<close>

text \<open>
  What every component of the model shares: the integer types of
  \<^verbatim>\<open>util/types.h\<close>, the ways a kernel function can fail to return (\<open>fault\<close>), the result
  type \<open>'a res\<close> with its bind, the 32-bit byte-addressed memory with little-endian loads
  and stores, and the \<^verbatim>\<open>alignup\<close>/\<^verbatim>\<open>aligndown\<close> loops of \<^verbatim>\<open>util/util.h\<close>.
\<close>

unbundle bit_operations_syntax

named_theorems res_simps \<open>rewriting of the result bind\<close>
named_theorems mem_simps \<open>rewriting of loads after stores\<close>

type_synonym u8 = "8 word"
type_synonym u16 = "16 word"
type_synonym u32 = "32 word"
type_synonym u64 = "64 word"

subsection \<open>Results\<close>

text \<open>
  \<open>Fatal msg\<close> is \<^verbatim>\<open>fatal_kernel_error(msg, ...)\<close>: interrupts are cleared and the machine
  halts, so the caller never continues. \<open>BadPtr\<close> is a dereference of a null or dangling
  pointer of a typed store. \<open>NoFuel\<close> is a loop or a recursion cut by its fuel.
\<close>

datatype fault = Fatal string | BadPtr | NoFuel

type_synonym 'a res = "fault + 'a"

definition bindR :: "'a res \<Rightarrow> ('a \<Rightarrow> 'b res) \<Rightarrow> 'b res" where
  "bindR r f = (case r of Inl e \<Rightarrow> Inl e | Inr x \<Rightarrow> f x)"

lemma bindR_simps [simp, res_simps]:
  "bindR (Inl e) f = Inl e"
  "bindR (Inr x) f = f x"
  by (simp_all add: bindR_def)

lemma bindR_Inr_iff [res_simps]:
  "bindR r f = Inr y \<longleftrightarrow> (\<exists>x. r = Inr x \<and> f x = Inr y)"
  by (cases r) auto

lemma bindR_InrE:
  assumes "bindR r f = Inr y"
  obtains x where "r = Inr x" "f x = Inr y"
  using assms by (auto simp: bindR_Inr_iff)

lemma bindR_assoc: "bindR (bindR r f) g = bindR r (\<lambda>x. bindR (f x) g)"
  by (cases r) auto

subsection \<open>Byte memory\<close>

type_synonym mem = "u32 \<Rightarrow> u8"

definition load16 :: "mem \<Rightarrow> u32 \<Rightarrow> u16" where
  "load16 m a = ucast (m a) OR push_bit 8 (ucast (m (a + 1)))"

definition load32 :: "mem \<Rightarrow> u32 \<Rightarrow> u32" where
  "load32 m a = ucast (m a) OR push_bit 8 (ucast (m (a + 1)))
     OR push_bit 16 (ucast (m (a + 2))) OR push_bit 24 (ucast (m (a + 3)))"

definition store16 :: "mem \<Rightarrow> u32 \<Rightarrow> u16 \<Rightarrow> mem" where
  "store16 m a v = m(a := ucast v, a + 1 := ucast (drop_bit 8 v))"

definition store32 :: "mem \<Rightarrow> u32 \<Rightarrow> u32 \<Rightarrow> mem" where
  "store32 m a v = m(a := ucast v, a + 1 := ucast (drop_bit 8 v),
     a + 2 := ucast (drop_bit 16 v), a + 3 := ucast (drop_bit 24 v))"

text \<open>Two memories agree on the bytes at the addresses \<open>lo \<le> x < hi\<close>.\<close>

definition same_on :: "nat \<Rightarrow> nat \<Rightarrow> mem \<Rightarrow> mem \<Rightarrow> bool" where
  "same_on lo hi m m' \<longleftrightarrow> (\<forall>x. lo \<le> unat x \<and> unat x < hi \<longrightarrow> m' x = m x)"

lemma same_on_refl [simp]: "same_on lo hi m m"
  by (simp add: same_on_def)

lemma same_on_trans: "same_on lo hi m m' \<Longrightarrow> same_on lo hi m' m'' \<Longrightarrow> same_on lo hi m m''"
  by (simp add: same_on_def)

lemma same_on_mono: "same_on lo hi m m' \<Longrightarrow> lo \<le> lo' \<Longrightarrow> hi' \<le> hi \<Longrightarrow> same_on lo' hi' m m'"
  by (auto simp: same_on_def)

lemma same_on_sym: "same_on lo hi m m' \<Longrightarrow> same_on lo hi m' m"
  by (simp add: same_on_def)

lemma word_unat_eqI: "unat a = unat b \<Longrightarrow> a = b"
  by (rule unsigned_word_eqI)

lemma unat_lt_32: "unat (i :: u32) < 4294967296"
  using unsigned_less [of i, where ?'a = nat] by simp

lemma unat_plus_small:
  fixes a :: u32
  assumes "unat a + unat k < 2 ^ 32"
  shows "unat (a + k) = unat a + unat k"
  using assms by (simp add: unat_word_ariths)

lemma load16_store16 [simp, mem_simps]: "load16 (store16 m a v) a = v"
  by (rule bit_word_eqI)
    (auto simp: load16_def store16_def bit_simps)

lemma load32_store32 [simp, mem_simps]: "load32 (store32 m a v) a = v"
proof (rule bit_word_eqI)
  fix n assume "n < LENGTH(32)"
  then consider "n < 8" | k where "n = 8 + k" "k < 8" | k where "n = 16 + k" "k < 8"
    | k where "n = 24 + k" "k < 8"
    using that le_Suc_ex [of 8 n] le_Suc_ex [of 16 n] le_Suc_ex [of 24 n]
    by fastforce
  then show "bit (load32 (store32 m a v) a) n \<longleftrightarrow> bit v n"
    by cases (simp_all add: load32_def store32_def bit_simps)
qed

text \<open>A load only depends on the bytes it reads, a store only changes those it writes.\<close>

lemma load16_same_on:
  assumes "same_on lo hi m m'" "lo \<le> unat a" "unat a + 2 \<le> hi" "unat a + 2 \<le> 2 ^ 32"
  shows "load16 m' a = load16 m a"
proof -
  have "unat (a + 1) = unat a + 1"
    using assms(4) by (subst unat_plus_small) auto
  with assms show ?thesis by (simp add: load16_def same_on_def)
qed

lemma load32_same_on:
  assumes "same_on lo hi m m'" "lo \<le> unat a" "unat a + 4 \<le> hi" "unat a + 4 \<le> 2 ^ 32"
  shows "load32 m' a = load32 m a"
proof -
  have "unat (a + 1) = unat a + 1" "unat (a + 2) = unat a + 2" "unat (a + 3) = unat a + 3"
    using assms(4) by (subst unat_plus_small; simp)+
  with assms show ?thesis by (simp add: load32_def same_on_def)
qed

lemma store16_same_on:
  assumes "unat a + 2 \<le> 2 ^ 32" "hi \<le> unat a \<or> unat a + 2 \<le> lo"
  shows "same_on lo hi m (store16 m a v)"
proof -
  have "unat (a + 1) = unat a + 1"
    using assms(1) by (subst unat_plus_small) auto
  with assms(2) show ?thesis by (auto simp: store16_def same_on_def)
qed

lemma store32_same_on:
  assumes "unat a + 4 \<le> 2 ^ 32" "hi \<le> unat a \<or> unat a + 4 \<le> lo"
  shows "same_on lo hi m (store32 m a v)"
proof -
  have "unat (a + 1) = unat a + 1" "unat (a + 2) = unat a + 2" "unat (a + 3) = unat a + 3"
    using assms(1) by (subst unat_plus_small; simp)+
  with assms(2) show ?thesis by (auto simp: store32_def same_on_def)
qed

lemma load32_store32_apart:
  assumes "unat a + 4 \<le> 2 ^ 32" "unat b + 4 \<le> 2 ^ 32" "unat a + 4 \<le> unat b \<or> unat b + 4 \<le> unat a"
  shows "load32 (store32 m a v) b = load32 m b"
proof -
  have "same_on (unat b) (unat b + 4) m (store32 m a v)" by (rule store32_same_on) (use assms in auto)
  then show ?thesis by (rule load32_same_on) (use assms in auto)
qed

subsection \<open>The alignment loops\<close>

text \<open>
  \<^verbatim>\<open>#define alignup(i, a) while(i % a) i++\<close> on an unsigned 32-bit variable. The loop ends at
  the next multiple or at the wrap to 0, whichever comes first.
\<close>

function alignup :: "u32 \<Rightarrow> u32 \<Rightarrow> u32" where
  "alignup i a = (if i mod a \<noteq> 0 then alignup (i + 1) a else i)"
  by pat_completeness auto
termination
proof (relation "measure (\<lambda>(i, a). if i = 0 then 0 else 2 ^ 32 - unat (i :: u32))", goal_cases)
  case 1
  show ?case by simp
next
  case (2 i a)
  then have "i \<noteq> 0" by auto
  moreover have "unat (i + 1) = Suc (unat i)" if "i + 1 \<noteq> 0"
    using that by (simp add: unatSuc add.commute)
  moreover have "unat i < 2 ^ 32" using unat_lt_32 [of i] by simp
  ultimately show ?case by (auto)
qed

text \<open>\<^verbatim>\<open>#define aligndown(i, a) while(i % a) i--\<close>: the loop ends at 0 at the latest.\<close>

function aligndown :: "u32 \<Rightarrow> u32 \<Rightarrow> u32" where
  "aligndown i a = (if i mod a \<noteq> 0 then aligndown (i - 1) a else i)"
  by pat_completeness auto
termination
proof (relation "measure (\<lambda>(i, a). unat (i :: u32))", goal_cases)
  case 1
  show ?case by simp
next
  case (2 i a)
  then have "i \<noteq> 0" by auto
  then have "unat (i - 1) < unat i"
    using unat_minus_one [of i] unat_gt_0 [of i] by simp
  then show ?case by simp
qed

declare alignup.simps [simp del] aligndown.simps [simp del]

lemma unat_aligndown:
  assumes "a \<noteq> 0"
  shows "unat (aligndown i a) = unat i - unat i mod unat a"
  using assms
proof (induction i a rule: aligndown.induct)
  case (1 i a)
  show ?case
  proof (cases "i mod a = 0")
    case True
    then have "unat i mod unat a = 0" by (metis unat_mod_distrib unat_0)
    with True show ?thesis by (simp add: aligndown.simps [of i a])
  next
    case False
    then have pos: "unat i mod unat a \<noteq> 0" by (simp add: unat_mod_distrib [symmetric] unat_eq_0)
    then have "unat i \<noteq> 0" by (metis mod_0)
    then have u: "unat (i - 1) = unat i - 1" by (simp add: unat_minus_one unat_eq_0 [symmetric])
    have "(unat i - 1) mod unat a = unat i mod unat a - 1"
      using pos \<open>unat i \<noteq> 0\<close> mod_Suc [of "unat i - 1" "unat a"] by (auto split: if_splits)
    moreover have "unat (aligndown (i - 1) a) = unat (i - 1) - unat (i - 1) mod unat a"
      using 1 False by simp
    ultimately show ?thesis
      using False pos u by (simp add: aligndown.simps [of i a])
  qed
qed

text \<open>The next multiple of \<open>a\<close> at or above \<open>n\<close>.\<close>

definition roundup :: "nat \<Rightarrow> nat \<Rightarrow> nat" where
  "roundup n a = (if n mod a = 0 then n else (n div a + 1) * a)"

lemma roundup_Suc:
  assumes "n mod a \<noteq> 0"
  shows "roundup (Suc n) a = roundup n a"
proof (cases "Suc n mod a = 0")
  case True
  then have "Suc n = (Suc n div a) * a" by (metis div_mult_mod_eq add.right_neutral)
  with True assms show ?thesis by (simp add: roundup_def div_Suc)
next
  case False
  with assms show ?thesis by (simp add: roundup_def div_Suc)
qed

lemma roundup_ge:
  assumes "0 < a"
  shows "n \<le> roundup n a"
proof (cases "n mod a = 0")
  case False
  have "n \<le> n div a * a + a"
    using div_mult_mod_eq [of n a] mod_less_divisor [OF assms, of n] by linarith
  with False show ?thesis by (simp add: roundup_def)
qed (simp add: roundup_def)

lemma roundup_less:
  assumes "0 < a"
  shows "roundup n a < n + a"
proof (cases "n mod a = 0")
  case False
  then have "n div a * a < n"
    using div_mult_mod_eq [of n a] by linarith
  with False show ?thesis by (simp add: roundup_def)
qed (simp add: roundup_def assms)

lemma dvd_roundup [simp]: "a dvd roundup n a"
  by (auto simp: roundup_def)

lemma roundup_id [simp]: "a dvd n \<Longrightarrow> roundup n a = n"
  by (simp add: roundup_def)

text \<open>What the loop computes: the next multiple, or 0 when it does not fit 32 bits.\<close>

lemma unat_alignup:
  assumes "a \<noteq> 0"
  shows "unat (alignup i a) = (if roundup (unat i) (unat a) < 2 ^ 32 then roundup (unat i) (unat a) else 0)"
  using assms
proof (induction i a rule: alignup.induct)
  case (1 i a)
  have a0: "0 < unat a" using "1.prems" by (simp add: unat_gt_0)
  have lt: "unat i < 2 ^ 32" using unat_lt_32 [of i] by simp
  show ?case
  proof (cases "i mod a = 0")
    case True
    then have "unat i mod unat a = 0" by (metis unat_mod_distrib unat_0)
    with True lt show ?thesis by (simp add: alignup.simps [of i a] roundup_def)
  next
    case False
    then have pos: "unat i mod unat a \<noteq> 0" by (simp add: unat_mod_distrib [symmetric] unat_eq_0)
    note step = alignup.simps [of i a] and IH = "1.IH" [OF False "1.prems"]
    show ?thesis
    proof (cases "i + 1 = 0")
      case True
      then have "(unat i + 1) mod 2 ^ 32 = 0"
        using unat_word_ariths(1) [of i 1] by simp
      with lt have "unat i + 1 = 2 ^ 32" by (cases "unat i + 1 < 2 ^ 32") auto
      with roundup_ge [OF a0, of "Suc (unat i)"] roundup_Suc [OF pos]
      have "\<not> roundup (unat i) (unat a) < 2 ^ 32" by simp
      moreover have "alignup (i + 1) a = 0" using True by (simp add: alignup.simps [of 0])
      ultimately show ?thesis using False step by simp
    next
      case nz: False
      then have "unat (i + 1) = Suc (unat i)" by (simp add: unatSuc add.commute)
      with IH False step roundup_Suc [OF pos] show ?thesis by simp
    qed
  qed
qed

lemma alignup_dvd: "a \<noteq> 0 \<Longrightarrow> unat a dvd unat (alignup i a)"
  by (simp add: unat_alignup dvd_roundup)

lemma alignup_id: "i mod a = 0 \<Longrightarrow> alignup i a = i"
  by (simp add: alignup.simps)

lemma aligndown_id: "i mod a = 0 \<Longrightarrow> aligndown i a = i"
  by (simp add: aligndown.simps)

text \<open>Evaluation by arithmetic instead of counting.\<close>

lemma alignup_code [code]:
  "alignup i a = (if a = 0 then alignup i 0
     else if roundup (unat i) (unat a) < 2 ^ 32 then of_nat (roundup (unat i) (unat a)) else 0)"
proof (cases "a = 0")
  case False
  then show ?thesis
    using unat_alignup [OF False, of i]
    by (auto intro!: word_unat_eqI simp: unat_of_nat split: if_splits)
qed simp

lemma aligndown_code [code]:
  "aligndown i a = (if a = 0 then aligndown i 0 else of_nat (unat i - unat i mod unat a))"
proof (cases "a = 0")
  case False
  have "unat i - unat i mod unat a < 2 ^ 32"
    using unat_lt_32 [of i] by (simp add: less_imp_diff_less)
  then have "unat (of_nat (unat i - unat i mod unat a) :: u32) = unat (aligndown i a)"
    using unat_aligndown [OF False, of i] by (simp add: unat_of_nat del: of_nat_diff)
  with False show ?thesis by (metis word_unat_eqI)
qed simp

end
