(* ===== verification/VK_Kheap.thy ===== *)
theory VK_Kheap
  imports VK_Prelude
begin

section \<open>The kernel heap (memory/kheap.c)\<close>

text \<open>
  The heap is a region of byte memory tiled by blocks, each an 8-byte header followed by its
  payload. The operations are translated on that memory: headers are read and written through
  the byte loads and stores of the prelude, and \<^verbatim>\<open>kmalloc\<close>, \<^verbatim>\<open>kfree\<close>, \<^verbatim>\<open>krealloc\<close>,
  \<^verbatim>\<open>merge_free_blocks\<close> and \<^verbatim>\<open>kheap_expand\<close> walk it as the code does.

  \<^verbatim>\<open>kheap_expand\<close> calls \<^verbatim>\<open>map_memory\<close> (memory/paging.c), which itself calls
  \<^verbatim>\<open>reserve_block\<close> and from there \<^verbatim>\<open>kmalloc\<close> again. The callee is therefore an argument
  \<open>mapm\<close> of the operations here, and the state is an extensible record, so that the paging
  layer can close the recursion on its own state. \<open>pds\<close> lists the page directories the new
  heap pages are mapped into (the kernel's, then every process's).

  Abstractly the heap is the list of its blocks \<open>(size, used)\<close> in address order;
  \<open>tiled\<close> relates it to memory, \<open>spec_alloc\<close> is first fit with splitting and \<open>coalesce\<close>
  the merge of adjacent free blocks. The refinement lemmas show that the code implements them
  and leaves the payload of every block in use alone.
\<close>

subsection \<open>Headers\<close>

record block_header =
  bh_size :: u32
  bh_magic :: u16
  bh_status :: u16

definition BLOCK_HEADER_MAGIC :: u16 where
  "BLOCK_HEADER_MAGIC = 0xB1"

definition KHEAP_BASE_SIZE :: u32 where
  "KHEAP_BASE_SIZE = 0x400000"

definition FREE_KVM_START :: u32 where
  "FREE_KVM_START = 0xE0800000"

abbreviation sizeof_block_header :: u32 where
  "sizeof_block_header \<equiv> 8"

definition read_header :: "mem \<Rightarrow> u32 \<Rightarrow> block_header" where
  "read_header m a = \<lparr>bh_size = load32 m a, bh_magic = load16 m (a + 4), bh_status = load16 m (a + 6)\<rparr>"

definition set_size :: "u32 \<Rightarrow> u32 \<Rightarrow> mem \<Rightarrow> mem" where
  "set_size a v m = store32 m a v"

definition set_magic :: "u32 \<Rightarrow> u16 \<Rightarrow> mem \<Rightarrow> mem" where
  "set_magic a v m = store16 m (a + 4) v"

definition set_status :: "u32 \<Rightarrow> u16 \<Rightarrow> mem \<Rightarrow> mem" where
  "set_status a v m = store16 m (a + 6) v"

subsection \<open>State and operations\<close>

record kheap =
  kmem :: mem
  KHEAP_BASE_START :: u32
  KHEAP_BASE_END :: u32

definition UNKNOWN_BLOCK_ERRMSG :: string where
  "UNKNOWN_BLOCK_ERRMSG = ''Unknown block in kernel heap''"

text \<open>The copy loops of \<^verbatim>\<open>util/lib.c\<close> (\<^verbatim>\<open>rep movsb\<close>, \<^verbatim>\<open>rep stosb\<close>, ascending).\<close>

fun memcpy :: "mem \<Rightarrow> u32 \<Rightarrow> u32 \<Rightarrow> nat \<Rightarrow> mem" where
  "memcpy m dest src 0 = m"
| "memcpy m dest src (Suc n) = memcpy (m(dest := m src)) (dest + 1) (src + 1) n"

fun memset :: "mem \<Rightarrow> u32 \<Rightarrow> u8 \<Rightarrow> nat \<Rightarrow> mem" where
  "memset m dest c 0 = m"
| "memset m dest c (Suc n) = memset (m(dest := c)) (dest + 1) c n"

text \<open>The heap part of \<^verbatim>\<open>kheap_install\<close>: clear the region and write the first header.\<close>

definition kheap_install :: "'a kheap_scheme \<Rightarrow> 'a kheap_scheme" where
  "kheap_install s =
     (let m = memset (kmem s) (KHEAP_BASE_START s) 0 (unat KHEAP_BASE_SIZE);
          b = KHEAP_BASE_START s;
          m = set_magic b BLOCK_HEADER_MAGIC m;
          m = set_size b (KHEAP_BASE_END s - (b + sizeof_block_header)) m;
          m = set_status b 0 m
      in s\<lparr>kmem := m\<rparr>)"

text \<open>The inner loop of \<^verbatim>\<open>merge_free_blocks\<close>; the flag says that the code returned from it.\<close>

fun merge_inner :: "nat \<Rightarrow> u32 \<Rightarrow> u32 \<Rightarrow> 'a kheap_scheme \<Rightarrow> (bool \<times> 'a kheap_scheme) res" where
  "merge_inner 0 cur nxt s = Inl NoFuel"
| "merge_inner (Suc f) cur nxt s =
     (if bh_status (read_header (kmem s) nxt) \<noteq> 0 then Inr (False, s)
      else if KHEAP_BASE_END s \<le> nxt then Inr (True, s)
      else if bh_magic (read_header (kmem s) nxt) \<noteq> BLOCK_HEADER_MAGIC then Inl (Fatal UNKNOWN_BLOCK_ERRMSG)
      else
        (let sz = bh_size (read_header (kmem s) cur) + (bh_size (read_header (kmem s) nxt) + sizeof_block_header);
             s' = s\<lparr>kmem := set_size cur sz (kmem s)\<rparr>;
             nxt' = nxt + (bh_size (read_header (kmem s') nxt) + sizeof_block_header)
         in if KHEAP_BASE_END s' \<le> nxt' then Inr (True, s') else merge_inner f cur nxt' s'))"

fun merge_free_blocks_from :: "nat \<Rightarrow> u32 \<Rightarrow> 'a kheap_scheme \<Rightarrow> 'a kheap_scheme res" where
  "merge_free_blocks_from 0 cur s = Inl NoFuel"
| "merge_free_blocks_from (Suc f) cur s =
     (if cur < KHEAP_BASE_END s then
        (let h = read_header (kmem s) cur in
         if bh_magic h \<noteq> BLOCK_HEADER_MAGIC then Inl (Fatal UNKNOWN_BLOCK_ERRMSG)
         else if bh_status h \<noteq> 0 then
           merge_free_blocks_from f (cur + (bh_size h + sizeof_block_header)) s
         else
           (let nxt = cur + bh_size h + sizeof_block_header in
            if KHEAP_BASE_END s \<le> nxt then Inr s
            else bindR (merge_inner (Suc f) cur nxt s) (\<lambda>(returned, s').
              if returned then Inr s'
              else merge_free_blocks_from f
                (cur + (bh_size (read_header (kmem s') cur) + sizeof_block_header)) s')))
      else Inr s)"

definition merge_free_blocks :: "nat \<Rightarrow> 'a kheap_scheme \<Rightarrow> 'a kheap_scheme res" where
  "merge_free_blocks f s = merge_free_blocks_from f (KHEAP_BASE_START s) s"

fun map_in_all :: "(u32 \<Rightarrow> u32 \<Rightarrow> u32 \<Rightarrow> 'a kheap_scheme \<Rightarrow> 'a kheap_scheme res) \<Rightarrow> u32 list
    \<Rightarrow> 'a kheap_scheme \<Rightarrow> 'a kheap_scheme res" where
  "map_in_all mapm [] s = Inr s"
| "map_in_all mapm (pd # pds) s =
     bindR (mapm 0x400000 (KHEAP_BASE_END s) pd s) (map_in_all mapm pds)"

definition kheap_expand :: "(u32 \<Rightarrow> u32 \<Rightarrow> u32 \<Rightarrow> 'a kheap_scheme \<Rightarrow> 'a kheap_scheme res) \<Rightarrow> u32 list
    \<Rightarrow> nat \<Rightarrow> 'a kheap_scheme \<Rightarrow> 'a kheap_scheme res" where
  "kheap_expand mapm pds f s =
     (if FREE_KVM_START \<le> KHEAP_BASE_END s then Inl (Fatal ''Kernel heap full ! How ?'')
      else bindR (map_in_all mapm pds s) (\<lambda>s.
        let b = KHEAP_BASE_END s;
            m = set_magic b BLOCK_HEADER_MAGIC (kmem s);
            m = set_size b (0x400000 - sizeof_block_header) m;
            m = set_status b 0 m
        in merge_free_blocks f (s\<lparr>kmem := m, KHEAP_BASE_END := b + 0x400000\<rparr>)))"

text \<open>Reserve the block at \<open>i\<close>, splitting it when the rest can hold a header and data.\<close>

definition kmalloc_take :: "u32 \<Rightarrow> u32 \<Rightarrow> 'a kheap_scheme \<Rightarrow> 'a kheap_scheme" where
  "kmalloc_take i sz s =
     (let m = kmem s; oldSize = bh_size (read_header m i);
          m = (if sizeof_block_header < oldSize - sz then
                 (let m = set_size i sz m;
                      nb = i + sizeof_block_header + sz;
                      m = set_magic nb BLOCK_HEADER_MAGIC m;
                      m = set_size nb (oldSize - sz - sizeof_block_header) m
                  in set_status nb 0 m)
               else m)
      in s\<lparr>kmem := set_status i 1 m\<rparr>)"

fun kmalloc_walk :: "nat \<Rightarrow> u32 \<Rightarrow> u32 \<Rightarrow> 'a kheap_scheme \<Rightarrow> (u32 \<times> 'a kheap_scheme) option res" where
  "kmalloc_walk 0 i sz s = Inl NoFuel"
| "kmalloc_walk (Suc f) i sz s =
     (if i < KHEAP_BASE_END s then
        (let h = read_header (kmem s) i in
         if bh_magic h \<noteq> BLOCK_HEADER_MAGIC then Inl (Fatal UNKNOWN_BLOCK_ERRMSG)
         else if bh_status h = 0 \<and> sz \<le> bh_size h then
           Inr (Some (i + sizeof_block_header, kmalloc_take i sz s))
         else kmalloc_walk f (i + (bh_size h + sizeof_block_header)) sz s)
      else Inr None)"

fun kmalloc :: "(u32 \<Rightarrow> u32 \<Rightarrow> u32 \<Rightarrow> 'a kheap_scheme \<Rightarrow> 'a kheap_scheme res) \<Rightarrow> u32 list
    \<Rightarrow> nat \<Rightarrow> u32 \<Rightarrow> 'a kheap_scheme \<Rightarrow> (u32 \<times> 'a kheap_scheme) res" where
  "kmalloc mapm pds 0 sz s = Inl NoFuel"
| "kmalloc mapm pds (Suc f) sz s =
     bindR (kmalloc_walk (Suc f) (KHEAP_BASE_START s) (alignup sz 4) s) (\<lambda>r.
       case r of
         Some (p, s') \<Rightarrow> Inr (p, s')
       | None \<Rightarrow> bindR (kheap_expand mapm pds (Suc f) s) (kmalloc mapm pds f (alignup sz 4)))"

definition kfree :: "nat \<Rightarrow> u32 \<Rightarrow> 'a kheap_scheme \<Rightarrow> 'a kheap_scheme res" where
  "kfree f pointer s =
     (let b = pointer - sizeof_block_header in
      if bh_magic (read_header (kmem s) b) \<noteq> BLOCK_HEADER_MAGIC then Inl (Fatal UNKNOWN_BLOCK_ERRMSG)
      else merge_free_blocks f (s\<lparr>kmem := set_status b 0 (kmem s)\<rparr>))"

definition kheap_get_size :: "u32 \<Rightarrow> 'a kheap_scheme \<Rightarrow> u32 res" where
  "kheap_get_size ptr s =
     (let h = read_header (kmem s) (ptr - sizeof_block_header) in
      if bh_magic h \<noteq> BLOCK_HEADER_MAGIC then Inl (Fatal UNKNOWN_BLOCK_ERRMSG)
      else Inr (bh_size h))"

definition krealloc :: "(u32 \<Rightarrow> u32 \<Rightarrow> u32 \<Rightarrow> 'a kheap_scheme \<Rightarrow> 'a kheap_scheme res) \<Rightarrow> u32 list
    \<Rightarrow> nat \<Rightarrow> u32 \<Rightarrow> u32 \<Rightarrow> 'a kheap_scheme \<Rightarrow> (u32 \<times> 'a kheap_scheme) res" where
  "krealloc mapm pds f pointer newsize s =
     (let b = pointer - sizeof_block_header in
      if newsize < bh_size (read_header (kmem s) b) then Inl (Fatal ''Reallocating less space ?!'')
      else bindR (kmalloc mapm pds f newsize s) (\<lambda>(np, s).
        let s = s\<lparr>kmem := memcpy (kmem s) np pointer (unat (bh_size (read_header (kmem s) b)))\<rparr>
        in bindR (kfree f pointer s) (\<lambda>s. Inr (np, s))))"

subsection \<open>Header access\<close>

lemma read_header_same_on:
  assumes "same_on lo hi m m'" "lo \<le> unat a" "unat a + 8 \<le> hi" "unat a + 8 \<le> 2 ^ 32"
  shows "read_header m' a = read_header m a"
proof -
  have "unat (a + 4) = unat a + 4" "unat (a + 6) = unat a + 6"
    using assms(4) by (subst unat_plus_small; simp)+
  with assms show ?thesis
    using load32_same_on [OF assms(1), of a] load16_same_on [OF assms(1), of "a + 4"]
      load16_same_on [OF assms(1), of "a + 6"]
    by (simp add: read_header_def)
qed

lemma header_writes_same_on:
  assumes "unat a + 8 \<le> 2 ^ 32" "hi \<le> unat a \<or> unat a + 8 \<le> lo"
  shows "same_on lo hi m (set_size a v m)" "same_on lo hi m (set_magic a w m)"
    "same_on lo hi m (set_status a w m)"
proof -
  have "unat (a + 4) = unat a + 4" "unat (a + 6) = unat a + 6"
    using assms(1) by (subst unat_plus_small; simp)+
  with assms show "same_on lo hi m (set_size a v m)" "same_on lo hi m (set_magic a w m)"
    "same_on lo hi m (set_status a w m)"
    unfolding set_size_def set_magic_def set_status_def
    by (auto intro: store32_same_on store16_same_on)
qed

lemma load_distinct [simp]:
  "load16 (store32 m a v) (a + 4) = load16 m (a + 4)"
  "load16 (store32 m a v) (a + 6) = load16 m (a + 6)"
  "load32 (store16 m (a + 4) w) a = load32 m a"
  "load32 (store16 m (a + 6) w) a = load32 m a"
  "load16 (store16 m (a + 6) w) (a + 4) = load16 m (a + 4)"
  "load16 (store16 m (a + 4) w) (a + 6) = load16 m (a + 6)"
  by (simp_all add: load16_def load32_def store16_def store32_def add.assoc)

lemma read_header_set [simp, mem_simps]:
  "read_header (set_size a v m) a = (read_header m a)\<lparr>bh_size := v\<rparr>"
  "read_header (set_magic a w m) a = (read_header m a)\<lparr>bh_magic := w\<rparr>"
  "read_header (set_status a w m) a = (read_header m a)\<lparr>bh_status := w\<rparr>"
  by (simp_all add: read_header_def set_size_def set_magic_def set_status_def)

subsection \<open>The abstract heap\<close>

type_synonym blocks = "(nat \<times> bool) list"

text \<open>Memory between \<open>a\<close> and \<open>e\<close> is tiled by the blocks, with valid headers.\<close>

fun tiled :: "mem \<Rightarrow> nat \<Rightarrow> nat \<Rightarrow> blocks \<Rightarrow> bool" where
  "tiled m a e [] \<longleftrightarrow> a = e"
| "tiled m a e ((sz, u) # bs) \<longleftrightarrow>
     a + 8 + sz \<le> e \<and> unat (bh_size (read_header m (of_nat a))) = sz \<and>
     bh_magic (read_header m (of_nat a)) = BLOCK_HEADER_MAGIC \<and>
     (bh_status (read_header m (of_nat a)) \<noteq> 0 \<longleftrightarrow> u) \<and>
     tiled m (a + 8 + sz) e bs"

text \<open>The blocks with the addresses of their payloads.\<close>

fun layout :: "nat \<Rightarrow> blocks \<Rightarrow> (nat \<times> nat \<times> bool) list" where
  "layout a [] = []"
| "layout a ((sz, u) # bs) = (a + 8, sz, u) # layout (a + 8 + sz) bs"

definition used_blocks :: "nat \<Rightarrow> blocks \<Rightarrow> (nat \<times> nat) set" where
  "used_blocks a bs = {(p, sz). (p, sz, True) \<in> set (layout a bs)}"

text \<open>The payload of every block in use is the same in both memories.\<close>

definition keeps_used :: "nat \<Rightarrow> blocks \<Rightarrow> mem \<Rightarrow> mem \<Rightarrow> bool" where
  "keeps_used a bs m m' \<longleftrightarrow> (\<forall>p sz. (p, sz) \<in> used_blocks a bs \<longrightarrow> same_on p (p + sz) m m')"

fun spec_alloc :: "nat \<Rightarrow> blocks \<Rightarrow> (nat \<times> blocks) option" where
  "spec_alloc n [] = None"
| "spec_alloc n ((sz, u) # bs) =
     (if \<not> u \<and> n \<le> sz then
        Some (8, if 8 < sz - n then (n, True) # (sz - n - 8, False) # bs else (sz, True) # bs)
      else map_option (\<lambda>(p, bs'). (8 + sz + p, (sz, u) # bs')) (spec_alloc n bs))"

fun coalesce :: "blocks \<Rightarrow> blocks" where
  "coalesce ((b, False) # (c, False) # bs) = coalesce ((b + 8 + c, False) # bs)"
| "coalesce (x # bs) = x # coalesce bs"
| "coalesce [] = []"

lemma used_blocks_simps [simp]:
  "used_blocks a [] = {}"
  "used_blocks a ((sz, True) # bs) = insert (a + 8, sz) (used_blocks (a + 8 + sz) bs)"
  "used_blocks a ((sz, False) # bs) = used_blocks (a + 8 + sz) bs"
  by (auto simp: used_blocks_def)

lemma tiled_le: "tiled m a e bs \<Longrightarrow> a \<le> e"
  by (induction m a e bs rule: tiled.induct) auto

lemma tiled_same_on:
  assumes "same_on a e m m'" "e < 2 ^ 32"
  shows "tiled m' a e bs = tiled m a e bs"
  using assms
proof (induction m a e bs rule: tiled.induct)
  case (2 m a e sz u bs)
  show ?case
  proof (cases "a + 8 + sz \<le> e")
    case True
    then have "unat (of_nat a :: u32) = a" using "2.prems" by (simp add: unat_of_nat)
    then have "read_header m' (of_nat a) = read_header m (of_nat a)"
      using True "2.prems" by (intro read_header_same_on [OF "2.prems"(1)]) auto
    moreover have "same_on (a + 8 + sz) e m m'" by (rule same_on_mono [OF "2.prems"(1)]) auto
    ultimately show ?thesis using True "2.IH" "2.prems"(2) by simp
  qed simp
qed simp

lemma layout_bounds:
  "tiled m a e bs \<Longrightarrow> (p, sz, u) \<in> set (layout a bs) \<Longrightarrow> a + 8 \<le> p \<and> p + sz \<le> e"
proof (induction m a e bs rule: tiled.induct)
  case (2 m a e sz' u' bs)
  then show ?case using tiled_le [of m "a + 8 + sz'" e bs] by fastforce
qed simp

lemma keeps_used_outside:
  assumes "tiled m a e bs" "same_on (a + 8) e m m'"
  shows "keeps_used a bs m m'"
  using layout_bounds [OF assms(1)] assms(2)
  by (fastforce simp: keeps_used_def used_blocks_def intro: same_on_mono)

lemma keeps_used_trans:
  assumes "keeps_used a bs m m'" "keeps_used a bs' m' m''" "used_blocks a bs \<subseteq> used_blocks a bs'"
  shows "keeps_used a bs m m''"
  unfolding keeps_used_def
proof (intro allI impI)
  fix p sz assume "(p, sz) \<in> used_blocks a bs"
  with assms show "same_on p (p + sz) m m''"
    by (meson keeps_used_def same_on_trans subsetD)
qed

subsection \<open>Allocation refines first fit\<close>

lemma tiled_Cons_words:
  assumes "tiled m a e ((sz, u) # bs)" "e < 2 ^ 32"
  shows "unat (of_nat a :: u32) = a" "unat (of_nat (a + 8 + sz) :: u32) = a + 8 + sz"
    "bh_size (read_header m (of_nat a)) = of_nat sz"
    "of_nat a + (of_nat sz + 8) = (of_nat (a + 8 + sz) :: u32)"
proof -
  have "a + 8 + sz < 2 ^ 32" using assms by auto
  then show "unat (of_nat a :: u32) = a" "unat (of_nat (a + 8 + sz) :: u32) = a + 8 + sz"
    by (simp_all add: unat_of_nat del: of_nat_add)
  show "bh_size (read_header m (of_nat a)) = of_nat sz"
    using assms(1) by auto
  show "of_nat a + (of_nat sz + 8) = (of_nat (a + 8 + sz) :: u32)" by simp
qed

lemma kmalloc_take_whole:
  assumes t: "tiled (kmem s) a e ((sz, False) # bs)" and e: "e < 2 ^ 32" and n: "unat n \<le> sz"
    and small: "\<not> 8 < sz - unat n"
  defines "s' \<equiv> kmalloc_take (of_nat a) n s"
  shows "tiled (kmem s') a e ((sz, True) # bs)" "same_on 0 a (kmem s) (kmem s')"
    "same_on (a + 8 + sz) (2 ^ 32) (kmem s) (kmem s')"
proof -
  let ?m = "kmem s" let ?i = "of_nat a :: u32"
  note w = tiled_Cons_words [OF t e]
  have bound: "a + 8 + sz \<le> e" using t by simp
  have szw: "unat (of_nat sz :: u32) = sz" using bound e by (simp add: unat_of_nat)
  have sub: "unat (of_nat sz - n) = sz - unat n"
    using n szw by (simp add: unat_sub word_le_nat_alt)
  have ks: "kmem s' = set_status ?i 1 ?m"
    using small sub w(3) by (simp add: s'_def kmalloc_take_def Let_def word_less_nat_alt)
  show lo: "same_on 0 a ?m (kmem s')"
    unfolding ks by (rule header_writes_same_on) (use w(1) bound e in simp)+
  have hi: "same_on (a + 8) (2 ^ 32) ?m (kmem s')"
    unfolding ks by (rule header_writes_same_on) (use w(1) bound e in simp)+
  then show "same_on (a + 8 + sz) (2 ^ 32) ?m (kmem s')"
    by (rule same_on_mono) auto
  from hi have "same_on (a + 8 + sz) e ?m (kmem s')"
    by (rule same_on_mono) (use e in auto)
  then show "tiled (kmem s') a e ((sz, True) # bs)"
    using t e tiled_same_on [of "a + 8 + sz" e ?m "kmem s'" bs] by (auto simp: ks)
qed

lemma kmalloc_take_split:
  assumes t: "tiled (kmem s) a e ((sz, False) # bs)" and e: "e < 2 ^ 32" and n: "unat n \<le> sz"
    and big: "8 < sz - unat n"
  defines "s' \<equiv> kmalloc_take (of_nat a) n s"
  shows "tiled (kmem s') a e ((unat n, True) # (sz - unat n - 8, False) # bs)"
    "same_on 0 a (kmem s) (kmem s')" "same_on (a + 8 + sz) (2 ^ 32) (kmem s) (kmem s')"
proof -
  let ?m = "kmem s" let ?i = "of_nat a :: u32" let ?j = "?i + 8 + n"
  note w = tiled_Cons_words [OF t e]
  have bound: "a + 8 + sz \<le> e" and rest: "tiled ?m (a + 8 + sz) e bs" using t by simp_all
  have szw: "unat (of_nat sz :: u32) = sz" using bound e by (simp add: unat_of_nat)
  have sub: "unat (of_nat sz - n) = sz - unat n"
    using n szw by (simp add: unat_sub word_le_nat_alt)
  let ?m1 = "set_size ?i n ?m"
  let ?m2 = "set_magic ?j BLOCK_HEADER_MAGIC ?m1"
  let ?m3 = "set_size ?j (of_nat sz - n - 8) ?m2"
  let ?m4 = "set_status ?j 0 ?m3"
  have ks: "kmem s' = set_status ?i 1 ?m4"
    using big sub w(3) by (simp add: s'_def kmalloc_take_def Let_def word_less_nat_alt)
  have j: "unat ?j = a + 8 + unat n"
    using w(1) bound n e by (simp add: unat_word_ariths)
  have sub2: "unat (of_nat sz - n - 8) = sz - unat n - 8"
    using big sub by (subst unat_sub) (simp_all add: word_le_nat_alt)
  have le: "8 + unat n \<le> sz" using big by linarith
  have m14: "same_on lo hi ?m1 ?m4" if "unat ?j + 8 \<le> lo \<or> hi \<le> unat ?j" for lo hi
    by (rule same_on_trans [OF _ same_on_trans]; rule header_writes_same_on)
      (use that j bound e le in auto)
  have hi: "same_on lo hi ?m (kmem s')" if "unat ?j + 8 \<le> lo \<or> hi \<le> unat ?i" for lo hi
  proof -
    have "same_on lo hi ?m ?m1" by (rule header_writes_same_on) (use that w(1) j bound e n in auto)
    moreover have "same_on lo hi ?m1 ?m4" by (rule m14) (use that w(1) j in auto)
    moreover have "same_on lo hi ?m4 (kmem s')"
      unfolding ks by (rule header_writes_same_on) (use that w(1) j bound e n in auto)
    ultimately show ?thesis by (blast intro: same_on_trans)
  qed
  have hi4: "read_header ?m4 ?i = read_header ?m1 ?i"
    by (rule read_header_same_on [OF m14 [of 0 "unat ?j"]]) (use w(1) j bound e in auto)
  have hj: "read_header (kmem s') ?j = read_header ?m4 ?j"
    unfolding ks by (rule read_header_same_on [OF header_writes_same_on(3), of _ "unat ?j + 8" "unat ?j"])
      (use w(1) j bound e big in auto)
  show "same_on 0 a ?m (kmem s')" by (rule hi) (use w(1) in simp)
  show "same_on (a + 8 + sz) (2 ^ 32) ?m (kmem s')" by (rule hi) (use j le in simp)
  have rest': "tiled (kmem s') (a + 8 + sz) e bs"
    using rest tiled_same_on [OF hi [of "a + 8 + sz" e] e, of bs] j le by simp
  have Ri: "read_header (kmem s') ?i = (read_header ?m ?i)\<lparr>bh_size := n, bh_status := 1\<rparr>"
    by (simp add: ks hi4)
  have Rj: "bh_size (read_header (kmem s') ?j) = of_nat sz - n - 8"
    "bh_magic (read_header (kmem s') ?j) = BLOCK_HEADER_MAGIC"
    "bh_status (read_header (kmem s') ?j) = 0"
    by (simp_all add: hj)
  have Mi: "bh_magic (read_header ?m ?i) = BLOCK_HEADER_MAGIC" using t by simp
  have ej: "of_nat (a + 8 + unat n) = ?j" by simp
  have ee: "a + 8 + unat n + 8 + (sz - unat n - 8) = a + 8 + sz" using big by simp
  show "tiled (kmem s') a e ((unat n, True) # (sz - unat n - 8, False) # bs)"
    unfolding tiled.simps ej ee
    using Ri Rj Mi sub2 rest' bound le by simp
qed

lemma kmalloc_take_refines:
  assumes "tiled (kmem s) a e ((sz, False) # bs)" "e < 2 ^ 32" "unat n \<le> sz"
  defines "s' \<equiv> kmalloc_take (of_nat a) n s"
  shows "tiled (kmem s') a e (if 8 < sz - unat n then (unat n, True) # (sz - unat n - 8, False) # bs
           else (sz, True) # bs)"
    and "same_on 0 a (kmem s) (kmem s')" and "same_on (a + 8 + sz) (2 ^ 32) (kmem s) (kmem s')"
  using kmalloc_take_whole [OF assms(1-3)] kmalloc_take_split [OF assms(1-3)]
  by (cases "8 < sz - unat n"; simp add: s'_def)+

text \<open>What an operation on the region \<open>[a, e)\<close> may touch: nothing outside it, no payload in use.\<close>

definition heap_frame :: "nat \<Rightarrow> nat \<Rightarrow> blocks \<Rightarrow> mem \<Rightarrow> mem \<Rightarrow> bool" where
  "heap_frame a e bs m m' \<longleftrightarrow>
     same_on 0 a m m' \<and> same_on e (2 ^ 32) m m' \<and> keeps_used a bs m m'"

lemma heap_frame_Cons:
  assumes "heap_frame (a + 8 + sz) e bs m m'"
  shows "heap_frame a e ((sz, u) # bs) m m'"
  using assms by (cases u) (auto simp: heap_frame_def keeps_used_def intro: same_on_mono)

lemma heap_frame_free:
  assumes "tiled m a e ((sz, False) # bs)" "e < 2 ^ 32"
    "same_on 0 a m m'" "same_on (a + 8 + sz) (2 ^ 32) m m'"
  shows "heap_frame a e ((sz, False) # bs) m m'"
proof -
  have "keeps_used (a + 8 + sz) bs m m'"
    by (rule keeps_used_outside) (use assms in \<open>auto intro: same_on_mono\<close>)
  then show ?thesis
    using assms by (auto simp: heap_frame_def keeps_used_def intro: same_on_mono)
qed

lemma tiled_read_below:
  assumes "tiled m a e ((sz, u) # bs)" "e < 2 ^ 32" "same_on 0 (a + 8 + sz) m m'"
  shows "read_header m' (of_nat a) = read_header m (of_nat a)"
  by (rule read_header_same_on [OF assms(3)]) (use assms tiled_Cons_words(1) [OF assms(1,2)] in auto)

lemma kmalloc_walk_refines:
  assumes "tiled (kmem s) a e bs" "unat (KHEAP_BASE_END s) = e" "length bs < f"
  shows "case spec_alloc (unat n) bs of
      None \<Rightarrow> kmalloc_walk f (of_nat a) n s = Inr None
    | Some (p, bs') \<Rightarrow> \<exists>m'. kmalloc_walk f (of_nat a) n s = Inr (Some (of_nat (a + p), s\<lparr>kmem := m'\<rparr>))
        \<and> tiled m' a e bs' \<and> heap_frame a e bs (kmem s) m'"
  using assms
proof (induction bs arbitrary: a f)
  case Nil
  then obtain f' where "f = Suc f'" by (cases f) auto
  with Nil show ?case by (auto simp: word_less_nat_alt word_unat_eq_iff)
next
  case (Cons b bs)
  obtain sz u where b: "b = (sz, u)" by fastforce
  obtain f' where f: "f = Suc f'" using Cons.prems by (cases f) auto
  have e: "e < 2 ^ 32" using Cons.prems(2) unat_lt_32 [of "KHEAP_BASE_END s"] by simp
  note t = Cons.prems(1) [unfolded b]
  note w = tiled_Cons_words [OF t e]
  have bound: "a + 8 + sz \<le> e" and magic: "bh_magic (read_header (kmem s) (of_nat a)) = BLOCK_HEADER_MAGIC"
    and st: "bh_status (read_header (kmem s) (of_nat a)) \<noteq> 0 \<longleftrightarrow> u" and rest: "tiled (kmem s) (a + 8 + sz) e bs"
    using t by simp_all
  have lt: "(of_nat a :: u32) < KHEAP_BASE_END s"
    using w(1) bound Cons.prems(2) by (simp add: word_less_nat_alt)
  have szw: "unat (of_nat sz :: u32) = sz" using bound e by (simp add: unat_of_nat)
  show ?case
  proof (cases "\<not> u \<and> unat n \<le> sz")
    case True
    then have t0: "tiled (kmem s) a e ((sz, False) # bs)" using t by simp
    let ?s' = "kmalloc_take (of_nat a) n s"
    have "?s' = s\<lparr>kmem := kmem ?s'\<rparr>" by (simp add: kmalloc_take_def Let_def)
    moreover have "kmalloc_walk f (of_nat a) n s = Inr (Some (of_nat (a + 8), ?s'))"
      using True lt magic st w(3) szw by (simp add: f word_le_nat_alt)
    moreover have "heap_frame a e ((sz, False) # bs) (kmem s) (kmem ?s')"
      using heap_frame_free [OF t0 e] kmalloc_take_refines [OF t0 e] True by blast
    moreover have "spec_alloc (unat n) (b # bs) = Some (8, if 8 < sz - unat n
        then (unat n, True) # (sz - unat n - 8, False) # bs else (sz, True) # bs)"
      using True by (simp add: b)
    moreover have "b = (sz, False)" using True b by simp
    moreover note kmalloc_take_refines(1) [OF t0 e, of n]
    ultimately show ?thesis
      using True by (auto simp del: tiled.simps spec_alloc.simps intro!: exI [of _ "kmem ?s'"])
  next
    case False
    have step: "kmalloc_walk f (of_nat a) n s = kmalloc_walk f' (of_nat (a + 8 + sz)) n s"
      using False lt magic st w(3) w(4) szw by (auto simp: f word_le_nat_alt simp del: of_nat_add)
    have IH: "case spec_alloc (unat n) bs of
      None \<Rightarrow> kmalloc_walk f' (of_nat (a + 8 + sz)) n s = Inr None
    | Some (p, bs') \<Rightarrow> \<exists>m'. kmalloc_walk f' (of_nat (a + 8 + sz)) n s
          = Inr (Some (of_nat (a + 8 + sz + p), s\<lparr>kmem := m'\<rparr>))
        \<and> tiled m' (a + 8 + sz) e bs' \<and> heap_frame (a + 8 + sz) e bs (kmem s) m'"
      by (rule Cons.IH) (use rest Cons.prems f in auto)
    show ?thesis
    proof (cases "spec_alloc (unat n) bs")
      case None
      with IH False step show ?thesis by (simp add: b)
    next
      case (Some r)
      obtain p bs' where r: "r = (p, bs')" by fastforce
      with IH Some obtain m' where m': "kmalloc_walk f' (of_nat (a + 8 + sz)) n s
          = Inr (Some (of_nat (a + 8 + sz + p), s\<lparr>kmem := m'\<rparr>))"
        "tiled m' (a + 8 + sz) e bs'" "heap_frame (a + 8 + sz) e bs (kmem s) m'" by auto
      have "read_header m' (of_nat a) = read_header (kmem s) (of_nat a)"
        by (rule tiled_read_below [OF t e]) (use m'(3) in \<open>simp add: heap_frame_def\<close>)
      then have "tiled m' a e ((sz, u) # bs')" using t m'(2) by simp
      then show ?thesis
        using False step Some r m' heap_frame_Cons [OF m'(3)]
        by (auto simp: b add.assoc intro!: exI [of _ m'])
    qed
  qed
qed

subsection \<open>Merging refines coalescing\<close>

lemma coalesce_used [simp]: "coalesce ((b, True) # bs) = (b, True) # coalesce bs"
  by (cases bs) auto

lemma coalesce_free_used [simp]:
  "coalesce ((b, False) # (c, True) # bs) = (b, False) # (c, True) # coalesce bs"
  by simp

lemma used_blocks_Cons:
  "used_blocks a (x # bs) = (if snd x then {(a + 8, fst x)} else {}) \<union> used_blocks (a + 8 + fst x) bs"
  by (cases x; cases "snd x") auto

lemma used_blocks_coalesce [simp]: "used_blocks a (coalesce bs) = used_blocks a bs"
proof (induction bs arbitrary: a rule: coalesce.induct, goal_cases)
  case (4 x c bs b)
  then show ?case using used_blocks_Cons [of b x "coalesce ((c, True) # bs)"]
    by (simp add: used_blocks_Cons [of b x] del: used_blocks_simps)
qed (simp_all add: used_blocks_Cons add.assoc del: used_blocks_simps(2,3))

lemma length_coalesce: "length (coalesce bs) \<le> length bs"
  by (induction bs rule: coalesce.induct) auto

text \<open>Growing a free block over its free successor writes one size field.\<close>

lemma set_size_absorbs:
  assumes t: "tiled m a e ((b, False) # (c, False) # bs)" and e: "e < 2 ^ 32"
  defines "m' \<equiv> set_size (of_nat a) (of_nat (b + 8 + c)) m"
  shows "tiled m' a e ((b + 8 + c, False) # bs)"
    "same_on 0 a m m'" "same_on (a + 8) (2 ^ 32) m m'"
proof -
  note w = tiled_Cons_words [OF t e]
  have bound: "a + 8 + b + 8 + c \<le> e" using t by simp
  show lo: "same_on 0 a m m'" and hi: "same_on (a + 8) (2 ^ 32) m m'"
    unfolding m'_def by (rule header_writes_same_on; use w(1) bound e in simp)+
  have "same_on (a + 8 + b + 8 + c) e m m'" by (rule same_on_mono [OF hi]) (use e in auto)
  then have "tiled m' (a + 8 + b + 8 + c) e bs"
    using t tiled_same_on [of "a + 8 + b + 8 + c" e m m' bs] e by simp
  moreover have "unat (of_nat (b + 8 + c) :: u32) = b + 8 + c"
    using bound e by (simp add: unat_of_nat del: of_nat_add)
  ultimately show "tiled m' a e ((b + 8 + c, False) # bs)"
    using t bound by (simp add: m'_def add.assoc del: of_nat_add)
qed

lemma merge_inner_refines:
  assumes "tiled (kmem s) a e ((b, False) # bs)" "unat (KHEAP_BASE_END s) = e" "length bs < f" "bs \<noteq> []"
  shows "\<exists>m' b' bs' fin. merge_inner f (of_nat a) (of_nat (a + 8 + b)) s = Inr (fin, s\<lparr>kmem := m'\<rparr>)
    \<and> tiled m' a e ((b', False) # bs') \<and> coalesce ((b, False) # bs) = coalesce ((b', False) # bs')
    \<and> (if fin then bs' = [] else \<exists>c r. bs' = (c, True) # r) \<and> length bs' \<le> length bs
    \<and> used_blocks a ((b', False) # bs') = used_blocks a ((b, False) # bs)
    \<and> same_on 0 a (kmem s) m' \<and> same_on (a + 8) (2 ^ 32) (kmem s) m'"
  using assms
proof (induction bs arbitrary: b s f)
  case Nil
  then show ?case by simp
next
  case (Cons x bs)
  obtain c u where x: "x = (c, u)" by fastforce
  obtain f' where f: "f = Suc f'" using Cons.prems by (cases f) auto
  have e: "e < 2 ^ 32" using Cons.prems(2) unat_lt_32 [of "KHEAP_BASE_END s"] by simp
  note t = Cons.prems(1) [unfolded x]
  note w = tiled_Cons_words [OF t e]
  have t2: "tiled (kmem s) (a + 8 + b) e ((c, u) # bs)" using t by simp
  note w2 = tiled_Cons_words [OF t2 e]
  have bound: "a + 8 + b + 8 + c \<le> e" using t2 by simp
  have lt: "\<not> KHEAP_BASE_END s \<le> of_nat (a + 8 + b)"
    using w(2) bound Cons.prems(2) by (simp add: word_le_nat_alt del: of_nat_add)
  have st: "bh_status (read_header (kmem s) (of_nat (a + 8 + b))) \<noteq> 0 \<longleftrightarrow> u"
    and magic: "bh_magic (read_header (kmem s) (of_nat (a + 8 + b))) = BLOCK_HEADER_MAGIC"
    using t2 by (simp_all del: of_nat_add)
  show ?case
  proof (cases u)
    case True
    have "merge_inner f (of_nat a) (of_nat (a + 8 + b)) s = Inr (False, s\<lparr>kmem := kmem s\<rparr>)"
      using st True by (simp add: f del: of_nat_add)
    with t True show ?thesis unfolding x
      by (intro exI [of _ "kmem s"] exI [of _ b] exI [of _ "(c, u) # bs"] exI [of _ False])
        (simp del: tiled.simps of_nat_add)
  next
    case False
    then have t': "tiled (kmem s) a e ((b, False) # (c, False) # bs)" using t by simp
    note ab = set_size_absorbs [OF t' e]
    let ?s = "s\<lparr>kmem := set_size (of_nat a) (of_nat (b + 8 + c)) (kmem s)\<rparr>"
    have sum: "of_nat b + (of_nat c + 8) = (of_nat (b + 8 + c) :: u32)" by simp
    have nx: "read_header (kmem ?s) (of_nat (a + 8 + b)) = read_header (kmem s) (of_nat (a + 8 + b))"
      using read_header_same_on [OF ab(3), of "of_nat (a + 8 + b)"] w(2) bound e
      by (simp del: of_nat_add)
    have "bh_status (read_header (kmem s) (of_nat (a + 8 + b))) = 0" using st False by simp
    then have step: "merge_inner f (of_nat a) (of_nat (a + 8 + b)) s =
        (if KHEAP_BASE_END s \<le> of_nat (a + 8 + (b + 8 + c)) then Inr (True, ?s)
         else merge_inner f' (of_nat a) (of_nat (a + 8 + (b + 8 + c))) ?s)"
      using lt magic nx w(3) w2(3) w2(4) sum
      by (simp add: f Let_def add.assoc del: of_nat_add)
    have len: "unat (of_nat (a + 8 + (b + 8 + c)) :: u32) = a + 8 + (b + 8 + c)"
      using w2(2) by (simp add: add.assoc del: of_nat_add)
    have tN: "tiled (kmem ?s) (a + 8 + (b + 8 + c)) e bs" using ab(1) by simp
    show ?thesis
    proof (cases "bs = []")
      case True
      then have "merge_inner f (of_nat a) (of_nat (a + 8 + b)) s = Inr (True, ?s)"
        using step len tN Cons.prems(2) by (simp add: word_le_nat_alt del: of_nat_add)
      with True False ab show ?thesis unfolding x
        by (intro exI [of _ "kmem ?s"] exI [of _ "b + 8 + c"] exI [of _ "[]"] exI [of _ True])
          (simp del: tiled.simps of_nat_add)
    next
      case ne: False
      then obtain d v r where "bs = (d, v) # r" by (cases bs) auto
      then have "a + 8 + (b + 8 + c) < e" using tN by simp
      then have "merge_inner f (of_nat a) (of_nat (a + 8 + b)) s
          = merge_inner f' (of_nat a) (of_nat (a + 8 + (b + 8 + c))) ?s"
        using step len Cons.prems(2) by (simp add: word_le_nat_alt del: of_nat_add)
      moreover have "\<exists>m' b' bs' fin. merge_inner f' (of_nat a) (of_nat (a + 8 + (b + 8 + c))) ?s = Inr (fin, ?s\<lparr>kmem := m'\<rparr>)
        \<and> tiled m' a e ((b', False) # bs') \<and> coalesce ((b + 8 + c, False) # bs) = coalesce ((b', False) # bs')
        \<and> (if fin then bs' = [] else \<exists>c r. bs' = (c, True) # r) \<and> length bs' \<le> length bs
        \<and> used_blocks a ((b', False) # bs') = used_blocks a ((b + 8 + c, False) # bs)
        \<and> same_on 0 a (kmem ?s) m' \<and> same_on (a + 8) (2 ^ 32) (kmem ?s) m'"
        by (rule Cons.IH) (use ab(1) Cons.prems ne f in simp_all)
      then obtain m' b' bs' fin where IH: "merge_inner f' (of_nat a) (of_nat (a + 8 + (b + 8 + c))) ?s = Inr (fin, ?s\<lparr>kmem := m'\<rparr>)"
        "tiled m' a e ((b', False) # bs')" "coalesce ((b + 8 + c, False) # bs) = coalesce ((b', False) # bs')"
        "if fin then bs' = [] else \<exists>c r. bs' = (c, True) # r" "length bs' \<le> length bs"
        "used_blocks a ((b', False) # bs') = used_blocks a ((b + 8 + c, False) # bs)"
        "same_on 0 a (kmem ?s) m'" "same_on (a + 8) (2 ^ 32) (kmem ?s) m'" by blast
      moreover have "same_on 0 a (kmem s) m'" "same_on (a + 8) (2 ^ 32) (kmem s) m'"
        using IH(7,8) ab(2,3) by (auto intro: same_on_trans)
      ultimately show ?thesis unfolding x using False
        by (intro exI [of _ m'] exI [of _ b'] exI [of _ bs'] exI [of _ fin])
          (simp add: add.assoc del: tiled.simps of_nat_add)
    qed
  qed
qed

lemma merge_from_refines:
  assumes "tiled (kmem s) a e bs" "unat (KHEAP_BASE_END s) = e" "length bs < f"
  shows "\<exists>m'. merge_free_blocks_from f (of_nat a) s = Inr (s\<lparr>kmem := m'\<rparr>)
    \<and> tiled m' a e (coalesce bs) \<and> heap_frame a e bs (kmem s) m'"
  using assms
proof (induction f arbitrary: a bs s)
  case 0
  then show ?case by simp
next
  case (Suc f)
  have e: "e < 2 ^ 32" using Suc.prems(2) unat_lt_32 [of "KHEAP_BASE_END s"] by simp
  show ?case
  proof (cases bs)
    case Nil
    then have "unat (of_nat a :: u32) = e" using Suc.prems(1) e by (simp add: unat_of_nat)
    then have "\<not> (of_nat a :: u32) < KHEAP_BASE_END s" using Suc.prems(2) by (simp add: word_less_nat_alt)
    with Nil Suc.prems(1) show ?thesis
      by (intro exI [of _ "kmem s"]) (simp add: heap_frame_def keeps_used_def)
  next
    case (Cons x bs')
    obtain b u where x: "x = (b, u)" by fastforce
    note t = Suc.prems(1) [unfolded Cons x]
    note w = tiled_Cons_words [OF t e]
    have bound: "a + 8 + b \<le> e" and rest: "tiled (kmem s) (a + 8 + b) e bs'"
      and magic: "bh_magic (read_header (kmem s) (of_nat a)) = BLOCK_HEADER_MAGIC"
      and st: "bh_status (read_header (kmem s) (of_nat a)) \<noteq> 0 \<longleftrightarrow> u" using t by simp_all
    have lt: "(of_nat a :: u32) < KHEAP_BASE_END s"
      using w(1) bound Suc.prems(2) by (simp add: word_less_nat_alt)
    have assoc: "of_nat a + of_nat b + 8 = (of_nat (a + 8 + b) :: u32)" by simp
    show ?thesis
    proof (cases u)
      case True
      have "\<exists>m'. merge_free_blocks_from f (of_nat (a + 8 + b)) s = Inr (s\<lparr>kmem := m'\<rparr>)
          \<and> tiled m' (a + 8 + b) e (coalesce bs') \<and> heap_frame (a + 8 + b) e bs' (kmem s) m'"
        by (rule Suc.IH) (use rest Suc.prems Cons in auto)
      then obtain m' where m': "merge_free_blocks_from f (of_nat (a + 8 + b)) s = Inr (s\<lparr>kmem := m'\<rparr>)"
        "tiled m' (a + 8 + b) e (coalesce bs')" "heap_frame (a + 8 + b) e bs' (kmem s) m'" by blast
      have h: "read_header m' (of_nat a) = read_header (kmem s) (of_nat a)"
        by (rule tiled_read_below [OF t e]) (use m'(3) in \<open>simp add: heap_frame_def\<close>)
      have "tiled m' a e (coalesce bs)"
        using t m'(2) h True by (simp add: Cons x)
      moreover have "merge_free_blocks_from (Suc f) (of_nat a) s = Inr (s\<lparr>kmem := m'\<rparr>)"
        using lt magic st True w(3,4) m'(1) by (simp add: Let_def del: of_nat_add)
      ultimately show ?thesis using heap_frame_Cons [OF m'(3)] Cons x by blast
    next
      case False
      have st0: "bh_status (read_header (kmem s) (of_nat a)) = 0" using st False by simp
      show ?thesis
      proof (cases "bs' = []")
        case True
        then have "KHEAP_BASE_END s \<le> of_nat (a + 8 + b)"
          using rest w(2) Suc.prems(2) by (simp add: word_le_nat_alt del: of_nat_add)
        then have "merge_free_blocks_from (Suc f) (of_nat a) s = Inr (s\<lparr>kmem := kmem s\<rparr>)"
          using lt magic st0 w(3) assoc by (simp add: Let_def del: of_nat_add)
        with True False t show ?thesis
          by (intro exI [of _ "kmem s"]) (simp add: Cons x heap_frame_def keeps_used_def)
      next
        case ne: False
        then obtain d v r where "bs' = (d, v) # r" by (cases bs') auto
        then have "a + 8 + b < e" using rest by simp
        then have nlt: "\<not> KHEAP_BASE_END s \<le> of_nat (a + 8 + b)"
          using w(2) Suc.prems(2) by (simp add: word_le_nat_alt del: of_nat_add)
        have t0: "tiled (kmem s) a e ((b, False) # bs')" using t False by simp
        have "length bs' < Suc f" using Suc.prems(3) Cons by simp
        from merge_inner_refines [OF t0 Suc.prems(2) this ne]
        obtain m' b' r' fin where
          inner: "merge_inner (Suc f) (of_nat a) (of_nat (a + 8 + b)) s = Inr (fin, s\<lparr>kmem := m'\<rparr>)"
          and tm: "tiled m' a e ((b', False) # r')"
          and co: "coalesce ((b, False) # bs') = coalesce ((b', False) # r')"
          and fin: "if fin then r' = [] else \<exists>c q. r' = (c, True) # q" and len: "length r' \<le> length bs'"
          and us: "used_blocks a ((b', False) # r') = used_blocks a ((b, False) # bs')"
          and lo: "same_on 0 a (kmem s) m'" and hi: "same_on (a + 8) (2 ^ 32) (kmem s) m'"
          by blast
        note w' = tiled_Cons_words [OF tm e]
        have frame: "heap_frame a e bs (kmem s) m'"
          unfolding Cons x using False lo bound e keeps_used_outside [OF t0 same_on_mono [OF hi]]
            same_on_mono [OF hi, of e]
          by (simp add: heap_frame_def)
        have step: "merge_free_blocks_from (Suc f) (of_nat a) s = (if fin then Inr (s\<lparr>kmem := m'\<rparr>)
            else merge_free_blocks_from f (of_nat (a + 8 + b')) (s\<lparr>kmem := m'\<rparr>))"
          using lt magic st0 w(3) assoc inner nlt w'(3,4)
          by (simp add: Let_def del: of_nat_add merge_inner.simps)
        show ?thesis
        proof (cases fin)
          case True
          then show ?thesis using step tm co fin frame False
            by (intro exI [of _ m']) (simp add: Cons x)
        next
          case nf: False
          let ?s = "s\<lparr>kmem := m'\<rparr>"
          have "\<exists>m''. merge_free_blocks_from f (of_nat (a + 8 + b')) ?s = Inr (?s\<lparr>kmem := m''\<rparr>)
              \<and> tiled m'' (a + 8 + b') e (coalesce r') \<and> heap_frame (a + 8 + b') e r' (kmem ?s) m''"
            by (rule Suc.IH) (use tm Suc.prems Cons len in auto)
          then obtain m'' where m'': "merge_free_blocks_from f (of_nat (a + 8 + b')) ?s = Inr (?s\<lparr>kmem := m''\<rparr>)"
            "tiled m'' (a + 8 + b') e (coalesce r')" "heap_frame (a + 8 + b') e r' m' m''" by auto
          have h: "read_header m'' (of_nat a) = read_header m' (of_nat a)"
            by (rule tiled_read_below [OF tm e]) (use m''(3) in \<open>simp add: heap_frame_def\<close>)
          have "coalesce bs = (b', False) # coalesce r'"
            using co fin nf False by (auto simp: Cons x)
          then have "tiled m'' a e (coalesce bs)" using tm m''(2) h by simp
          moreover have "heap_frame a e bs (kmem s) m''"
            using frame heap_frame_Cons [OF m''(3), of False] us False
            by (auto simp: heap_frame_def Cons x intro: same_on_trans elim!: keeps_used_trans)
          ultimately show ?thesis using step nf m''(1) by auto
        qed
      qed
    qed
  qed
qed

subsection \<open>The heap invariant\<close>

text \<open>
  \<open>heap_ok s bs\<close>: the heap region is tiled by \<open>bs\<close>. \<open>heap_le s bs s' bs'\<close>: what an operation
  that only allocates keeps: the base address, every block in use and its payload; the heap may grow.
\<close>

definition heap_ok :: "'a kheap_scheme \<Rightarrow> blocks \<Rightarrow> bool" where
  "heap_ok s bs \<longleftrightarrow> tiled (kmem s) (unat (KHEAP_BASE_START s)) (unat (KHEAP_BASE_END s)) bs"

abbreviation heap_used :: "'a kheap_scheme \<Rightarrow> blocks \<Rightarrow> (nat \<times> nat) set" where
  "heap_used s bs \<equiv> used_blocks (unat (KHEAP_BASE_START s)) bs"

definition heap_le :: "'a kheap_scheme \<Rightarrow> blocks \<Rightarrow> 'a kheap_scheme \<Rightarrow> blocks \<Rightarrow> bool" where
  "heap_le s bs s' bs' \<longleftrightarrow> KHEAP_BASE_START s' = KHEAP_BASE_START s \<and> KHEAP_BASE_END s \<le> KHEAP_BASE_END s' \<and>
     heap_used s bs \<subseteq> heap_used s bs' \<and> keeps_used (unat (KHEAP_BASE_START s)) bs (kmem s) (kmem s')"

lemma heap_le_refl [simp]: "heap_le s bs s bs"
  by (simp add: heap_le_def keeps_used_def)

lemma heap_le_trans: "heap_le s bs s' bs' \<Longrightarrow> heap_le s' bs' s'' bs'' \<Longrightarrow> heap_le s bs s'' bs''"
  unfolding heap_le_def using keeps_used_trans by fastforce

lemma tiled_unique: "tiled m a e bs \<Longrightarrow> tiled m a e bs' \<Longrightarrow> bs = bs'"
proof (induction bs arbitrary: a bs')
  case Nil
  then show ?case by (cases bs') auto
next
  case (Cons x bs)
  obtain c u where x: "x = (c, u)" by fastforce
  obtain d v r where r: "bs' = (d, v) # r" using Cons.prems x by (cases bs') auto
  have "c = d" "u = v" using Cons.prems by (auto simp: x r)
  moreover have "tiled m (a + 8 + c) e bs" "tiled m (a + 8 + d) e r" using Cons.prems by (simp_all add: x r)
  ultimately show ?case using Cons.IH by (simp add: x r)
qed

lemma heap_ok_unique: "heap_ok s bs \<Longrightarrow> heap_ok s bs' \<Longrightarrow> bs = bs'"
  by (auto simp: heap_ok_def intro: tiled_unique)

text \<open>Blocks of a tiled region do not overlap, headers included.\<close>

lemma layout_disjoint:
  assumes "tiled m a e bs" "(p, sz, u) \<in> set (layout a bs)" "(q, sz', u') \<in> set (layout a bs)" "p \<noteq> q"
  shows "p + sz + 8 \<le> q \<or> q + sz' + 8 \<le> p"
  using assms
proof (induction m a e bs rule: tiled.induct)
  case (2 m a e c v bs)
  then show ?case using layout_bounds [of m "a + 8 + c" e bs] by fastforce
qed simp

lemma used_in_layout: "(p, sz) \<in> used_blocks a bs \<longleftrightarrow> (p, sz, True) \<in> set (layout a bs)"
  by (simp add: used_blocks_def)

lemma heap_used_disjoint:
  assumes "heap_ok s bs" "(p, sz) \<in> heap_used s bs" "(q, sz') \<in> heap_used s bs" "p \<noteq> q"
  shows "p + sz + 8 \<le> q \<or> q + sz' + 8 \<le> p"
  using assms layout_disjoint unfolding heap_ok_def used_in_layout by blast

text \<open>First fit adds one block, not in use before, that is large enough.\<close>

lemma spec_alloc_used:
  assumes "spec_alloc n bs = Some (p, bs')" "tiled m a e bs"
  shows "\<exists>sz\<ge>n. used_blocks a bs' = insert (a + p, sz) (used_blocks a bs)
    \<and> a + p \<notin> fst ` used_blocks a bs"
  using assms
proof (induction bs arbitrary: a p bs')
  case (Cons x bs)
  obtain c u where x: "x = (c, u)" by fastforce
  have rest: "tiled m (a + 8 + c) e bs" using Cons.prems x by simp
  have low: "a + 8 + c + 8 \<le> q" if "(q, z) \<in> used_blocks (a + 8 + c) bs" for q z
    using layout_bounds [OF rest] that unfolding used_in_layout by blast
  show ?case
  proof (cases "\<not> u \<and> n \<le> c")
    case True
    have "a + 8 \<notin> fst ` used_blocks (a + 8 + c) bs" using low by force
    moreover have "used_blocks a bs' = insert (a + 8, if 8 < c - n then n else c) (used_blocks (a + 8 + c) bs)"
    proof (cases "8 < c - n")
      case big: True
      then have "a + 8 + n + 8 + (c - n - 8) = a + 8 + c" by simp
      moreover have "bs' = (n, True) # (c - n - 8, False) # bs"
        using True big Cons.prems(1) by (simp add: x)
      ultimately show ?thesis using big by (simp only: used_blocks_simps if_True)
    qed (use True Cons.prems(1) in \<open>auto simp: x\<close>)
    ultimately show ?thesis using True Cons.prems(1)
      by (auto simp: x intro!: exI [of _ "if 8 < c - n then n else c"])
  next
    case False
    then obtain q r where q: "spec_alloc n bs = Some (q, r)" "p = 8 + c + q" "bs' = (c, u) # r"
      using Cons.prems(1) by (auto simp: x split: if_splits)
    from Cons.IH [OF q(1) rest] obtain sz where sz: "n \<le> sz"
      "used_blocks (a + 8 + c) r = insert (a + 8 + c + q, sz) (used_blocks (a + 8 + c) bs)"
      "a + 8 + c + q \<notin> fst ` used_blocks (a + 8 + c) bs" by blast
    have "a + 8 + c + 8 \<le> a + 8 + c + q"
      using q(1) by (induction bs arbitrary: q r) (auto split: if_splits)
    then show ?thesis using sz q by (cases u) (auto simp: x add.assoc insert_commute intro!: exI [of _ sz])
  qed
qed simp

text \<open>The address of a block is determined: only one size belongs to a payload address.\<close>

lemma layout_fun:
  assumes "tiled m a e bs" "(p, sz, u) \<in> set (layout a bs)" "(p, sz', u') \<in> set (layout a bs)"
  shows "sz = sz' \<and> u = u'"
  using assms
proof (induction m a e bs rule: tiled.induct)
  case (2 m a e c v bs)
  then show ?case using layout_bounds [of m "a + 8 + c" e bs] by fastforce
qed simp

subsection \<open>Free\<close>

text \<open>Freeing on the abstract heap: the block at the payload address becomes free.\<close>

fun spec_free :: "nat \<Rightarrow> nat \<Rightarrow> blocks \<Rightarrow> blocks" where
  "spec_free p a [] = []"
| "spec_free p a ((sz, u) # bs) =
     (if p = a + 8 then (sz, False) # bs else (sz, u) # spec_free p (a + 8 + sz) bs)"

lemma length_spec_free [simp]: "length (spec_free p a bs) = length bs"
  by (induction p a bs rule: spec_free.induct) auto

lemma set_status_frees:
  assumes "tiled m a e bs" "e < 2 ^ 32" "(p, sz, u) \<in> set (layout a bs)"
  shows "tiled (set_status (of_nat (p - 8)) 0 m) a e (spec_free p a bs)"
  using assms
proof (induction m a e bs rule: tiled.induct)
  case (2 m a e c v bs)
  let ?m = "set_status (of_nat (p - 8)) 0 m"
  note w = tiled_Cons_words [OF "2.prems"(1,2)]
  have b: "a + 8 \<le> p" "p + sz \<le> e" using layout_bounds [OF "2.prems"(1,3)] by auto
  then have pw: "unat (of_nat (p - 8) :: u32) = p - 8" using "2.prems"(2) by (simp add: unat_of_nat del: of_nat_diff)
  have bound: "a + 8 + c \<le> e" using "2.prems"(1) by simp
  show ?case
  proof (cases "p = a + 8")
    case True
    have "same_on (a + 8 + c) e m ?m"
      by (rule header_writes_same_on) (use True pw b "2.prems"(2) in auto)
    then have "tiled ?m (a + 8 + c) e bs" using "2.prems" tiled_same_on [of "a + 8 + c" e m ?m bs] by simp
    with True "2.prems"(1) show ?thesis by simp
  next
    case False
    then have in_rest: "(p, sz, u) \<in> set (layout (a + 8 + c) bs)" using "2.prems"(3) by auto
    have rest: "tiled m (a + 8 + c) e bs" using "2.prems"(1) by simp
    have low: "a + 8 + c + 8 \<le> p" using layout_bounds [OF rest in_rest] by simp
    have "read_header ?m (of_nat a) = read_header m (of_nat a)"
      by (rule tiled_read_below [OF "2.prems"(1,2) header_writes_same_on(3)])
        (use pw low b "2.prems"(2) in auto)
    with False "2.IH" [OF rest "2.prems"(2) in_rest] "2.prems"(1) show ?thesis by simp
  qed
qed simp

lemma used_spec_free:
  assumes "tiled m a e bs" "(p, sz, True) \<in> set (layout a bs)"
  shows "used_blocks a (spec_free p a bs) = used_blocks a bs - {(p, sz)}"
  using assms
proof (induction m a e bs rule: tiled.induct)
  case (2 m a e c v bs)
  have rest: "tiled m (a + 8 + c) e bs" using "2.prems"(1) by simp
  have low: "a + 8 + c + 8 \<le> q" if "(q, z) \<in> used_blocks (a + 8 + c) bs" for q z
    using layout_bounds [OF rest] that unfolding used_in_layout by blast
  show ?case
  proof (cases "p = a + 8")
    case True
    then have "sz = c" "v" using layout_fun [OF "2.prems"(1,2), of c v] by auto
    moreover have "(a + 8, c) \<notin> used_blocks (a + 8 + c) bs" using low [of "a + 8" c] by auto
    ultimately show ?thesis using True by simp
  next
    case False
    then have "(p, sz, True) \<in> set (layout (a + 8 + c) bs)" using "2.prems"(2) by auto
    from "2.IH" [OF rest this] False show ?thesis by (cases v) auto
  qed
qed simp

lemma layout_header:
  assumes "tiled m a e bs" "(p, sz, u) \<in> set (layout a bs)"
  shows "bh_magic (read_header m (of_nat (p - 8))) = BLOCK_HEADER_MAGIC"
    "unat (bh_size (read_header m (of_nat (p - 8)))) = sz"
    "bh_status (read_header m (of_nat (p - 8))) \<noteq> 0 \<longleftrightarrow> u"
  using assms by (induction m a e bs rule: tiled.induct) (auto simp del: of_nat_diff)

text \<open>The header of a block in use, at the word level.\<close>

lemma heap_used_header:
  assumes "heap_ok s bs" "(unat p, sz) \<in> heap_used s bs"
  shows "bh_magic (read_header (kmem s) (p - 8)) = BLOCK_HEADER_MAGIC"
    "unat (bh_size (read_header (kmem s) (p - 8))) = sz" "of_nat (unat p - 8) = p - 8"
    "unat (p - 8) = unat p - 8" "unat (KHEAP_BASE_START s) + 8 \<le> unat p"
    "unat p + sz \<le> unat (KHEAP_BASE_END s)"
proof -
  let ?a = "unat (KHEAP_BASE_START s)" let ?e = "unat (KHEAP_BASE_END s)"
  have t: "tiled (kmem s) ?a ?e bs" using assms(1) by (simp add: heap_ok_def)
  have l: "(unat p, sz, True) \<in> set (layout ?a bs)" using assms(2) by (simp add: used_in_layout)
  show b: "?a + 8 \<le> unat p" "unat p + sz \<le> ?e" using layout_bounds [OF t l] by auto
  then show p8: "unat (p - 8) = unat p - 8" by (subst unat_sub) (simp_all add: word_le_nat_alt)
  show pw: "of_nat (unat p - 8) = p - 8" unfolding p8 [symmetric] by simp
  show "bh_magic (read_header (kmem s) (p - 8)) = BLOCK_HEADER_MAGIC"
    "unat (bh_size (read_header (kmem s) (p - 8))) = sz"
    using layout_header [OF t l] unfolding pw by auto
qed

text \<open>Clearing the status of a block in use leaves the other payloads alone.\<close>

lemma set_status_frame:
  assumes "heap_ok s bs" "(unat p, sz) \<in> heap_used s bs"
  shows "heap_frame (unat (KHEAP_BASE_START s)) (unat (KHEAP_BASE_END s))
    (spec_free (unat p) (unat (KHEAP_BASE_START s)) bs) (kmem s) (set_status (p - 8) 0 (kmem s))"
proof -
  note h = heap_used_header [OF assms]
  have t: "tiled (kmem s) (unat (KHEAP_BASE_START s)) (unat (KHEAP_BASE_END s)) bs"
    using assms(1) by (simp add: heap_ok_def)
  have e: "unat (KHEAP_BASE_END s) < 2 ^ 32" using unat_lt_32 [of "KHEAP_BASE_END s"] by simp
  have "same_on q (q + z) (kmem s) (set_status (p - 8) 0 (kmem s))"
    if "(q, z) \<in> heap_used s (spec_free (unat p) (unat (KHEAP_BASE_START s)) bs)" for q z
  proof -
    have "(q, z) \<in> heap_used s bs" "(q, z) \<noteq> (unat p, sz)"
      using that used_spec_free [OF t assms(2) [unfolded used_in_layout]] by auto
    moreover from this have "q \<noteq> unat p"
      using layout_fun [OF t] assms(2) unfolding used_in_layout by blast
    ultimately have "q + z + 8 \<le> unat p \<or> unat p + sz + 8 \<le> q"
      using heap_used_disjoint [OF assms(1) _ assms(2)] by blast
    then show ?thesis using h e by (intro header_writes_same_on) auto
  qed
  moreover have "same_on lo hi (kmem s) (set_status (p - 8) 0 (kmem s))"
    if "hi \<le> unat p - 8 \<or> unat p \<le> lo" for lo hi
    by (rule header_writes_same_on) (use h e that in auto)
  ultimately show ?thesis using h by (auto simp: heap_frame_def keeps_used_def)
qed

lemma kfree_refines:
  assumes "heap_ok s bs" "(unat p, sz) \<in> heap_used s bs" "length bs < f"
  defines "fr \<equiv> spec_free (unat p) (unat (KHEAP_BASE_START s)) bs"
  shows "\<exists>m'. kfree f p s = Inr (s\<lparr>kmem := m'\<rparr>) \<and> heap_ok (s\<lparr>kmem := m'\<rparr>) (coalesce fr)
    \<and> heap_frame (unat (KHEAP_BASE_START s)) (unat (KHEAP_BASE_END s)) fr (kmem s) m'"
proof -
  let ?a = "unat (KHEAP_BASE_START s)" let ?e = "unat (KHEAP_BASE_END s)"
  let ?s = "s\<lparr>kmem := set_status (p - 8) 0 (kmem s)\<rparr>"
  note h = heap_used_header [OF assms(1,2)]
  have e: "?e < 2 ^ 32" using unat_lt_32 [of "KHEAP_BASE_END s"] by simp
  have t: "tiled (kmem s) ?a ?e bs" using assms(1) by (simp add: heap_ok_def)
  have l: "(unat p, sz, True) \<in> set (layout ?a bs)" using assms(2) by (simp add: used_in_layout)
  have "tiled (kmem ?s) ?a ?e fr"
    using set_status_frees [OF t e l] h(3) by (simp add: fr_def)
  moreover have "length fr < f" using assms(3) by (simp add: fr_def)
  ultimately obtain m' where m': "merge_free_blocks f ?s = Inr (s\<lparr>kmem := m'\<rparr>)"
    "tiled m' ?a ?e (coalesce fr)" "heap_frame ?a ?e fr (kmem ?s) m'"
    using merge_from_refines [of ?s ?a ?e fr f] by (auto simp: merge_free_blocks_def)
  have "heap_frame ?a ?e fr (kmem s) m'"
    using set_status_frame [OF assms(1,2)] m'(3)
    by (auto simp: heap_frame_def fr_def intro: same_on_trans elim!: keeps_used_trans)
  moreover have "kfree f p s = Inr (s\<lparr>kmem := m'\<rparr>)"
    using m'(1) h(1) by (simp add: kfree_def)
  ultimately show ?thesis using m'(2) by (auto simp: heap_ok_def)
qed

subsection \<open>Allocation with room\<close>

lemma kmalloc_refines:
  assumes "heap_ok s bs" "spec_alloc (unat (alignup n 4)) bs = Some (q, bs')" "length bs \<le> f"
  shows "\<exists>m'. kmalloc mapm pds (Suc f) n s = Inr (of_nat (unat (KHEAP_BASE_START s) + q), s\<lparr>kmem := m'\<rparr>)
    \<and> heap_ok (s\<lparr>kmem := m'\<rparr>) bs'
    \<and> heap_frame (unat (KHEAP_BASE_START s)) (unat (KHEAP_BASE_END s)) bs (kmem s) m'"
proof -
  have "length bs < Suc f" using assms(3) by simp
  from kmalloc_walk_refines [OF assms(1) [unfolded heap_ok_def] refl this, of "alignup n 4"]
  show ?thesis using assms(2) by (auto simp: heap_ok_def)
qed

lemma heap_frame_le:
  assumes "heap_frame (unat (KHEAP_BASE_START s)) e bs (kmem s) m'" "heap_used s bs \<subseteq> heap_used s bs'"
  shows "heap_le s bs (s\<lparr>kmem := m'\<rparr>) bs'"
  using assms by (simp add: heap_le_def heap_frame_def)

text \<open>What \<^verbatim>\<open>kmalloc\<close> promises when it returns \<open>p\<close>: a block of at least \<open>n\<close> bytes that was not
  in use and is now; everything in use before still is, with the same contents.\<close>

definition allocates :: "nat \<Rightarrow> 'a kheap_scheme \<Rightarrow> blocks \<Rightarrow> u32 \<Rightarrow> 'a kheap_scheme \<Rightarrow> blocks \<Rightarrow> bool" where
  "allocates n s bs p s' bs' \<longleftrightarrow> heap_ok s' bs' \<and> heap_le s bs s' bs' \<and>
     (\<exists>sz\<ge>n. (unat p, sz) \<in> heap_used s' bs') \<and> unat p \<notin> fst ` heap_used s bs"

lemma spec_alloc_allocates:
  assumes "heap_ok s bs" "spec_alloc (unat n) bs = Some (q, bs')"
    "kmalloc_walk f (KHEAP_BASE_START s) n s = Inr r" "length bs < f"
  shows "\<exists>p m'. r = Some (p, s\<lparr>kmem := m'\<rparr>) \<and> allocates (unat n) s bs p (s\<lparr>kmem := m'\<rparr>) bs'"
proof -
  let ?a = "unat (KHEAP_BASE_START s)"
  from kmalloc_walk_refines [OF assms(1) [unfolded heap_ok_def] refl assms(4), of n] assms(2,3)
  obtain m' where m': "r = Some (of_nat (?a + q), s\<lparr>kmem := m'\<rparr>)"
    "heap_ok (s\<lparr>kmem := m'\<rparr>) bs'" "heap_frame ?a (unat (KHEAP_BASE_END s)) bs (kmem s) m'"
    by (auto simp: heap_ok_def)
  from spec_alloc_used [OF assms(2) assms(1) [unfolded heap_ok_def]]
  obtain sz where sz: "unat n \<le> sz" "heap_used s bs' = insert (?a + q, sz) (heap_used s bs)"
    "?a + q \<notin> fst ` heap_used s bs" by blast
  have "(?a + q, sz, True) \<in> set (layout ?a bs')" using sz(2) unfolding used_in_layout [symmetric] by simp
  then have "?a + q + sz \<le> unat (KHEAP_BASE_END s)"
    using layout_bounds [of m' ?a _ bs'] m'(2) by (auto simp: heap_ok_def)
  then have w: "unat (of_nat (?a + q) :: u32) = ?a + q"
    using unat_lt_32 [of "KHEAP_BASE_END s"] by (simp add: unat_of_nat del: of_nat_add)
  have "heap_le s bs (s\<lparr>kmem := m'\<rparr>) bs'" using heap_frame_le [OF m'(3), of bs'] sz(2) by auto
  then have "allocates (unat n) s bs (of_nat (?a + q)) (s\<lparr>kmem := m'\<rparr>) bs'"
    unfolding allocates_def w using m'(2) sz by auto
  with m'(1) show ?thesis by blast
qed

lemma kmalloc_room_allocates:
  assumes "heap_ok s bs" "spec_alloc (unat (alignup n 4)) bs = Some (q, bs')" "length bs \<le> f"
  shows "\<exists>p m'. kmalloc mapm pds (Suc f) n s = Inr (p, s\<lparr>kmem := m'\<rparr>)
    \<and> allocates (unat (alignup n 4)) s bs p (s\<lparr>kmem := m'\<rparr>) bs'"
proof -
  have len: "length bs < Suc f" using assms(3) by simp
  have "\<exists>r. kmalloc_walk (Suc f) (KHEAP_BASE_START s) (alignup n 4) s = Inr r"
    using kmalloc_walk_refines [OF assms(1) [unfolded heap_ok_def] refl len, of "alignup n 4"] assms(2)
    by (auto simp del: kmalloc_walk.simps)
  then obtain r where r: "kmalloc_walk (Suc f) (KHEAP_BASE_START s) (alignup n 4) s = Inr r" ..
  from spec_alloc_allocates [OF assms(1,2) r len] r show ?thesis
    by (auto simp del: kmalloc_walk.simps)
qed

subsection \<open>Growing the heap: the contract of the page mapper\<close>

text \<open>
  What \<^verbatim>\<open>kheap_expand\<close> relies on of \<^verbatim>\<open>map_memory\<close>: it may allocate from the heap, but keeps what
  is in use, and it does not itself move the end of the heap. The paging layer discharges the law
  for its own \<^verbatim>\<open>map_memory\<close>.
\<close>

locale heap_mapper =
  fixes mapm :: "u32 \<Rightarrow> u32 \<Rightarrow> u32 \<Rightarrow> 'a kheap_scheme \<Rightarrow> 'a kheap_scheme res"
  assumes mapm_keeps: "heap_ok s bs \<Longrightarrow> mapm sz addr pd s = Inr s' \<Longrightarrow>
    \<exists>bs'. heap_ok s' bs' \<and> heap_le s bs s' bs' \<and> KHEAP_BASE_END s' = KHEAP_BASE_END s"
begin

lemma map_in_all_keeps:
  assumes "heap_ok s bs" "map_in_all mapm pds s = Inr s'"
  shows "\<exists>bs'. heap_ok s' bs' \<and> heap_le s bs s' bs' \<and> KHEAP_BASE_END s' = KHEAP_BASE_END s"
  using assms
proof (induction pds arbitrary: s bs)
  case (Cons pd pds)
  from Cons.prems(2) obtain s1 where s1: "mapm 0x400000 (KHEAP_BASE_END s) pd s = Inr s1"
    "map_in_all mapm pds s1 = Inr s'" by (auto simp: bindR_Inr_iff)
  from mapm_keeps [OF Cons.prems(1) s1(1)] obtain b1 where
    b1: "heap_ok s1 b1" "heap_le s bs s1 b1" "KHEAP_BASE_END s1 = KHEAP_BASE_END s" by blast
  from Cons.IH [OF b1(1) s1(2)] show ?case using b1 by (metis heap_le_trans)
qed auto

end

lemma tiled_append:
  "tiled m a e bs \<Longrightarrow> tiled m e e' bs' \<Longrightarrow> tiled m a e' (bs @ bs')"
proof (induction m a e bs rule: tiled.induct)
  case (2 m a e sz u bs)
  then show ?case using tiled_le [of m e e' bs'] by simp
qed simp

lemma used_append_free:
  "used_blocks a (bs @ [(c, False)]) = used_blocks a bs"
  by (induction bs arbitrary: a) (simp_all add: used_blocks_Cons del: used_blocks_simps(2,3))

text \<open>The new block at the old end of the heap, before the merge.\<close>

lemma expand_block:
  assumes ok: "heap_ok s bs" and E: "KHEAP_BASE_END s < FREE_KVM_START"
  defines "b \<equiv> KHEAP_BASE_END s"
  defines "s' \<equiv> s\<lparr>kmem := set_status b 0 (set_size b (0x400000 - 8) (set_magic b BLOCK_HEADER_MAGIC (kmem s))),
     KHEAP_BASE_END := b + 0x400000\<rparr>"
  shows "heap_ok s' (bs @ [(0x400000 - 8, False)])" "heap_le s bs s' (bs @ [(0x400000 - 8, False)])"
proof -
  have bl: "unat b < 0xE0800000" using E by (simp add: b_def FREE_KVM_START_def word_less_nat_alt)
  have eb: "unat (b + 0x400000) = unat b + 0x400000" by (subst unat_plus_small) (use bl in auto)
  have lo: "same_on lo hi (kmem s) (kmem s')" if "hi \<le> unat b" for lo hi
  proof -
    have "same_on lo hi (kmem s) (set_magic b BLOCK_HEADER_MAGIC (kmem s))"
      "same_on lo hi (set_magic b BLOCK_HEADER_MAGIC (kmem s))
        (set_size b (0x400000 - 8) (set_magic b BLOCK_HEADER_MAGIC (kmem s)))"
      by (rule header_writes_same_on; use bl that in simp)+
    moreover have "same_on lo hi (set_size b (0x400000 - 8) (set_magic b BLOCK_HEADER_MAGIC (kmem s))) (kmem s')"
      unfolding s'_def by (simp, rule header_writes_same_on) (use bl that in auto)
    ultimately show ?thesis by (blast intro: same_on_trans)
  qed
  have "tiled (kmem s') (unat (KHEAP_BASE_START s)) (unat b) bs"
    using ok tiled_same_on [OF lo [of "unat b" "unat (KHEAP_BASE_START s)"]] bl
    by (simp add: heap_ok_def b_def)
  moreover have "tiled (kmem s') (unat b) (unat (b + 0x400000)) [(0x400000 - 8, False)]"
    using eb by (simp add: s'_def)
  ultimately show "heap_ok s' (bs @ [(0x400000 - 8, False)])"
    using tiled_append by (fastforce simp: heap_ok_def s'_def)
  have "keeps_used (unat (KHEAP_BASE_START s)) bs (kmem s) (kmem s')"
    by (rule keeps_used_outside [OF ok [unfolded heap_ok_def] lo]) (simp add: b_def)
  then show "heap_le s bs s' (bs @ [(0x400000 - 8, False)])"
    using eb by (simp add: heap_le_def used_append_free s'_def b_def word_le_nat_alt)
qed

text \<open>More fuel does not change a result.\<close>

lemma merge_inner_fuel: "merge_inner f c n s = Inr r \<Longrightarrow> f \<le> f' \<Longrightarrow> merge_inner f' c n s = Inr r"
proof (induction f arbitrary: c n s f')
  case (Suc f)
  then obtain g where g: "f' = Suc g" "f \<le> g" by (cases f') auto
  show ?case
    using Suc.prems(1) Suc.IH [OF _ g(2)] unfolding g merge_inner.simps Let_def
    by (simp split: if_splits)
qed simp

lemma merge_from_fuel:
  "merge_free_blocks_from f c s = Inr r \<Longrightarrow> f \<le> f' \<Longrightarrow> merge_free_blocks_from f' c s = Inr r"
proof (induction f arbitrary: c s f')
  case (Suc f)
  then obtain g where g: "f' = Suc g" "f \<le> g" by (cases f') auto
  note [simp del] = merge_inner.simps
  show ?case
    using Suc.prems(1) Suc.IH [OF _ g(2)] merge_inner_fuel [of "Suc f" _ _ _ _ "Suc g"] g
    by (fastforce simp: Let_def bindR_Inr_iff split: if_splits prod.splits)
qed simp

lemma kmalloc_walk_fuel: "kmalloc_walk f i n s = Inr r \<Longrightarrow> f \<le> f' \<Longrightarrow> kmalloc_walk f' i n s = Inr r"
proof (induction f arbitrary: i f')
  case (Suc f)
  then obtain g where g: "f' = Suc g" "f \<le> g" by (cases f') auto
  show ?case
    using Suc.prems(1) Suc.IH [OF _ g(2)] unfolding g kmalloc_walk.simps Let_def
    by (auto split: if_splits)
qed simp

text \<open>The same refinements, for any fuel with which the code returns.\<close>

lemma merge_free_blocks_ok:
  assumes "heap_ok s bs" "merge_free_blocks f s = Inr s'"
  shows "heap_ok s' (coalesce bs)" "heap_le s bs s' (coalesce bs)" "KHEAP_BASE_END s' = KHEAP_BASE_END s"
    "KHEAP_BASE_START s' = KHEAP_BASE_START s"
proof -
  let ?a = "unat (KHEAP_BASE_START s)"
  have "length bs < max f (Suc (length bs))" by simp
  from merge_from_refines [OF assms(1) [unfolded heap_ok_def] refl this]
  obtain m' where m': "merge_free_blocks_from (max f (Suc (length bs))) (of_nat ?a) s = Inr (s\<lparr>kmem := m'\<rparr>)"
    "tiled m' ?a (unat (KHEAP_BASE_END s)) (coalesce bs)"
    "heap_frame ?a (unat (KHEAP_BASE_END s)) bs (kmem s) m'" by auto
  have "s' = s\<lparr>kmem := m'\<rparr>"
    using merge_from_fuel [OF assms(2) [unfolded merge_free_blocks_def], of "max f (Suc (length bs))"] m'(1) by simp
  then show "heap_ok s' (coalesce bs)" "heap_le s bs s' (coalesce bs)"
    "KHEAP_BASE_END s' = KHEAP_BASE_END s" "KHEAP_BASE_START s' = KHEAP_BASE_START s"
    using m' heap_frame_le [OF m'(3), of "coalesce bs"] by (simp_all add: heap_ok_def)
qed

lemma kmalloc_walk_ok:
  assumes "heap_ok s bs" "kmalloc_walk f (KHEAP_BASE_START s) n s = Inr r"
  shows "case r of None \<Rightarrow> spec_alloc (unat n) bs = None
    | Some (p, s') \<Rightarrow> \<exists>bs'. allocates (unat n) s bs p s' bs' \<and> KHEAP_BASE_END s' = KHEAP_BASE_END s"
proof -
  let ?g = "max f (Suc (length bs))"
  have g: "kmalloc_walk ?g (KHEAP_BASE_START s) n s = Inr r"
    using kmalloc_walk_fuel [OF assms(2)] by simp
  have "length bs < ?g" by simp
  from kmalloc_walk_refines [OF assms(1) [unfolded heap_ok_def] refl this, of n]
  have ref: "case spec_alloc (unat n) bs of
      None \<Rightarrow> r = None
    | Some (q, bs') \<Rightarrow> \<exists>m'. r = Some (of_nat (unat (KHEAP_BASE_START s) + q), s\<lparr>kmem := m'\<rparr>)"
    using g by (auto split: option.splits)
  show ?thesis
  proof (cases "spec_alloc (unat n) bs")
    case None
    with ref show ?thesis by simp
  next
    case (Some qb)
    obtain q bs' where qb: "qb = (q, bs')" by fastforce
    have "spec_alloc (unat n) bs = Some (q, bs')" using Some qb by simp
    from spec_alloc_allocates [OF assms(1) this g] show ?thesis by fastforce
  qed
qed

context heap_mapper
begin

lemma kheap_expand_ok:
  assumes "heap_ok s bs" "kheap_expand mapm pds f s = Inr s'"
  shows "\<exists>bs'. heap_ok s' bs' \<and> heap_le s bs s' bs'"
proof -
  let ?new = "\<lambda>s1 :: 'a kheap_scheme. s1\<lparr>kmem := set_status (KHEAP_BASE_END s1) 0 (set_size (KHEAP_BASE_END s1) (0x400000 - 8)
      (set_magic (KHEAP_BASE_END s1) BLOCK_HEADER_MAGIC (kmem s1))), KHEAP_BASE_END := KHEAP_BASE_END s1 + 0x400000\<rparr>"
  from assms(2) have E: "\<not> FREE_KVM_START \<le> KHEAP_BASE_END s"
    by (simp add: kheap_expand_def split: if_splits)
  then have "bindR (map_in_all mapm pds s) (\<lambda>s1. merge_free_blocks f (?new s1)) = Inr s'"
    using assms(2) unfolding kheap_expand_def Let_def by simp
  then obtain s1 where s1: "map_in_all mapm pds s = Inr s1" "merge_free_blocks f (?new s1) = Inr s'"
    by (rule bindR_InrE)
  from map_in_all_keeps [OF assms(1) s1(1)] obtain b1 where
    b1: "heap_ok s1 b1" "heap_le s bs s1 b1" "KHEAP_BASE_END s1 = KHEAP_BASE_END s" by blast
  have "KHEAP_BASE_END s1 < FREE_KVM_START" using E b1(3) by (simp add: not_le)
  note nb = expand_block [OF b1(1) this]
  note mg = merge_free_blocks_ok [OF nb(1) s1(2)]
  show ?thesis
    by (intro exI conjI, rule mg(1), rule heap_le_trans [OF b1(2) heap_le_trans [OF nb(2) mg(2)]])
qed

lemma allocates_trans:
  assumes "heap_le s bs s1 b1" "allocates n s1 b1 p s' bs'"
  shows "allocates n s bs p s' bs'"
  using assms heap_le_trans [OF assms(1)] unfolding allocates_def
  by (auto simp: heap_le_def)

lemma kmalloc_ok:
  assumes "heap_ok s bs" "kmalloc mapm pds f n s = Inr (p, s')"
  shows "\<exists>bs'. allocates (unat (alignup n 4)) s bs p s' bs'"
  using assms
proof (induction f arbitrary: n s bs)
  case (Suc f)
  note [simp del] = kmalloc_walk.simps
  from Suc.prems(2) obtain r where r: "kmalloc_walk (Suc f) (KHEAP_BASE_START s) (alignup n 4) s = Inr r"
    "(case r of Some r \<Rightarrow> Inr r
      | None \<Rightarrow> bindR (kheap_expand mapm pds (Suc f) s) (kmalloc mapm pds f (alignup n 4))) = Inr (p, s')"
    by (auto simp: bindR_Inr_iff)
  note walk = kmalloc_walk_ok [OF Suc.prems(1) r(1)]
  show ?case
  proof (cases r)
    case None
    with r(2) obtain s1 where s1: "kheap_expand mapm pds (Suc f) s = Inr s1"
      "kmalloc mapm pds f (alignup n 4) s1 = Inr (p, s')" by (auto simp: bindR_Inr_iff)
    from kheap_expand_ok [OF Suc.prems(1) s1(1)] obtain b1 where
      b1: "heap_ok s1 b1" "heap_le s bs s1 b1" by blast
    have "alignup n 4 mod 4 = 0"
      using alignup_dvd [of 4 n] by (simp add: word_unat_eq_iff unat_mod dvd_eq_mod_eq_0)
    then have "alignup (alignup n 4) 4 = alignup n 4" by (rule alignup_id)
    with Suc.IH [OF b1(1) s1(2)] allocates_trans [OF b1(2)] show ?thesis by metis
  qed (use walk r(2) in auto)
qed simp

end

subsection \<open>Copying and reallocation\<close>

lemma memcpy_outside:
  assumes "unat d + n \<le> 2 ^ 32" "hi \<le> unat d \<or> unat d + n \<le> lo"
  shows "same_on lo hi m (memcpy m d src n)"
  using assms
proof (induction n arbitrary: m d src)
  case (Suc n)
  have st: "same_on lo hi m (m(d := m src))" using Suc.prems by (auto simp: same_on_def)
  show ?case
  proof (cases n)
    case (Suc k)
    then have "unat (d + 1) = unat d + 1" using Suc.prems by (subst unat_plus_small) auto
    then have "same_on lo hi (m(d := m src)) (memcpy (m(d := m src)) (d + 1) (src + 1) n)"
      using Suc.prems by (intro Suc.IH) auto
    with st show ?thesis unfolding memcpy.simps by (rule same_on_trans)
  qed (use st in \<open>simp only: memcpy.simps\<close>)
qed simp

text \<open>Copying upwards is right when the destination is not inside the source, above its start.\<close>

lemma memcpy_copies:
  assumes "unat d + n \<le> 2 ^ 32" "unat src + n \<le> 2 ^ 32"
    "unat src + n \<le> unat d \<or> unat d < unat src" "i < n"
  shows "memcpy m d src n (d + of_nat i) = m (src + of_nat i)"
  using assms
proof (induction n arbitrary: m d src i)
  case (Suc n)
  show ?case
  proof (cases i)
    case 0
    have "same_on (unat d) (unat d + 1) (m(d := m src)) (memcpy (m(d := m src)) (d + 1) (src + 1) n)"
    proof (cases n)
      case (Suc k)
      then have "unat (d + 1) = unat d + 1" using Suc.prems by (subst unat_plus_small) auto
      then show ?thesis using Suc.prems by (intro memcpy_outside) auto
    qed simp
    with 0 show ?thesis by (simp add: same_on_def)
  next
    case (Suc j)
    then have jn: "j < n" using Suc.prems by simp
    then have u: "unat (d + 1) = unat d + 1" "unat (src + 1) = unat src + 1"
      using Suc.prems by (subst unat_plus_small; simp)+
    have "unat (src + 1 + of_nat j) = unat src + 1 + j"
      using Suc.prems jn u(2) by (subst unat_plus_small) (auto simp: unat_of_nat)
    then have "src + 1 + of_nat j \<noteq> d" using Suc.prems jn by auto
    moreover have "memcpy (m(d := m src)) (d + 1) (src + 1) n (d + 1 + of_nat j)
        = (m(d := m src)) (src + 1 + of_nat j)"
      using Suc.prems jn u by (intro Suc.IH) auto
    ultimately show ?thesis by (simp add: Suc add.assoc)
  qed
qed simp

lemma heap_used_le_header:
  assumes "heap_ok s bs" "heap_ok s' bs'" "heap_le s bs s' bs'" "(unat p, sz) \<in> heap_used s bs"
  shows "bh_size (read_header (kmem s') (p - 8)) = bh_size (read_header (kmem s) (p - 8))"
proof -
  have "(unat p, sz) \<in> heap_used s' bs'" using assms(3,4) by (auto simp: heap_le_def)
  from heap_used_header(2) [OF assms(2) this] heap_used_header(2) [OF assms(1,4)]
  show ?thesis by (simp add: word_unat_eq_iff)
qed

text \<open>Writing inside the payload of a block in use keeps the tiling and the other payloads.\<close>

lemma heap_ok_payload_write:
  assumes ok: "heap_ok s bs" and u: "(p, sz) \<in> heap_used s bs"
    and lo: "same_on 0 p (kmem s) m'" and hi: "same_on (p + sz) (2 ^ 32) (kmem s) m'"
  shows "heap_ok (s\<lparr>kmem := m'\<rparr>) bs"
    "(q, z) \<in> heap_used s bs \<Longrightarrow> q \<noteq> p \<Longrightarrow> same_on q (q + z) (kmem s) m'"
proof -
  have gen: "tiled (kmem s) a e bs \<Longrightarrow> e < 2 ^ 32 \<Longrightarrow> (p, sz, True) \<in> set (layout a bs) \<Longrightarrow> tiled m' a e bs" for a e
  proof (induction "kmem s" a e bs rule: tiled.induct)
    case (2 a e c v bs)
    have rest: "tiled (kmem s) (a + 8 + c) e bs" using "2.prems" by simp
    note w = tiled_Cons_words [OF "2.prems"(1,2)]
    have b: "a + 8 \<le> p" using layout_bounds [OF "2.prems"(1,3)] by simp
    have h: "read_header m' (of_nat a) = read_header (kmem s) (of_nat a)"
      by (rule read_header_same_on [OF lo]) (use b w(1) "2.prems" in auto)
    show ?case
    proof (cases "p = a + 8")
      case True
      then have "sz = c" using layout_fun [OF "2.prems"(1,3), of c v] by simp
      then have "same_on (a + 8 + c) e (kmem s) m'"
        by (intro same_on_mono [OF hi]) (use True "2.prems"(2) in auto)
      with tiled_same_on [of "a + 8 + c" e "kmem s" m' bs] rest "2.prems" h show ?thesis by simp
    next
      case False
      then have "(p, sz, True) \<in> set (layout (a + 8 + c) bs)" using "2.prems"(3) by auto
      from "2.hyps" [OF rest "2.prems"(2) this] "2.prems"(1) h show ?thesis by simp
    qed
  qed simp
  show "heap_ok (s\<lparr>kmem := m'\<rparr>) bs"
    using gen ok u unat_lt_32 [of "KHEAP_BASE_END s"] by (simp add: heap_ok_def used_in_layout)
  show "same_on q (q + z) (kmem s) m'" if "(q, z) \<in> heap_used s bs" "q \<noteq> p"
  proof -
    have "p + sz \<le> q \<or> q + z \<le> p" using heap_used_disjoint [OF ok that(1) u that(2)] by linarith
    moreover have "q + z \<le> 2 ^ 32"
      using layout_bounds [OF ok [unfolded heap_ok_def], of q z True] that(1) unat_lt_32 [of "KHEAP_BASE_END s"]
      by (simp add: used_in_layout)
    ultimately show ?thesis by (auto intro: same_on_mono [OF lo] same_on_mono [OF hi])
  qed
qed

lemma length_spec_alloc: "spec_alloc n bs = Some (p, bs') \<Longrightarrow> length bs' \<le> Suc (length bs)"
  by (induction bs arbitrary: p bs') (auto split: if_splits)

lemma alignup4_ge:
  assumes "unat n \<le> 0xFFFFFFFC"
  shows "unat n \<le> unat (alignup n 4)"
proof -
  have "roundup (unat n) 4 < unat n + 4" by (rule roundup_less) simp
  moreover have "4 dvd roundup (unat n) 4" by simp
  ultimately have "roundup (unat n) 4 \<le> 0xFFFFFFFC" using assms by presburger
  with roundup_ge [of 4 "unat n"] show ?thesis by (simp add: unat_alignup)
qed

lemma kfree_ok:
  assumes "heap_ok s bs" "(unat p, sz) \<in> heap_used s bs" "kfree f p s = Inr s'"
  shows "\<exists>bs'. heap_ok s' bs' \<and> heap_used s' bs' = heap_used s bs - {(unat p, sz)}
    \<and> KHEAP_BASE_START s' = KHEAP_BASE_START s \<and> keeps_used (unat (KHEAP_BASE_START s)) bs' (kmem s) (kmem s')"
proof -
  let ?a = "unat (KHEAP_BASE_START s)" let ?fr = "spec_free (unat p) ?a bs" let ?g = "max f (Suc (length bs))"
  have "kfree ?g p s = Inr s'"
    using assms(3) by (auto simp: kfree_def merge_free_blocks_def Let_def split: if_splits intro: merge_from_fuel)
  moreover have "length bs < ?g" by simp
  ultimately obtain m' where m': "s' = s\<lparr>kmem := m'\<rparr>"
    "heap_ok s' (coalesce ?fr)" "heap_frame ?a (unat (KHEAP_BASE_END s)) ?fr (kmem s) m'"
    using kfree_refines [OF assms(1,2), of ?g] by auto
  moreover have "heap_used s ?fr = heap_used s bs - {(unat p, sz)}"
    using used_spec_free [OF assms(1) [unfolded heap_ok_def]] assms(2) by (simp add: used_in_layout)
  ultimately show ?thesis
    by (intro exI [of _ "coalesce ?fr"]) (simp add: heap_frame_def keeps_used_def)
qed

context heap_mapper
begin

lemma krealloc_ok:
  assumes ok: "heap_ok s bs" and u: "(unat p, sz) \<in> heap_used s bs" and n: "unat n \<le> 0xFFFFFFFC"
    and r: "krealloc mapm pds f p n s = Inr (np, s')"
  shows "\<exists>bs'. heap_ok s' bs' \<and> (\<exists>z\<ge>unat n. (unat np, z) \<in> heap_used s' bs')
    \<and> (\<forall>i. i < sz \<longrightarrow> kmem s' (np + of_nat i) = kmem s (p + of_nat i))
    \<and> (\<forall>q z. (q, z) \<in> heap_used s bs \<longrightarrow> q \<noteq> unat p \<longrightarrow>
          (q, z) \<in> heap_used s' bs' \<and> same_on q (q + z) (kmem s) (kmem s'))"
proof -
  note h = heap_used_header [OF ok u]
  from r obtain s1 where s1: "kmalloc mapm pds f n s = Inr (np, s1)"
    and fr: "kfree f p (s1\<lparr>kmem := memcpy (kmem s1) np p (unat (bh_size (read_header (kmem s1) (p - 8))))\<rparr>) = Inr s'"
    and szn: "sz \<le> unat n"
    using h(2) by (auto simp: krealloc_def Let_def bindR_Inr_iff word_less_nat_alt split: if_splits)
  from kmalloc_ok [OF ok s1] obtain b1 where al: "allocates (unat (alignup n 4)) s bs np s1 b1" ..
  then have ok1: "heap_ok s1 b1" and le1: "heap_le s bs s1 b1" and fresh: "unat np \<notin> fst ` heap_used s bs"
    by (simp_all add: allocates_def)
  from al obtain z where z: "unat n \<le> z" "(unat np, z) \<in> heap_used s1 b1"
    using alignup4_ge [OF n] by (auto simp: allocates_def intro: order_trans)
  have u1: "(unat p, sz) \<in> heap_used s1 b1" using u le1 by (auto simp: heap_le_def)
  have len: "unat (bh_size (read_header (kmem s1) (p - 8))) = sz"
    using heap_used_header(2) [OF ok1 u1] .
  let ?m2 = "memcpy (kmem s1) np p sz" let ?s2 = "s1\<lparr>kmem := ?m2\<rparr>"
  have np_ne: "unat np \<noteq> unat p" using fresh u by force
  have dis: "unat p + sz \<le> unat np \<or> unat np + sz \<le> unat p"
    using heap_used_disjoint [OF ok1 u1 z(2)] np_ne z(1) szn by linarith
  have b1: "unat np + z \<le> 2 ^ 32" "unat p + sz \<le> 2 ^ 32"
    using heap_used_header(6) [OF ok1 z(2)] heap_used_header(6) [OF ok1 u1] unat_lt_32 [of "KHEAP_BASE_END s1"] by auto
  have out: "same_on 0 (unat np) (kmem s1) ?m2" "same_on (unat np + z) (2 ^ 32) (kmem s1) ?m2"
    by (rule memcpy_outside; use b1 z(1) szn in simp)+
  note pw = heap_ok_payload_write [OF ok1 z(2) out]
  have "kfree f p ?s2 = Inr s'" using fr len by simp
  from kfree_ok [OF pw(1) _ this, of sz] u1 obtain bs' where bs':
    "heap_ok s' bs'" "heap_used s' bs' = heap_used s1 b1 - {(unat p, sz)}"
    "KHEAP_BASE_START s' = KHEAP_BASE_START s1" "keeps_used (unat (KHEAP_BASE_START s1)) bs' ?m2 (kmem s')" by auto
  have in': "(unat np, z) \<in> heap_used s' bs'" using z(2) bs'(2) np_ne by auto
  have keep: "same_on q (q + y) ?m2 (kmem s')" if "(q, y) \<in> heap_used s' bs'" for q y
    using bs'(3,4) that by (simp add: keeps_used_def)
  have "kmem s' (np + of_nat i) = kmem s (p + of_nat i)" if "i < sz" for i
  proof -
    have ui: "unat (np + of_nat i) = unat np + i" "unat (p + of_nat i) = unat p + i"
      using that b1 z(1) szn by (subst unat_plus_small; simp add: unat_of_nat)+
    have "kmem s' (np + of_nat i) = ?m2 (np + of_nat i)"
      using keep [OF in'] ui that z(1) szn by (simp add: same_on_def)
    also have "\<dots> = kmem s1 (p + of_nat i)"
      by (rule memcpy_copies) (use dis b1 z(1) szn that in auto)
    also have "\<dots> = kmem s (p + of_nat i)"
      using le1 u ui that by (simp add: heap_le_def keeps_used_def same_on_def)
    finally show ?thesis .
  qed
  moreover have "(q, y) \<in> heap_used s' bs' \<and> same_on q (q + y) (kmem s) (kmem s')"
    if q: "(q, y) \<in> heap_used s bs" "q \<noteq> unat p" for q y
  proof -
    have q1: "(q, y) \<in> heap_used s1 b1" using q le1 by (auto simp: heap_le_def)
    then have q': "(q, y) \<in> heap_used s' bs'" using q(2) bs'(2) by auto
    have "q \<noteq> unat np" using fresh q(1) by force
    then have "same_on q (q + y) (kmem s1) ?m2" using pw(2) q1 by simp
    moreover have "same_on q (q + y) (kmem s) (kmem s1)" using le1 q(1) by (simp add: heap_le_def keeps_used_def)
    ultimately show ?thesis using q' keep [OF q'] by (blast intro: same_on_trans)
  qed
  ultimately show ?thesis using bs'(1) in' z(1) by blast
qed

end

text \<open>With room for the new block \<^verbatim>\<open>krealloc\<close> does return.\<close>

lemma krealloc_room_returns:
  assumes ok: "heap_ok s bs" and u: "(unat p, sz) \<in> heap_used s bs" and n: "unat n \<le> 0xFFFFFFFC" "sz \<le> unat n"
    and room: "spec_alloc (unat (alignup n 4)) bs = Some (q, b1)" and len: "length bs < f"
  shows "\<exists>np s'. krealloc mapm pds (Suc f) p n s = Inr (np, s')"
proof -
  note h = heap_used_header [OF ok u]
  have "length bs \<le> f" using len by simp
  from kmalloc_room_allocates [OF ok room this, of mapm pds] obtain np m1 where
    k: "kmalloc mapm pds (Suc f) n s = Inr (np, s\<lparr>kmem := m1\<rparr>)"
    "allocates (unat (alignup n 4)) s bs np (s\<lparr>kmem := m1\<rparr>) b1" by blast
  let ?s1 = "s\<lparr>kmem := m1\<rparr>"
  have ok1: "heap_ok ?s1 b1" and u1: "(unat p, sz) \<in> heap_used ?s1 b1"
    using k(2) u by (auto simp: allocates_def heap_le_def)
  obtain z where z: "unat n \<le> z" "(unat np, z) \<in> heap_used ?s1 b1"
    using k(2) alignup4_ge [OF n(1)] by (auto simp: allocates_def intro: order_trans)
  have len1: "unat (bh_size (read_header m1 (p - 8))) = sz" using heap_used_header(2) [OF ok1 u1] by simp
  have top: "unat np + z \<le> 2 ^ 32"
    using heap_used_header(6) [OF ok1 z(2)] unat_lt_32 [of "KHEAP_BASE_END ?s1"] by auto
  have out: "same_on 0 (unat np) (kmem ?s1) (memcpy m1 np p sz)" "same_on (unat np + z) (2 ^ 32) (kmem ?s1) (memcpy m1 np p sz)"
    using memcpy_outside [of np sz "unat np" 0 m1 p] memcpy_outside [of np sz "2 ^ 32" "unat np + z" m1 p] top z(1) n(2) by simp_all
  let ?s2 = "?s1\<lparr>kmem := memcpy m1 np p sz\<rparr>"
  have ok2: "heap_ok ?s2 b1" by (rule heap_ok_payload_write(1) [OF ok1 z(2) out])
  have u2: "(unat p, sz) \<in> heap_used ?s2 b1" using u1 by simp
  have "length b1 < Suc f" using length_spec_alloc [OF room] len by simp
  from kfree_refines [OF ok2 u2 this] obtain m3 where "kfree (Suc f) p ?s2 = Inr (?s2\<lparr>kmem := m3\<rparr>)" by blast
  moreover have "\<not> n < bh_size (read_header (kmem s) (p - 8))" using h(2) n(2) by (simp add: word_less_nat_alt)
  ultimately show ?thesis using k(1) len1
    by (simp add: krealloc_def Let_def del: kmalloc.simps)
qed

subsection \<open>Installation\<close>

lemma kheap_install_bounds [simp]:
  "KHEAP_BASE_START (kheap_install s) = KHEAP_BASE_START s" "KHEAP_BASE_END (kheap_install s) = KHEAP_BASE_END s"
  by (simp_all add: kheap_install_def Let_def)

lemma kheap_install_ok:
  assumes "unat (KHEAP_BASE_START s) + 8 \<le> unat (KHEAP_BASE_END s)"
  shows "heap_ok (kheap_install s) [(unat (KHEAP_BASE_END s) - unat (KHEAP_BASE_START s) - 8, False)]"
proof -
  let ?a = "KHEAP_BASE_START s" let ?e = "KHEAP_BASE_END s"
  have a8: "unat (?a + 8) = unat ?a + 8"
    using assms unat_lt_32 [of ?e] by (subst unat_plus_small) auto
  then have "unat (?e - (?a + 8)) = unat ?e - unat ?a - 8"
    using assms by (subst unat_sub) (simp_all add: word_le_nat_alt)
  then show ?thesis using assms by (simp add: heap_ok_def kheap_install_def Let_def)
qed

subsection \<open>The heap as its clients see it\<close>

text \<open>The pointers in use, a well-formed heap whose walks fit the fuel, and room for \<open>n\<close> bytes.\<close>

definition heap_live :: "'a kheap_scheme \<Rightarrow> u32 set" where
  "heap_live s = {p. \<exists>bs sz. heap_ok s bs \<and> (unat p, sz) \<in> heap_used s bs}"

definition heap_wf :: "nat \<Rightarrow> 'a kheap_scheme \<Rightarrow> bool" where
  "heap_wf f s \<longleftrightarrow> (\<exists>bs. heap_ok s bs \<and> length bs \<le> f)"

definition heap_room :: "nat \<Rightarrow> nat \<Rightarrow> 'a kheap_scheme \<Rightarrow> bool" where
  "heap_room n f s \<longleftrightarrow> (\<exists>bs. heap_ok s bs \<and> length bs < f \<and> spec_alloc n bs \<noteq> None)"

lemma heap_live_eq: "heap_ok s bs \<Longrightarrow> heap_live s = {p. unat p \<in> fst ` heap_used s bs}"
  by (force simp: heap_live_def dest: heap_ok_unique)

lemma heap_room_mono: "heap_ok s bs \<Longrightarrow> heap_room n f s \<longleftrightarrow> length bs < f \<and> spec_alloc n bs \<noteq> None"
  by (auto simp: heap_room_def dest: heap_ok_unique)

lemma kmalloc_client:
  assumes "heap_room (unat n) f s" "unat n mod 4 = 0"
  shows "\<exists>p m. kmalloc mapm pds (Suc f) n s = Inr (p, s\<lparr>kmem := m\<rparr>) \<and> p \<noteq> 0 \<and> p \<notin> heap_live s
    \<and> heap_live (s\<lparr>kmem := m\<rparr>) = insert p (heap_live s) \<and> heap_wf f (s\<lparr>kmem := m\<rparr>)"
proof -
  from assms(1) obtain bs q bs' where bs: "heap_ok s bs" "length bs < f" "spec_alloc (unat n) bs = Some (q, bs')"
    by (auto simp: heap_room_def)
  have "n mod 4 = 0" using assms(2) by (simp add: word_unat_eq_iff unat_mod)
  then have al: "alignup n 4 = n" by (rule alignup_id)
  let ?a = "unat (KHEAP_BASE_START s)"
  have "length bs \<le> f" using bs(2) by simp
  from kmalloc_refines [OF bs(1) _ this, of n q bs' mapm pds] bs(3) al obtain m where
    m: "kmalloc mapm pds (Suc f) n s = Inr (of_nat (?a + q), s\<lparr>kmem := m\<rparr>)" "heap_ok (s\<lparr>kmem := m\<rparr>) bs'"
    by (auto simp del: kmalloc.simps)
  from spec_alloc_used [OF bs(3) bs(1) [unfolded heap_ok_def]] obtain sz where
    sz: "heap_used s bs' = insert (?a + q, sz) (heap_used s bs)" "?a + q \<notin> fst ` heap_used s bs" by blast
  have "(?a + q, sz, True) \<in> set (layout ?a bs')" using sz(1) unfolding used_in_layout [symmetric] by simp
  then have b: "?a + 8 \<le> ?a + q \<and> ?a + q + sz \<le> unat (KHEAP_BASE_END s)"
    using layout_bounds [of m ?a "unat (KHEAP_BASE_END s)" bs' "?a + q" sz True] m(2) by (simp add: heap_ok_def)
  then have w: "unat (of_nat (?a + q) :: u32) = ?a + q"
    using unat_lt_32 [of "KHEAP_BASE_END s"] by (simp add: unat_of_nat del: of_nat_add)
  have iff: "unat p = ?a + q \<longleftrightarrow> p = of_nat (?a + q)" for p :: u32
    using w by (auto simp: word_unat_eq_iff simp del: of_nat_add)
  have "heap_live (s\<lparr>kmem := m\<rparr>) = insert (of_nat (?a + q)) (heap_live s)"
    using heap_live_eq [OF m(2)] heap_live_eq [OF bs(1)] sz(1) iff by auto
  moreover have "of_nat (?a + q) \<notin> heap_live s" using heap_live_eq [OF bs(1)] sz(2) w by simp
  moreover have "heap_wf f (s\<lparr>kmem := m\<rparr>)"
    using m(2) length_spec_alloc [OF bs(3)] bs(2) by (auto simp: heap_wf_def)
  moreover have "of_nat (?a + q) \<noteq> (0 :: u32)" using w b by (auto simp: word_unat_eq_iff simp del: of_nat_add)
  ultimately show ?thesis using m(1) by blast
qed

lemma fst_remove: "(\<And>z. (a, z) \<in> S \<Longrightarrow> z = c) \<Longrightarrow> fst ` (S - {(a, c)}) = fst ` S - {a}"
  by force

lemma kfree_client:
  assumes "heap_wf f s" "p \<in> heap_live s"
  shows "\<exists>m. kfree (Suc f) p s = Inr (s\<lparr>kmem := m\<rparr>) \<and> heap_live (s\<lparr>kmem := m\<rparr>) = heap_live s - {p}
    \<and> heap_wf f (s\<lparr>kmem := m\<rparr>)"
proof -
  from assms obtain bs sz where bs: "heap_ok s bs" "length bs < Suc f" "(unat p, sz) \<in> heap_used s bs"
    by (auto simp: heap_wf_def heap_live_def dest: heap_ok_unique)
  let ?a = "unat (KHEAP_BASE_START s)" let ?fr = "spec_free (unat p) ?a bs"
  from kfree_refines [OF bs(1,3,2)] obtain m where m: "kfree (Suc f) p s = Inr (s\<lparr>kmem := m\<rparr>)"
    "heap_ok (s\<lparr>kmem := m\<rparr>) (coalesce ?fr)" by blast
  have u: "heap_used s ?fr = heap_used s bs - {(unat p, sz)}"
    using used_spec_free [OF bs(1) [unfolded heap_ok_def]] bs(3) by (simp add: used_in_layout)
  have one: "(unat p, z) \<in> heap_used s bs \<Longrightarrow> z = sz" for z
    using layout_fun [OF bs(1) [unfolded heap_ok_def]] bs(3) unfolding used_in_layout by blast
  have "heap_live (s\<lparr>kmem := m\<rparr>) = heap_live s - {p}"
    unfolding heap_live_eq [OF m(2)] heap_live_eq [OF bs(1)]
    using u fst_remove [of "unat p" "heap_used s bs" sz] one by (auto simp: word_unat_eq_iff)
  moreover have "heap_wf f (s\<lparr>kmem := m\<rparr>)"
    using m(2) length_coalesce [of ?fr] bs(2) by (auto simp: heap_wf_def intro!: exI [of _ "coalesce ?fr"])
  ultimately show ?thesis using m(1) by blast
qed

subsection \<open>Properties\<close>

text \<open>The heap right after boot, at the addresses the kernel uses.\<close>

definition boot_heap :: kheap where
  "boot_heap = kheap_install \<lparr>kmem = (\<lambda>_. 0), KHEAP_BASE_START = 0xC0800000, KHEAP_BASE_END = 0xC0C00000\<rparr>"

lemma boot_heap_ok:
  "heap_ok boot_heap [(0x3FFFF8, False)]"
  "KHEAP_BASE_START boot_heap = 0xC0800000" "KHEAP_BASE_END boot_heap = 0xC0C00000"
proof -
  let ?s = "\<lparr>kmem = (\<lambda>_. 0), KHEAP_BASE_START = 0xC0800000, KHEAP_BASE_END = 0xC0C00000\<rparr>"
  have "unat (KHEAP_BASE_START ?s) + 8 \<le> unat (KHEAP_BASE_END ?s)" by simp
  from kheap_install_ok [OF this] show "heap_ok boot_heap [(0x3FFFF8, False)]"
    unfolding boot_heap_def by simp
  show "KHEAP_BASE_START boot_heap = 0xC0800000" "KHEAP_BASE_END boot_heap = 0xC0C00000"
    unfolding boot_heap_def by simp_all
qed

lemma boot_alloc:
  "spec_alloc (unat (alignup 98 4)) [(0x3FFFF8, False)] = Some (8, [(100, True), (0x3FFF8C, False)])"
  "of_nat (unat (KHEAP_BASE_START boot_heap) + 8) = (0xC0800008 :: u32)"
proof -
  have "alignup 98 4 = (100 :: u32)" by (rule word_unat_eqI) (simp add: unat_alignup roundup_def)
  then show "spec_alloc (unat (alignup 98 4)) [(0x3FFFF8, False)] = Some (8, [(100, True), (0x3FFF8C, False)])"
    by simp
  show "of_nat (unat (KHEAP_BASE_START boot_heap) + 8) = (0xC0800008 :: u32)"
    by (simp add: boot_heap_ok(2))
qed

text \<open>C1: On a well-formed heap with room, \<^verbatim>\<open>kmalloc\<close> returns the payload of the first free block that is
  large enough for the request rounded up to 4 bytes, splits it exactly as the abstract first-fit
  allocator does, leaves the heap well formed, writes nothing outside the heap and no byte of the
  payload of a block in use. The fuel only has to exceed the number of blocks.\<close>

theorem kmalloc_first_fit:
  assumes "heap_ok s bs" "spec_alloc (unat (alignup n 4)) bs = Some (q, bs')" "length bs \<le> f"
  shows "\<exists>m'. kmalloc mapm pds (Suc f) n s = Inr (of_nat (unat (KHEAP_BASE_START s) + q), s\<lparr>kmem := m'\<rparr>)
    \<and> heap_ok (s\<lparr>kmem := m'\<rparr>) bs'
    \<and> heap_frame (unat (KHEAP_BASE_START s)) (unat (KHEAP_BASE_END s)) bs (kmem s) m'"
  using assms by (rule kmalloc_refines)

theorem kmalloc_first_fit_witness:
  "\<exists>m'. kmalloc (\<lambda>_ _ _ _. Inl BadPtr) [] (Suc 1) 98 boot_heap = Inr (0xC0800008, boot_heap\<lparr>kmem := m'\<rparr>)
    \<and> heap_ok (boot_heap\<lparr>kmem := m'\<rparr>) [(100, True), (0x3FFF8C, False)]"
proof -
  have len: "length [(0x3FFFF8 :: nat, False)] \<le> 1" by simp
  from kmalloc_first_fit [OF boot_heap_ok(1) boot_alloc(1) len, of "\<lambda>_ _ _ _. Inl BadPtr" "[]"]
  show ?thesis unfolding boot_alloc(2) by blast
qed

text \<open>C2: \<^verbatim>\<open>kfree\<close> of a pointer in use succeeds, makes exactly that block free and merges every run of
  adjacent free blocks of the whole heap into one block; no byte of the payload of another block in
  use changes.\<close>

theorem kfree_coalesces:
  assumes "heap_ok s bs" "(unat p, sz) \<in> heap_used s bs" "length bs < f"
  shows "\<exists>m'. kfree f p s = Inr (s\<lparr>kmem := m'\<rparr>)
    \<and> heap_ok (s\<lparr>kmem := m'\<rparr>) (coalesce (spec_free (unat p) (unat (KHEAP_BASE_START s)) bs))
    \<and> heap_used s (coalesce (spec_free (unat p) (unat (KHEAP_BASE_START s)) bs)) = heap_used s bs - {(unat p, sz)}
    \<and> heap_frame (unat (KHEAP_BASE_START s)) (unat (KHEAP_BASE_END s))
         (spec_free (unat p) (unat (KHEAP_BASE_START s)) bs) (kmem s) m'"
proof -
  have "heap_used s (spec_free (unat p) (unat (KHEAP_BASE_START s)) bs) = heap_used s bs - {(unat p, sz)}"
    using used_spec_free [OF assms(1) [unfolded heap_ok_def]] assms(2) by (simp add: used_in_layout)
  with kfree_refines [OF assms] show ?thesis by (simp only: used_blocks_coalesce) blast
qed

theorem kfree_coalesces_witness:
  "\<exists>m m'. kmalloc (\<lambda>_ _ _ _. Inl BadPtr) [] (Suc 1) 98 boot_heap = Inr (0xC0800008, boot_heap\<lparr>kmem := m\<rparr>)
    \<and> kfree 3 0xC0800008 (boot_heap\<lparr>kmem := m\<rparr>) = Inr (boot_heap\<lparr>kmem := m'\<rparr>)
    \<and> heap_ok (boot_heap\<lparr>kmem := m'\<rparr>) [(0x3FFFF8, False)]"
proof -
  have len: "length [(0x3FFFF8 :: nat, False)] \<le> 1" by simp
  from kmalloc_refines [OF boot_heap_ok(1) boot_alloc(1) len, of "\<lambda>_ _ _ _. Inl BadPtr" "[]"]
  obtain m where m: "kmalloc (\<lambda>_ _ _ _. Inl BadPtr) [] (Suc 1) 98 boot_heap = Inr (0xC0800008, boot_heap\<lparr>kmem := m\<rparr>)"
    "heap_ok (boot_heap\<lparr>kmem := m\<rparr>) [(100, True), (0x3FFF8C, False)]"
    unfolding boot_alloc(2) by blast
  let ?s = "boot_heap\<lparr>kmem := m\<rparr>"
  have st: "KHEAP_BASE_START ?s = 0xC0800000" using boot_heap_ok(2) by simp
  have "(unat (0xC0800008 :: u32), 100) \<in> heap_used ?s [(100, True), (0x3FFF8C, False)]"
    unfolding st by simp
  moreover have "length [(100, True), (0x3FFF8C :: nat, False)] < 3" by simp
  ultimately obtain m' where m': "kfree 3 0xC0800008 ?s = Inr (?s\<lparr>kmem := m'\<rparr>)"
    "heap_ok (?s\<lparr>kmem := m'\<rparr>) (coalesce (spec_free (unat (0xC0800008 :: u32)) (unat (KHEAP_BASE_START ?s)) [(100, True), (0x3FFF8C, False)]))"
    using kfree_coalesces [OF m(2)] by blast
  have "coalesce (spec_free (unat (0xC0800008 :: u32)) (unat (KHEAP_BASE_START ?s)) [(100, True), (0x3FFF8C, False)]) = [(0x3FFFF8, False)]"
    unfolding st by simp
  with m' m(1) show ?thesis by (intro exI [of _ m] exI [of _ m']) simp
qed

end
