(* ===== verification/VK_Blocks.thy ===== *)
theory VK_Blocks
  imports VK_Kheap
begin

section \<open>Doubly linked block lists\<close>

text \<open>
  The physical memory map (memory/physical.c) and the kernel virtual memory map
  (memory/kvmheap.c) are both doubly linked lists of heap-allocated blocks, with the same
  splitting on reservation and the same two merge loops on release. This theory holds what they
  share: the typed store of the blocks, pointer dereference, the merge loops, the abstract
  block lists, the contract of the allocator they rely on (locale \<open>node_alloc\<close>, interpreted on
  \<^verbatim>\<open>kmalloc\<close>/\<^verbatim>\<open>kfree\<close>), and the refinement of the loops.

  \<^verbatim>\<open>p_block_t\<close> and \<^verbatim>\<open>vm_block_t\<close> have the same fields (base address, size, next, prev and a
  32-bit type or status, \<open>b_tag\<close> here), so one record models both. Blocks are kept in a typed store indexed by
  their heap address; a dereference of an address that holds no block is the fault \<open>BadPtr\<close>.
\<close>

record block =
  b_base :: u32
  b_size :: u32
  b_next :: u32
  b_prev :: u32
  b_tag :: u32

record kblocks = kheap +
  bstore :: "u32 \<rightharpoonup> block"
  first_block :: u32
  detected_memory :: u64
  detected_memory_below32 :: u32
  vm_first_block :: u32

definition deref :: "u32 \<Rightarrow> 'a kblocks_scheme \<Rightarrow> block res" where
  "deref p s = (case bstore s p of None \<Rightarrow> Inl BadPtr | Some b \<Rightarrow> Inr b)"

definition put :: "u32 \<Rightarrow> block \<Rightarrow> 'a kblocks_scheme \<Rightarrow> 'a kblocks_scheme" where
  "put p b s = s\<lparr>bstore := (bstore s)(p \<mapsto> b)\<rparr>"

text \<open>An assignment to one field through a pointer.\<close>

definition upd :: "u32 \<Rightarrow> (block \<Rightarrow> block) \<Rightarrow> 'a kblocks_scheme \<Rightarrow> 'a kblocks_scheme res" where
  "upd p g s = bindR (deref p s) (\<lambda>b. Inr (put p (g b) s))"

text \<open>\<^verbatim>\<open>if(p) p->prev = v\<close>\<close>

definition set_prev_if :: "u32 \<Rightarrow> u32 \<Rightarrow> 'a kblocks_scheme \<Rightarrow> 'a kblocks_scheme res" where
  "set_prev_if p v s = (if p = 0 then Inr s else upd p (\<lambda>b. b\<lparr>b_prev := v\<rparr>) s)"

text \<open>\<^verbatim>\<open>kfree\<close> of a block: the heap call, and the store forgets the block.\<close>

definition free_node :: "(u32 \<Rightarrow> 'a kblocks_scheme \<Rightarrow> 'a kblocks_scheme res) \<Rightarrow> u32
    \<Rightarrow> 'a kblocks_scheme \<Rightarrow> 'a kblocks_scheme res" where
  "free_node free p s = bindR (free p s) (\<lambda>s. Inr (s\<lparr>bstore := (bstore s)(p := None)\<rparr>))"

text \<open>
  The body of both merge loops: \<open>a\<close> takes over its successor \<open>c\<close> (\<^verbatim>\<open>a->size += c->size;
  a->next = c->next; if(a->next) a->next->prev = a; kfree(c)\<close>).
\<close>

definition absorb :: "(u32 \<Rightarrow> 'a kblocks_scheme \<Rightarrow> 'a kblocks_scheme res) \<Rightarrow> u32 \<Rightarrow> u32
    \<Rightarrow> 'a kblocks_scheme \<Rightarrow> 'a kblocks_scheme res" where
  "absorb free a c s =
     bindR (deref c s) (\<lambda>bc.
     bindR (upd a (\<lambda>b. b\<lparr>b_size := b_size b + b_size bc\<rparr>) s) (\<lambda>s.
     bindR (upd a (\<lambda>b. b\<lparr>b_next := b_next bc\<rparr>) s) (\<lambda>s.
     bindR (set_prev_if (b_next bc) a s) (\<lambda>s. free_node free c s))))"

text \<open>The merge with the blocks before; returns the block that remains.\<close>

fun merge_prev :: "(u32 \<Rightarrow> bool) \<Rightarrow> (u32 \<Rightarrow> 'a kblocks_scheme \<Rightarrow> 'a kblocks_scheme res) \<Rightarrow> nat
    \<Rightarrow> u32 \<Rightarrow> u32 \<Rightarrow> 'a kblocks_scheme \<Rightarrow> (u32 \<times> 'a kblocks_scheme) res" where
  "merge_prev isfree free 0 cur m s = Inl NoFuel"
| "merge_prev isfree free (Suc f) cur m s =
     (if m = 0 then Inr (cur, s)
      else bindR (deref m s) (\<lambda>bm.
        if \<not> isfree (b_tag bm) then Inr (cur, s)
        else bindR (absorb free m cur s) (\<lambda>s.
          bindR (deref m s) (\<lambda>bm. merge_prev isfree free f m (b_prev bm) s))))"

text \<open>The merge with the blocks after.\<close>

fun merge_next :: "(u32 \<Rightarrow> bool) \<Rightarrow> (u32 \<Rightarrow> 'a kblocks_scheme \<Rightarrow> 'a kblocks_scheme res) \<Rightarrow> nat
    \<Rightarrow> u32 \<Rightarrow> u32 \<Rightarrow> 'a kblocks_scheme \<Rightarrow> 'a kblocks_scheme res" where
  "merge_next isfree free 0 cur m s = Inl NoFuel"
| "merge_next isfree free (Suc f) cur m s =
     (if m = 0 then Inr s
      else bindR (deref m s) (\<lambda>bm.
        if \<not> isfree (b_tag bm) then Inr s
        else bindR (absorb free cur m s) (\<lambda>s.
          bindR (deref cur s) (\<lambda>bc. merge_next isfree free f cur (b_next bc) s))))"

text \<open>
  The splitting of \<^verbatim>\<open>reserve_block\<close> and \<^verbatim>\<open>kvm_reserve_block\<close>: a new block takes the rest of
  \<open>cur\<close>, which keeps \<open>sz\<close> bytes. Every field of the new block is written before it is linked;
  returns the base address.
\<close>

definition split_node :: "(u32 \<Rightarrow> 'a kblocks_scheme \<Rightarrow> (u32 \<times> 'a kblocks_scheme) res) \<Rightarrow> u32 \<Rightarrow> u32 \<Rightarrow> u32 \<Rightarrow> u32
    \<Rightarrow> 'a kblocks_scheme \<Rightarrow> (u32 \<times> 'a kblocks_scheme) res" where
  "split_node malloc cur sz freetag usedtag s =
     bindR (malloc 20 s) (\<lambda>(new, s).
     bindR (deref cur s) (\<lambda>bc.
     let nxt = b_next bc;
         s = put new \<lparr>b_base = b_base bc + sz, b_size = b_size bc - sz, b_next = nxt, b_prev = cur, b_tag = freetag\<rparr> s in
     bindR (set_prev_if nxt new s) (\<lambda>s.
     bindR (upd cur (\<lambda>b. b\<lparr>b_size := sz, b_next := new, b_tag := usedtag\<rparr>) s) (\<lambda>s.
     bindR (deref cur s) (\<lambda>b. Inr (b_base b, s))))))"

text \<open>The release of the block \<open>cur\<close>: it is tagged free and merged both ways.\<close>

definition release_node :: "(u32 \<Rightarrow> bool) \<Rightarrow> (u32 \<Rightarrow> 'a kblocks_scheme \<Rightarrow> 'a kblocks_scheme res) \<Rightarrow> nat \<Rightarrow> u32 \<Rightarrow> u32
    \<Rightarrow> 'a kblocks_scheme \<Rightarrow> 'a kblocks_scheme res" where
  "release_node isfree free f freetag cur s =
     bindR (upd cur (\<lambda>b. b\<lparr>b_tag := freetag\<rparr>) s) (\<lambda>s.
     bindR (deref cur s) (\<lambda>b.
     bindR (merge_prev isfree free f cur (b_prev b) s) (\<lambda>(cur, s).
     bindR (deref cur s) (\<lambda>b. merge_next isfree free f cur (b_next b) s))))"

subsection \<open>Abstract lists\<close>

text \<open>A node: its address, base, size and tag.\<close>

type_synonym node = "u32 \<times> u32 \<times> u32 \<times> u32"

abbreviation n_addr :: "node \<Rightarrow> u32" where "n_addr n \<equiv> fst n"
abbreviation n_base :: "node \<Rightarrow> u32" where "n_base n \<equiv> fst (snd n)"
abbreviation n_size :: "node \<Rightarrow> u32" where "n_size n \<equiv> fst (snd (snd n))"
abbreviation n_tag :: "node \<Rightarrow> u32" where "n_tag n \<equiv> snd (snd (snd n))"

definition head :: "node list \<Rightarrow> u32" where
  "head ns = (case ns of [] \<Rightarrow> 0 | n # _ \<Rightarrow> n_addr n)"

definition final :: "u32 \<Rightarrow> node list \<Rightarrow> u32" where
  "final p ns = (if ns = [] then p else n_addr (last ns))"

text \<open>The store holds the nodes, linked in order; \<open>p\<close> is before the first and \<open>q\<close> after the last.\<close>

fun seg :: "(u32 \<rightharpoonup> block) \<Rightarrow> u32 \<Rightarrow> node list \<Rightarrow> u32 \<Rightarrow> bool" where
  "seg st p [] q \<longleftrightarrow> True"
| "seg st p ((a, b, z, t) # ns) q \<longleftrightarrow> a \<noteq> 0 \<and>
     st a = Some \<lparr>b_base = b, b_size = z, b_next = (if ns = [] then q else head ns), b_prev = p, b_tag = t\<rparr> \<and>
     seg st a ns q"

definition dlist :: "(u32 \<rightharpoonup> block) \<Rightarrow> u32 \<Rightarrow> node list \<Rightarrow> bool" where
  "dlist st p ns \<longleftrightarrow> p = head ns \<and> seg st 0 ns 0 \<and> distinct (map n_addr ns)"

lemma head_simps [simp]: "head [] = 0" "head (n # ns) = n_addr n" "final p [] = p"
  "final p (n # ns) = final (n_addr n) ns"
  by (simp_all add: head_def final_def)

lemma head_append: "head (xs @ ys) = (if xs = [] then head ys else head xs)"
  by (cases xs) auto

lemma seg_append:
  "seg st p (xs @ ys) q \<longleftrightarrow> seg st p xs (if ys = [] then q else head ys) \<and> seg st (final p xs) ys q"
proof (induction xs arbitrary: p)
  case (Cons n xs)
  then show ?case by (cases n; cases "xs = []"; cases "ys = []") (simp_all add: head_append)
qed simp

lemma seg_cong:
  assumes "\<And>a. a \<in> n_addr ` set ns \<Longrightarrow> st' a = st a"
  shows "seg st' p ns q = seg st p ns q"
  using assms by (induction ns arbitrary: p) auto

lemma seg_upd_other [simp]:
  "a \<notin> n_addr ` set ns \<Longrightarrow> seg (st(a := v)) p ns q = seg st p ns q"
  by (rule seg_cong) auto

lemma seg_dom: "seg st p ns q \<Longrightarrow> n_addr ` set ns \<subseteq> dom st"
proof (induction ns arbitrary: p)
  case (Cons n ns)
  then show ?case by (cases n) fastforce
qed simp

lemma seg_nonzero: "seg st p ns q \<Longrightarrow> 0 \<notin> n_addr ` set ns"
proof (induction ns arbitrary: p)
  case (Cons n ns)
  then show ?case by (cases n) fastforce
qed simp

text \<open>Setting the \<^verbatim>\<open>prev\<close> of the first node of a segment.\<close>

lemma seg_set_prev:
  assumes "seg st p (n # ns) q" "n_addr n \<notin> n_addr ` set ns"
  shows "seg (st(n_addr n \<mapsto> (the (st (n_addr n)))\<lparr>b_prev := p'\<rparr>)) p' (n # ns) q"
  using assms by (cases n) auto

text \<open>Merging on node lists: a node absorbs the free nodes before it (nearest first) and after it.\<close>

fun mback :: "(u32 \<Rightarrow> bool) \<Rightarrow> node list \<Rightarrow> node \<Rightarrow> node list \<times> node" where
  "mback isfree [] n = ([], n)"
| "mback isfree ((a, b, z, t) # rp) n =
     (if isfree t then mback isfree rp (a, b, z + n_size n, t) else ((a, b, z, t) # rp, n))"

fun mfwd :: "(u32 \<Rightarrow> bool) \<Rightarrow> node \<Rightarrow> node list \<Rightarrow> node \<times> node list" where
  "mfwd isfree n [] = (n, [])"
| "mfwd isfree (a, b, z, t) (m # ns) =
     (if isfree (n_tag m) then mfwd isfree (a, b, z + n_size m, t) ns else ((a, b, z, t), m # ns))"

lemma mback_addrs:
  "mback isfree rp n = (rp', n') \<Longrightarrow> n_addr ` set rp' \<union> {n_addr n'} \<subseteq> insert (n_addr n) (n_addr ` set rp)"
proof (induction isfree rp n rule: mback.induct)
  case (2 isfree a b z t rp n)
  then show ?case by (cases "isfree t") (simp_all, blast)
qed simp

text \<open>The store after an absorption.\<close>

definition absorbed :: "u32 \<Rightarrow> u32 \<Rightarrow> (u32 \<rightharpoonup> block) \<Rightarrow> u32 \<rightharpoonup> block" where
  "absorbed a c st =
     (let bc = the (st c); ba = the (st a);
          st1 = st(a \<mapsto> ba\<lparr>b_size := b_size ba + b_size bc, b_next := b_next bc\<rparr>);
          st2 = (if b_next bc = 0 then st1 else st1(b_next bc \<mapsto> (the (st1 (b_next bc)))\<lparr>b_prev := a\<rparr>))
      in st2(c := None))"

lemma absorbed_seg:
  assumes d: "dlist st p (xs @ (a, b, z, t) # (c, b', z', t') # ys)"
  shows "dlist (absorbed a c st) p (xs @ (a, b, z + z', t) # ys)"
    "absorbed a c st c = None"
    "x \<notin> n_addr ` set (xs @ (a, b, z, t) # (c, b', z', t') # ys) \<Longrightarrow> absorbed a c st x = st x"
    "dom (absorbed a c st) \<subseteq> dom st - {c}"
proof -
  let ?q = "if ys = [] then 0 else head ys"
  have dist: "distinct (map n_addr xs)" "distinct (map n_addr ys)" "a \<noteq> c" "a \<notin> n_addr ` set xs"
    "a \<notin> n_addr ` set ys" "c \<notin> n_addr ` set xs" "c \<notin> n_addr ` set ys" "n_addr ` set xs \<inter> n_addr ` set ys = {}"
    using d by (auto simp: dlist_def)
  have sg: "seg st 0 xs a" "st a = Some \<lparr>b_base = b, b_size = z, b_next = c, b_prev = final 0 xs, b_tag = t\<rparr>"
    "st c = Some \<lparr>b_base = b', b_size = z', b_next = ?q, b_prev = a, b_tag = t'\<rparr>" "seg st c ys 0" "a \<noteq> 0" "c \<noteq> 0"
    using d by (auto simp: dlist_def seg_append)
  have p: "p = head (xs @ (a, b, z + z', t) # ys)" using d by (auto simp: dlist_def head_append)
  show "dlist (absorbed a c st) p (xs @ (a, b, z + z', t) # ys)"
  proof (cases ys)
    case Nil
    then show ?thesis using sg dist p by (auto simp: dlist_def seg_append absorbed_def Let_def)
  next
    case (Cons y ys')
    obtain ya yb yz yt where y: "y = (ya, yb, yz, yt)" by (cases y)
    have "ya \<noteq> 0" "ya \<noteq> a" "ya \<noteq> c" "ya \<notin> n_addr ` set xs" "ya \<notin> n_addr ` set ys'"
      "st ya = Some \<lparr>b_base = yb, b_size = yz, b_next = (if ys' = [] then 0 else head ys'), b_prev = c, b_tag = yt\<rparr>"
      "seg st ya ys' 0"
      using dist sg(4) Cons y by auto
    then show ?thesis using sg(1-3,5,6) dist p
      by (simp add: dlist_def seg_append absorbed_def Let_def Cons y)
  qed
  show "absorbed a c st c = None" by (simp add: absorbed_def Let_def)
  show "absorbed a c st x = st x" if "x \<notin> n_addr ` set (xs @ (a, b, z, t) # (c, b', z', t') # ys)"
    using that sg(2,3) by (cases ys) (simp_all add: absorbed_def Let_def)
  have "head ys \<in> dom st" if "ys \<noteq> []" using that sg(4) by (cases ys) auto
  then show "dom (absorbed a c st) \<subseteq> dom st - {c}"
    using sg(2,3) by (cases "ys = []") (auto simp: absorbed_def Let_def split: if_splits)
qed

text \<open>An operation changes heap memory and, within \<open>A\<close>, the store.\<close>

definition node_step :: "u32 set \<Rightarrow> 'a kblocks_scheme \<Rightarrow> 'a kblocks_scheme \<Rightarrow> bool" where
  "node_step A s s' \<longleftrightarrow> s' = s\<lparr>kmem := kmem s', bstore := bstore s'\<rparr> \<and> (\<forall>x. x \<notin> A \<longrightarrow> bstore s' x = bstore s x)"

lemma node_step_refl [simp]: "node_step A s s"
  by (simp add: node_step_def)

lemma node_step_fields:
  assumes "node_step A s s'"
  shows "first_block s' = first_block s" "vm_first_block s' = vm_first_block s"
    "KHEAP_BASE_START s' = KHEAP_BASE_START s" "KHEAP_BASE_END s' = KHEAP_BASE_END s"
proof -
  have eq: "s' = s\<lparr>kmem := kmem s', bstore := bstore s'\<rparr>" using assms by (simp add: node_step_def)
  show "first_block s' = first_block s" "vm_first_block s' = vm_first_block s"
    "KHEAP_BASE_START s' = KHEAP_BASE_START s" "KHEAP_BASE_END s' = KHEAP_BASE_END s"
    by (subst eq; simp)+
qed

lemma node_step_trans:
  assumes "node_step A s s'" "node_step B s' s''" "B \<subseteq> A"
  shows "node_step A s s''"
proof -
  have "s'' = s\<lparr>kmem := kmem s'', bstore := bstore s''\<rparr>"
    using assms(1,2) unfolding node_step_def by (cases s; cases s'; cases s'') simp
  with assms show ?thesis by (auto simp: node_step_def)
qed

subsection \<open>The contract of the allocator\<close>

text \<open>
  What a client of the heap with room to spare relies on: an allocation returns a pointer that was
  not live, a release of a live pointer succeeds, and both only change the heap's own memory.
\<close>

locale node_alloc =
  fixes malloc :: "u32 \<Rightarrow> 'a kblocks_scheme \<Rightarrow> (u32 \<times> 'a kblocks_scheme) res"
    and free :: "u32 \<Rightarrow> 'a kblocks_scheme \<Rightarrow> 'a kblocks_scheme res"
    and live :: "'a kblocks_scheme \<Rightarrow> u32 set"
    and wf :: "'a kblocks_scheme \<Rightarrow> bool"
    and room :: "'a kblocks_scheme \<Rightarrow> bool"
  assumes malloc_room: "wf s \<Longrightarrow> room s \<Longrightarrow> \<exists>p m. malloc 20 s = Inr (p, s\<lparr>kmem := m\<rparr>) \<and> p \<noteq> 0 \<and>
      p \<notin> live s \<and> live (s\<lparr>kmem := m\<rparr>) = insert p (live s) \<and> wf (s\<lparr>kmem := m\<rparr>)"
    and free_live: "wf s \<Longrightarrow> p \<in> live s \<Longrightarrow>
      \<exists>m. free p s = Inr (s\<lparr>kmem := m\<rparr>) \<and> live (s\<lparr>kmem := m\<rparr>) = live s - {p} \<and> wf (s\<lparr>kmem := m\<rparr>)"
    and live_bstore [simp]: "live (bstore_update g s) = live s"
    and wf_bstore [simp]: "wf (bstore_update g s) = wf s"
begin

lemma absorb_refines:
  assumes "wf s" "dom (bstore s) \<subseteq> live s" "dlist (bstore s) p (xs @ (a, b, z, t) # (c, b', z', t') # ys)"
  shows "\<exists>m. absorb free a c s = Inr (s\<lparr>kmem := m, bstore := absorbed a c (bstore s)\<rparr>)
    \<and> wf (s\<lparr>kmem := m, bstore := absorbed a c (bstore s)\<rparr>)
    \<and> live (s\<lparr>kmem := m, bstore := absorbed a c (bstore s)\<rparr>) = live s - {c}"
proof -
  let ?q = "if ys = [] then 0 else head ys"
  have sg: "bstore s a = Some \<lparr>b_base = b, b_size = z, b_next = c, b_prev = final 0 xs, b_tag = t\<rparr>"
    "bstore s c = Some \<lparr>b_base = b', b_size = z', b_next = ?q, b_prev = a, b_tag = t'\<rparr>"
    "seg (bstore s) c ys 0" "a \<noteq> c"
    using assms(3) by (auto simp: dlist_def seg_append)
  have c: "c \<in> live s" using assms(2) sg(2) by auto
  define bc where "bc = the (bstore s c)"
  define s1 where "s1 = s\<lparr>bstore := (bstore s)(a \<mapsto> (the (bstore s a))\<lparr>b_size := z + z', b_next := ?q\<rparr>)\<rparr>"
  define s2 where "s2 = (if ?q = 0 then s1 else put ?q ((the (bstore s1 ?q))\<lparr>b_prev := a\<rparr>) s1)"
  have q: "bstore s1 ?q \<noteq> None" if "?q \<noteq> 0"
    using that sg(3) by (cases ys) (auto simp: s1_def)
  have "wf s2" "live s2 = live s" using assms(1) by (auto simp: s2_def s1_def put_def)
  then obtain m where m: "free c s2 = Inr (s2\<lparr>kmem := m\<rparr>)" "live (s2\<lparr>kmem := m\<rparr>) = live s - {c}" "wf (s2\<lparr>kmem := m\<rparr>)"
    using free_live [of s2 c] c by auto
  have st: "s\<lparr>kmem := m, bstore := absorbed a c (bstore s)\<rparr> = s2\<lparr>kmem := m, bstore := (bstore s2)(c := None)\<rparr>"
    using sg(1,2) by (simp add: absorbed_def s2_def s1_def put_def Let_def)
  have "absorb free a c s = free_node free c s2"
    using sg(1,2,4) q by (auto simp: absorb_def deref_def upd_def put_def set_prev_if_def s2_def s1_def)
  also have "\<dots> = Inr (s2\<lparr>kmem := m, bstore := (bstore s2)(c := None)\<rparr>)"
    using m(1) by (simp add: free_node_def)
  finally show ?thesis using m(2,3) wf_bstore live_bstore unfolding st [symmetric]
    by (metis (no_types, lifting) st kblocks.update_convs(1))
qed

lemma absorb_step:
  assumes "wf s" "dom (bstore s) \<subseteq> live s" "dlist (bstore s) p (xs @ (a, b, z, t) # (c, b', z', t') # ys)"
  shows "\<exists>s'. absorb free a c s = Inr s' \<and> wf s' \<and> dom (bstore s') \<subseteq> live s'
    \<and> dlist (bstore s') p (xs @ (a, b, z + z', t) # ys)
    \<and> node_step (n_addr ` set (xs @ (a, b, z, t) # (c, b', z', t') # ys)) s s'"
proof -
  let ?st = "absorbed a c (bstore s)"
  note ab = absorbed_seg [OF assms(3)]
  from absorb_refines [OF assms] obtain m where m: "absorb free a c s = Inr (s\<lparr>kmem := m, bstore := ?st\<rparr>)"
    "wf (s\<lparr>kmem := m, bstore := ?st\<rparr>)" "live (s\<lparr>kmem := m, bstore := ?st\<rparr>) = live s - {c}" by blast
  have "dom ?st \<subseteq> live s - {c}" using ab(4) assms(2) by blast
  then show ?thesis
    using m ab(1,3)
    by (intro exI [of _ "s\<lparr>kmem := m, bstore := ?st\<rparr>"] conjI) (auto simp: node_step_def)
qed

lemma merge_prev_refines:
  assumes "wf s" "dom (bstore s) \<subseteq> live s" "dlist (bstore s) p (rev rp @ n # ys)" "length rp < f"
    "mback isfree rp n = (rp', n')"
  shows "\<exists>s'. merge_prev isfree free f (n_addr n) (head rp) s = Inr (n_addr n', s') \<and> wf s'
    \<and> dom (bstore s') \<subseteq> live s' \<and> dlist (bstore s') p (rev rp' @ n' # ys)
    \<and> node_step (n_addr ` set (rev rp @ n # ys)) s s'"
  using assms
proof (induction rp arbitrary: n s f)
  case Nil
  then obtain g where "f = Suc g" by (cases f) auto
  with Nil show ?case by auto
next
  case (Cons x rp)
  obtain a b z t where x: "x = (a, b, z, t)" by (cases x)
  obtain c b' z' t' where n: "n = (c, b', z', t')" by (cases n)
  obtain g where f: "f = Suc g" "length rp < g" using Cons.prems(4) by (cases f) auto
  have d: "dlist (bstore s) p (rev rp @ (a, b, z, t) # (c, b', z', t') # ys)"
    using Cons.prems(3) by (simp add: x n)
  then have a0: "a \<noteq> 0" and sa: "bstore s a = Some \<lparr>b_base = b, b_size = z, b_next = c, b_prev = final 0 (rev rp), b_tag = t\<rparr>"
    by (simp_all add: dlist_def seg_append)
  show ?case
  proof (cases "isfree t")
    case False
    with Cons.prems a0 sa show ?thesis by (auto simp: x n f deref_def)
  next
    case True
    from absorb_step [OF Cons.prems(1,2) d] obtain s1 where s1: "absorb free a c s = Inr s1" "wf s1"
      "dom (bstore s1) \<subseteq> live s1" "dlist (bstore s1) p (rev rp @ (a, b, z + z', t) # ys)"
      "node_step (n_addr ` set (rev rp @ (a, b, z, t) # (c, b', z', t') # ys)) s s1" by blast
    then have sa1: "deref a s1 = Inr \<lparr>b_base = b, b_size = z + z', b_next = (if ys = [] then 0 else head ys), b_prev = head rp, b_tag = t\<rparr>"
      by (cases rp) (auto simp: dlist_def seg_append deref_def final_def)
    have "mback isfree rp (a, b, z + z', t) = (rp', n')" using Cons.prems(5) True by (simp add: x n)
    from Cons.IH [OF s1(2,3,4) f(2) this] obtain s' where
      s': "merge_prev isfree free g a (head rp) s1 = Inr (n_addr n', s')" "wf s'" "dom (bstore s') \<subseteq> live s'"
      "dlist (bstore s') p (rev rp' @ n' # ys)" "node_step (n_addr ` set (rev rp @ (a, b, z + z', t) # ys)) s1 s'"
      by auto
    have "node_step (n_addr ` set (rev (x # rp) @ n # ys)) s s'"
      by (rule node_step_trans [OF _ s'(5)]) (use s1(5) in \<open>auto simp: x n\<close>)
    moreover have "merge_prev isfree free f (n_addr n) (head (x # rp)) s = Inr (n_addr n', s')"
      using True a0 sa s1(1) sa1 s'(1) by (simp add: x n f deref_def [of a s])
    ultimately show ?thesis using s'(2-4) by blast
  qed
qed

lemma merge_next_refines:
  assumes "wf s" "dom (bstore s) \<subseteq> live s" "dlist (bstore s) p (xs @ n # ys)" "length ys < f"
    "mfwd isfree n ys = (n', ys')"
  shows "\<exists>s'. merge_next isfree free f (n_addr n) (head ys) s = Inr s' \<and> wf s'
    \<and> dom (bstore s') \<subseteq> live s' \<and> dlist (bstore s') p (xs @ n' # ys')
    \<and> node_step (n_addr ` set (xs @ n # ys)) s s'"
  using assms
proof (induction ys arbitrary: n s f)
  case Nil
  then obtain g where "f = Suc g" by (cases f) auto
  with Nil show ?case by auto
next
  case (Cons x ys)
  obtain a b z t where n: "n = (a, b, z, t)" by (cases n)
  obtain c b' z' t' where x: "x = (c, b', z', t')" by (cases x)
  obtain g where f: "f = Suc g" "length ys < g" using Cons.prems(4) by (cases f) auto
  have d: "dlist (bstore s) p (xs @ (a, b, z, t) # (c, b', z', t') # ys)"
    using Cons.prems(3) by (simp add: x n)
  then have c0: "c \<noteq> 0" and sc: "bstore s c = Some \<lparr>b_base = b', b_size = z', b_next = (if ys = [] then 0 else head ys), b_prev = a, b_tag = t'\<rparr>"
    by (simp_all add: dlist_def seg_append)
  show ?case
  proof (cases "isfree t'")
    case False
    with Cons.prems c0 sc show ?thesis by (auto simp: x n f deref_def)
  next
    case True
    from absorb_step [OF Cons.prems(1,2) d] obtain s1 where s1: "absorb free a c s = Inr s1" "wf s1"
      "dom (bstore s1) \<subseteq> live s1" "dlist (bstore s1) p (xs @ (a, b, z + z', t) # ys)"
      "node_step (n_addr ` set (xs @ (a, b, z, t) # (c, b', z', t') # ys)) s s1" by blast
    then have sa1: "deref a s1 = Inr \<lparr>b_base = b, b_size = z + z', b_next = head ys, b_prev = final 0 xs, b_tag = t\<rparr>"
      by (cases ys) (auto simp: dlist_def seg_append deref_def)
    have "mfwd isfree (a, b, z + z', t) ys = (n', ys')" using Cons.prems(5) True by (simp add: x n)
    from Cons.IH [OF s1(2,3,4) f(2) this] obtain s' where
      s': "merge_next isfree free g a (head ys) s1 = Inr s'" "wf s'" "dom (bstore s') \<subseteq> live s'"
      "dlist (bstore s') p (xs @ n' # ys')" "node_step (n_addr ` set (xs @ (a, b, z + z', t) # ys)) s1 s'"
      by auto
    have "node_step (n_addr ` set (xs @ n # x # ys)) s s'"
      by (rule node_step_trans [OF _ s'(5)]) (use s1(5) in \<open>auto simp: x n\<close>)
    moreover have "merge_next isfree free f (n_addr n) (head (x # ys)) s = Inr s'"
      using True c0 sc s1(1) sa1 s'(1) by (simp add: x n f deref_def [of c s])
    ultimately show ?thesis using s'(2-4) by blast
  qed
qed

lemma split_node_refines:
  assumes "wf s" "room s" "dom (bstore s) \<subseteq> live s" "dlist (bstore s) p (xs @ (a, b, z, t) # ys)"
  shows "\<exists>s' new. split_node malloc a sz ft ut s = Inr (b, s') \<and> wf s' \<and> dom (bstore s') \<subseteq> live s'
    \<and> new \<notin> live s \<and> dlist (bstore s') p (xs @ (a, b, sz, ut) # (new, b + sz, z - sz, ft) # ys)
    \<and> node_step (insert new (n_addr ` set (xs @ (a, b, z, t) # ys))) s s'"
proof -
  from malloc_room [OF assms(1,2)] obtain new m where m: "malloc 20 s = Inr (new, s\<lparr>kmem := m\<rparr>)" "new \<noteq> 0"
    "new \<notin> live s" "live (s\<lparr>kmem := m\<rparr>) = insert new (live s)" "wf (s\<lparr>kmem := m\<rparr>)" by blast
  let ?q = "if ys = [] then 0 else head ys"
  let ?nb = "\<lparr>b_base = b + sz, b_size = z - sz, b_next = ?q, b_prev = a, b_tag = ft\<rparr>"
  let ?cb = "\<lparr>b_base = b, b_size = sz, b_next = new, b_prev = final 0 xs, b_tag = ut\<rparr>"
  define st1 where "st1 = (bstore s)(new \<mapsto> ?nb)"
  define st2 where "st2 = (if ?q = 0 then st1 else st1(?q \<mapsto> (the (st1 ?q))\<lparr>b_prev := new\<rparr>))"
  let ?s' = "s\<lparr>kmem := m, bstore := st2(a \<mapsto> ?cb)\<rparr>"
  have fresh: "bstore s new = None" using m(3) assms(3) by auto
  have sg: "seg (bstore s) 0 xs a" "bstore s a = Some \<lparr>b_base = b, b_size = z, b_next = ?q, b_prev = final 0 xs, b_tag = t\<rparr>"
    "seg (bstore s) a ys 0" "a \<noteq> 0"
    using assms(4) by (auto simp: dlist_def seg_append)
  have dist: "distinct (map n_addr xs)" "distinct (map n_addr ys)" "a \<notin> n_addr ` set xs"
    "a \<notin> n_addr ` set ys" "n_addr ` set xs \<inter> n_addr ` set ys = {}"
    using assms(4) by (auto simp: dlist_def)
  have nn: "new \<noteq> a" "new \<notin> n_addr ` set xs" "new \<notin> n_addr ` set ys"
    using fresh sg seg_dom [OF sg(1)] seg_dom [OF sg(3)] by auto
  have p: "p = head (xs @ (a, b, sz, ut) # (new, b + sz, z - sz, ft) # ys)"
    using assms(4) by (auto simp: dlist_def head_append)
  have dl: "dlist (st2(a \<mapsto> ?cb)) p (xs @ (a, b, sz, ut) # (new, b + sz, z - sz, ft) # ys)
      \<and> st2 a = bstore s a \<and> dom st2 \<subseteq> insert new (dom (bstore s)) \<and> (?q \<noteq> 0 \<longrightarrow> st1 ?q \<noteq> None)
      \<and> (\<forall>x. x \<notin> insert new (n_addr ` set ys) \<longrightarrow> st2 x = bstore s x)"
  proof (cases ys)
    case Nil
    then show ?thesis using sg dist nn p m(2) by (auto simp: dlist_def seg_append st1_def st2_def)
  next
    case (Cons y ys')
    obtain ya yb yz yt where y: "y = (ya, yb, yz, yt)" by (cases y)
    have "ya \<noteq> 0" "ya \<noteq> a" "ya \<noteq> new" "ya \<notin> n_addr ` set xs" "ya \<notin> n_addr ` set ys'" "new \<notin> n_addr ` set ys'"
      "bstore s ya = Some \<lparr>b_base = yb, b_size = yz, b_next = (if ys' = [] then 0 else head ys'), b_prev = a, b_tag = yt\<rparr>"
      "seg (bstore s) ya ys' 0"
      using dist sg(3) nn Cons y by auto
    then show ?thesis using sg(1,2,4) dist nn p m(2)
      by (auto simp: dlist_def seg_append st1_def st2_def Cons y)
  qed
  have "split_node malloc a sz ft ut s = Inr (b, ?s')"
    using m(1) sg(2) dl nn
    by (auto simp: split_node_def deref_def put_def upd_def set_prev_if_def Let_def st1_def st2_def split: if_splits)
  moreover have "wf ?s'" "live ?s' = insert new (live s)"
    using m(4,5) wf_bstore [of "\<lambda>_. st2(a \<mapsto> ?cb)" "s\<lparr>kmem := m\<rparr>"] live_bstore [of "\<lambda>_. st2(a \<mapsto> ?cb)" "s\<lparr>kmem := m\<rparr>"]
    by simp_all
  moreover have "dom st2 \<subseteq> insert new (live s)" "a \<in> live s" using dl assms(3) sg(2) by blast+
  then have "dom (bstore ?s') \<subseteq> insert new (live s)" by auto
  moreover have "node_step (insert new (n_addr ` set (xs @ (a, b, z, t) # ys))) s ?s'"
    using dl by (auto simp: node_step_def)
  ultimately show ?thesis using dl m(3) by (intro exI [of _ ?s'] exI [of _ new]) simp
qed

lemma release_node_refines:
  assumes "wf s" "dom (bstore s) \<subseteq> live s" "dlist (bstore s) p (rev rp @ (a, b, z, t) # ys)"
    "length rp + length ys < f" "mback isfree rp (a, b, z, ft) = (rp', n')" "mfwd isfree n' ys = (n'', ys'')"
  shows "\<exists>s'. release_node isfree free f ft a s = Inr s' \<and> wf s' \<and> dom (bstore s') \<subseteq> live s'
    \<and> dlist (bstore s') p (rev rp' @ n'' # ys'')
    \<and> node_step (n_addr ` set (rev rp @ (a, b, z, t) # ys)) s s'"
proof -
  let ?A = "n_addr ` set (rev rp @ (a, b, z, t) # ys)"
  let ?b = "\<lparr>b_base = b, b_size = z, b_next = (if ys = [] then 0 else head ys), b_prev = head rp, b_tag = ft\<rparr>"
  let ?s1 = "s\<lparr>bstore := (bstore s)(a \<mapsto> ?b)\<rparr>"
  have hd_rp: "final 0 (rev rp) = head rp" by (cases rp) (auto simp: final_def)
  have sa: "bstore s a = Some \<lparr>b_base = b, b_size = z, b_next = (if ys = [] then 0 else head ys), b_prev = head rp, b_tag = t\<rparr>"
    using assms(3) hd_rp by (simp add: dlist_def seg_append)
  have d1: "dlist (bstore ?s1) p (rev rp @ (a, b, z, ft) # ys)"
    using assms(3) hd_rp by (auto simp: dlist_def seg_append head_append)
  have w1: "wf ?s1" "dom (bstore ?s1) \<subseteq> live ?s1" using assms(1,2) sa by auto
  have "length rp < f" using assms(4) by simp
  from merge_prev_refines [OF w1 d1 this assms(5)] obtain s2 where
    s2: "merge_prev isfree free f a (head rp) ?s1 = Inr (n_addr n', s2)" "wf s2" "dom (bstore s2) \<subseteq> live s2"
    "dlist (bstore s2) p (rev rp' @ n' # ys)" "node_step (n_addr ` set (rev rp @ (a, b, z, ft) # ys)) ?s1 s2" by auto
  have "length ys < f" using assms(4) by simp
  from merge_next_refines [OF s2(2,3,4) this assms(6)] obtain s' where
    s': "merge_next isfree free f (n_addr n') (head ys) s2 = Inr s'" "wf s'" "dom (bstore s') \<subseteq> live s'"
    "dlist (bstore s') p (rev rp' @ n'' # ys'')" "node_step (n_addr ` set (rev rp' @ n' # ys)) s2 s'" by blast
  have dn: "deref (n_addr n') s2 = Inr b2 \<Longrightarrow> b_next b2 = head ys" for b2
    using s2(4) by (cases n'; cases ys) (auto simp: dlist_def seg_append deref_def)
  have "\<exists>b2. deref (n_addr n') s2 = Inr b2"
    using s2(4) by (cases n') (auto simp: dlist_def seg_append deref_def)
  then have "release_node isfree free f ft a s = Inr s'"
    using sa s2(1) s'(1) dn by (auto simp: release_node_def upd_def deref_def [of a] put_def)
  moreover have sub: "n_addr ` set (rev rp' @ n' # ys) \<subseteq> ?A"
    using mback_addrs [OF assms(5)] by auto
  have "node_step ?A ?s1 s'"
    by (rule node_step_trans [OF _ s'(5) sub]) (use s2(5) in simp)
  then have "node_step ?A s s'"
    by (rule node_step_trans [rotated]) (auto simp: node_step_def)
  ultimately show ?thesis using s'(2-4) by blast
qed

end

subsection \<open>The kernel heap satisfies the contract\<close>

interpretation kh: node_alloc "kmalloc mapm pds (Suc f)" "kfree (Suc f)" heap_live "heap_wf f" "heap_room 20 f"
  for mapm :: "u32 \<Rightarrow> u32 \<Rightarrow> u32 \<Rightarrow> 'a kblocks_scheme \<Rightarrow> 'a kblocks_scheme res" and pds f
proof (unfold_locales, goal_cases)
  case (1 s)
  then show ?case using kmalloc_client [of 20 f s mapm pds] by (simp del: kmalloc.simps)
next
  case (2 s p)
  then show ?case by (rule kfree_client)
qed (simp_all add: heap_live_def heap_wf_def heap_ok_def)

end
