(* ===== verification/VK_Phys.thy ===== *)
theory VK_Phys
  imports VK_Blocks
begin

section \<open>Physical memory (memory/physical.c)\<close>

text \<open>
  The physical memory map: the list of blocks built from the multiboot memory map, reservation of
  a block of pages, reservation of a given address, release with merging. The abstract state is
  the node list; \<open>contig\<close> says that it tiles an address range, \<open>spec_reserve\<close> is first fit on it.
\<close>

definition PHYS_FREE_BLOCK_TYPE :: u32 where "PHYS_FREE_BLOCK_TYPE = 1"
definition PHYS_KERNEL_BLOCK_TYPE :: u8 where "PHYS_KERNEL_BLOCK_TYPE = 10"
definition PHYS_KERNELF_BLOCK_TYPE :: u8 where "PHYS_KERNELF_BLOCK_TYPE = 11"
definition PHYS_USER_BLOCK_TYPE :: u8 where "PHYS_USER_BLOCK_TYPE = 20"
definition U32_MAX :: u64 where "U32_MAX = 4294967295"
definition KHEAP_PHYS_START :: u32 where "KHEAP_PHYS_START = 0x800000"

text \<open>An entry of the memory map the boot loader passes; the map itself is a function of the address.\<close>

record memory_map =
  mm_size :: u32
  mm_base_addr :: u64
  mm_length :: u64
  mm_type :: u32

subsection \<open>Operations\<close>

text \<open>A block fresh from the heap has whatever contents the heap has there (\<open>junk\<close>).\<close>

definition new_pblock :: "(u32 \<Rightarrow> 'a kblocks_scheme \<Rightarrow> (u32 \<times> 'a kblocks_scheme) res) \<Rightarrow> block
    \<Rightarrow> 'a kblocks_scheme \<Rightarrow> (u32 \<times> 'a kblocks_scheme) res" where
  "new_pblock malloc junk s = bindR (malloc 20 s) (\<lambda>(p, s). Inr (p, put p junk s))"

fun reserve_block_from :: "(u32 \<Rightarrow> 'a kblocks_scheme \<Rightarrow> (u32 \<times> 'a kblocks_scheme) res) \<Rightarrow> nat
    \<Rightarrow> u32 \<Rightarrow> u8 \<Rightarrow> u32 \<Rightarrow> 'a kblocks_scheme \<Rightarrow> (u32 \<times> 'a kblocks_scheme) res" where
  "reserve_block_from malloc 0 sz type cur s = Inl NoFuel"
| "reserve_block_from malloc (Suc f) sz type cur s =
     (if cur = 0 then Inl (Fatal ''Trying to reserve more physical memory than available'')
      else bindR (deref cur s) (\<lambda>b.
        if 0x100000 \<le> b_base b \<and> b_tag b = PHYS_FREE_BLOCK_TYPE then
          (if b_size b < sz then reserve_block_from malloc f sz type (b_next b) s
           else split_node malloc cur sz 1 (ucast type) s)
        else reserve_block_from malloc f sz type (b_next b) s))"

definition reserve_block :: "(u32 \<Rightarrow> 'a kblocks_scheme \<Rightarrow> (u32 \<times> 'a kblocks_scheme) res) \<Rightarrow> nat
    \<Rightarrow> u32 \<Rightarrow> u8 \<Rightarrow> 'a kblocks_scheme \<Rightarrow> (u32 \<times> 'a kblocks_scheme) res" where
  "reserve_block malloc f sz type s = reserve_block_from malloc f (alignup sz 4096) type (first_block s) s"

text \<open>The block starts at the wanted address: split off the rest; \<^verbatim>\<open>next\<close> is dereferenced unchecked.\<close>

definition reserve_specific_at :: "(u32 \<Rightarrow> 'a kblocks_scheme \<Rightarrow> (u32 \<times> 'a kblocks_scheme) res)
    \<Rightarrow> u32 \<Rightarrow> u8 \<Rightarrow> u32 \<Rightarrow> 'a kblocks_scheme \<Rightarrow> (u32 \<times> 'a kblocks_scheme) res" where
  "reserve_specific_at malloc sz type cur s =
     bindR (malloc 20 s) (\<lambda>(new, s).
     bindR (deref cur s) (\<lambda>bc.
     let nxt = b_next bc;
         s = put new \<lparr>b_base = b_base bc + sz, b_size = b_size bc - sz, b_next = nxt, b_prev = cur,
               b_tag = PHYS_FREE_BLOCK_TYPE\<rparr> s in
     bindR (upd nxt (\<lambda>b. b\<lparr>b_prev := new\<rparr>) s) (\<lambda>s.
     bindR (upd cur (\<lambda>b. b\<lparr>b_size := sz, b_next := new, b_tag := ucast type\<rparr>) s) (\<lambda>s.
     bindR (deref cur s) (\<lambda>b. Inr (b_base b, s))))))"

text \<open>The wanted address is inside the block: a block before and a block after are split off.\<close>

definition reserve_specific_inside :: "(u32 \<Rightarrow> 'a kblocks_scheme \<Rightarrow> (u32 \<times> 'a kblocks_scheme) res)
    \<Rightarrow> u32 \<Rightarrow> u32 \<Rightarrow> u8 \<Rightarrow> u32 \<Rightarrow> 'a kblocks_scheme \<Rightarrow> (u32 \<times> 'a kblocks_scheme) res" where
  "reserve_specific_inside malloc addr sz type cur s =
     bindR (malloc 20 s) (\<lambda>(bef, s).
     bindR (deref cur s) (\<lambda>bc.
     let s = put bef \<lparr>b_base = b_base bc, b_size = addr - sz, b_next = cur, b_prev = b_prev bc,
               b_tag = PHYS_FREE_BLOCK_TYPE\<rparr> s in
     bindR (upd (b_prev bc) (\<lambda>b. b\<lparr>b_next := bef\<rparr>) s) (\<lambda>s.
     bindR (upd cur (\<lambda>b. b\<lparr>b_prev := bef, b_base := addr, b_size := b_size b - (addr - sz)\<rparr>) s) (\<lambda>s.
     bindR (malloc 20 s) (\<lambda>(aft, s).
     bindR (deref cur s) (\<lambda>bc.
     let s = put aft \<lparr>b_base = b_base bc + sz, b_size = b_size bc - sz, b_next = b_next bc, b_prev = cur,
               b_tag = PHYS_FREE_BLOCK_TYPE\<rparr> s in
     bindR (upd cur (\<lambda>b. b\<lparr>b_next := aft, b_size := sz, b_tag := ucast type\<rparr>) s) (\<lambda>s.
     bindR (deref cur s) (\<lambda>b. Inr (b_base b, s)))))))))"

fun reserve_specific_from :: "(u32 \<Rightarrow> 'a kblocks_scheme \<Rightarrow> (u32 \<times> 'a kblocks_scheme) res) \<Rightarrow> nat
    \<Rightarrow> u32 \<Rightarrow> u32 \<Rightarrow> u8 \<Rightarrow> u32 \<Rightarrow> 'a kblocks_scheme \<Rightarrow> (u32 \<times> 'a kblocks_scheme) res" where
  "reserve_specific_from malloc 0 addr sz type cur s = Inl NoFuel"
| "reserve_specific_from malloc (Suc f) addr sz type cur s =
     (if cur = 0 then Inl (Fatal ''Trying to reserve specific failed'')
      else bindR (deref cur s) (\<lambda>b.
        if b_base b = addr \<and> b_tag b = PHYS_FREE_BLOCK_TYPE then
          (if b_size b < sz then Inl (Fatal ''Trying to reserve specific failed'')
           else reserve_specific_at malloc sz type cur s)
        else if b_base b < addr \<and> addr < b_base b + b_size b then
          (if b_tag b \<noteq> PHYS_FREE_BLOCK_TYPE \<or> b_size b < sz then Inl (Fatal ''Trying to reserve specific failed'')
           else reserve_specific_inside malloc addr sz type cur s)
        else reserve_specific_from malloc f addr sz type (b_next b) s))"

definition reserve_specific :: "(u32 \<Rightarrow> 'a kblocks_scheme \<Rightarrow> (u32 \<times> 'a kblocks_scheme) res) \<Rightarrow> nat
    \<Rightarrow> u32 \<Rightarrow> u32 \<Rightarrow> u8 \<Rightarrow> 'a kblocks_scheme \<Rightarrow> (u32 \<times> 'a kblocks_scheme) res" where
  "reserve_specific malloc f addr sz type s = reserve_specific_from malloc f addr sz type (first_block s) s"

fun free_block_from :: "(u32 \<Rightarrow> 'a kblocks_scheme \<Rightarrow> 'a kblocks_scheme res) \<Rightarrow> nat
    \<Rightarrow> u32 \<Rightarrow> u32 \<Rightarrow> nat \<Rightarrow> 'a kblocks_scheme \<Rightarrow> 'a kblocks_scheme res" where
  "free_block_from free f base_addr cur 0 s = Inl NoFuel"
| "free_block_from free f base_addr cur (Suc k) s =
     (if cur = 0 then Inl (Fatal ''Trying to free an unknown block'')
      else bindR (deref cur s) (\<lambda>b.
        if b_base b = base_addr then
          (if b_tag b \<noteq> ucast PHYS_KERNELF_BLOCK_TYPE \<and> b_tag b \<noteq> ucast PHYS_USER_BLOCK_TYPE
           then Inl (Fatal ''Trying to free a non-freeable block'')
           else release_node (\<lambda>t. t = PHYS_FREE_BLOCK_TYPE) free f PHYS_FREE_BLOCK_TYPE cur s)
        else free_block_from free f base_addr (b_next b) k s))"

definition free_block :: "(u32 \<Rightarrow> 'a kblocks_scheme \<Rightarrow> 'a kblocks_scheme res) \<Rightarrow> nat
    \<Rightarrow> u32 \<Rightarrow> 'a kblocks_scheme \<Rightarrow> 'a kblocks_scheme res" where
  "free_block free f base_addr s = free_block_from free f base_addr (first_block s) f s"

fun get_block_from :: "nat \<Rightarrow> u32 \<Rightarrow> u32 \<Rightarrow> 'a kblocks_scheme \<Rightarrow> u32 res" where
  "get_block_from 0 some_addr cur s = Inl NoFuel"
| "get_block_from (Suc f) some_addr cur s =
     (if cur = 0 then Inl (Fatal ''This address is not present in memory'')
      else bindR (deref cur s) (\<lambda>b.
        if b_base b < some_addr \<and> some_addr < b_base b + b_size b then Inr cur
        else get_block_from f some_addr (b_next b) s))"

definition get_block :: "nat \<Rightarrow> u32 \<Rightarrow> 'a kblocks_scheme \<Rightarrow> u32 res" where
  "get_block f some_addr s = get_block_from f some_addr (first_block s) s"

fun get_free_mem_from :: "nat \<Rightarrow> u32 \<Rightarrow> u32 \<Rightarrow> 'a kblocks_scheme \<Rightarrow> u32 res" where
  "get_free_mem_from 0 tr cur s = Inl NoFuel"
| "get_free_mem_from (Suc f) tr cur s =
     (if cur = 0 then Inr tr
      else bindR (deref cur s) (\<lambda>b.
        get_free_mem_from f (if b_tag b = 1 \<and> 0x100000 < b_base b then tr + b_size b else tr) (b_next b) s))"

definition get_free_mem :: "nat \<Rightarrow> 'a kblocks_scheme \<Rightarrow> u32 res" where
  "get_free_mem f s = get_free_mem_from f 0 (first_block s) s"

text \<open>The loop of \<^verbatim>\<open>physmem_get\<close> over the \<open>mmap_length\<close> bytes of the map, 24 per entry.\<close>

fun physmem_loop :: "(u32 \<Rightarrow> 'a kblocks_scheme \<Rightarrow> (u32 \<times> 'a kblocks_scheme) res) \<Rightarrow> block \<Rightarrow> (u32 \<Rightarrow> memory_map)
    \<Rightarrow> u32 \<Rightarrow> nat \<Rightarrow> u32 \<Rightarrow> u32 \<Rightarrow> u32 \<Rightarrow> u32 \<Rightarrow> 'a kblocks_scheme \<Rightarrow> 'a kblocks_scheme res" where
  "physmem_loop malloc junk mm mmap_length 0 i mmap prev cur s = Inl NoFuel"
| "physmem_loop malloc junk mm mmap_length (Suc f) i mmap prev cur s =
     (if \<not> i < mmap_length then Inr s
      else
        let e = mm mmap;
            s = (if first_block s = 0 then s\<lparr>first_block := cur\<rparr> else s);
            s = s\<lparr>detected_memory := detected_memory s + mm_length e\<rparr>;
            i' = i + 24;
            mmap' = mmap + mm_size e + 4 in
        if mm_base_addr e < U32_MAX then
          let sz = (if mm_length e < U32_MAX then ucast (mm_length e) else 0xFFFFFFFF - 1) in
          bindR (upd cur (\<lambda>b. b\<lparr>b_base := ucast (mm_base_addr e), b_size := sz, b_tag := mm_type e, b_prev := prev\<rparr>)
            (s\<lparr>detected_memory_below32 := detected_memory_below32 s + sz\<rparr>)) (\<lambda>s.
          if i' < mmap_length then
            bindR (new_pblock malloc junk s) (\<lambda>(new, s).
            bindR (upd cur (\<lambda>b. b\<lparr>b_next := new\<rparr>) s) (\<lambda>s.
            physmem_loop malloc junk mm mmap_length f i' mmap' cur new s))
          else physmem_loop malloc junk mm mmap_length f i' mmap prev cur s)
        else
          physmem_loop malloc junk mm mmap_length f i' (if i' < mmap_length then mmap' else mmap) prev cur s)"

definition physmem_get :: "(u32 \<Rightarrow> 'a kblocks_scheme \<Rightarrow> (u32 \<times> 'a kblocks_scheme) res) \<Rightarrow> block \<Rightarrow> (u32 \<Rightarrow> memory_map)
    \<Rightarrow> u32 \<Rightarrow> u32 \<Rightarrow> nat \<Rightarrow> 'a kblocks_scheme \<Rightarrow> 'a kblocks_scheme res" where
  "physmem_get malloc junk mm mmap_addr mmap_length f s =
     bindR (new_pblock malloc junk s) (\<lambda>(p, s).
     bindR (physmem_loop malloc junk mm mmap_length f 0 (mmap_addr + 0xC0000000) 0 p (s\<lparr>first_block := p\<rparr>)) (\<lambda>s.
     bindR (reserve_specific malloc f 0x100000 0x300000 PHYS_KERNEL_BLOCK_TYPE s) (\<lambda>(_, s).
     bindR (reserve_specific malloc f KHEAP_PHYS_START KHEAP_BASE_SIZE PHYS_KERNEL_BLOCK_TYPE s) (\<lambda>(_, s).
     Inr s))))"

subsection \<open>First fit on node lists\<close>

definition fits :: "u32 \<Rightarrow> node \<Rightarrow> bool" where
  "fits sz n \<longleftrightarrow> 0x100000 \<le> n_base n \<and> n_tag n = PHYS_FREE_BLOCK_TYPE \<and> sz \<le> n_size n"

text \<open>The nodes before the first that fits, that node, the nodes after.\<close>

fun first_fit :: "(node \<Rightarrow> bool) \<Rightarrow> node list \<Rightarrow> (node list \<times> node \<times> node list) option" where
  "first_fit ok [] = None"
| "first_fit ok (n # ns) =
     (if ok n then Some ([], n, ns) else map_option (\<lambda>(xs, r). (n # xs, r)) (first_fit ok ns))"

lemma first_fit_Some:
  "first_fit ok ns = Some (xs, n, ys) \<Longrightarrow> ns = xs @ n # ys \<and> ok n \<and> (\<forall>m \<in> set xs. \<not> ok m)"
  by (induction ns arbitrary: xs) (auto split: if_splits)

text \<open>The node list tiles the addresses from \<open>lo\<close> to \<open>hi\<close>.\<close>

fun contig :: "nat \<Rightarrow> node list \<Rightarrow> nat \<Rightarrow> bool" where
  "contig lo [] hi \<longleftrightarrow> lo = hi"
| "contig lo ((a, b, z, t) # ns) hi \<longleftrightarrow> unat b = lo \<and> contig (lo + unat z) ns hi"

definition span :: "node list \<Rightarrow> nat" where
  "span ns = sum_list (map (\<lambda>n. unat (n_size n)) ns)"

lemma contig_append:
  "contig lo (xs @ ys) hi \<longleftrightarrow> (\<exists>mid. contig lo xs mid \<and> contig mid ys hi)"
  by (induction xs arbitrary: lo) auto

lemma contig_le: "contig lo ns hi \<Longrightarrow> lo \<le> hi"
  by (induction lo ns hi rule: contig.induct) auto

lemma contig_span: "contig lo ns hi \<Longrightarrow> hi = lo + span ns"
  by (induction lo ns hi rule: contig.induct) (auto simp: span_def)

lemma contig_bound:
  assumes "contig lo (xs @ (a, b, z, t) # ys) hi"
  shows "unat b + unat z \<le> hi"
  using assms contig_le by (auto simp: contig_append)

lemma contig_split:
  assumes "contig lo (xs @ (a, b, z, t) # ys) hi" "hi < 2 ^ 32" "sz \<le> z"
  shows "contig lo (xs @ (a, b, sz, ut) # (new, b + sz, z - sz, ft) # ys) hi"
proof -
  have zs: "unat (z - sz) = unat z - unat sz" "unat sz \<le> unat z"
    using assms(3) by (simp_all add: unat_sub word_le_nat_alt)
  have "unat (b + sz) = unat b + unat sz"
    by (rule unat_plus_small) (use zs(2) contig_bound [OF assms(1)] assms(2) in simp)
  with assms(1) zs show ?thesis by (auto simp: contig_append)
qed

lemma mback_contig:
  assumes "contig lo (rev rp @ n # ys) hi" "hi < 2 ^ 32" "mback isfree rp n = (rp', n')"
  shows "contig lo (rev rp' @ n' # ys) hi"
  using assms
proof (induction isfree rp n rule: mback.induct)
  case (2 isfree a b z t rp n)
  obtain c b' z' t' where n: "n = (c, b', z', t')" by (cases n)
  show ?case
  proof (cases "isfree t")
    case True
    have "contig lo (rev rp @ (a, b, z, t) # (c, b', z', t') # ys) hi" using "2.prems"(1) by (simp add: n)
    moreover from this have "unat b + unat z + unat z' \<le> hi"
      using contig_le by (fastforce simp: contig_append)
    then have "unat (z + z') = unat z + unat z'" using "2.prems"(2) by (intro unat_plus_small) simp
    ultimately have "contig lo (rev rp @ (a, b, z + z', t) # ys) hi" by (auto simp: contig_append add.assoc)
    with 2 True show ?thesis by (simp add: n)
  qed (use 2 in auto)
qed simp

lemma mback_length: "mback isfree rp n = (rp', n') \<Longrightarrow> length rp' \<le> length rp"
  by (induction isfree rp n rule: mback.induct) (auto split: if_splits)

lemma mfwd_length: "mfwd isfree n ys = (n', ys') \<Longrightarrow> length ys' \<le> length ys"
  by (induction isfree n ys rule: mfwd.induct) (auto split: if_splits)

lemma mfwd_contig:
  assumes "contig lo (xs @ n # ys) hi" "hi < 2 ^ 32" "mfwd isfree n ys = (n', ys')"
  shows "contig lo (xs @ n' # ys') hi"
  using assms
proof (induction isfree n ys rule: mfwd.induct)
  case (2 isfree a b z t m ys)
  obtain c b' z' t' where m: "m = (c, b', z', t')" by (cases m)
  show ?case
  proof (cases "isfree t'")
    case True
    have "contig lo (xs @ (a, b, z, t) # (c, b', z', t') # ys) hi" using "2.prems"(1) by (simp add: m)
    moreover from this have "unat b + unat z + unat z' \<le> hi"
      using contig_le by (fastforce simp: contig_append)
    then have "unat (z + z') = unat z + unat z'" using "2.prems"(2) by (intro unat_plus_small) simp
    ultimately have "contig lo (xs @ (a, b, z + z', t) # ys) hi" by (auto simp: contig_append add.assoc)
    with 2 True show ?thesis by (simp add: m)
  qed (use 2 in \<open>auto simp: m\<close>)
qed simp

subsection \<open>Refinement\<close>

lemma dlist_walk:
  assumes "dlist st p (xs @ (a, b, z, t) # ys)"
  shows "st a = Some \<lparr>b_base = b, b_size = z, b_next = head ys, b_prev = final 0 xs, b_tag = t\<rparr>" "a \<noteq> 0"
  using assms by (cases ys; auto simp: dlist_def seg_append)+

lemma dlist_head: "dlist st p ns \<Longrightarrow> p = head ns"
  by (simp add: dlist_def)

context node_alloc
begin

lemma reserve_block_from_refines:
  assumes "dlist (bstore s) p (pre @ ns)" "length ns < f"
  shows "reserve_block_from malloc f sz type (head ns) s =
    (case first_fit (fits sz) ns of
       None \<Rightarrow> Inl (Fatal ''Trying to reserve more physical memory than available'')
     | Some (xs, n, ys) \<Rightarrow> split_node malloc (n_addr n) sz 1 (ucast type) s)"
  using assms
proof (induction ns arbitrary: pre f)
  case Nil
  then show ?case by (cases f) auto
next
  case (Cons n ns)
  obtain a b z t where n: "n = (a, b, z, t)" by (cases n)
  obtain g where f: "f = Suc g" using Cons.prems by (cases f) auto
  have w: "bstore s a = Some \<lparr>b_base = b, b_size = z, b_next = head ns, b_prev = final 0 pre, b_tag = t\<rparr>" "a \<noteq> 0"
    using dlist_walk [of _ p pre a b z t ns] Cons.prems(1) by (simp_all add: n)
  have "dlist (bstore s) p ((pre @ [n]) @ ns)" using Cons.prems(1) by simp
  from Cons.IH [OF this] Cons.prems(2) w show ?case
    by (auto simp: n f deref_def fits_def not_less split: option.splits)
qed

lemma reserve_block_refines:
  assumes "wf s" "room s" "dom (bstore s) \<subseteq> live s" "dlist (bstore s) (first_block s) ns" "length ns < f"
    "first_fit (fits (alignup sz 4096)) ns = Some (xs, (a, b, z, t), ys)"
  shows "\<exists>s' new. reserve_block malloc f sz type s = Inr (b, s') \<and> wf s' \<and> dom (bstore s') \<subseteq> live s'
    \<and> dlist (bstore s') (first_block s')
        (xs @ (a, b, alignup sz 4096, ucast type) # (new, b + alignup sz 4096, z - alignup sz 4096, 1) # ys)
    \<and> node_step (insert new (n_addr ` set ns)) s s'"
proof -
  have ns: "ns = xs @ (a, b, z, t) # ys" using first_fit_Some [OF assms(6)] by simp
  from split_node_refines [OF assms(1-3), of "first_block s" xs a b z t ys "alignup sz 4096" 1 "ucast type"] assms(4) ns
  obtain s' new where s': "split_node malloc a (alignup sz 4096) 1 (ucast type) s = Inr (b, s')" "wf s'"
    "dom (bstore s') \<subseteq> live s'" "dlist (bstore s') (first_block s)
        (xs @ (a, b, alignup sz 4096, ucast type) # (new, b + alignup sz 4096, z - alignup sz 4096, 1) # ys)"
    "node_step (insert new (n_addr ` set ns)) s s'" by auto
  have "first_block s' = first_block s" by (rule node_step_fields [OF s'(5)])
  moreover have "reserve_block malloc f sz type s = Inr (b, s')"
    using reserve_block_from_refines [of s "first_block s" "[]" ns f] assms(4-6) s'(1) dlist_head [OF assms(4)]
    by (simp add: reserve_block_def)
  ultimately show ?thesis using s' by auto
qed

lemma free_block_from_refines:
  assumes "wf s" "dom (bstore s) \<subseteq> live s" "dlist (bstore s) p (rev rp @ (a, b, z, t) # ys)"
    "\<forall>n \<in> set rp. n_base n \<noteq> b" "t = ucast PHYS_KERNELF_BLOCK_TYPE \<or> t = ucast PHYS_USER_BLOCK_TYPE"
    "rp = rev xs @ rq" "length xs < k"
  shows "free_block_from free f b (head (xs @ (a, b, z, t) # ys)) k s =
    release_node (\<lambda>t. t = PHYS_FREE_BLOCK_TYPE) free f PHYS_FREE_BLOCK_TYPE a s"
  using assms
proof (induction xs arbitrary: rq k)
  case Nil
  then obtain g where "k = Suc g" by (cases k) auto
  with Nil dlist_walk [OF Nil.prems(3)] show ?case by (auto simp: deref_def)
next
  case (Cons x xs)
  obtain c b' z' t' where x: "x = (c, b', z', t')" by (cases x)
  obtain g where k: "k = Suc g" "length xs < g" using Cons.prems(7) by (cases k) auto
  have eq: "rev rp @ (a, b, z, t) # ys = rev rq @ (c, b', z', t') # (xs @ (a, b, z, t) # ys)"
    using Cons.prems(6) by (simp add: x)
  have w: "bstore s c = Some \<lparr>b_base = b', b_size = z', b_next = head (xs @ (a, b, z, t) # ys), b_prev = final 0 (rev rq), b_tag = t'\<rparr>" "c \<noteq> 0"
    using dlist_walk [of "bstore s" p "rev rq" c b' z' t' "xs @ (a, b, z, t) # ys"] Cons.prems(3) unfolding eq by simp_all
  have "b' \<noteq> b" using Cons.prems(4,6) by (auto simp: x)
  moreover have "rp = rev xs @ (x # rq)" using Cons.prems(6) by simp
  ultimately show ?case using Cons.IH [OF Cons.prems(1-5) _ k(2)] w by (simp add: x k deref_def)
qed

lemma free_block_refines:
  assumes "wf s" "dom (bstore s) \<subseteq> live s" "dlist (bstore s) (first_block s) (xs @ (a, b, z, t) # ys)"
    "\<forall>n \<in> set xs. n_base n \<noteq> b" "t = ucast PHYS_KERNELF_BLOCK_TYPE \<or> t = ucast PHYS_USER_BLOCK_TYPE"
    "length xs + length ys < f"
    "mback (\<lambda>t. t = PHYS_FREE_BLOCK_TYPE) (rev xs) (a, b, z, PHYS_FREE_BLOCK_TYPE) = (rp', n')"
    "mfwd (\<lambda>t. t = PHYS_FREE_BLOCK_TYPE) n' ys = (n'', ys'')"
  shows "\<exists>s'. free_block free f b s = Inr s' \<and> wf s' \<and> dom (bstore s') \<subseteq> live s'
    \<and> dlist (bstore s') (first_block s') (rev rp' @ n'' # ys'')
    \<and> node_step (n_addr ` set (xs @ (a, b, z, t) # ys)) s s'"
proof -
  from release_node_refines [OF assms(1,2), of "first_block s" "rev xs" a b z t ys f "\<lambda>t. t = PHYS_FREE_BLOCK_TYPE"
      PHYS_FREE_BLOCK_TYPE rp' n' n'' ys''] assms(3,6-8)
  obtain s' where s': "release_node (\<lambda>t. t = PHYS_FREE_BLOCK_TYPE) free f PHYS_FREE_BLOCK_TYPE a s = Inr s'" "wf s'"
    "dom (bstore s') \<subseteq> live s'" "dlist (bstore s') (first_block s) (rev rp' @ n'' # ys'')"
    "node_step (n_addr ` set (xs @ (a, b, z, t) # ys)) s s'" by auto
  have "first_block s' = first_block s" by (rule node_step_fields [OF s'(5)])
  moreover have "free_block free f b s = Inr s'"
    using free_block_from_refines [OF assms(1,2), of "first_block s" "rev xs" a b z t ys xs "[]" f f]
      assms(3-6) s'(1) dlist_head [OF assms(3)] by (simp add: free_block_def)
  ultimately show ?thesis using s' by auto
qed

end

text \<open>The free memory \<^verbatim>\<open>get_free_mem\<close> counts.\<close>

definition free_sum :: "node list \<Rightarrow> u32" where
  "free_sum ns = sum_list (map n_size (filter (\<lambda>n. n_tag n = 1 \<and> 0x100000 < n_base n) ns))"

lemma get_free_mem_from_refines:
  assumes "dlist (bstore s) p (pre @ ns)" "length ns < f"
  shows "get_free_mem_from f tr (head ns) s = Inr (tr + free_sum ns)"
  using assms
proof (induction ns arbitrary: pre f tr)
  case Nil
  then show ?case by (cases f) (auto simp: free_sum_def)
next
  case (Cons n ns)
  obtain a b z t where n: "n = (a, b, z, t)" by (cases n)
  obtain g where f: "f = Suc g" using Cons.prems by (cases f) auto
  have w: "bstore s a = Some \<lparr>b_base = b, b_size = z, b_next = head ns, b_prev = final 0 pre, b_tag = t\<rparr>" "a \<noteq> 0"
    using dlist_walk [of _ p pre a b z t ns] Cons.prems(1) by (simp_all add: n)
  have "dlist (bstore s) p ((pre @ [n]) @ ns)" using Cons.prems(1) by simp
  from Cons.IH [OF this] Cons.prems(2) w show ?case
    by (simp add: n f deref_def free_sum_def add.assoc)
qed

lemma get_free_mem_refines:
  assumes "dlist (bstore s) (first_block s) ns" "length ns < f"
  shows "get_free_mem f s = Inr (free_sum ns)"
  using get_free_mem_from_refines [of s "first_block s" "[]" ns f 0] assms dlist_head [OF assms(1)]
  by (simp add: get_free_mem_def)

subsection \<open>The memory map on the kernel heap\<close>

text \<open>The map is a block list in live heap memory that tiles the addresses from \<open>lo\<close> to \<open>hi\<close>.\<close>

definition phys_ok :: "nat \<Rightarrow> nat \<Rightarrow> nat \<Rightarrow> node list \<Rightarrow> 'a kblocks_scheme \<Rightarrow> bool" where
  "phys_ok f lo hi ns s \<longleftrightarrow> heap_wf f s \<and> dom (bstore s) \<subseteq> heap_live s \<and> dlist (bstore s) (first_block s) ns \<and>
     contig lo ns hi \<and> hi < 2 ^ 32 \<and> length ns < f"

lemma phys_reserve:
  assumes "phys_ok f lo hi ns s" "heap_room 20 f s" "Suc (length ns) < f"
    "first_fit (fits (alignup sz 4096)) ns = Some (xs, (a, b, z, t), ys)"
  shows "\<exists>s' new. reserve_block (kmalloc mapm pds (Suc f)) f sz type s = Inr (b, s') \<and>
    phys_ok f lo hi (xs @ (a, b, alignup sz 4096, ucast type) # (new, b + alignup sz 4096, z - alignup sz 4096, 1) # ys) s'
    \<and> node_step (insert new (n_addr ` set ns)) s s'"
proof -
  have ns: "ns = xs @ (a, b, z, t) # ys" and fit: "alignup sz 4096 \<le> z"
    using first_fit_Some [OF assms(4)] by (auto simp: fits_def)
  have "contig lo (xs @ (a, b, alignup sz 4096, ucast type) # (new, b + alignup sz 4096, z - alignup sz 4096, 1) # ys) hi" for new
    by (rule contig_split [OF _ _ fit]) (use assms(1) ns in \<open>auto simp: phys_ok_def\<close>)
  with kh.reserve_block_refines [of f s ns f sz xs a b z t ys mapm pds type] assms ns show ?thesis
    unfolding phys_ok_def by fastforce
qed

text \<open>No block before, and none after, is free: what the release leaves alone.\<close>

definition busy_before :: "node list \<Rightarrow> bool" where
  "busy_before xs \<longleftrightarrow> xs = [] \<or> n_tag (last xs) \<noteq> PHYS_FREE_BLOCK_TYPE"

definition busy_after :: "node list \<Rightarrow> bool" where
  "busy_after ys \<longleftrightarrow> ys = [] \<or> n_tag (hd ys) \<noteq> PHYS_FREE_BLOCK_TYPE"

lemma mback_busy: "busy_before xs \<Longrightarrow> mback (\<lambda>t. t = PHYS_FREE_BLOCK_TYPE) (rev xs) n = (rev xs, n)"
  by (cases xs rule: rev_cases; cases "last xs") (auto simp: busy_before_def)

lemma mfwd_busy: "busy_after ys \<Longrightarrow> mfwd (\<lambda>t. t = PHYS_FREE_BLOCK_TYPE) n ys = (n, ys)"
  by (cases ys; cases n) (auto simp: busy_after_def)

lemma mback_stops: "mback isfree rp n = (rp', n') \<Longrightarrow> rp' = [] \<or> \<not> isfree (n_tag (hd rp'))"
  by (induction isfree rp n rule: mback.induct) (auto split: if_splits)

lemma mfwd_stops: "mfwd isfree n ys = (n', ys') \<Longrightarrow> ys' = [] \<or> \<not> isfree (n_tag (hd ys'))"
  by (induction isfree n ys rule: mfwd.induct) (auto split: if_splits)

text \<open>\<^verbatim>\<open>free_block\<close> stops at the first block with the address, whatever its type.\<close>

lemma free_block_other:
  assumes "dlist (bstore s) p (pre @ xs @ (a, b, z, t) # ys)" "\<forall>n \<in> set xs. n_base n \<noteq> b" "length xs < k"
    "t \<noteq> ucast PHYS_KERNELF_BLOCK_TYPE" "t \<noteq> ucast PHYS_USER_BLOCK_TYPE"
  shows "free_block_from free f b (head (xs @ (a, b, z, t) # ys)) k s = Inl (Fatal ''Trying to free a non-freeable block'')"
  using assms(1-3)
proof (induction xs arbitrary: pre k)
  case Nil
  then obtain g where "k = Suc g" by (cases k) auto
  with Nil dlist_walk [of "bstore s" p pre a b z t ys] assms(4,5) show ?case by (auto simp: deref_def)
next
  case (Cons x xs)
  obtain c b' z' t' where x: "x = (c, b', z', t')" by (cases x)
  obtain g where k: "k = Suc g" "length xs < g" using Cons.prems(3) by (cases k) auto
  have w: "bstore s c = Some \<lparr>b_base = b', b_size = z', b_next = head (xs @ (a, b, z, t) # ys), b_prev = final 0 pre, b_tag = t'\<rparr>" "c \<noteq> 0"
    using dlist_walk [of "bstore s" p pre c b' z' t' "xs @ (a, b, z, t) # ys"] Cons.prems(1) by (simp_all add: x)
  have "dlist (bstore s) p ((pre @ [x]) @ xs @ (a, b, z, t) # ys)" using Cons.prems(1) by simp
  from Cons.IH [OF this _ k(2)] Cons.prems(2) w show ?case by (simp add: x k deref_def)
qed

lemma phys_free:
  assumes "phys_ok f lo hi (xs @ (a, b, z, t) # ys) s" "\<forall>n \<in> set xs. n_base n \<noteq> b"
    "t = ucast PHYS_KERNELF_BLOCK_TYPE \<or> t = ucast PHYS_USER_BLOCK_TYPE"
    "mback (\<lambda>t. t = PHYS_FREE_BLOCK_TYPE) (rev xs) (a, b, z, PHYS_FREE_BLOCK_TYPE) = (rp', n')"
    "mfwd (\<lambda>t. t = PHYS_FREE_BLOCK_TYPE) n' ys = (n'', ys'')"
  shows "\<exists>s'. free_block (kfree (Suc f)) f b s = Inr s' \<and> phys_ok f lo hi (rev rp' @ n'' # ys'') s'
    \<and> node_step (n_addr ` set (xs @ (a, b, z, t) # ys)) s s'"
proof -
  have c0: "contig lo (rev (rev xs) @ (a, b, z, PHYS_FREE_BLOCK_TYPE) # ys) hi" and hi: "hi < 2 ^ 32"
    using assms(1) by (simp_all add: phys_ok_def contig_append)
  have c: "contig lo (rev rp' @ n'' # ys'') hi"
    by (rule mfwd_contig [OF mback_contig [OF c0 hi assms(4)] hi assms(5)])
  have len: "length (rev rp' @ n'' # ys'') < f"
    using mback_length [OF assms(4)] mfwd_length [OF assms(5)] assms(1) by (simp add: phys_ok_def)
  from kh.free_block_refines [of f s xs a b z t ys f rp' n' n'' ys''] assms c hi len show ?thesis
    unfolding phys_ok_def by fastforce
qed

subsection \<open>Properties\<close>

text \<open>A concrete map: 4 MiB of free memory above 1 MiB, its one block in the boot heap.\<close>

definition boot_blocks :: kblocks where
  "boot_blocks = kheap_install \<lparr>kmem = (\<lambda>_. 0), KHEAP_BASE_START = 0xC0800000, KHEAP_BASE_END = 0xC0C00000,
     bstore = Map.empty, first_block = 0, detected_memory = 0, detected_memory_below32 = 0, vm_first_block = 0\<rparr>"

lemma boot_blocks_ok:
  "heap_ok boot_blocks [(0x3FFFF8, False)]" "KHEAP_BASE_START boot_blocks = 0xC0800000"
  "KHEAP_BASE_END boot_blocks = 0xC0C00000" "bstore boot_blocks = Map.empty"
proof -
  let ?s = "\<lparr>kmem = (\<lambda>_. 0), KHEAP_BASE_START = 0xC0800000, KHEAP_BASE_END = 0xC0C00000,
     bstore = Map.empty, first_block = 0, detected_memory = 0, detected_memory_below32 = 0, vm_first_block = 0\<rparr>"
  have "unat (KHEAP_BASE_START ?s) + 8 \<le> unat (KHEAP_BASE_END ?s)" by simp
  from kheap_install_ok [OF this] show "heap_ok boot_blocks [(0x3FFFF8, False)]"
    unfolding boot_blocks_def by simp
  show "KHEAP_BASE_START boot_blocks = 0xC0800000" "KHEAP_BASE_END boot_blocks = 0xC0C00000"
    unfolding boot_blocks_def by simp_all
  show "bstore boot_blocks = Map.empty"
    unfolding boot_blocks_def kheap_install_def Let_def by simp
qed

text \<open>A state whose heap has one block in use, holding the block \<open>blk\<close> as the first of both lists.\<close>

lemma boot_one:
  "\<exists>s :: kblocks. heap_ok s [(20, True), (0x3FFFDC, False)] \<and> KHEAP_BASE_START s = 0xC0800000 \<and>
     bstore s = [0xC0800008 \<mapsto> blk] \<and> first_block s = 0xC0800008 \<and> vm_first_block s = 0xC0800008"
proof -
  have al: "alignup 20 4 = (20 :: u32)" by (rule word_unat_eqI) (simp add: unat_alignup roundup_def)
  have sp: "spec_alloc (unat (alignup 20 4)) [(0x3FFFF8, False)] = Some (8, [(20, True), (0x3FFFDC, False)])"
    unfolding al by simp
  have len: "length [(0x3FFFF8 :: nat, False)] \<le> 1" by simp
  from kmalloc_refines [OF boot_blocks_ok(1) sp len, of "\<lambda>_ _ _ _. Inl BadPtr" "[]"] obtain m where
    m: "heap_ok (boot_blocks\<lparr>kmem := m\<rparr>) [(20, True), (0x3FFFDC, False)]" by blast
  let ?s = "boot_blocks\<lparr>kmem := m, bstore := [0xC0800008 \<mapsto> blk], first_block := 0xC0800008, vm_first_block := 0xC0800008\<rparr>"
  have "heap_ok ?s [(20, True), (0x3FFFDC, False)]" using m by (simp add: heap_ok_def)
  then show ?thesis using boot_blocks_ok(2) by (intro exI [of _ ?s]) simp
qed

lemma boot_one_client:
  assumes "heap_ok s [(20, True), (0x3FFFDC, False)]" "KHEAP_BASE_START s = 0xC0800000"
  shows "heap_live s = {0xC0800008}" "heap_wf 10 s" "heap_room 20 10 s"
proof -
  have "heap_used s [(20, True), (0x3FFFDC, False)] = {(0xC0800008, 20)}" unfolding assms(2) by simp
  then show "heap_live s = {0xC0800008}" unfolding heap_live_eq [OF assms(1)]
    by (auto simp: word_unat_eq_iff)
  show "heap_wf 10 s" using assms(1) by (auto simp: heap_wf_def)
  show "heap_room 20 10 s" unfolding heap_room_mono [OF assms(1)] by simp
qed

lemma boot_phys:
  "\<exists>s :: kblocks. phys_ok 10 0x100000 0x500000 [(0xC0800008, 0x100000, 0x400000, 1)] s \<and> heap_room 20 10 s"
proof -
  from boot_one [of "\<lparr>b_base = 0x100000, b_size = 0x400000, b_next = 0, b_prev = 0, b_tag = 1\<rparr>"]
  obtain s :: kblocks where s: "heap_ok s [(20, True), (0x3FFFDC, False)]" "KHEAP_BASE_START s = 0xC0800000"
    "bstore s = [0xC0800008 \<mapsto> \<lparr>b_base = 0x100000, b_size = 0x400000, b_next = 0, b_prev = 0, b_tag = 1\<rparr>]"
    "first_block s = 0xC0800008" by blast
  show ?thesis using boot_one_client [OF s(1,2)] s(3,4)
    by (intro exI [of _ s]) (simp add: phys_ok_def dlist_def)
qed

text \<open>C5: \<^verbatim>\<open>reserve_block\<close> takes the first free block at or above 1 MiB that can hold the request rounded
  up to pages, returns its base address and splits it; the block list still tiles the same physical
  address range, lives in heap memory and is doubly linked, and no other block changes.\<close>

theorem reserve_block_first_fit:
  assumes "phys_ok f lo hi ns s" "heap_room 20 f s" "Suc (length ns) < f"
    "first_fit (fits (alignup sz 4096)) ns = Some (xs, (a, b, z, t), ys)"
  shows "\<exists>s' new. reserve_block (kmalloc mapm pds (Suc f)) f sz type s = Inr (b, s') \<and>
    phys_ok f lo hi (xs @ (a, b, alignup sz 4096, ucast type) # (new, b + alignup sz 4096, z - alignup sz 4096, 1) # ys) s'
    \<and> node_step (insert new (n_addr ` set ns)) s s'"
  using assms by (rule phys_reserve)

theorem reserve_block_first_fit_witness:
  "\<exists>(s :: kblocks) s' new. phys_ok 10 0x100000 0x500000 [(0xC0800008, 0x100000, 0x400000, 1)] s \<and>
    reserve_block (kmalloc (\<lambda>_ _ _ _. Inl BadPtr) [] (Suc 10)) 10 5000 20 s = Inr (0x100000, s') \<and>
    phys_ok 10 0x100000 0x500000 [(0xC0800008, 0x100000, 8192, 20), (new, 0x102000, 0x3FE000, 1)] s'"
proof -
  from boot_phys obtain s :: kblocks where s: "phys_ok 10 0x100000 0x500000 [(0xC0800008, 0x100000, 0x400000, 1)] s"
    "heap_room 20 10 s" by blast
  have al: "alignup 5000 4096 = (8192 :: u32)" by (rule word_unat_eqI) (simp add: unat_alignup roundup_def)
  have "first_fit (fits (alignup 5000 4096)) [(0xC0800008, 0x100000, 0x400000, 1)] = Some ([], (0xC0800008, 0x100000, 0x400000, 1), [])"
    unfolding al by (simp add: fits_def PHYS_FREE_BLOCK_TYPE_def)
  from reserve_block_first_fit [OF s _ this, of "\<lambda>_ _ _ _. Inl BadPtr" "[]" 20] s(1) show ?thesis
    unfolding al by (simp del: kmalloc.simps) blast
qed

text \<open>C6: Reserving and releasing is the identity on the memory map: with no free block next to the
  one the reservation splits, \<^verbatim>\<open>free_block\<close> of the returned address merges the pieces back into exactly
  the block list before, and every block node allocated in between is given back to the heap.\<close>

theorem reserve_free_roundtrip:
  assumes "phys_ok f lo hi ns s" "heap_room 20 f s" "Suc (length ns) < f"
    "first_fit (fits (alignup sz 4096)) ns = Some (xs, (a, b, z, t), ys)"
    "type = PHYS_KERNELF_BLOCK_TYPE \<or> type = PHYS_USER_BLOCK_TYPE"
    "busy_before xs" "busy_after ys" "\<forall>n \<in> set xs. n_base n \<noteq> b"
  shows "\<exists>s1 s2. reserve_block (kmalloc mapm pds (Suc f)) f sz type s = Inr (b, s1) \<and>
    free_block (kfree (Suc f)) f b s1 = Inr s2 \<and> phys_ok f lo hi ns s2 \<and> first_block s2 = first_block s"
proof -
  let ?sz = "alignup sz 4096"
  have ns: "ns = xs @ (a, b, z, t) # ys" and t: "t = PHYS_FREE_BLOCK_TYPE"
    using first_fit_Some [OF assms(4)] by (auto simp: fits_def)
  from phys_reserve [OF assms(1-4), of mapm pds type] obtain s1 new where
    s1: "reserve_block (kmalloc mapm pds (Suc f)) f sz type s = Inr (b, s1)"
    "phys_ok f lo hi (xs @ (a, b, ?sz, ucast type) # ((new, b + ?sz, z - ?sz, 1) # ys)) s1"
    "node_step (insert new (n_addr ` set ns)) s s1" by blast
  have "mfwd (\<lambda>t. t = PHYS_FREE_BLOCK_TYPE) (a, b, ?sz, PHYS_FREE_BLOCK_TYPE) ((new, b + ?sz, z - ?sz, 1) # ys)
      = ((a, b, z, t), ys)"
    using mfwd_busy [OF assms(7)] t by (simp add: PHYS_FREE_BLOCK_TYPE_def)
  from phys_free [OF s1(2) assms(8) _ mback_busy [OF assms(6)] this] assms(5)
  obtain s2 where s2: "free_block (kfree (Suc f)) f b s1 = Inr s2" "phys_ok f lo hi ns s2"
    "node_step (n_addr ` set (xs @ (a, b, ?sz, ucast type) # (new, b + ?sz, z - ?sz, 1) # ys)) s1 s2"
    by (auto simp: ns)
  with s1 node_step_fields(1) [OF s1(3)] node_step_fields(1) [OF s2(3)] show ?thesis by auto
qed

theorem reserve_free_roundtrip_witness:
  "\<exists>(s :: kblocks) s1 s2. phys_ok 10 0x100000 0x500000 [(0xC0800008, 0x100000, 0x400000, 1)] s \<and>
    reserve_block (kmalloc (\<lambda>_ _ _ _. Inl BadPtr) [] (Suc 10)) 10 5000 PHYS_USER_BLOCK_TYPE s = Inr (0x100000, s1) \<and>
    free_block (kfree (Suc 10)) 10 0x100000 s1 = Inr s2 \<and>
    phys_ok 10 0x100000 0x500000 [(0xC0800008, 0x100000, 0x400000, 1)] s2"
proof -
  from boot_phys obtain s :: kblocks where s: "phys_ok 10 0x100000 0x500000 [(0xC0800008, 0x100000, 0x400000, 1)] s"
    "heap_room 20 10 s" by blast
  have al: "alignup 5000 4096 = (8192 :: u32)" by (rule word_unat_eqI) (simp add: unat_alignup roundup_def)
  have "first_fit (fits (alignup 5000 4096)) [(0xC0800008, 0x100000, 0x400000, 1)] = Some ([], (0xC0800008, 0x100000, 0x400000, 1), [])"
    unfolding al by (simp add: fits_def PHYS_FREE_BLOCK_TYPE_def)
  from reserve_free_roundtrip [OF s _ this, of PHYS_USER_BLOCK_TYPE "\<lambda>_ _ _ _. Inl BadPtr" "[]"] s(1) show ?thesis
    by (simp add: busy_before_def busy_after_def del: kmalloc.simps) blast
qed



text \<open>A reservation that uses up a free block leaves a free block of size 0 in front of the next block,
  with the same base address. If that next block is in use, \<^verbatim>\<open>free_block\<close> of its address then finds
  the empty block first and halts the kernel instead of releasing it.\<close>

theorem exact_reserve_blocks_release:
  assumes "phys_ok f lo hi (xs @ (a, b, z, 1) # (c, b + z, z', t') # ys) s" "heap_room 20 f s"
    "Suc (length (xs @ (a, b, z, 1) # (c, b + z, z', t') # ys)) < f"
    "first_fit (fits (alignup sz 4096)) (xs @ (a, b, z, 1) # (c, b + z, z', t') # ys) = Some (xs, (a, b, z, 1), (c, b + z, z', t') # ys)"
    "alignup sz 4096 = z" "\<forall>n \<in> set xs. n_base n \<noteq> b + z" "z \<noteq> 0"
  shows "\<exists>s1. reserve_block (kmalloc mapm pds (Suc f)) f sz type s = Inr (b, s1) \<and>
    free_block free f (b + z) s1 = Inl (Fatal ''Trying to free a non-freeable block'')"
proof -
  let ?ys = "(c, b + z, z', t') # ys"
  from phys_reserve [OF assms(1-4), of mapm pds type] assms(5) obtain s1 new where
    s1: "reserve_block (kmalloc mapm pds (Suc f)) f sz type s = Inr (b, s1)"
    "phys_ok f lo hi (xs @ (a, b, z, ucast type) # (new, b + z, 0, 1) # ?ys) s1" by auto
  have d: "dlist (bstore s1) (first_block s1) ((xs @ [(a, b, z, ucast type)]) @ (new, b + z, 0, 1) # ?ys)"
    and len: "length (xs @ [(a, b, z, ucast type)]) < f"
    using s1(2) by (simp_all add: phys_ok_def)
  have "\<forall>n \<in> set (xs @ [(a, b, z, ucast type)]). n_base n \<noteq> b + z" using assms(6,7) by auto
  from free_block_other [of s1 "first_block s1" "[]", OF _ this len] d dlist_head [OF d]
  have "free_block free f (b + z) s1 = Inl (Fatal ''Trying to free a non-freeable block'')"
    by (simp add: free_block_def PHYS_KERNELF_BLOCK_TYPE_def PHYS_USER_BLOCK_TYPE_def head_append split: if_splits)
  with s1(1) show ?thesis by blast
qed

lemma boot_two:
  "\<exists>s :: kblocks. phys_ok 10 0x100000 0x103000 [(0xC0800008, 0x100000, 0x2000, 1), (0xC0800024, 0x102000, 0x1000, 20)] s
    \<and> heap_room 20 10 s"
proof -
  from boot_one obtain s0 :: kblocks where s0: "heap_ok s0 [(20, True), (0x3FFFDC, False)]" "KHEAP_BASE_START s0 = 0xC0800000"
    by blast
  have al: "alignup 20 4 = (20 :: u32)" by (rule word_unat_eqI) (simp add: unat_alignup roundup_def)
  have sp: "spec_alloc (unat (alignup 20 4)) [(20, True), (0x3FFFDC, False)] = Some (36, [(20, True), (20, True), (0x3FFFC0, False)])"
    unfolding al by simp
  have len: "length [(20 :: nat, True), (0x3FFFDC, False)] \<le> 2" by simp
  from kmalloc_refines [OF s0(1) sp len, of "\<lambda>_ _ _ _. Inl BadPtr" "[]"] obtain m where
    m: "heap_ok (s0\<lparr>kmem := m\<rparr>) [(20, True), (20, True), (0x3FFFC0, False)]" by blast
  let ?s = "s0\<lparr>kmem := m, first_block := 0xC0800008, bstore :=
    [0xC0800008 \<mapsto> \<lparr>b_base = 0x100000, b_size = 0x2000, b_next = 0xC0800024, b_prev = 0, b_tag = 1\<rparr>,
     0xC0800024 \<mapsto> \<lparr>b_base = 0x102000, b_size = 0x1000, b_next = 0, b_prev = 0xC0800008, b_tag = 20\<rparr>]\<rparr>"
  have ok: "heap_ok ?s [(20, True), (20, True), (0x3FFFC0, False)]" using m by (simp add: heap_ok_def)
  have st: "KHEAP_BASE_START ?s = 0xC0800000" using s0(2) by simp
  have "heap_used ?s [(20, True), (20, True), (0x3FFFC0, False)] = {(0xC0800008, 20), (0xC0800024, 20)}"
    unfolding st by simp
  then have "{0xC0800008, 0xC0800024} \<subseteq> heap_live ?s" unfolding heap_live_eq [OF ok] by simp
  moreover have "heap_wf 10 ?s" "heap_room 20 10 ?s"
    using ok unfolding heap_room_mono [OF ok] by (auto simp: heap_wf_def intro!: exI [of _ "[(20, True), (20, True), (0x3FFFC0, False)]"])
  ultimately show ?thesis by (intro exI [of _ ?s]) (simp add: phys_ok_def dlist_def)
qed

theorem exact_reserve_blocks_release_witness:
  "\<exists>(s :: kblocks) s1. phys_ok 10 0x100000 0x103000 [(0xC0800008, 0x100000, 0x2000, 1), (0xC0800024, 0x102000, 0x1000, 20)] s \<and>
    reserve_block (kmalloc (\<lambda>_ _ _ _. Inl BadPtr) [] (Suc 10)) 10 0x2000 20 s = Inr (0x100000, s1) \<and>
    free_block (kfree (Suc 10)) 10 0x102000 s1 = Inl (Fatal ''Trying to free a non-freeable block'')"
proof -
  from boot_two obtain s :: kblocks where s: "phys_ok 10 0x100000 0x103000 [(0xC0800008, 0x100000, 0x2000, 1), (0xC0800024, 0x102000, 0x1000, 20)] s"
    "heap_room 20 10 s" by blast
  have al: "alignup 0x2000 4096 = (0x2000 :: u32)" by (rule word_unat_eqI) (simp add: unat_alignup roundup_def)
  have "first_fit (fits (alignup 0x2000 4096)) [(0xC0800008, 0x100000, 0x2000, 1), (0xC0800024, 0x102000, 0x1000, 20)]
      = Some ([], (0xC0800008, 0x100000, 0x2000, 1), [(0xC0800024, 0x102000, 0x1000, 20)])"
    unfolding al by (simp add: fits_def PHYS_FREE_BLOCK_TYPE_def)
  with exact_reserve_blocks_release [of 10 "0x100000" "0x103000" "[]" "0xC0800008" "0x100000" "0x2000" "0xC0800024" "0x1000" 20 "[]" s "0x2000"
      "\<lambda>_ _ _ _. Inl BadPtr" "[]" 20 "kfree (Suc 10)"] s al
  show ?thesis by (simp del: kmalloc.simps) blast
qed

end
