(* ===== verification/VK_Kvm.thy ===== *)
theory VK_Kvm
  imports VK_Phys
begin

section \<open>Kernel virtual memory (memory/kvmheap.c)\<close>

text \<open>
  The allocator of kernel virtual address ranges above \<^verbatim>\<open>FREE_KVM_START\<close>. Its list shares the
  store, the splitting and the merge loops of \<^verbatim>\<open>VK_Blocks\<close> with the physical map; a block is free when its
  status is 0. The lemmas show that the list always tiles the range from \<^verbatim>\<open>FREE_KVM_START\<close> to the top.
\<close>

definition kvmheap_install :: "(u32 \<Rightarrow> 'a kblocks_scheme \<Rightarrow> (u32 \<times> 'a kblocks_scheme) res)
    \<Rightarrow> 'a kblocks_scheme \<Rightarrow> 'a kblocks_scheme res" where
  "kvmheap_install malloc s =
     bindR (malloc 20 s) (\<lambda>(p, s).
       Inr (put p \<lparr>b_base = FREE_KVM_START, b_size = 0xFFFFFFFF - FREE_KVM_START, b_next = 0, b_prev = 0, b_tag = 0\<rparr>
         (s\<lparr>vm_first_block := p\<rparr>)))"

fun kvm_reserve_from :: "(u32 \<Rightarrow> 'a kblocks_scheme \<Rightarrow> (u32 \<times> 'a kblocks_scheme) res) \<Rightarrow> nat
    \<Rightarrow> u32 \<Rightarrow> u32 \<Rightarrow> 'a kblocks_scheme \<Rightarrow> (u32 \<times> 'a kblocks_scheme) res" where
  "kvm_reserve_from malloc 0 sz cur s = Inl NoFuel"
| "kvm_reserve_from malloc (Suc f) sz cur s =
     (if cur = 0 then Inl (Fatal ''Trying to reserve more virtual memory than available'')
      else bindR (deref cur s) (\<lambda>b.
        if b_tag b \<noteq> 0 \<or> b_size b < sz then kvm_reserve_from malloc f sz (b_next b) s
        else split_node malloc cur sz 0 1 s))"

definition kvm_reserve_block :: "(u32 \<Rightarrow> 'a kblocks_scheme \<Rightarrow> (u32 \<times> 'a kblocks_scheme) res) \<Rightarrow> nat
    \<Rightarrow> u32 \<Rightarrow> 'a kblocks_scheme \<Rightarrow> (u32 \<times> 'a kblocks_scheme) res" where
  "kvm_reserve_block malloc f sz s = kvm_reserve_from malloc f (alignup sz 4096) (vm_first_block s) s"

fun kvm_free_from :: "(u32 \<Rightarrow> 'a kblocks_scheme \<Rightarrow> 'a kblocks_scheme res) \<Rightarrow> nat
    \<Rightarrow> u32 \<Rightarrow> u32 \<Rightarrow> nat \<Rightarrow> 'a kblocks_scheme \<Rightarrow> 'a kblocks_scheme res" where
  "kvm_free_from free f base_addr cur 0 s = Inl NoFuel"
| "kvm_free_from free f base_addr cur (Suc k) s =
     (if cur = 0 then Inl (Fatal ''Trying to free an unknown block'')
      else bindR (deref cur s) (\<lambda>b.
        if b_base b = base_addr then release_node (\<lambda>t. t = 0) free f 0 cur s
        else kvm_free_from free f base_addr (b_next b) k s))"

definition kvm_free_block :: "(u32 \<Rightarrow> 'a kblocks_scheme \<Rightarrow> 'a kblocks_scheme res) \<Rightarrow> nat
    \<Rightarrow> u32 \<Rightarrow> 'a kblocks_scheme \<Rightarrow> 'a kblocks_scheme res" where
  "kvm_free_block free f base_addr s = kvm_free_from free f base_addr (vm_first_block s) f s"

subsection \<open>Refinement\<close>

definition kvm_fits :: "u32 \<Rightarrow> node \<Rightarrow> bool" where
  "kvm_fits sz n \<longleftrightarrow> n_tag n = 0 \<and> sz \<le> n_size n"

definition kvm_ok :: "nat \<Rightarrow> node list \<Rightarrow> 'a kblocks_scheme \<Rightarrow> bool" where
  "kvm_ok f ns s \<longleftrightarrow> heap_wf f s \<and> dom (bstore s) \<subseteq> heap_live s \<and> dlist (bstore s) (vm_first_block s) ns \<and>
     contig (unat FREE_KVM_START) ns 0xFFFFFFFF \<and> length ns < f"

lemma kvm_reserve_from_refines:
  assumes "dlist (bstore s) p (pre @ ns)" "length ns < f"
  shows "kvm_reserve_from malloc f sz (head ns) s =
    (case first_fit (kvm_fits sz) ns of
       None \<Rightarrow> Inl (Fatal ''Trying to reserve more virtual memory than available'')
     | Some (xs, n, ys) \<Rightarrow> split_node malloc (n_addr n) sz 0 1 s)"
  using assms
proof (induction ns arbitrary: pre f)
  case Nil
  then show ?case by (cases f) auto
next
  case (Cons n ns)
  obtain a b z t where n: "n = (a, b, z, t)" by (cases n)
  obtain g where f: "f = Suc g" using Cons.prems by (cases f) auto
  have w: "bstore s a = Some \<lparr>b_base = b, b_size = z, b_next = head ns, b_prev = final 0 pre, b_tag = t\<rparr>" "a \<noteq> 0"
    using dlist_walk [of _ p pre a b z t ns] Cons.prems(1) by (simp_all add: n)
  have "dlist (bstore s) p ((pre @ [n]) @ ns)" using Cons.prems(1) by simp
  from Cons.IH [OF this] Cons.prems(2) w show ?case
    by (auto simp: n f deref_def kvm_fits_def not_less not_le split: option.splits)
qed

lemma kvm_free_from_refines:
  assumes "dlist (bstore s) p (pre @ xs @ (a, b, z, t) # ys)" "\<forall>n \<in> set xs. n_base n \<noteq> b" "length xs < k"
  shows "kvm_free_from free f b (head (xs @ (a, b, z, t) # ys)) k s = release_node (\<lambda>t. t = 0) free f 0 a s"
  using assms
proof (induction xs arbitrary: pre k)
  case Nil
  then obtain g where "k = Suc g" by (cases k) auto
  with Nil dlist_walk [of "bstore s" p pre a b z t ys] show ?case by (auto simp: deref_def)
next
  case (Cons x xs)
  obtain c b' z' t' where x: "x = (c, b', z', t')" by (cases x)
  obtain g where k: "k = Suc g" "length xs < g" using Cons.prems(3) by (cases k) auto
  have w: "bstore s c = Some \<lparr>b_base = b', b_size = z', b_next = head (xs @ (a, b, z, t) # ys), b_prev = final 0 pre, b_tag = t'\<rparr>" "c \<noteq> 0"
    using dlist_walk [of "bstore s" p pre c b' z' t' "xs @ (a, b, z, t) # ys"] Cons.prems(1) by (simp_all add: x)
  have "dlist (bstore s) p ((pre @ [x]) @ xs @ (a, b, z, t) # ys)" using Cons.prems(1) by simp
  from Cons.IH [OF this _ k(2)] Cons.prems(2) w show ?case by (simp add: x k deref_def)
qed

lemma kvm_reserve:
  assumes ok: "kvm_ok f ns s" and r: "heap_room 20 f s" "Suc (length ns) < f"
    and ff: "first_fit (kvm_fits (alignup sz 4096)) ns = Some (xs, (a, b, z, t), ys)"
  shows "\<exists>s' new. kvm_reserve_block (kmalloc mapm pds (Suc f)) f sz s = Inr (b, s') \<and>
    kvm_ok f (xs @ (a, b, alignup sz 4096, 1) # (new, b + alignup sz 4096, z - alignup sz 4096, 0) # ys) s'
    \<and> node_step (insert new (n_addr ` set ns)) s s'"
proof -
  let ?sz = "alignup sz 4096"
  have ns: "ns = xs @ (a, b, z, t) # ys" and fit: "?sz \<le> z"
    using first_fit_Some [OF ff] by (auto simp: kvm_fits_def)
  have w: "heap_wf f s" "dom (bstore s) \<subseteq> heap_live s" "dlist (bstore s) (vm_first_block s) (xs @ (a, b, z, t) # ys)"
    using ok by (simp_all add: kvm_ok_def ns)
  from kh.split_node_refines [OF w(1) r(1) w(2,3), of mapm pds ?sz 0 1] obtain s' new where
    s': "split_node (kmalloc mapm pds (Suc f)) a ?sz 0 1 s = Inr (b, s')" "heap_wf f s'" "dom (bstore s') \<subseteq> heap_live s'"
    "dlist (bstore s') (vm_first_block s) (xs @ (a, b, ?sz, 1) # (new, b + ?sz, z - ?sz, 0) # ys)"
    "node_step (insert new (n_addr ` set ns)) s s'" unfolding ns by blast
  have "contig (unat FREE_KVM_START) (xs @ (a, b, ?sz, 1) # (new, b + ?sz, z - ?sz, 0) # ys) 0xFFFFFFFF"
    by (rule contig_split [of _ xs a b z t ys, OF _ _ fit]) (use ok ns in \<open>simp_all add: kvm_ok_def\<close>)
  moreover have "kvm_reserve_block (kmalloc mapm pds (Suc f)) f sz s = Inr (b, s')"
    using kvm_reserve_from_refines [of s "vm_first_block s" "[]" ns f "kmalloc mapm pds (Suc f)" ?sz] ok ff s'(1) dlist_head [OF w(3)]
    by (simp add: kvm_reserve_block_def kvm_ok_def ns del: kmalloc.simps)
  ultimately show ?thesis using s' r(2) ns node_step_fields(2) [OF s'(5)]
    by (intro exI [of _ s'] exI [of _ new]) (simp add: kvm_ok_def del: kmalloc.simps)
qed

lemma kvm_free:
  assumes ok: "kvm_ok f (xs @ (a, b, z, t) # ys) s" and nb: "\<forall>n \<in> set xs. n_base n \<noteq> b"
    and mb: "mback (\<lambda>t. t = 0) (rev xs) (a, b, z, 0) = (rp', n')" and mf: "mfwd (\<lambda>t. t = 0) n' ys = (n'', ys'')"
  shows "\<exists>s'. kvm_free_block (kfree (Suc f)) f b s = Inr s' \<and> kvm_ok f (rev rp' @ n'' # ys'') s'"
proof -
  have w: "heap_wf f s" "dom (bstore s) \<subseteq> heap_live s" "dlist (bstore s) (vm_first_block s) (rev (rev xs) @ (a, b, z, t) # ys)"
    "length (rev xs) + length ys < f" and c: "contig (unat FREE_KVM_START) (rev (rev xs) @ (a, b, z, 0) # ys) 0xFFFFFFFF"
    using ok by (simp_all add: kvm_ok_def contig_append)
  from kh.release_node_refines [OF w mb mf] obtain s' where
    s': "release_node (\<lambda>t. t = 0) (kfree (Suc f)) f 0 a s = Inr s'" "heap_wf f s'" "dom (bstore s') \<subseteq> heap_live s'"
    "dlist (bstore s') (vm_first_block s) (rev rp' @ n'' # ys'')"
    "node_step (n_addr ` set (rev (rev xs) @ (a, b, z, t) # ys)) s s'" by blast
  have "contig (unat FREE_KVM_START) (rev rp' @ n'' # ys'') 0xFFFFFFFF"
    by (rule mfwd_contig [OF mback_contig [OF c _ mb] _ mf]) simp_all
  moreover have "kvm_free_block (kfree (Suc f)) f b s = Inr s'"
    using kvm_free_from_refines [of s "vm_first_block s" "[]" xs a b z t ys f "kfree (Suc f)" f] nb s'(1) w(3,4) dlist_head [OF w(3)]
    by (simp add: kvm_free_block_def)
  ultimately show ?thesis
    using s' node_step_fields(2) [OF s'(5)] mback_length [OF mb] mfwd_length [OF mf] ok
    by (intro exI [of _ s']) (simp add: kvm_ok_def)
qed

lemma kvmheap_install_ok:
  assumes "heap_wf f s" "heap_room 20 f s" "dom (bstore s) \<subseteq> heap_live s" "1 < f"
  shows "\<exists>s' p. kvmheap_install (kmalloc mapm pds (Suc f)) s = Inr s' \<and> kvm_ok f [(p, FREE_KVM_START, 0x1F7FFFFF, 0)] s'"
proof -
  from kh.malloc_room [OF assms(1,2), of mapm pds] obtain p m where
    m: "kmalloc mapm pds (Suc f) 20 s = Inr (p, s\<lparr>kmem := m\<rparr>)" "p \<noteq> 0"
    "heap_live (s\<lparr>kmem := m\<rparr>) = insert p (heap_live s)" "heap_wf f (s\<lparr>kmem := m\<rparr>)" by blast
  let ?s = "put p \<lparr>b_base = FREE_KVM_START, b_size = 0xFFFFFFFF - FREE_KVM_START, b_next = 0, b_prev = 0, b_tag = 0\<rparr>
         (s\<lparr>kmem := m, vm_first_block := p\<rparr>)"
  have "heap_live ?s = insert p (heap_live s)" "heap_wf f ?s"
    using m(3,4) by (simp_all add: heap_live_def heap_wf_def heap_ok_def put_def)
  then have "kvm_ok f [(p, FREE_KVM_START, 0x1F7FFFFF, 0)] ?s"
    using m(2) assms(3,4) by (auto simp: kvm_ok_def put_def dlist_def FREE_KVM_START_def)
  with m(1) show ?thesis
    by (intro exI [of _ ?s] exI [of _ p]) (simp add: kvmheap_install_def del: kmalloc.simps)
qed

subsection \<open>Properties\<close>

lemma kvm_range:
  assumes "kvm_ok f (xs @ (a, b, z, t) # ys) s"
  shows "FREE_KVM_START \<le> b" "unat b + unat z \<le> 0xFFFFFFFF"
  using assms contig_le contig_bound
  by (fastforce simp: kvm_ok_def contig_append word_le_nat_alt)+

text \<open>C12: \<^verbatim>\<open>kvm_reserve_block\<close> returns the first free range of kernel virtual addresses that can hold the
  request rounded up to pages, inside the region from \<^verbatim>\<open>FREE_KVM_START\<close> to the top of the address
  space, and the list keeps tiling that region; \<^verbatim>\<open>kvm_free_block\<close> of the returned address, when the
  blocks around the range are in use, restores exactly the list before.\<close>

theorem kvm_reserve_free_roundtrip:
  assumes "kvm_ok f ns s" "heap_room 20 f s" "Suc (length ns) < f"
    "first_fit (kvm_fits (alignup sz 4096)) ns = Some (xs, (a, b, z, t), ys)"
    "xs = [] \<or> n_tag (last xs) \<noteq> 0" "ys = [] \<or> n_tag (hd ys) \<noteq> 0" "\<forall>n \<in> set xs. n_base n \<noteq> b"
  shows "\<exists>s1 s2 new. kvm_reserve_block (kmalloc mapm pds (Suc f)) f sz s = Inr (b, s1) \<and>
    FREE_KVM_START \<le> b \<and> unat b + unat (alignup sz 4096) \<le> 0xFFFFFFFF \<and>
    kvm_ok f (xs @ (a, b, alignup sz 4096, 1) # (new, b + alignup sz 4096, z - alignup sz 4096, 0) # ys) s1 \<and>
    kvm_free_block (kfree (Suc f)) f b s1 = Inr s2 \<and> kvm_ok f ns s2"
proof -
  let ?sz = "alignup sz 4096"
  have ns: "ns = xs @ (a, b, z, t) # ys" and t: "t = 0" using first_fit_Some [OF assms(4)] by (auto simp: kvm_fits_def)
  from kvm_reserve [OF assms(1-4), of mapm pds] obtain s1 new where
    s1: "kvm_reserve_block (kmalloc mapm pds (Suc f)) f sz s = Inr (b, s1)"
    "kvm_ok f (xs @ (a, b, ?sz, 1) # ((new, b + ?sz, z - ?sz, 0) # ys)) s1" by blast
  have "mback (\<lambda>t. t = 0) (rev xs) (a, b, ?sz, 0) = (rev xs, (a, b, ?sz, 0))"
    using assms(5) by (cases xs rule: rev_cases; cases "last xs") auto
  moreover have "mfwd (\<lambda>t. t = 0) (a, b, ?sz, 0) ((new, b + ?sz, z - ?sz, 0) # ys) = ((a, b, z, t), ys)"
    using assms(6) t by (cases ys) auto
  ultimately obtain s2 where "kvm_free_block (kfree (Suc f)) f b s1 = Inr s2" "kvm_ok f (rev (rev xs) @ (a, b, z, t) # ys) s2"
    using kvm_free [OF s1(2) assms(7)] by blast
  then have "kvm_ok f ns s2" by (simp add: ns)
  with \<open>kvm_free_block (kfree (Suc f)) f b s1 = Inr s2\<close> s1 kvm_range [OF s1(2)] show ?thesis by blast
qed

theorem kvm_reserve_free_roundtrip_witness:
  "\<exists>(s :: kblocks) s1 s2 new. kvm_ok 10 [(0xC0800008, FREE_KVM_START, 0x1F7FFFFF, 0)] s \<and>
    kvm_reserve_block (kmalloc (\<lambda>_ _ _ _. Inl BadPtr) [] (Suc 10)) 10 5000 s = Inr (FREE_KVM_START, s1) \<and>
    kvm_ok 10 [(0xC0800008, FREE_KVM_START, 8192, 1), (new, FREE_KVM_START + 8192, 0x1F7FDFFF, 0)] s1 \<and>
    kvm_free_block (kfree (Suc 10)) 10 FREE_KVM_START s1 = Inr s2 \<and>
    kvm_ok 10 [(0xC0800008, FREE_KVM_START, 0x1F7FFFFF, 0)] s2"
proof -
  from boot_one [of "\<lparr>b_base = FREE_KVM_START, b_size = 0x1F7FFFFF, b_next = 0, b_prev = 0, b_tag = 0\<rparr>"]
  obtain s :: kblocks where s: "heap_ok s [(20, True), (0x3FFFDC, False)]" "KHEAP_BASE_START s = 0xC0800000"
    "bstore s = [0xC0800008 \<mapsto> \<lparr>b_base = FREE_KVM_START, b_size = 0x1F7FFFFF, b_next = 0, b_prev = 0, b_tag = 0\<rparr>]"
    "vm_first_block s = 0xC0800008" by blast
  note cl = boot_one_client [OF s(1,2)]
  have ok: "kvm_ok 10 [(0xC0800008, FREE_KVM_START, 0x1F7FFFFF, 0)] s"
    using cl s(3,4) by (simp add: kvm_ok_def dlist_def FREE_KVM_START_def)
  have al: "alignup 5000 4096 = (8192 :: u32)" by (rule word_unat_eqI) (simp add: unat_alignup roundup_def)
  have "first_fit (kvm_fits (alignup 5000 4096)) [(0xC0800008, FREE_KVM_START, 0x1F7FFFFF, 0)]
      = Some ([], (0xC0800008, FREE_KVM_START, 0x1F7FFFFF, 0), [])"
    unfolding al by (simp add: kvm_fits_def)
  from kvm_reserve_free_roundtrip [OF ok cl(3) _ this, of "\<lambda>_ _ _ _. Inl BadPtr" "[]"] ok show ?thesis
    unfolding al by (simp del: kmalloc.simps) blast
qed

end
