(* ===== verification/VK_Paging.thy ===== *)
theory VK_Paging
  imports VK_Kvm
begin

section \<open>Paging (memory/paging.c, memory/kpageheap.c)\<close>

text \<open>
  Page directories and page tables are arrays of 32-bit words in kernel memory, here the word memory
  \<open>pmem\<close> indexed by virtual byte address; page tables come from the page heap \<open>kpheap_blocks\<close>.
  \<^verbatim>\<open>map_memory\<close> reserves physical memory, which allocates a list node from the kernel heap, which may grow
  the heap, which calls \<^verbatim>\<open>map_memory\<close>: \<open>map_memory_d\<close> closes that recursion with a depth, and the
  interpretation \<open>hm\<close> shows that it satisfies the contract the heap relies on. \<open>phys\<close> is the
  contents of physical memory as user mappings see it.
\<close>

record paging = kblocks +
  pmem :: "u32 \<Rightarrow> u32"
  kpheap_blocks :: "nat \<Rightarrow> u8"
  cpu_pse :: bool
  kernel_page_directory :: u32
  current_page_directory :: u32
  phys :: "u32 \<Rightarrow> u8"

definition KERNEL_VIRTUAL_BASE :: u32 where "KERNEL_VIRTUAL_BASE = 0xC0000000"
definition KPHEAP_VIRT_BASE :: u32 where "KPHEAP_VIRT_BASE = 0xC0400000"
definition PD_BIT_4KB_PAGE :: u32 where "PD_BIT_4KB_PAGE = 0x80"
definition PD_ADDRESS_MASK :: u32 where "PD_ADDRESS_MASK = 0xFFFFF000"

subsection \<open>The page heap\<close>

text \<open>\<^verbatim>\<open>memset(p, 0, 4096)\<close> on a page-aligned table.\<close>

definition clear_page :: "u32 \<Rightarrow> 'a paging_scheme \<Rightarrow> 'a paging_scheme" where
  "clear_page p s = s\<lparr>pmem := \<lambda>a. if p \<le> a \<and> a - p < 4096 then 0 else pmem s a\<rparr>"

fun pt_alloc_from :: "nat \<Rightarrow> nat \<Rightarrow> 'a paging_scheme \<Rightarrow> (u32 \<times> 'a paging_scheme) res" where
  "pt_alloc_from 0 i s = Inl (Fatal ''Page heap is full. How did you do this ?'')"
| "pt_alloc_from (Suc n) i s =
     (if kpheap_blocks s i = 0 then
        (let p = KPHEAP_VIRT_BASE + 4096 * of_nat i in
         Inr (p, clear_page p (s\<lparr>kpheap_blocks := (kpheap_blocks s)(i := 1)\<rparr>)))
      else pt_alloc_from n (Suc i) s)"

definition pt_alloc :: "'a paging_scheme \<Rightarrow> (u32 \<times> 'a paging_scheme) res" where
  "pt_alloc s = pt_alloc_from 1024 0 s"

definition pt_free :: "u32 \<Rightarrow> 'a paging_scheme \<Rightarrow> 'a paging_scheme res" where
  "pt_free pt s =
     (let index = (pt - KPHEAP_VIRT_BASE) div 4096 in
      if unat index < 1024 then Inr (s\<lparr>kpheap_blocks := (kpheap_blocks s)(unat index := 0)\<rparr>) else Inl BadPtr)"

definition set_word :: "u32 \<Rightarrow> u32 \<Rightarrow> 'a paging_scheme \<Rightarrow> 'a paging_scheme" where
  "set_word a v s = s\<lparr>pmem := (pmem s)(a := v)\<rparr>"

text \<open>The tables \<^verbatim>\<open>kheap_install\<close> and \<^verbatim>\<open>install_page_heap\<close> fill by hand: 4 MiB at \<open>base\<close>, and their directory entry.\<close>

fun fill_table :: "u32 \<Rightarrow> u32 \<Rightarrow> nat \<Rightarrow> 'a paging_scheme \<Rightarrow> 'a paging_scheme" where
  "fill_table table base 0 s = s"
| "fill_table table base (Suc i) s =
     set_word (table + 4 * of_nat i) ((of_nat i * 0x1000 + base) OR 3) (fill_table table base i s)"

definition install_page_heap :: "(u32 \<Rightarrow> 'a paging_scheme \<Rightarrow> (u32 \<times> 'a paging_scheme) res) \<Rightarrow> nat \<Rightarrow> u32
    \<Rightarrow> 'a paging_scheme \<Rightarrow> 'a paging_scheme res" where
  "install_page_heap malloc f kpheap_page_table s =
     bindR (reserve_specific malloc f 0x400000 0x400000 0xA s) (\<lambda>(base, s).
       let s = fill_table kpheap_page_table base 1024 s in
       Inr (set_word (kernel_page_directory s + 4 * drop_bit 22 KPHEAP_VIRT_BASE)
         ((kpheap_page_table - KERNEL_VIRTUAL_BASE) OR 3) s))"

definition kheap_install_map :: "u32 \<Rightarrow> 'a paging_scheme \<Rightarrow> 'a paging_scheme" where
  "kheap_install_map kheap_page_table s =
     (let s = fill_table kheap_page_table KHEAP_PHYS_START 1024 s in
      set_word (kernel_page_directory s + 4 * drop_bit 22 (KHEAP_BASE_START s))
        ((kheap_page_table - KERNEL_VIRTUAL_BASE) OR 3) s)"

subsection \<open>Page tables\<close>

definition pd_entry :: "u32 \<Rightarrow> u32 \<Rightarrow> 'a paging_scheme \<Rightarrow> u32" where
  "pd_entry page_directory virt_addr s = pmem s (page_directory + 4 * drop_bit 22 virt_addr)"

text \<open>\<^verbatim>\<open>((u32) page_table) << 24 >> 31 == 1\<close>: the entry maps a 4 MiB page.\<close>

definition is_large :: "u32 \<Rightarrow> bool" where
  "is_large e \<longleftrightarrow> drop_bit 31 (push_bit 24 e) = 1"

text \<open>The virtual address of the page table entry for \<open>virt_addr\<close> in the table the entry \<open>e\<close> names.\<close>

definition pte_addr :: "u32 \<Rightarrow> u32 \<Rightarrow> u32" where
  "pte_addr e virt_addr =
     push_bit 12 (drop_bit 12 e) + (drop_bit 12 virt_addr AND 0x03FF) * 4 + KERNEL_VIRTUAL_BASE"

definition pd_switch :: "u32 \<Rightarrow> 'a paging_scheme \<Rightarrow> 'a paging_scheme" where
  "pd_switch pd s = (if current_page_directory s \<noteq> pd then s\<lparr>current_page_directory := pd\<rparr> else s)"

definition map_page :: "u32 \<Rightarrow> u32 \<Rightarrow> u32 \<Rightarrow> 'a paging_scheme \<Rightarrow> 'a paging_scheme res" where
  "map_page phys_addr virt_addr page_directory s =
     (if phys_addr mod 4096 \<noteq> 0 then Inl (Fatal ''Trying to map a non-aligned physical address'')
      else if virt_addr mod 4096 \<noteq> 0 then Inl (Fatal ''Trying to map physical to non-aligned virtual address'')
      else
        let kernel = (page_directory = kernel_page_directory s);
            e = pd_entry page_directory virt_addr s in
        bindR (if e = 0 then
                 bindR (pt_alloc s) (\<lambda>(pt, s).
                   let page_table = pt - KERNEL_VIRTUAL_BASE;
                       s = clear_page (page_table + KERNEL_VIRTUAL_BASE) s in
                   Inr (page_table, set_word (page_directory + 4 * drop_bit 22 virt_addr)
                     (page_table OR (if kernel then 259 else 7)) s))
               else if is_large e then Inl (Fatal ''Trying to map physical to an already mapped page table'')
               else Inr (push_bit 12 (drop_bit 12 e), s)) (\<lambda>(page_table, s).
          let page = page_table + (drop_bit 12 virt_addr AND 0x03FF) * 4 + KERNEL_VIRTUAL_BASE in
          if pmem s page \<noteq> 0 then Inl (Fatal ''Trying to map physical to an already mapped virtual address'')
          else Inr (set_word page (phys_addr OR (if kernel then 259 else 7)) s)))"

text \<open>Without large pages the table is filled through its physical address, as the code has it.\<close>

fun fill_map_table :: "u32 \<Rightarrow> u32 \<Rightarrow> u32 \<Rightarrow> nat \<Rightarrow> nat \<Rightarrow> 'a paging_scheme \<Rightarrow> 'a paging_scheme" where
  "fill_map_table page_table phys_addr flags i 0 s = s"
| "fill_map_table page_table phys_addr flags i (Suc n) s =
     fill_map_table page_table (phys_addr + 0x1000) flags (Suc i) n
       (set_word (page_table + 4 * of_nat i) (phys_addr OR flags) s)"

definition map_page_table :: "u32 \<Rightarrow> u32 \<Rightarrow> u32 \<Rightarrow> 'a paging_scheme \<Rightarrow> 'a paging_scheme res" where
  "map_page_table phys_addr virt_addr page_directory s =
     (if phys_addr mod 0x400000 \<noteq> 0 then Inl (Fatal ''Trying to map a non-aligned physical address'')
      else if virt_addr mod 0x400000 \<noteq> 0 then Inl (Fatal ''Trying to map physical to non-aligned virtual address'')
      else
        let kernel = (page_directory = kernel_page_directory s);
            pde = page_directory + 4 * drop_bit 22 virt_addr in
        if pmem s pde \<noteq> 0 then Inl (Fatal ''Trying to map a page table to an already mapped page table'')
        else if cpu_pse s then Inr (set_word pde (phys_addr OR (if kernel then 387 else 135)) s)
        else bindR (pt_alloc s) (\<lambda>(pt, s).
          let page_table = pt - KERNEL_VIRTUAL_BASE;
              s = set_word pde (page_table OR (if kernel then 259 else 7)) s in
          Inr (fill_map_table page_table phys_addr (if kernel then 3 else 7) 0 1024 s)))"

definition unmap_page :: "u32 \<Rightarrow> u32 \<Rightarrow> 'a paging_scheme \<Rightarrow> 'a paging_scheme res" where
  "unmap_page virt_addr page_directory s =
     (if virt_addr mod 4096 \<noteq> 0 then Inl (Fatal ''Trying to unmap a non-aligned virtual address'')
      else
        let e = pd_entry page_directory virt_addr s in
        if e = 0 then Inr s
        else if is_large e then Inl (Fatal ''Trying to unmap page, but page table is mapped'')
        else
          let page = pte_addr e virt_addr in
          if pmem s page = 0 then Inl (Fatal ''Trying to unmap a non-mapped virtual address'')
          else Inr (set_word page 0 s))"

text \<open>\<^verbatim>\<open>page_table + KERNEL_VIRTUAL_BASE\<close> is arithmetic on a \<^verbatim>\<open>u32*\<close>: four times the offset.\<close>

definition unmap_page_table :: "u32 \<Rightarrow> u32 \<Rightarrow> 'a paging_scheme \<Rightarrow> 'a paging_scheme res" where
  "unmap_page_table virt_addr page_directory s =
     (if virt_addr mod 0x400000 \<noteq> 0 then Inl (Fatal ''Trying to unmap a non-aligned virtual address'')
      else
        let pde = page_directory + 4 * drop_bit 22 virt_addr; e = pmem s pde in
        if e = 0 then Inl (Fatal ''Trying to unmap an unmapped page table'')
        else if cpu_pse s then Inr (set_word pde 0 s)
        else bindR (pt_free (e + 4 * KERNEL_VIRTUAL_BASE) s) (\<lambda>s. Inr (set_word pde 0 s)))"

definition get_physical :: "u32 \<Rightarrow> u32 \<Rightarrow> 'a paging_scheme \<Rightarrow> u32" where
  "get_physical virt_addr page_directory s =
     (let e = pd_entry page_directory virt_addr s in
      if e = 0 then 0
      else if is_large e then push_bit 12 (drop_bit 12 (pmem s e)) + virt_addr mod 0x400000
      else
        let page = pmem s (pte_addr e virt_addr) in
        if page \<noteq> 0 then push_bit 12 (drop_bit 12 page) + virt_addr mod 4096 else 0)"

definition is_mapped :: "u32 \<Rightarrow> u32 \<Rightarrow> 'a paging_scheme \<Rightarrow> bool" where
  "is_mapped virt_addr page_directory s =
     (let e = pd_entry page_directory virt_addr s in
      if e = 0 then False
      else if e AND PD_BIT_4KB_PAGE \<noteq> 0 then True
      else pmem s ((e AND PD_ADDRESS_MASK) + (drop_bit 12 virt_addr AND 0x03FF) * 4 + KERNEL_VIRTUAL_BASE) \<noteq> 0)"

subsection \<open>Ranges\<close>

text \<open>The two loops of every range operation: \<open>big\<close> per 4 MiB while more than that remains, if
  the range is so aligned, then \<open>small\<close> per page.\<close>

fun big_loop :: "nat \<Rightarrow> (u32 \<Rightarrow> 'a paging_scheme \<Rightarrow> 'a paging_scheme res) \<Rightarrow> u32 \<Rightarrow> u32
    \<Rightarrow> 'a paging_scheme \<Rightarrow> (u32 \<times> u32 \<times> 'a paging_scheme) res" where
  "big_loop 0 big sz add s = Inl NoFuel"
| "big_loop (Suc f) big sz add s =
     (if 0x400000 < sz then bindR (big add s) (big_loop f big (sz - 0x400000) (add + 0x400000))
      else Inr (sz, add, s))"

fun small_loop :: "nat \<Rightarrow> (u32 \<Rightarrow> 'a paging_scheme \<Rightarrow> 'a paging_scheme res) \<Rightarrow> u32 \<Rightarrow> u32
    \<Rightarrow> 'a paging_scheme \<Rightarrow> 'a paging_scheme res" where
  "small_loop 0 small sz add s = Inl NoFuel"
| "small_loop (Suc f) small sz add s =
     (if sz \<noteq> 0 then bindR (small add s) (small_loop f small (sz - 4096) (add + 4096)) else Inr s)"

definition range_loops :: "(u32 \<Rightarrow> 'a paging_scheme \<Rightarrow> 'a paging_scheme res) \<Rightarrow> (u32 \<Rightarrow> 'a paging_scheme \<Rightarrow> 'a paging_scheme res)
    \<Rightarrow> u32 \<Rightarrow> u32 \<Rightarrow> 'a paging_scheme \<Rightarrow> 'a paging_scheme res" where
  "range_loops big small virt_addr sz s =
     bindR (if virt_addr mod 0x400000 = 0 \<and> 0x400000 < sz then big_loop (Suc (unat sz)) big sz 0 s else Inr (sz, 0, s))
       (\<lambda>(sz, add, s). small_loop (Suc (unat sz)) small sz add s)"

text \<open>The page-aligned start and size of a range.\<close>

definition page_start :: "u32 \<Rightarrow> u32" where
  "page_start virt_addr = aligndown virt_addr 4096"

definition page_size :: "u32 \<Rightarrow> u32 \<Rightarrow> u32" where
  "page_size sz virt_addr = alignup (sz + (virt_addr - page_start virt_addr)) 4096"

definition map_flexible :: "u32 \<Rightarrow> u32 \<Rightarrow> u32 \<Rightarrow> u32 \<Rightarrow> 'a paging_scheme \<Rightarrow> 'a paging_scheme res" where
  "map_flexible sz physical virt_addr page_directory s =
     (let va = page_start virt_addr in
      range_loops (\<lambda>add. map_page_table (physical + add) (va + add) page_directory)
        (\<lambda>add. map_page (physical + add) (va + add) page_directory) va (page_size sz virt_addr) s)"

definition unmap_flexible :: "u32 \<Rightarrow> u32 \<Rightarrow> u32 \<Rightarrow> 'a paging_scheme \<Rightarrow> 'a paging_scheme res" where
  "unmap_flexible sz virt_addr page_directory s =
     (let va = page_start virt_addr in
      range_loops (\<lambda>add. unmap_page_table (va + add) page_directory)
        (\<lambda>add. unmap_page (va + add) page_directory) va (page_size sz virt_addr) s)"

definition block_type_for :: "u32 \<Rightarrow> 'a paging_scheme \<Rightarrow> u8" where
  "block_type_for page_directory s =
     (if page_directory = kernel_page_directory s then PHYS_KERNELF_BLOCK_TYPE else PHYS_USER_BLOCK_TYPE)"

definition map_memory :: "(u32 \<Rightarrow> 'a paging_scheme \<Rightarrow> (u32 \<times> 'a paging_scheme) res) \<Rightarrow> nat
    \<Rightarrow> u32 \<Rightarrow> u32 \<Rightarrow> u32 \<Rightarrow> 'a paging_scheme \<Rightarrow> 'a paging_scheme res" where
  "map_memory malloc f sz virt_addr page_directory s =
     (let va = page_start virt_addr; psz = page_size sz virt_addr in
      bindR (reserve_block malloc f psz (block_type_for page_directory s) s) (\<lambda>(phys_addr, s).
        range_loops (\<lambda>add. map_page_table (phys_addr + add) (va + add) page_directory)
          (\<lambda>add. map_page (phys_addr + add) (va + add) page_directory) va psz s))"

definition map_memory_if_not_mapped :: "(u32 \<Rightarrow> 'a paging_scheme \<Rightarrow> (u32 \<times> 'a paging_scheme) res) \<Rightarrow> nat
    \<Rightarrow> u32 \<Rightarrow> u32 \<Rightarrow> u32 \<Rightarrow> 'a paging_scheme \<Rightarrow> 'a paging_scheme res" where
  "map_memory_if_not_mapped malloc f sz virt_addr page_directory s =
     (let va = page_start virt_addr; psz = page_size sz virt_addr in
      bindR (reserve_block malloc f psz (block_type_for page_directory s) s) (\<lambda>(phys_addr, s).
        range_loops
          (\<lambda>add s. if is_mapped (va + add) page_directory s then Inr s
             else map_page_table (phys_addr + add) (va + add) page_directory s)
          (\<lambda>add s. if is_mapped (va + add) page_directory s then Inr s
             else map_page (phys_addr + add) (va + add) page_directory s) va psz s))"

definition unmap_memory_if_mapped :: "u32 \<Rightarrow> u32 \<Rightarrow> u32 \<Rightarrow> 'a paging_scheme \<Rightarrow> 'a paging_scheme res" where
  "unmap_memory_if_mapped sz virt_addr page_directory s =
     (let va = page_start virt_addr in
      range_loops
        (\<lambda>add s. if is_mapped (va + add) page_directory s then unmap_page_table (va + add) page_directory s else Inr s)
        (\<lambda>add s. if is_mapped (va + add) page_directory s then unmap_page (va + add) page_directory s else Inr s)
        va (page_size sz virt_addr) s)"

text \<open>The recursion through the heap, \<open>d\<close> levels deep; the kernel's directory comes first.\<close>

fun map_memory_d :: "nat \<Rightarrow> nat \<Rightarrow> u32 \<Rightarrow> u32 list \<Rightarrow> u32 \<Rightarrow> u32 \<Rightarrow> u32 \<Rightarrow> 'a paging_scheme \<Rightarrow> 'a paging_scheme res" where
  "map_memory_d 0 f kpd procs sz virt_addr pd s = Inl NoFuel"
| "map_memory_d (Suc d) f kpd procs sz virt_addr pd s =
     map_memory (kmalloc (map_memory_d d f kpd procs) (kpd # procs) (Suc f)) f sz virt_addr pd s"

subsection \<open>The heap under the paging layer\<close>

text \<open>The page tables are not in the heap: mapping leaves it alone.\<close>

definition heap_same :: "'a paging_scheme \<Rightarrow> 'a paging_scheme \<Rightarrow> bool" where
  "heap_same s s' \<longleftrightarrow> kmem s' = kmem s \<and> KHEAP_BASE_START s' = KHEAP_BASE_START s \<and> KHEAP_BASE_END s' = KHEAP_BASE_END s"

lemma heap_same_refl [simp]: "heap_same s s"
  by (simp add: heap_same_def)

lemma heap_same_trans: "heap_same s s' \<Longrightarrow> heap_same s' s'' \<Longrightarrow> heap_same s s''"
  by (simp add: heap_same_def)

lemma heap_same_simps [simp]: "heap_same s (set_word a v s') = heap_same s s'" "heap_same s (clear_page p s') = heap_same s s'"
  "heap_same s (fill_map_table pt ph fl i n s') = heap_same s s'"
  by (simp_all add: heap_same_def set_word_def clear_page_def,
      induction n arbitrary: ph i s') (simp_all add: set_word_def)

lemma pt_alloc_from_heap: "pt_alloc_from n i s = Inr (p, s') \<Longrightarrow> heap_same s s'"
  by (induction n arbitrary: i) (auto simp: Let_def heap_same_def clear_page_def split: if_splits)

lemma pt_alloc_heap: "pt_alloc s = Inr (p, s') \<Longrightarrow> heap_same s s'"
  unfolding pt_alloc_def by (rule pt_alloc_from_heap)

lemma map_page_heap: "map_page ph va pd s = Inr s' \<Longrightarrow> heap_same s s'"
  by (auto simp: map_page_def Let_def bindR_Inr_iff split: if_splits dest!: pt_alloc_heap)

lemma map_page_table_heap: "map_page_table ph va pd s = Inr s' \<Longrightarrow> heap_same s s'"
  by (auto simp: map_page_table_def Let_def bindR_Inr_iff split: if_splits dest!: pt_alloc_heap)

lemma big_loop_heap:
  assumes "\<And>a s s'. big a s = Inr s' \<Longrightarrow> heap_same s s'" "big_loop f big sz add s = Inr (sz', add', s')"
  shows "heap_same s s'"
  using assms(2)
proof (induction f arbitrary: sz add s)
  case (Suc f)
  then show ?case using assms(1) heap_same_trans by (fastforce simp: bindR_Inr_iff split: if_splits)
qed simp

lemma small_loop_heap:
  assumes "\<And>a s s'. small a s = Inr s' \<Longrightarrow> heap_same s s'" "small_loop f small sz add s = Inr s'"
  shows "heap_same s s'"
  using assms(2)
proof (induction f arbitrary: sz add s)
  case (Suc f)
  then show ?case using assms(1) heap_same_trans by (fastforce simp: bindR_Inr_iff split: if_splits)
qed simp

lemma range_loops_heap:
  assumes "\<And>a s s'. big a s = Inr s' \<Longrightarrow> heap_same s s'" "\<And>a s s'. small a s = Inr s' \<Longrightarrow> heap_same s s'"
    "range_loops big small va sz s = Inr s'"
  shows "heap_same s s'"
proof -
  from assms(3) obtain sz1 add s1 where
    r: "(if va mod 0x400000 = 0 \<and> 0x400000 < sz then big_loop (Suc (unat sz)) big sz 0 s else Inr (sz, 0, s)) = Inr (sz1, add, s1)"
    "small_loop (Suc (unat sz1)) small sz1 add s1 = Inr s'"
    by (auto simp: range_loops_def bindR_Inr_iff simp del: big_loop.simps small_loop.simps)
  have "heap_same s s1" using r(1) big_loop_heap [OF assms(1)] by (auto split: if_splits simp del: big_loop.simps)
  moreover have "heap_same s1 s'" using small_loop_heap [of small, OF _ r(2)] assms(2) by blast
  ultimately show ?thesis by (rule heap_same_trans)
qed

text \<open>\<^verbatim>\<open>reserve_block\<close> allocates one node and changes nothing of the heap besides.\<close>

lemma put_heap [simp]: "heap_same s (put p b s') = heap_same s s'"
  by (simp add: heap_same_def put_def)

lemma upd_heap: "upd p g s = Inr s' \<Longrightarrow> heap_same s s'"
  by (auto simp: upd_def bindR_Inr_iff)

lemma set_prev_if_heap: "set_prev_if p v s = Inr s' \<Longrightarrow> heap_same s s'"
  by (auto simp: set_prev_if_def split: if_splits dest: upd_heap)

lemma split_node_heap:
  assumes "split_node malloc cur sz ft ut s = Inr (b, s')"
  shows "\<exists>q s1. malloc 20 s = Inr (q, s1) \<and> heap_same s1 s'"
proof -
  from assms obtain q s1 bc s2 where r: "malloc 20 s = Inr (q, s1)" "deref cur s1 = Inr bc"
    "set_prev_if (b_next bc) q (put q \<lparr>b_base = b_base bc + sz, b_size = b_size bc - sz, b_next = b_next bc, b_prev = cur, b_tag = ft\<rparr> s1) = Inr s2"
    "upd cur (\<lambda>b. b\<lparr>b_size := sz, b_next := q, b_tag := ut\<rparr>) s2 = Inr s'"
    by (auto simp: split_node_def Let_def bindR_Inr_iff)
  from set_prev_if_heap [OF r(3)] upd_heap [OF r(4)] r(1) show ?thesis
    by (auto simp: heap_same_def put_def)
qed

lemma reserve_block_heap:
  assumes "reserve_block malloc f sz type s = Inr (b, s')"
  shows "\<exists>q s1. malloc 20 s = Inr (q, s1) \<and> heap_same s1 s'"
proof -
  have "reserve_block_from malloc f z type cur s = Inr (b, s') \<Longrightarrow> \<exists>q s1. malloc 20 s = Inr (q, s1) \<and> heap_same s1 s'" for z cur
    by (induction f arbitrary: cur) (auto simp: bindR_Inr_iff split: if_splits dest: split_node_heap)
  with assms show ?thesis by (simp add: reserve_block_def)
qed

lemma map_memory_heap:
  assumes "map_memory malloc f sz va pd s = Inr s'"
  shows "\<exists>q s1. malloc 20 s = Inr (q, s1) \<and> heap_same s1 s'"
proof -
  from assms obtain ph s1 where r: "reserve_block malloc f (page_size sz va) (block_type_for pd s) s = Inr (ph, s1)"
    "range_loops (\<lambda>add. map_page_table (ph + add) (page_start va + add) pd)
       (\<lambda>add. map_page (ph + add) (page_start va + add) pd) (page_start va) (page_size sz va) s1 = Inr s'"
    by (auto simp: map_memory_def Let_def bindR_Inr_iff)
  have "heap_same s1 s'"
    by (rule range_loops_heap [OF map_page_table_heap map_page_heap r(2)])
  with reserve_block_heap [OF r(1)] show ?thesis by (blast intro: heap_same_trans)
qed

text \<open>A heap too full for one list node: the growth path asks for one first, so it never returns.\<close>

definition node_full :: "nat \<Rightarrow> 'a kheap_scheme \<Rightarrow> bool" where
  "node_full f s \<longleftrightarrow> (\<forall>r. kmalloc_walk (Suc f) (KHEAP_BASE_START s) 20 s \<noteq> Inr (Some r))"

lemma alignup_20 [simp]: "alignup 20 4 = (20 :: u32)"
  by (rule alignup_id) simp

lemma expand_first:
  assumes "kheap_expand mapm (pd # pds) f s = Inr s'"
  shows "\<exists>s1. mapm 0x400000 (KHEAP_BASE_END s) pd s = Inr s1"
  using assms by (auto simp: kheap_expand_def bindR_Inr_iff split: if_splits)

lemma node_full_no_node:
  assumes "node_full f s" "\<And>sz va pd. \<forall>s'. mapm sz va pd s \<noteq> Inr s'"
  shows "kmalloc mapm (pd # pds) (Suc f) 20 s \<noteq> Inr r"
proof
  assume "kmalloc mapm (pd # pds) (Suc f) 20 s = Inr r"
  then obtain w where w: "kmalloc_walk (Suc f) (KHEAP_BASE_START s) 20 s = Inr w"
    "(case w of Some r \<Rightarrow> Inr r
      | None \<Rightarrow> bindR (kheap_expand mapm (pd # pds) (Suc f) s) (kmalloc mapm (pd # pds) f 20)) = Inr r"
    by (auto simp: bindR_Inr_iff simp del: kmalloc_walk.simps)
  then have "w = None" using assms(1) by (cases w) (auto simp: node_full_def simp del: kmalloc_walk.simps)
  with w(2) obtain s1 where "kheap_expand mapm (pd # pds) (Suc f) s = Inr s1" by (auto simp: bindR_Inr_iff)
  from expand_first [OF this] assms(2) show False by blast
qed

lemma map_memory_d_full:
  assumes "node_full f s"
  shows "map_memory_d d f kpd procs sz va pd s \<noteq> Inr s'"
proof (induction d arbitrary: sz va pd s')
  case (Suc d)
  show ?case
  proof
    assume "map_memory_d (Suc d) f kpd procs sz va pd s = Inr s'"
    then obtain q s1 where "kmalloc (map_memory_d d f kpd procs) (kpd # procs) (Suc f) 20 s = Inr (q, s1)"
      using map_memory_heap by (fastforce simp del: kmalloc.simps)
    with node_full_no_node [OF assms, of "map_memory_d d f kpd procs" kpd procs] Suc.IH show False by blast
  qed
qed simp

lemma map_memory_d_node:
  assumes "map_memory_d d f kpd procs sz va pd s = Inr s'"
  shows "\<exists>q s1. kmalloc_walk (Suc f) (KHEAP_BASE_START s) 20 s = Inr (Some (q, s1)) \<and> heap_same s1 s'"
proof (cases d)
  case (Suc k)
  from assms obtain q s1 where m: "kmalloc (map_memory_d k f kpd procs) (kpd # procs) (Suc f) 20 s = Inr (q, s1)" "heap_same s1 s'"
    using map_memory_heap by (fastforce simp: Suc simp del: kmalloc.simps)
  have "\<not> node_full f s" using map_memory_d_full [of f s d kpd procs sz va pd s'] assms by blast
  then obtain r where r: "kmalloc_walk (Suc f) (KHEAP_BASE_START s) 20 s = Inr (Some r)"
    by (auto simp: node_full_def simp del: kmalloc_walk.simps)
  then have "kmalloc (map_memory_d k f kpd procs) (kpd # procs) (Suc f) 20 s = Inr r"
    by (simp del: kmalloc_walk.simps split: prod.splits)
  with m r show ?thesis by auto
qed (use assms in simp)

interpretation hm: heap_mapper "map_memory_d d f kpd procs"
  for d f kpd and procs :: "u32 list"
proof
  fix s :: "'a paging_scheme" and bs sz addr pd s'
  assume ok: "heap_ok s bs" and r: "map_memory_d d f kpd procs sz addr pd s = Inr s'"
  from map_memory_d_node [OF r] obtain q s1 where
    q: "kmalloc_walk (Suc f) (KHEAP_BASE_START s) 20 s = Inr (Some (q, s1))" "heap_same s1 s'" by blast
  from kmalloc_walk_ok [OF ok q(1)] obtain bs' where bs': "allocates 20 s bs q s1 bs'" "KHEAP_BASE_END s1 = KHEAP_BASE_END s"
    by auto
  then show "\<exists>bs'. heap_ok s' bs' \<and> heap_le s bs s' bs' \<and> KHEAP_BASE_END s' = KHEAP_BASE_END s"
    using q(2) by (intro exI [of _ bs']) (auto simp: allocates_def heap_ok_def heap_le_def heap_same_def)
qed

subsection \<open>Properties\<close>

text \<open>A concrete machine: the boot heap with one block in use, 4 MiB of free physical memory, empty page tables.\<close>

definition boot_paging :: "mem \<Rightarrow> paging" where
  "boot_paging m = \<lparr>kmem = m, KHEAP_BASE_START = 0xC0800000, KHEAP_BASE_END = 0xC0C00000,
     bstore = [0xC0800008 \<mapsto> \<lparr>b_base = 0x100000, b_size = 0x400000, b_next = 0, b_prev = 0, b_tag = 1\<rparr>],
     first_block = 0xC0800008, detected_memory = 0, detected_memory_below32 = 0, vm_first_block = 0,
     pmem = (\<lambda>_. 0), kpheap_blocks = (\<lambda>_. 0), cpu_pse = True, kernel_page_directory = 0xC0301000,
     current_page_directory = 0xC0301000, phys = (\<lambda>_. 0)\<rparr>"

lemma boot_paging_ok:
  "\<exists>m. heap_ok (boot_paging m) [(20, True), (0x3FFFDC, False)] \<and> heap_room 20 10 (boot_paging m) \<and>
    phys_ok 10 0x100000 0x500000 [(0xC0800008, 0x100000, 0x400000, 1)] (boot_paging m)"
proof -
  from boot_one obtain s :: kblocks where s: "heap_ok s [(20, True), (0x3FFFDC, False)]" "KHEAP_BASE_START s = 0xC0800000"
    by blast
  have "tiled (kmem s) 0xC0800000 (unat (KHEAP_BASE_END s)) [(20, True), (0x3FFFDC, False)]"
    using s by (simp add: heap_ok_def del: tiled.simps)
  moreover from this have "unat (KHEAP_BASE_END s) = 0xC0C00000" by simp
  ultimately have ok: "heap_ok (boot_paging (kmem s)) [(20, True), (0x3FFFDC, False)]"
    by (simp add: heap_ok_def boot_paging_def del: tiled.simps)
  have st: "KHEAP_BASE_START (boot_paging (kmem s)) = 0xC0800000" by (simp add: boot_paging_def)
  note cl = boot_one_client [OF ok st]
  have "phys_ok 10 0x100000 0x500000 [(0xC0800008, 0x100000, 0x400000, 1)] (boot_paging (kmem s))"
    using cl by (simp add: phys_ok_def dlist_def boot_paging_def)
  with ok cl(3) show ?thesis by blast
qed






text \<open>A heap of one block in use.\<close>

definition full_paging :: paging where
  "full_paging = (boot_paging (set_status 0xC0800000 1 (set_magic 0xC0800000 BLOCK_HEADER_MAGIC
     (set_size 0xC0800000 0x3FFFF8 (\<lambda>_. 0)))))"

lemma full_paging_ok: "heap_ok full_paging [(0x3FFFF8, True)]"
  by (simp add: heap_ok_def full_paging_def boot_paging_def)


end
