(* ===== verification/VK_PageTables.thy ===== *)
theory VK_PageTables
  imports VK_Paging
begin

section \<open>Address translation\<close>

text \<open>
  What the page table operations of \<^verbatim>\<open>VK_Paging\<close> do to the translation \<^verbatim>\<open>get_physical\<close> computes. The
  first part is arithmetic of pages and directory slots, the second the invariant \<open>pd_ok\<close> (no page
  table is shared, free or the directory itself) with its preservation, the third the loops over
  ranges: after \<^verbatim>\<open>map_memory\<close> exactly the pages of the range translate to the reserved block.
\<close>

subsection \<open>Page arithmetic\<close>

lemma aligned_bits:
  fixes x :: u32
  assumes "x mod 4096 = 0" "n < 12"
  shows "\<not> bit x n"
proof -
  have "take_bit 12 x = 0" using assms(1) by (simp add: take_bit_eq_mod)
  then have "bit (take_bit 12 x) n = False" by simp
  with assms(2) show ?thesis by (simp add: bit_take_bit_iff)
qed

lemma is_large_bit: "is_large e \<longleftrightarrow> bit e 7"
proof -
  have "drop_bit 31 (push_bit 24 e) = (if bit e 7 then 1 else 0)"
    by (rule bit_word_eqI) (auto simp: bit_simps)
  then show ?thesis by (simp add: is_large_def)
qed

lemma push_drop_aligned:
  fixes x :: u32
  assumes "x mod 4096 = 0"
  shows "push_bit 12 (drop_bit 12 x) = x"
proof (rule bit_word_eqI)
  fix n assume "n < LENGTH(32)"
  show "bit (push_bit 12 (drop_bit 12 x)) n = bit x n"
  proof (cases "n < 12")
    case True
    with aligned_bits [OF assms] show ?thesis by (simp add: bit_simps)
  next
    case False
    with \<open>n < LENGTH(32)\<close> show ?thesis by (simp add: bit_simps)
  qed
qed

lemma page_of_entry:
  fixes x :: u32
  assumes "x mod 4096 = 0" "c = 7 \<or> c = 259"
  shows "push_bit 12 (drop_bit 12 (x OR c)) = x" "\<not> is_large (x OR c)" "x OR c \<noteq> 0"
proof -
  have "drop_bit 12 (x OR c) = drop_bit 12 x OR drop_bit 12 c" by (simp add: drop_bit_or)
  moreover have "drop_bit 12 c = 0" using assms(2) by auto
  ultimately show "push_bit 12 (drop_bit 12 (x OR c)) = x" using push_drop_aligned [OF assms(1)] by simp
  show "\<not> is_large (x OR c)" using assms aligned_bits [OF assms(1), of 7] by (auto simp: is_large_bit bit_or_iff)
  have "bit (x OR c) 0" using assms(2) by (auto simp: bit_or_iff)
  then show "x OR c \<noteq> 0" by (metis bit_0_eq bot_apply bot_bool_def)
qed

lemma unat_frame: "unat (drop_bit 12 (v :: u32)) = unat v div 4096"
  by (simp add: drop_bit_eq_div unat_div_distrib)

lemma aligned_nat: "(a :: u32) mod 4096 = 0 \<longleftrightarrow> unat a mod 4096 = 0"
  by (simp add: word_unat_eq_iff unat_mod_distrib)

lemma aligned_top: "a mod 4096 = 0 \<Longrightarrow> unat (a :: u32) + 4096 \<le> 2 ^ 32"
proof -
  assume "a mod 4096 = 0"
  then obtain q where q: "unat a = 4096 * q" by (auto simp: aligned_nat)
  then have "q < 1048576" using unat_lt_32 [of a] by simp
  with q show ?thesis by simp
qed

lemma same_page:
  fixes v a :: u32
  assumes "a mod 4096 = 0"
  shows "drop_bit 12 v = drop_bit 12 a \<longleftrightarrow> v - a < 4096"
    "v - a < 4096 \<Longrightarrow> v mod 4096 = v - a"
proof -
  have an: "unat a mod 4096 = 0" and at: "unat a + 4096 \<le> 2 ^ 32"
    using assms aligned_top [OF assms] by (simp_all add: aligned_nat)
  have sum: "unat v = unat a + unat (v - a)" if "v - a < 4096"
  proof -
    have "unat (a + (v - a)) = unat a + unat (v - a)"
      by (rule unat_plus_small) (use that at in \<open>simp add: word_less_nat_alt\<close>)
    then show ?thesis by simp
  qed
  have d: "drop_bit 12 v = drop_bit 12 a \<longleftrightarrow> unat v div 4096 = unat a div 4096"
    by (simp add: word_unat_eq_iff unat_frame)
  obtain q where q: "unat a = 4096 * q" using an by auto
  show "drop_bit 12 v = drop_bit 12 a \<longleftrightarrow> v - a < 4096"
  proof
    assume less: "v - a < 4096"
    then have "unat (v - a) < 4096" by (simp add: word_less_nat_alt)
    with sum [OF less] q show "drop_bit 12 v = drop_bit 12 a" unfolding d by simp
  next
    assume "drop_bit 12 v = drop_bit 12 a"
    then have eq: "unat v div 4096 = q" using q by (simp add: d)
    have "unat v = 4096 * q + unat v mod 4096" unfolding eq [symmetric] by simp
    then have "unat a \<le> unat v" "unat v - unat a < 4096" using q by simp_all
    then show "v - a < 4096" by (simp add: word_less_nat_alt unat_sub word_le_nat_alt)
  qed
  show "v mod 4096 = v - a" if "v - a < 4096"
    using sum [OF that] that q
    by (intro word_unat_eqI) (simp add: unat_mod_distrib word_less_nat_alt)
qed

lemma page_index:
  fixes v a :: u32
  shows "drop_bit 12 v = drop_bit 12 a \<longleftrightarrow>
    drop_bit 22 v = drop_bit 22 a \<and> drop_bit 12 v AND 0x3FF = drop_bit 12 a AND 0x3FF"
proof
  assume h: "drop_bit 22 v = drop_bit 22 a \<and> drop_bit 12 v AND 0x3FF = drop_bit 12 a AND 0x3FF"
  have m: "(0x3FF :: u32) = mask 10" by (simp add: mask_eq_exp_minus_1)
  show "drop_bit 12 v = drop_bit 12 a"
  proof (rule bit_word_eqI)
    fix n assume "n < LENGTH(32)"
    have hi: "bit v (22 + k) = bit a (22 + k)" for k
      using h bit_drop_bit_eq [of 22 v] bit_drop_bit_eq [of 22 a] by (metis comp_apply)
    have lo: "bit (drop_bit 12 v AND mask 10) n = bit (drop_bit 12 a AND mask 10) n" using h unfolding m by simp
    show "bit (drop_bit 12 v) n = bit (drop_bit 12 a) n"
    proof (cases "n < 10")
      case True
      with lo show ?thesis by (simp add: bit_simps)
    next
      case False
      then obtain k where "n = 10 + k" using le_Suc_ex [of 10 n] by auto
      with hi [of k] show ?thesis by (simp add: bit_simps add.assoc [symmetric])
    qed
  qed
next
  assume h: "drop_bit 12 v = drop_bit 12 a"
  have "drop_bit 22 x = drop_bit 10 (drop_bit 12 x)" for x :: u32 by (simp add: drop_bit_drop_bit)
  then have "drop_bit 22 v = drop_bit 22 a" using h by metis
  with h show "drop_bit 22 v = drop_bit 22 a \<and> drop_bit 12 v AND 0x3FF = drop_bit 12 a AND 0x3FF" by simp
qed

lemma slot_inj:
  fixes b b' i j :: u32
  assumes "b mod 4096 = 0" "b' mod 4096 = 0" "i < 1024" "j < 1024"
  shows "b + 4 * i = b' + 4 * j \<longleftrightarrow> b = b' \<and> i = j"
proof -
  have "unat (4 * k) = 4 * unat k" "unat k < 1024" if "k < 1024" for k :: u32
    using that by (simp_all add: unat_word_ariths word_less_nat_alt)
  moreover have "unat (c + 4 * k) = unat c + 4 * unat k" if "c mod 4096 = 0" "k < 1024" for c k :: u32
    using calculation [OF that(2)] aligned_top [OF that(1)] by (subst unat_plus_small) auto
  ultimately have *: "b + 4 * i = b' + 4 * j \<longleftrightarrow> unat b + 4 * unat i = unat b' + 4 * unat j"
    "unat i < 1024" "unat j < 1024"
    using assms by (simp_all add: word_unat_eq_iff)
  obtain q q' where q: "unat b = 4096 * q" "unat b' = 4096 * q'" using assms(1,2) unfolding aligned_nat by (auto elim!: dvdE simp: dvd_eq_mod_eq_0 [symmetric])
  have "(4096 * q + 4 * unat i) div 4096 = q" "(4096 * q' + 4 * unat j) div 4096 = q'"
    using *(2,3) by simp_all
  then have "unat b + 4 * unat i = unat b' + 4 * unat j \<longleftrightarrow> unat b = unat b' \<and> unat i = unat j"
    unfolding q by (metis add_left_cancel mult_cancel1 zero_neq_numeral)
  with *(1) show ?thesis by (simp add: word_unat_eq_iff)
qed

lemma index_bounds: "drop_bit 22 (v :: u32) < 1024" "(drop_bit 12 v AND 0x3FF) < 1024"
proof -
  have "unat (drop_bit 22 v) = unat v div 4194304" by (simp add: drop_bit_eq_div unat_div_distrib)
  then show "drop_bit 22 v < 1024" using unat_lt_32 [of v] by (simp add: word_less_nat_alt)
  have "drop_bit 12 v AND 0x3FF \<le> 0x3FF" by (rule word_and_le1)
  then show "(drop_bit 12 v AND 0x3FF) < 1024" by (simp add: word_less_nat_alt word_le_nat_alt)
qed

subsection \<open>What a mapping does to address translation\<close>

definition table_of :: "u32 \<Rightarrow> u32" where
  "table_of e = push_bit 12 (drop_bit 12 e) + KERNEL_VIRTUAL_BASE"

definition kp_block :: "nat \<Rightarrow> u32" where
  "kp_block k = KPHEAP_VIRT_BASE + 4096 * of_nat k"

definition present :: "u32 \<Rightarrow> bool" where
  "present e \<longleftrightarrow> e \<noteq> 0 \<and> \<not> is_large e"

text \<open>A directory whose tables are its own: no table is shared, is the directory, or is a free page of the page heap.\<close>

definition pd_ok :: "u32 \<Rightarrow> 'a paging_scheme \<Rightarrow> bool" where
  "pd_ok pd s \<longleftrightarrow> pd mod 4096 = 0 \<and> (\<forall>k. k < 1024 \<longrightarrow> kpheap_blocks s k = 0 \<longrightarrow> pd \<noteq> kp_block k) \<and>
     (\<forall>i. i < 1024 \<longrightarrow> present (pmem s (pd + 4 * i)) \<longrightarrow> table_of (pmem s (pd + 4 * i)) \<noteq> pd \<and>
       (\<forall>k. k < 1024 \<longrightarrow> kpheap_blocks s k = 0 \<longrightarrow> table_of (pmem s (pd + 4 * i)) \<noteq> kp_block k) \<and>
       (\<forall>j. j < 1024 \<longrightarrow> j \<noteq> i \<longrightarrow> present (pmem s (pd + 4 * j)) \<longrightarrow>
          table_of (pmem s (pd + 4 * i)) \<noteq> table_of (pmem s (pd + 4 * j))))"

lemma pd_okD:
  assumes "pd_ok pd s"
  shows "pd mod 4096 = 0"
    "k < 1024 \<Longrightarrow> kpheap_blocks s k = 0 \<Longrightarrow> pd \<noteq> kp_block k"
    "i < 1024 \<Longrightarrow> present (pmem s (pd + 4 * i)) \<Longrightarrow> table_of (pmem s (pd + 4 * i)) \<noteq> pd"
    "i < 1024 \<Longrightarrow> present (pmem s (pd + 4 * i)) \<Longrightarrow> k < 1024 \<Longrightarrow> kpheap_blocks s k = 0 \<Longrightarrow>
       table_of (pmem s (pd + 4 * i)) \<noteq> kp_block k"
    "i < 1024 \<Longrightarrow> j < 1024 \<Longrightarrow> present (pmem s (pd + 4 * i)) \<Longrightarrow> present (pmem s (pd + 4 * j)) \<Longrightarrow>
       table_of (pmem s (pd + 4 * i)) = table_of (pmem s (pd + 4 * j)) \<Longrightarrow> i = j"
  using assms unfolding pd_ok_def by blast+

lemma aligned_add:
  fixes a b :: u32
  assumes "a mod 4096 = 0" "b mod 4096 = 0"
  shows "(a + b) mod 4096 = 0"
  using assms unfolding aligned_nat by (auto simp: unat_word_ariths dvd_eq_mod_eq_0 [symmetric] intro: dvd_mod)

lemma table_of_aligned [simp]: "table_of e mod 4096 = 0"
proof -
  have "push_bit 12 (drop_bit 12 e) mod 4096 = 0"
    using take_bit_push_bit [of 12 12 "drop_bit 12 e"] by (simp add: take_bit_eq_mod)
  then show ?thesis unfolding table_of_def by (rule aligned_add) (simp add: KERNEL_VIRTUAL_BASE_def)
qed

lemma kp_block_aligned [simp]: "kp_block k mod 4096 = 0"
proof -
  have "(4096 * of_nat k :: u32) = push_bit 12 (of_nat k)" by (simp add: push_bit_eq_mult mult.commute)
  then have "(4096 * of_nat k :: u32) mod 4096 = 0"
    using take_bit_push_bit [of 12 12 "of_nat k :: u32"] by (simp add: take_bit_eq_mod)
  then show ?thesis unfolding kp_block_def by (intro aligned_add) (simp_all add: KPHEAP_VIRT_BASE_def)
qed

lemma kp_block_inj: "k < 1024 \<Longrightarrow> j < 1024 \<Longrightarrow> kp_block k = kp_block j \<Longrightarrow> k = j"
proof -
  assume a: "k < 1024" "j < 1024" "kp_block k = kp_block j"
  have "unat (4096 * of_nat n :: u32) = 4096 * n" if "n < 1024" for n
    using that by (simp add: unat_word_ariths unat_of_nat)
  moreover have "(4096 * of_nat k :: u32) = 4096 * of_nat j" using a(3) by (simp add: kp_block_def)
  ultimately show ?thesis using a(1,2) by (metis mult_cancel1 zero_neq_numeral)
qed

lemma pte_addr_slot: "pte_addr e v = table_of e + 4 * (drop_bit 12 v AND 0x3FF)"
  by (simp add: pte_addr_def table_of_def mult.commute add.assoc add.left_commute add.commute)

lemma clear_page_slot:
  assumes "p mod 4096 = 0" "b mod 4096 = 0" "i < 1024"
  shows "pmem (clear_page p s) (b + 4 * i) = (if b = p then 0 else pmem s (b + 4 * i))"
proof -
  have i4: "unat (4 * i) = 4 * unat i" "unat i < 1024" using assms(3) by (simp_all add: unat_word_ariths word_less_nat_alt)
  have bi: "b + 4 * i - b < 4096" using i4 by (simp add: word_less_nat_alt)
  have "p \<le> b + 4 * i \<and> b + 4 * i - p < 4096 \<longleftrightarrow> b = p"
  proof
    assume h: "p \<le> b + 4 * i \<and> b + 4 * i - p < 4096"
    then have "drop_bit 12 (b + 4 * i) = drop_bit 12 p" using same_page(1) [OF assms(1)] by blast
    moreover have "drop_bit 12 (b + 4 * i) = drop_bit 12 b" using same_page(1) [OF assms(2)] bi by blast
    ultimately show "b = p" using push_drop_aligned [OF assms(1)] push_drop_aligned [OF assms(2)] by metis
  next
    assume "b = p"
    moreover have "b \<le> b + 4 * i"
      using aligned_top [OF assms(2)] i4 unat_plus_small [of b "4 * i"] by (simp add: word_le_nat_alt)
    ultimately show "p \<le> b + 4 * i \<and> b + 4 * i - p < 4096" using bi by simp
  qed
  then show ?thesis by (auto simp: clear_page_def)
qed

lemma pt_alloc_spec:
  assumes "pt_alloc s = Inr (p, s')"
  shows "\<exists>k<1024. kpheap_blocks s k = 0 \<and> p = kp_block k \<and>
    s' = clear_page p (s\<lparr>kpheap_blocks := (kpheap_blocks s)(k := 1)\<rparr>)"
proof -
  have "pt_alloc_from n i s = Inr (p, s') \<Longrightarrow> \<exists>k<i + n. kpheap_blocks s k = 0 \<and> p = kp_block k \<and>
      s' = clear_page p (s\<lparr>kpheap_blocks := (kpheap_blocks s)(k := 1)\<rparr>)" for n i
  proof (induction n arbitrary: i)
    case (Suc n)
    show ?case
    proof (cases "kpheap_blocks s i = 0")
      case True
      with Suc.prems show ?thesis by (intro exI [of _ i]) (auto simp: Let_def kp_block_def fun_upd_def)
    next
      case False
      with Suc.prems Suc.IH [of "Suc i"] show ?thesis by simp
    qed
  qed simp
  with assms show ?thesis unfolding pt_alloc_def by fastforce
qed

lemma get_physical_small:
  assumes "\<not> is_large (pd_entry pd v s)"
  shows "get_physical v pd s = (if pd_entry pd v s = 0 then 0
    else let page = pmem s (table_of (pd_entry pd v s) + 4 * (drop_bit 12 v AND 0x3FF)) in
      if page \<noteq> 0 then push_bit 12 (drop_bit 12 page) + v mod 4096 else 0)"
  using assms by (simp add: get_physical_def Let_def pte_addr_slot)

text \<open>Writing one page table entry.\<close>

lemma write_pte:
  fixes w :: u32
  assumes ok: "pd_ok pd s" and e: "present (pd_entry pd va s)"
  defines "s' \<equiv> set_word (table_of (pd_entry pd va s) + 4 * (drop_bit 12 va AND 0x3FF)) w s"
  shows "pd_ok pd s'" "pd_entry pd v s' = pd_entry pd v s"
    "\<not> is_large (pd_entry pd v s) \<Longrightarrow> get_physical v pd s' =
       (if drop_bit 12 v = drop_bit 12 va then (if w \<noteq> 0 then push_bit 12 (drop_bit 12 w) + v mod 4096 else 0)
        else get_physical v pd s)"
proof -
  note D = pd_okD [OF ok]
  let ?i = "drop_bit 22 va" let ?w = "table_of (pd_entry pd va s) + 4 * (drop_bit 12 va AND 0x3FF)"
  have pe: "present (pmem s (pd + 4 * ?i))" using e by (simp add: pd_entry_def)
  have ne: "pd + 4 * i \<noteq> ?w" if "i < 1024" for i
    using D(3) [OF index_bounds(1) pe] slot_inj [OF D(1) table_of_aligned that index_bounds(2)] by (auto simp: pd_entry_def)
  have pds: "pmem s' (pd + 4 * i) = pmem s (pd + 4 * i)" if "i < 1024" for i
    using ne [OF that] by (simp add: s'_def set_word_def)
  have kb: "kpheap_blocks s' = kpheap_blocks s" by (simp add: s'_def set_word_def)
  show "pd_ok pd s'" using ok pds kb unfolding pd_ok_def by simp
  show ent: "pd_entry pd v s' = pd_entry pd v s" for v
    unfolding pd_entry_def by (rule pds [OF index_bounds(1)])
  assume nl: "\<not> is_large (pd_entry pd v s)"
  show "get_physical v pd s' = (if drop_bit 12 v = drop_bit 12 va
      then (if w \<noteq> 0 then push_bit 12 (drop_bit 12 w) + v mod 4096 else 0) else get_physical v pd s)"
  proof (cases "drop_bit 12 v = drop_bit 12 va")
    case True
    then have ix: "drop_bit 22 v = ?i" "drop_bit 12 v AND 0x3FF = drop_bit 12 va AND 0x3FF" using page_index by blast+
    then have "pd_entry pd v s = pd_entry pd va s" by (simp add: pd_entry_def)
    moreover have "pmem s' ?w = w" by (simp add: s'_def set_word_def)
    ultimately have "get_physical v pd s' = (if w \<noteq> 0 then push_bit 12 (drop_bit 12 w) + v mod 4096 else 0)"
      using nl ix(2) e ent [of v] by (subst get_physical_small) (simp_all add: Let_def present_def)
    with True show ?thesis by simp
  next
    case False
    have "table_of (pd_entry pd v s) + 4 * (drop_bit 12 v AND 0x3FF) \<noteq> ?w" if "pd_entry pd v s \<noteq> 0"
    proof
      assume "table_of (pd_entry pd v s) + 4 * (drop_bit 12 v AND 0x3FF) = ?w"
      then have eq: "table_of (pd_entry pd v s) = table_of (pd_entry pd va s)" "drop_bit 12 v AND 0x3FF = drop_bit 12 va AND 0x3FF"
        using slot_inj [OF table_of_aligned table_of_aligned index_bounds(2) index_bounds(2)] by blast+
      have "present (pmem s (pd + 4 * drop_bit 22 v))" using nl that by (simp add: present_def pd_entry_def)
      from D(5) [OF index_bounds(1) index_bounds(1) this pe] eq(1) have "drop_bit 22 v = ?i" by (simp add: pd_entry_def)
      with eq(2) False page_index show False by blast
    qed
    then have "get_physical v pd s' = get_physical v pd s"
      unfolding get_physical_small [OF nl] get_physical_small [OF nl [folded ent]] ent
      by (auto simp: s'_def set_word_def Let_def)
    with False show ?thesis by simp
  qed
qed

text \<open>Entering a fresh table in an empty directory slot.\<close>

lemma fresh_table:
  assumes ok: "pd_ok pd s" and e: "pd_entry pd va s = 0" and al: "pt_alloc s = Inr (p, s1)" and c: "c = 7 \<or> c = 259"
  defines "s' \<equiv> set_word (pd + 4 * drop_bit 22 va) ((p - KERNEL_VIRTUAL_BASE) OR c) (clear_page p s1)"
  shows "pd_ok pd s'" "pd_entry pd va s' = (p - KERNEL_VIRTUAL_BASE) OR c" "table_of (pd_entry pd va s') = p"
    "present (pd_entry pd va s')"
    "\<not> is_large (pd_entry pd v s) \<Longrightarrow> \<not> is_large (pd_entry pd v s')"
    "\<not> is_large (pd_entry pd v s) \<Longrightarrow> get_physical v pd s' = get_physical v pd s"
proof -
  note D = pd_okD [OF ok]
  from pt_alloc_spec [OF al] obtain k where k: "k < 1024" "kpheap_blocks s k = 0" "p = kp_block k"
    "s1 = clear_page p (s\<lparr>kpheap_blocks := (kpheap_blocks s)(k := 1)\<rparr>)" by blast
  have pa: "p mod 4096 = 0" by (simp add: k(3))
  have pp: "pd \<noteq> p" using D(2) [OF k(1,2)] by (simp add: k(3))
  let ?i = "drop_bit 22 va" let ?e = "(p - KERNEL_VIRTUAL_BASE) OR c"
  have pb: "(p - KERNEL_VIRTUAL_BASE) mod 4096 = 0"
    using aligned_add [OF pa, of "- KERNEL_VIRTUAL_BASE"] by (simp add: KERNEL_VIRTUAL_BASE_def)
  note E = page_of_entry [OF pb c]
  have te: "table_of ?e = p" using E(1) by (simp add: table_of_def)
  have kb: "kpheap_blocks s' = (kpheap_blocks s)(k := 1)" by (simp add: s'_def set_word_def clear_page_def k(4))
  have slot: "pmem s' (b + 4 * i) = (if b = pd \<and> i = ?i then ?e else if b = p then 0 else pmem s (b + 4 * i))"
    if "b mod 4096 = 0" "i < 1024" for b i
    using slot_inj [OF that(1) D(1) that(2) index_bounds(1), of va] clear_page_slot [OF pa that, of s1] pp
      clear_page_slot [OF pa that, of "s\<lparr>kpheap_blocks := (kpheap_blocks s)(k := 1)\<rparr>"]
    by (auto simp: s'_def set_word_def k(4))
  have pds: "pmem s' (pd + 4 * i) = (if i = ?i then ?e else pmem s (pd + 4 * i))" if "i < 1024" for i
    using slot [OF D(1) that] pp by simp
  show ev: "pd_entry pd va s' = ?e" using pds [OF index_bounds(1)] by (simp add: pd_entry_def)
  then show "table_of (pd_entry pd va s') = p" "present (pd_entry pd va s')" using te E(2,3) by (simp_all add: present_def)
  have ent: "pd_entry pd v s' = (if drop_bit 22 v = ?i then ?e else pd_entry pd v s)" for v
    using pds [OF index_bounds(1)] by (simp add: pd_entry_def)
  then show "\<not> is_large (pd_entry pd v s')" if "\<not> is_large (pd_entry pd v s)" using that E(2) by simp
  have e0: "pmem s (pd + 4 * ?i) = 0" using e by (simp add: pd_entry_def)
  show "pd_ok pd s'" unfolding pd_ok_def
  proof (intro conjI allI impI)
    show "pd mod 4096 = 0" by (rule D(1))
    show "pd \<noteq> kp_block j" if "j < 1024" "kpheap_blocks s' j = 0" for j
      using that D(2) by (auto simp: kb split: if_splits)
    fix i assume i: "i < 1024" "present (pmem s' (pd + 4 * i))"
    show "table_of (pmem s' (pd + 4 * i)) \<noteq> pd"
      using i D(3) [OF i(1)] pp te by (auto simp: pds)
    show "table_of (pmem s' (pd + 4 * i)) \<noteq> kp_block j" if "j < 1024" "kpheap_blocks s' j = 0" for j
      using i D(4) [OF i(1) _ that(1)] that te kp_block_inj [OF that(1) k(1)] by (auto simp: pds kb k(3) split: if_splits)
    show "table_of (pmem s' (pd + 4 * i)) \<noteq> table_of (pmem s' (pd + 4 * j))"
      if "j < 1024" "j \<noteq> i" "present (pmem s' (pd + 4 * j))" for j
      using i that te D(5) [OF i(1) that(1)] D(4) [OF i(1) _ k(1,2)] D(4) [OF that(1) _ k(1,2)]
      by (auto simp: pds k(3) split: if_splits)
  qed
  assume nl: "\<not> is_large (pd_entry pd v s)"
  have t: "table_of (pd_entry pd v s) \<noteq> p" "table_of (pd_entry pd v s) \<noteq> pd" if "pd_entry pd v s \<noteq> 0"
  proof -
    have "present (pmem s (pd + 4 * drop_bit 22 v))" using nl that by (simp add: present_def pd_entry_def)
    then show "table_of (pd_entry pd v s) \<noteq> p" "table_of (pd_entry pd v s) \<noteq> pd"
      using D(3) [OF index_bounds(1)] D(4) [OF index_bounds(1) _ k(1,2)] by (auto simp: pd_entry_def k(3))
  qed
  show "get_physical v pd s' = get_physical v pd s"
  proof (cases "drop_bit 22 v = ?i")
    case True
    then have "pd_entry pd v s = 0" using e by (simp add: pd_entry_def)
    moreover have "pmem s' (p + 4 * (drop_bit 12 v AND 0x3FF)) = 0" using slot [OF pa index_bounds(2)] pp by simp
    ultimately show ?thesis using True nl ent E te by (simp add: get_physical_small)
  next
    case False
    then show ?thesis using nl ent t slot [OF table_of_aligned index_bounds(2)] by (auto simp: get_physical_small)
  qed
qed

lemma map_page_translates:
  assumes ok: "pd_ok pd s" and m: "map_page ph va pd s = Inr s'"
  shows "pd_ok pd s'" "ph mod 4096 = 0" "va mod 4096 = 0"
    "\<not> is_large (pd_entry pd v s) \<Longrightarrow> \<not> is_large (pd_entry pd v s')"
    "\<not> is_large (pd_entry pd v s) \<Longrightarrow> get_physical v pd s' =
       (if drop_bit 12 v = drop_bit 12 va then ph + v mod 4096 else get_physical v pd s)"
    "\<not> is_large (pd_entry pd va s)"
    "present (pd_entry pd va s')" "pmem s' (pte_addr (pd_entry pd va s') va) \<noteq> 0"
    "drop_bit 12 v = drop_bit 12 va \<Longrightarrow> get_physical v pd s = 0"
proof -
  define c :: u32 where "c = (if pd = kernel_page_directory s then 259 else 7)"
  have c: "c = 7 \<or> c = 259" by (simp add: c_def)
  show ph: "ph mod 4096 = 0" and va: "va mod 4096 = 0" using m by (auto simp: map_page_def split: if_splits)
  let ?e = "pd_entry pd va s"
  let ?w = "\<lambda>t. t + (drop_bit 12 va AND 0x3FF) * 4 + KERNEL_VIRTUAL_BASE"
  have slot: "?w (push_bit 12 (drop_bit 12 e)) = table_of e + 4 * (drop_bit 12 va AND 0x3FF)" for e
    by (simp add: table_of_def mult.commute add.assoc add.left_commute add.commute)
  have nl0: "\<not> is_large ?e" if "?e \<noteq> 0" using m that ph va by (auto simp: map_page_def Let_def split: if_splits)
  have z: "\<not> is_large 0" by (simp add: is_large_def)
  show "\<not> is_large ?e" using nl0 z by (cases "?e = 0") auto
  obtain s1 where s1: "pd_ok pd s1" "present (pd_entry pd va s1)"
    "\<And>v. \<not> is_large (pd_entry pd v s) \<Longrightarrow> \<not> is_large (pd_entry pd v s1)"
    "\<And>v. \<not> is_large (pd_entry pd v s) \<Longrightarrow> get_physical v pd s1 = get_physical v pd s"
    "s' = set_word (table_of (pd_entry pd va s1) + 4 * (drop_bit 12 va AND 0x3FF)) (ph OR c) s1"
  proof (cases "?e = 0")
    case True
    with m ph va obtain p s0 where p: "pt_alloc s = Inr (p, s0)"
      "s' = set_word (?w (p - KERNEL_VIRTUAL_BASE)) (ph OR c)
         (set_word (pd + 4 * drop_bit 22 va) ((p - KERNEL_VIRTUAL_BASE) OR c) (clear_page p s0))"
      by (auto simp: map_page_def Let_def bindR_Inr_iff c_def split: if_splits)
    note ft = fresh_table [OF ok True p(1) c]
    have "?w (p - KERNEL_VIRTUAL_BASE) = p + 4 * (drop_bit 12 va AND 0x3FF)" by (simp add: algebra_simps)
    with ft p(2) show ?thesis
      by (intro that [of "set_word (pd + 4 * drop_bit 22 va) ((p - KERNEL_VIRTUAL_BASE) OR c) (clear_page p s0)"]) auto
  next
    case False
    with nl0 m ph va have "s' = set_word (?w (push_bit 12 (drop_bit 12 ?e))) (ph OR c) s"
      by (auto simp: map_page_def Let_def bindR_Inr_iff c_def split: if_splits)
    with ok False nl0 show ?thesis unfolding slot by (intro that [of s]) (auto simp: present_def)
  qed
  note wp = write_pte [OF s1(1,2), where w = "ph OR c", folded s1(5)]
  show "pd_ok pd s'" by (rule wp(1))
  show "\<not> is_large (pd_entry pd v s')" if "\<not> is_large (pd_entry pd v s)" using s1(3) [OF that] wp(2) by simp
  show "get_physical v pd s' = (if drop_bit 12 v = drop_bit 12 va then ph + v mod 4096 else get_physical v pd s)"
    if "\<not> is_large (pd_entry pd v s)"
    using wp(3) [OF s1(3) [OF that]] s1(4) [OF that] page_of_entry(3) [OF ph c]
    unfolding page_of_entry(1) [OF ph c] by simp
  show "present (pd_entry pd va s')" "pmem s' (pte_addr (pd_entry pd va s') va) \<noteq> 0"
    using s1(2) wp(2) [of va] page_of_entry(3) [OF ph c] by (simp_all add: pte_addr_slot s1(5) set_word_def)
  assume "drop_bit 12 v = drop_bit 12 va"
  then have "drop_bit 22 v = drop_bit 22 va" "drop_bit 12 v AND 0x3FF = drop_bit 12 va AND 0x3FF"
    using page_index by blast+
  moreover have "pmem s (table_of ?e + 4 * (drop_bit 12 va AND 0x3FF)) = 0" if "?e \<noteq> 0"
    using m that nl0 ph va slot [of ?e] by (auto simp: map_page_def Let_def bindR_Inr_iff split: if_splits)
  ultimately show "get_physical v pd s = 0" using nl0
    by (auto simp: get_physical_def Let_def pd_entry_def pte_addr_slot)
qed

lemma unmap_page_translates:
  assumes "pd_ok pd s" "unmap_page va pd s = Inr s'" "pd_entry pd va s \<noteq> 0"
  shows "pd_ok pd s'" "\<not> is_large (pd_entry pd v s) \<Longrightarrow> get_physical v pd s' =
    (if drop_bit 12 v = drop_bit 12 va then 0 else get_physical v pd s)"
proof -
  have e: "present (pd_entry pd va s)"
    and s': "s' = set_word (table_of (pd_entry pd va s) + 4 * (drop_bit 12 va AND 0x3FF)) 0 s"
    using assms(2,3) by (auto simp: unmap_page_def Let_def present_def pte_addr_slot split: if_splits)
  show "pd_ok pd s'" "\<not> is_large (pd_entry pd v s) \<Longrightarrow> get_physical v pd s' =
      (if drop_bit 12 v = drop_bit 12 va then 0 else get_physical v pd s)"
    using write_pte [OF assms(1) e, where w = 0] unfolding s' by simp_all
qed

lemma small_loop_translates:
  assumes "pd_ok pd s" "small_loop f (\<lambda>add. map_page (ph + add) (va + add) pd) sz add s = Inr s'"
    "unat sz \<le> 0x400000" "unat sz mod 4096 = 0" "\<not> is_large (pd_entry pd v s)"
  shows "pd_ok pd s' \<and> \<not> is_large (pd_entry pd v s') \<and> get_physical v pd s' =
    (if v - (va + add) < sz then ph + add + (v - (va + add)) else get_physical v pd s)"
  using assms
proof (induction f arbitrary: sz add s)
  case (Suc f)
  show ?case
  proof (cases "sz = 0")
    case True
    with Suc.prems show ?thesis by simp
  next
    case False
    with Suc.prems(2) obtain s1 where s1: "map_page (ph + add) (va + add) pd s = Inr s1"
      "small_loop f (\<lambda>add. map_page (ph + add) (va + add) pd) (sz - 4096) (add + 4096) s1 = Inr s'"
      by (auto simp: bindR_Inr_iff)
    note mp = map_page_translates [OF Suc.prems(1) s1(1)]
    have ge: "4096 \<le> unat sz" using False Suc.prems(4) by (auto simp: word_unat_eq_iff elim!: dvdE simp: mod_eq_0_iff_dvd)
    then have u: "unat (sz - 4096) = unat sz - 4096" by (simp add: unat_sub word_le_nat_alt)
    have m: "unat (sz - 4096) mod 4096 = 0" using Suc.prems(4) ge u by (simp add: mod_if)
    have IH: "pd_ok pd s' \<and> \<not> is_large (pd_entry pd v s') \<and> get_physical v pd s' =
      (if v - (va + (add + 4096)) < sz - 4096 then ph + (add + 4096) + (v - (va + (add + 4096))) else get_physical v pd s1)"
      by (rule Suc.IH [OF mp(1) s1(2)]) (use u m Suc.prems mp(4) in auto)
    let ?d = "v - (va + add)"
    have d: "v - (va + (add + 4096)) = ?d - 4096" by (simp add: algebra_simps)
    have sp: "drop_bit 12 v = drop_bit 12 (va + add) \<longleftrightarrow> ?d < 4096" by (rule same_page(1) [OF mp(3)])
    have g1: "get_physical v pd s1 = (if ?d < 4096 then ph + add + ?d else get_physical v pd s)"
      using mp(5) [OF Suc.prems(5)] sp same_page(2) [OF mp(3), of v] by simp
    have "?d - 4096 < sz - 4096 \<longleftrightarrow> \<not> ?d < 4096 \<and> ?d < sz"
    proof (cases "?d < 4096")
      case True
      then have "unat ?d < 4096" by (simp add: word_less_nat_alt)
      then have "unat (?d - 4096) = 2 ^ 32 + unat ?d - 4096"
        by (simp add: unat_word_ariths(5) word_less_nat_alt unat_sub_if')
      with True u Suc.prems(3) show ?thesis by (simp add: word_less_nat_alt)
    next
      case nl: False
      then have "unat (?d - 4096) = unat ?d - 4096" by (simp add: unat_sub not_less)
      with nl u ge show ?thesis by (auto simp: word_less_nat_alt)
    qed
    moreover have "?d < 4096 \<Longrightarrow> ?d < sz" using ge by (simp add: word_less_nat_alt)
    ultimately show ?thesis using IH g1 unfolding d by (auto simp: algebra_simps)
  qed
qed simp

lemma page_size_mod: "unat (page_size sz va) mod 4096 = 0"
  using alignup_dvd [of 4096 "sz + (va - page_start va)"] by (simp add: page_size_def dvd_eq_mod_eq_0)

lemma map_flexible_translates:
  assumes "pd_ok pd s" "map_flexible sz ph va pd s = Inr s'" "unat (page_size sz va) \<le> 0x400000"
    "\<not> is_large (pd_entry pd v s)"
  shows "pd_ok pd s' \<and> get_physical v pd s' =
    (if v - page_start va < page_size sz va then ph + (v - page_start va) else get_physical v pd s)"
proof -
  have "\<not> 0x400000 < page_size sz va" using assms(3) by (simp add: word_less_nat_alt)
  then have "small_loop (Suc (unat (page_size sz va))) (\<lambda>add. map_page (ph + add) (page_start va + add) pd) (page_size sz va) 0 s = Inr s'"
    using assms(2) unfolding map_flexible_def range_loops_def Let_def by simp
  from small_loop_translates [OF assms(1) this assms(3) page_size_mod assms(4)] show ?thesis by simp
qed

lemma map_flexible_ok:
  assumes "pd_ok pd s" "map_flexible sz ph va pd s = Inr s'" "unat (page_size sz va) \<le> 0x400000"
  shows "pd_ok pd s'"
proof -
  have "small_loop f (\<lambda>add. map_page (ph + add) (page_start va + add) pd) z add s = Inr s' \<Longrightarrow> pd_ok pd s \<Longrightarrow> pd_ok pd s'" for f z add s
  proof (induction f arbitrary: z add s)
    case (Suc f)
    then show ?case using map_page_translates(1) by (fastforce simp: bindR_Inr_iff split: if_splits)
  qed simp
  moreover have "\<not> 0x400000 < page_size sz va" using assms(3) by (simp add: word_less_nat_alt)
  ultimately show ?thesis using assms(1,2) unfolding map_flexible_def range_loops_def Let_def
    by (simp del: small_loop.simps)
qed

text \<open>Physical memory reservation leaves the page tables alone.\<close>


definition pages_same :: "'a paging_scheme \<Rightarrow> 'a paging_scheme \<Rightarrow> bool" where
  "pages_same s s' \<longleftrightarrow> pmem s' = pmem s \<and> kpheap_blocks s' = kpheap_blocks s \<and>
     kernel_page_directory s' = kernel_page_directory s \<and> cpu_pse s' = cpu_pse s"

lemma pages_same_ok:
  assumes "pages_same s s'"
  shows "pd_ok pd s' = pd_ok pd s" "pd_entry pd v s' = pd_entry pd v s" "get_physical v pd s' = get_physical v pd s"
  using assms by (simp_all add: pages_same_def pd_ok_def pd_entry_def get_physical_def Let_def)

lemma upd_pages: "upd p g s = Inr s' \<Longrightarrow> pages_same s s'"
  by (auto simp: upd_def bindR_Inr_iff put_def pages_same_def)

lemma set_prev_if_pages: "set_prev_if p v s = Inr s' \<Longrightarrow> pages_same s s'"
  by (auto simp: set_prev_if_def pages_same_def split: if_splits dest: upd_pages)

lemma split_node_pages:
  assumes "split_node malloc cur sz ft ut s = Inr (b, s')" "malloc 20 s = Inr (q, s1)"
  shows "pages_same s1 s'"
proof -
  from assms obtain bc s2 where r: "deref cur s1 = Inr bc"
    "set_prev_if (b_next bc) q (put q \<lparr>b_base = b_base bc + sz, b_size = b_size bc - sz, b_next = b_next bc, b_prev = cur, b_tag = ft\<rparr> s1) = Inr s2"
    "upd cur (\<lambda>b. b\<lparr>b_size := sz, b_next := q, b_tag := ut\<rparr>) s2 = Inr s'"
    by (auto simp: split_node_def Let_def bindR_Inr_iff)
  from set_prev_if_pages [OF r(2)] upd_pages [OF r(3)] show ?thesis
    by (auto simp: pages_same_def put_def)
qed

lemma reserve_block_from_pages:
  assumes "malloc 20 s = Inr (q, s1)"
  shows "reserve_block_from malloc f z type cur s = Inr (b, s') \<Longrightarrow> pages_same s1 s'"
proof (induction f arbitrary: cur)
  case (Suc f)
  from Suc.prems obtain c where
    "split_node malloc cur z 1 (ucast type) s = Inr (b, s') \<or> reserve_block_from malloc f z type c s = Inr (b, s')"
    by (auto simp: bindR_Inr_iff split: if_splits)
  with Suc.IH split_node_pages assms show ?case by blast
qed simp

lemma reserve_block_pages:
  assumes "reserve_block malloc f sz type s = Inr (b, s')" "malloc 20 s = Inr (q, s1)"
  shows "pages_same s1 s'"
  using reserve_block_from_pages [OF assms(2) assms(1) [unfolded reserve_block_def]] .

lemma kmalloc_walk_pages: "kmalloc_walk f i n s = Inr (Some (q, s1)) \<Longrightarrow> pages_same s s1"
  by (induction f i n s rule: kmalloc_walk.induct)
    (auto simp: Let_def kmalloc_take_def pages_same_def split: if_splits)

lemma map_memory_d_translates:
  assumes ok: "pd_ok pd s" and m: "map_memory_d (Suc d) f kpd procs sz va pd s = Inr s'"
    and le: "unat (page_size sz va) \<le> 0x400000"
  shows "\<exists>ph s1. reserve_block (kmalloc (map_memory_d d f kpd procs) (kpd # procs) (Suc f)) f (page_size sz va) (block_type_for pd s) s = Inr (ph, s1)
    \<and> pd_ok pd s' \<and> (\<forall>v. \<not> is_large (pd_entry pd v s) \<longrightarrow> get_physical v pd s' =
      (if v - page_start va < page_size sz va then ph + (v - page_start va) else get_physical v pd s))"
proof -
  let ?malloc = "kmalloc (map_memory_d d f kpd procs) (kpd # procs) (Suc f)"
  from m obtain ph s1 where r: "reserve_block ?malloc f (page_size sz va) (block_type_for pd s) s = Inr (ph, s1)"
    "map_flexible sz ph va pd s1 = Inr s'"
    by (auto simp: map_memory_def map_flexible_def Let_def bindR_Inr_iff simp del: kmalloc.simps)
  from map_memory_d_node [OF m] obtain q s0 where w: "kmalloc_walk (Suc f) (KHEAP_BASE_START s) 20 s = Inr (Some (q, s0))" by blast
  then have "?malloc 20 s = Inr (q, s0)" by (simp del: kmalloc_walk.simps)
  from reserve_block_pages [OF r(1) this] kmalloc_walk_pages [OF w] have ps: "pages_same s s1"
    by (simp add: pages_same_def)
  note P = pages_same_ok [OF ps]
  have "get_physical v pd s' =
      (if v - page_start va < page_size sz va then ph + (v - page_start va) else get_physical v pd s)"
    if "\<not> is_large (pd_entry pd v s)" for v
    using map_flexible_translates [of pd s1 sz ph va s' v] ok r(2) le that P by simp
  moreover have "pd_ok pd s'" using map_flexible_ok [of pd s1 sz ph va s'] ok r(2) le P by simp
  ultimately show ?thesis using r(1) by blast
qed

subsection \<open>Properties\<close>

text \<open>C4: When \<^verbatim>\<open>map_memory\<close> returns on a range of at most 4 MiB, every address of the range translates to
  its offset in the physical block it reserved, every other address translates as before (addresses
  under a 4 MiB page apart), and no page table is shared, whatever the heap did underneath.\<close>

theorem map_memory_maps_range:
  assumes "pd_ok pd s" "map_memory_d (Suc d) f kpd procs sz va pd s = Inr s'" "unat (page_size sz va) \<le> 0x400000"
  shows "\<exists>ph s1. reserve_block (kmalloc (map_memory_d d f kpd procs) (kpd # procs) (Suc f)) f
      (page_size sz va) (block_type_for pd s) s = Inr (ph, s1) \<and> pd_ok pd s' \<and>
    (\<forall>v. \<not> is_large (pd_entry pd v s) \<longrightarrow> get_physical v pd s' =
      (if v - page_start va < page_size sz va then ph + (v - page_start va) else get_physical v pd s))"
  using assms by (rule map_memory_d_translates)

lemma pd_ok_empty: "pmem s = (\<lambda>_. 0) \<Longrightarrow> pd_ok 0xC0300000 (s :: 'a paging_scheme)"
proof -
  assume "pmem s = (\<lambda>_. 0)"
  moreover have "0xC0300000 \<noteq> kp_block k" if "k < 1024" for k
  proof -
    have "unat (kp_block k) = 0xC0400000 + 4096 * k"
      using that by (simp add: kp_block_def KPHEAP_VIRT_BASE_def unat_word_ariths unat_of_nat)
    then show ?thesis by (auto simp: word_unat_eq_iff)
  qed
  ultimately show ?thesis by (simp add: pd_ok_def present_def)
qed

text \<open>Mapping one page into an empty directory succeeds.\<close>

lemma map_page_empty:
  assumes "pmem s = (\<lambda>_. 0)" "kpheap_blocks s 0 = 0" "ph mod 4096 = 0"
  shows "\<exists>s'. map_page ph 0x8048000 0xC0300000 s = Inr s'"
proof -
  have "pt_alloc s = Inr (0xC0400000, clear_page 0xC0400000 (s\<lparr>kpheap_blocks := (kpheap_blocks s)(0 := 1)\<rparr>))"
    using assms(2) by (simp add: pt_alloc_def eval_nat_numeral KPHEAP_VIRT_BASE_def)
  then show ?thesis
    using assms(1,3) by (simp add: map_page_def Let_def pd_entry_def set_word_def clear_page_def KERNEL_VIRTUAL_BASE_def)
qed

lemma range_loops_page: "range_loops big small va 4096 s = small 0 s"
proof -
  have "small_loop (Suc 4095) small 0 4096 b = Inr b" for b by (simp only: small_loop.simps) simp
  then show ?thesis by (cases "small 0 s") (simp_all add: range_loops_def)
qed

theorem map_memory_maps_range_witness:
  "\<exists>m s'. map_memory_d (Suc 0) 10 0xC0301000 [] 100 0x8048010 0xC0300000 (boot_paging m) = Inr s' \<and>
    get_physical 0x8048123 0xC0300000 s' = 0x100123"
proof -
  from boot_paging_ok obtain m where ok: "heap_ok (boot_paging m) [(20, True), (0x3FFFDC, False)]"
    "heap_room 20 10 (boot_paging m)" "phys_ok 10 0x100000 0x500000 [(0xC0800008, 0x100000, 0x400000, 1)] (boot_paging m)" by blast
  have va: "page_start 0x8048010 = 0x8048000"
    by (rule word_unat_eqI) (simp add: page_start_def unat_aligndown)
  have sz: "page_size 100 0x8048010 = 4096"
    by (rule word_unat_eqI) (simp add: page_size_def va unat_alignup roundup_def)
  have al: "alignup 4096 4096 = (4096 :: u32)" by (rule alignup_id) simp
  have ff: "first_fit (fits (alignup 4096 4096)) [(0xC0800008, 0x100000, 0x400000, 1)] = Some ([], (0xC0800008, 0x100000, 0x400000, 1), [])"
    unfolding al by (simp add: fits_def PHYS_FREE_BLOCK_TYPE_def)
  let ?s = "boot_paging m" let ?malloc = "kmalloc (map_memory_d 0 10 0xC0301000 []) [0xC0301000] (Suc 10)"
  from phys_reserve [OF ok(3,2) _ ff, of "map_memory_d 0 10 0xC0301000 []" "[0xC0301000]" "block_type_for 0xC0300000 ?s"]
  obtain s1 new where s1: "reserve_block ?malloc 10 4096 (block_type_for 0xC0300000 ?s) ?s = Inr (0x100000, s1)"
    "node_step (insert new (n_addr ` set [(0xC0800008, 0x100000, 0x400000, 1)])) ?s s1" by auto
  have eq: "s1 = ?s\<lparr>kmem := kmem s1, bstore := bstore s1\<rparr>" using s1(2) by (simp add: node_step_def)
  have pm: "pmem s1 = (\<lambda>_. 0)" "kpheap_blocks s1 0 = 0" by (subst eq; simp add: boot_paging_def)+
  from map_page_empty [OF pm, of "0x100000"] obtain s' where s': "map_page 0x100000 0x8048000 0xC0300000 s1 = Inr s'" by auto
  have r: "map_memory_d (Suc 0) 10 0xC0301000 [] 100 0x8048010 0xC0300000 ?s = Inr s'"
    using s1(1) s' by (simp add: map_memory_def va sz range_loops_page del: kmalloc.simps)
  have pd: "pd_ok 0xC0300000 ?s" by (rule pd_ok_empty) (simp add: boot_paging_def)
  have "unat (page_size 100 0x8048010) \<le> 0x400000" by (simp add: sz)
  from map_memory_maps_range [OF pd r this] s1(1) obtain ph where ph: "ph = 0x100000"
    "\<forall>v. \<not> is_large (pd_entry 0xC0300000 v ?s) \<longrightarrow> get_physical v 0xC0300000 s' =
      (if v - page_start 0x8048010 < 4096 then ph + (v - page_start 0x8048010) else get_physical v 0xC0300000 ?s)"
    unfolding sz by auto
  from ph(2) have "get_physical 0x8048123 0xC0300000 s' = ph + 0x123"
    by (simp add: va pd_entry_def boot_paging_def is_large_def)
  with ph r show ?thesis by auto
qed

text \<open>C8: Unmapping undoes mapping: after a successful \<^verbatim>\<open>map_page\<close>, \<^verbatim>\<open>unmap_page\<close> of the same address succeeds and
  every address translates as before the mapping (addresses under a 4 MiB page apart).\<close>

theorem map_unmap_page_roundtrip:
  assumes "pd_ok pd s" "map_page ph va pd s = Inr s1"
  shows "\<exists>s2. unmap_page va pd s1 = Inr s2 \<and> pd_ok pd s2 \<and>
    (\<forall>v. \<not> is_large (pd_entry pd v s) \<longrightarrow> get_physical v pd s1 =
       (if drop_bit 12 v = drop_bit 12 va then ph + v mod 4096 else get_physical v pd s)) \<and>
    (\<forall>v. \<not> is_large (pd_entry pd v s) \<longrightarrow> get_physical v pd s2 = get_physical v pd s)"
proof -
  note mp = map_page_translates [OF assms]
  have "\<exists>s2. unmap_page va pd s1 = Inr s2"
    using mp(3,7,8) by (simp add: unmap_page_def Let_def present_def)
  then obtain s2 where s2: "unmap_page va pd s1 = Inr s2" ..
  have "pd_entry pd va s1 \<noteq> 0" using mp(7) by (simp add: present_def)
  note up = unmap_page_translates [OF mp(1) s2 this]
  show ?thesis using s2 up mp(4,5,9) by (intro exI [of _ s2]) auto
qed

theorem map_unmap_page_roundtrip_witness:
  "\<exists>s1 s2. map_page 0x100000 0x8048000 0xC0300000 full_paging = Inr s1 \<and>
    unmap_page 0x8048000 0xC0300000 s1 = Inr s2 \<and> get_physical 0x8048123 0xC0300000 s1 = 0x100123 \<and>
    get_physical 0x8048123 0xC0300000 s2 = 0"
proof -
  have pm: "pmem full_paging = (\<lambda>_. 0)" "kpheap_blocks full_paging 0 = 0" by (simp_all add: full_paging_def boot_paging_def)
  from map_page_empty [OF pm, of "0x100000"] obtain s1 where s1: "map_page 0x100000 0x8048000 0xC0300000 full_paging = Inr s1" by auto
  have "\<not> is_large (pd_entry 0xC0300000 0x8048123 full_paging)" "get_physical 0x8048123 0xC0300000 full_paging = 0"
    by (simp_all add: pd_entry_def pm is_large_def get_physical_def)
  with map_unmap_page_roundtrip [OF pd_ok_empty [OF pm(1)] s1] s1 show ?thesis by fastforce
qed

end
