(* ===== verification/VK_Lib.thy ===== *)
theory VK_Lib
  imports VK_Kheap
begin

section \<open>Strings and conversions (util/lib.c, util/util.h)\<close>

text \<open>
  The string routines run on byte memory, with their loops as the code has them: a loop that only
  ends at a zero byte is a partial function, \<open>None\<close> when there is none in all of memory. \<open>cstr m a xs\<close>
  says that the zero-terminated string \<open>xs\<close> starts at \<open>a\<close>. The lemmas give the meaning of each
  routine on such strings, and that they return.
\<close>

subsection \<open>Characters\<close>

definition isdigit :: "u8 \<Rightarrow> bool" where "isdigit c \<longleftrightarrow> 48 \<le> c \<and> c \<le> 57"
definition isupper :: "u8 \<Rightarrow> bool" where "isupper c \<longleftrightarrow> 65 \<le> c \<and> c \<le> 90"
definition islower :: "u8 \<Rightarrow> bool" where "islower c \<longleftrightarrow> 97 \<le> c \<and> c \<le> 122"
definition toLower :: "u8 \<Rightarrow> u8" where "toLower c = (if isupper c then (97 - 65) + c else c)"
definition toUpper :: "u8 \<Rightarrow> u8" where "toUpper c = (if islower c then (65 - 97) + c else c)"
definition invCase :: "u8 \<Rightarrow> u8" where "invCase c = (if islower c then toUpper c else toLower c)"

subsection \<open>Strings\<close>

partial_function (option) strlen_from :: "mem \<Rightarrow> u32 \<Rightarrow> u32 \<Rightarrow> u32 option" where
  [code]: "strlen_from m str retval = (if m str \<noteq> 0 then strlen_from m (str + 1) (retval + 1) else Some retval)"

definition strlen :: "mem \<Rightarrow> u32 \<Rightarrow> u32 option" where
  "strlen m str = strlen_from m str 0"

partial_function (option) strcpy :: "mem \<Rightarrow> u32 \<Rightarrow> u32 \<Rightarrow> mem option" where
  [code]: "strcpy m dest src =
     (let c = m src; m = m(dest := c) in if c \<noteq> 0 then strcpy m (dest + 1) (src + 1) else Some m)"

definition strcat :: "mem \<Rightarrow> u32 \<Rightarrow> u32 \<Rightarrow> mem option" where
  "strcat m dest src = (case strlen m dest of None \<Rightarrow> None | Some n \<Rightarrow> strcpy m (dest + n) src)"

text \<open>\<open>n - i\<close> is counted down; the terminator is written after the loop at the advanced \<^verbatim>\<open>dest\<close>.\<close>

fun strncpy_loop :: "mem \<Rightarrow> u32 \<Rightarrow> u32 \<Rightarrow> nat \<Rightarrow> mem \<times> u32" where
  "strncpy_loop m dest src 0 = (m, dest)"
| "strncpy_loop m dest src (Suc k) =
     (let c = m src; m = m(dest := c) in
      if c \<noteq> 0 then strncpy_loop m (dest + 1) (src + 1) k else (m, dest + 1))"

definition strncpy :: "mem \<Rightarrow> u32 \<Rightarrow> u32 \<Rightarrow> u32 \<Rightarrow> mem" where
  "strncpy m dest src n = (let (m, dest) = strncpy_loop m dest src (unat n) in m(dest := 0))"

fun strncat_loop :: "mem \<Rightarrow> u32 \<Rightarrow> u32 \<Rightarrow> nat \<Rightarrow> mem" where
  "strncat_loop m pos src 0 = m"
| "strncat_loop m pos src (Suc k) =
     (let c = m src; m = m(pos := c) in if c = 0 then m else strncat_loop m (pos + 1) (src + 1) k)"

definition strncat :: "mem \<Rightarrow> u32 \<Rightarrow> u32 \<Rightarrow> u32 \<Rightarrow> mem option" where
  "strncat m dest src n =
     (case strlen m dest of None \<Rightarrow> None | Some len \<Rightarrow> Some (strncat_loop m (dest + len) src (unat n)))"

partial_function (option) strchr :: "mem \<Rightarrow> u32 \<Rightarrow> u8 \<Rightarrow> u32 option" where
  [code]: "strchr m s c = (if m s \<noteq> 0 then if m s = c then Some s else strchr m (s + 1) c else Some 0)"

partial_function (option) strrchr_loop :: "mem \<Rightarrow> u32 \<Rightarrow> u32 \<Rightarrow> u8 \<Rightarrow> u32 option" where
  [code]: "strrchr_loop m orig s c =
     (if s \<noteq> orig then if m (s - 1) = c then Some (s - 1) else strrchr_loop m orig (s - 1) c else Some 0)"

definition strrchr :: "mem \<Rightarrow> u32 \<Rightarrow> u8 \<Rightarrow> u32 option" where
  "strrchr m s c = (case strlen m s of None \<Rightarrow> None | Some n \<Rightarrow> strrchr_loop m s (s + n) c)"

text \<open>\<^verbatim>\<open>char\<close> is signed: the difference of the promoted characters, as an unsigned word.\<close>

definition char_diff :: "u8 \<Rightarrow> u8 \<Rightarrow> u32" where
  "char_diff a b = scast a - scast b"

partial_function (option) strcmp :: "mem \<Rightarrow> u32 \<Rightarrow> u32 \<Rightarrow> u32 option" where
  [code]: "strcmp m s1 s2 =
     (if m s1 \<noteq> 0 \<and> m s1 = m s2 then strcmp m (s1 + 1) (s2 + 1) else Some (char_diff (m s1) (m s2)))"

text \<open>The case-insensitive match of one character: \<^verbatim>\<open>invCase\<close> yields an unsigned char, the other is signed.\<close>

definition char_eqnc :: "u8 \<Rightarrow> u8 \<Rightarrow> bool" where
  "char_eqnc a b \<longleftrightarrow> a = b \<or> (ucast (invCase a) :: u32) = scast b"

partial_function (option) strcmpnc :: "mem \<Rightarrow> u32 \<Rightarrow> u32 \<Rightarrow> u32 option" where
  [code]: "strcmpnc m s1 s2 =
     (if m s1 \<noteq> 0 \<and> char_eqnc (m s1) (m s2) then strcmpnc m (s1 + 1) (s2 + 1)
      else Some (char_diff (m s1) (m s2)))"

partial_function (option) strcfirst_from :: "mem \<Rightarrow> u32 \<Rightarrow> u32 \<Rightarrow> u16 \<Rightarrow> u16 option" where
  [code]: "strcfirst_from m str0 str1 tr =
     (if m str0 \<noteq> 0 \<and> m str0 = m str1 then strcfirst_from m (str0 + 1) (str1 + 1) (tr + 1) else Some tr)"

definition strcfirst :: "mem \<Rightarrow> u32 \<Rightarrow> u32 \<Rightarrow> u16 option" where
  "strcfirst m str0 str1 = strcfirst_from m str0 str1 0"

partial_function (option) strcfirstnc_from :: "mem \<Rightarrow> u32 \<Rightarrow> u32 \<Rightarrow> u16 \<Rightarrow> u16 option" where
  [code]: "strcfirstnc_from m str0 str1 tr =
     (if m str0 \<noteq> 0 \<and> char_eqnc (m str0) (m str1) then strcfirstnc_from m (str0 + 1) (str1 + 1) (tr + 1)
      else Some tr)"

definition strcfirstnc :: "mem \<Rightarrow> u32 \<Rightarrow> u32 \<Rightarrow> u16 option" where
  "strcfirstnc m str0 str1 = strcfirstnc_from m str0 str1 0"

partial_function (option) strtrim_loop :: "mem \<Rightarrow> u32 \<Rightarrow> u32 \<Rightarrow> mem option" where
  [code]: "strtrim_loop m str len =
     (if m (str + len) = 32 then strtrim_loop (m(str + len := 0)) str (len - 1) else Some m)"

definition strtrim :: "mem \<Rightarrow> u32 \<Rightarrow> mem option" where
  "strtrim m str = (case strlen m str of None \<Rightarrow> None | Some n \<Rightarrow> strtrim_loop m str (n - 1))"

partial_function (option) map_chars :: "(u8 \<Rightarrow> u8) \<Rightarrow> mem \<Rightarrow> u32 \<Rightarrow> u32 \<Rightarrow> mem option" where
  [code]: "map_chars g m s i =
     (if m (s + i) \<noteq> 0 then map_chars g (m(s + i := g (m (s + i)))) s (i + 1) else Some m)"

definition toupper :: "mem \<Rightarrow> u32 \<Rightarrow> mem option" where "toupper m s = map_chars toUpper m s 0"
definition tolower :: "mem \<Rightarrow> u32 \<Rightarrow> mem option" where "tolower m s = map_chars toLower m s 0"

subsection \<open>Splitting\<close>

text \<open>\<^verbatim>\<open>while((off = strchr(off, regex)) != 0) {size++; off++;}\<close>\<close>

partial_function (option) count_seps :: "mem \<Rightarrow> u32 \<Rightarrow> u8 \<Rightarrow> u32 \<Rightarrow> u32 option" where
  [code]: "count_seps m off regex sz =
     (case strchr m off regex of None \<Rightarrow> None
      | Some p \<Rightarrow> if p \<noteq> 0 then count_seps m (p + 1) regex (sz + 1) else Some sz)"

definition the_res :: "'a option \<Rightarrow> 'a res" where
  "the_res r = (case r of None \<Rightarrow> Inl NoFuel | Some x \<Rightarrow> Inr x)"

text \<open>The body loop of \<^verbatim>\<open>strsplit\<close>: allocate and copy one piece, then look for the next separator.\<close>

fun strsplit_loop :: "(u32 \<Rightarrow> 'a kheap_scheme \<Rightarrow> (u32 \<times> 'a kheap_scheme) res) \<Rightarrow> nat \<Rightarrow> u32 \<Rightarrow> u32 \<Rightarrow> u8 \<Rightarrow> u32 \<Rightarrow> u32 \<Rightarrow> u32
    \<Rightarrow> 'a kheap_scheme \<Rightarrow> 'a kheap_scheme res" where
  "strsplit_loop malloc 0 str slen regex tr i off s = Inl NoFuel"
| "strsplit_loop malloc (Suc f) str slen regex tr i off s =
     (let off = (if kmem s off = regex then off + 1 else off) in
      bindR (the_res (strchr (kmem s) off regex)) (\<lambda>temp.
      let len = (if temp = 0 then str + slen - off else temp - off) in
      bindR (malloc (len + 1) s) (\<lambda>(p, s).
      let m = store32 (kmem s) (tr + 4 * i) p;
          m = strncpy m p off len;
          m = m(p + len := 0) in
      bindR (the_res (strchr m off regex)) (\<lambda>off.
        if off \<noteq> 0 then strsplit_loop malloc f str slen regex tr (i + 1) off (s\<lparr>kmem := m\<rparr>)
        else Inr (s\<lparr>kmem := m\<rparr>)))))"

definition strsplit :: "(u32 \<Rightarrow> 'a kheap_scheme \<Rightarrow> (u32 \<times> 'a kheap_scheme) res) \<Rightarrow> nat \<Rightarrow> u32 \<Rightarrow> u8
    \<Rightarrow> 'a kheap_scheme \<Rightarrow> (u32 \<times> u32 \<times> 'a kheap_scheme) res" where
  "strsplit malloc f str regex s =
     bindR (the_res (strlen (kmem s) str)) (\<lambda>slen.
     bindR (the_res (count_seps (kmem s) str regex 0)) (\<lambda>n.
     let sz = n + 1 in
     bindR (malloc (4 * sz) s) (\<lambda>(tr, s).
     bindR (strsplit_loop malloc f str slen regex tr 0 str s) (\<lambda>s. Inr (tr, sz, s)))))"

subsection \<open>Conversions\<close>

function reverse_loop :: "mem \<Rightarrow> u32 \<Rightarrow> u32 \<Rightarrow> u32 \<Rightarrow> mem" where
  "reverse_loop m s i j =
     (if i < j then reverse_loop (m(s + i := m (s + j), s + j := m (s + i))) s (i + 1) (j - 1) else m)"
  by pat_completeness auto
termination
proof (relation "measure (\<lambda>(m, s, i, j). unat j - unat i)", goal_cases)
  case (2 m s i j)
  then have lt: "unat i < unat j" by (simp add: word_less_nat_alt)
  then have "unat (i + 1) = unat i + 1" using unat_lt_32 [of j] by (subst unat_plus_small) auto
  moreover have "unat (j - 1) = unat j - 1" using lt by (subst unat_sub) (auto simp: word_le_nat_alt)
  ultimately show ?case using lt by simp
qed simp

definition reverse :: "mem \<Rightarrow> u32 \<Rightarrow> mem option" where
  "reverse m s = (case strlen m s of None \<Rightarrow> None | Some n \<Rightarrow> Some (reverse_loop m s 0 (n - 1)))"

function utoa_digits :: "mem \<Rightarrow> u32 \<Rightarrow> u32 \<Rightarrow> u32 \<Rightarrow> mem \<times> u32" where
  "utoa_digits m s i n =
     (let m = m(s + i := ucast (n mod 10 + 48)); i = i + 1; n = n div 10 in
      if 0 < n then utoa_digits m s i n else (m, i))"
  by pat_completeness auto
termination
proof (relation "measure (\<lambda>(m, s, i, n). unat n)", goal_cases)
  case (2 m s i n x y z)
  then have "unat n div 10 \<noteq> 0" by (simp add: word_less_nat_alt unat_div_distrib)
  then show ?case using 2 by (simp add: unat_div_distrib)
qed simp

declare reverse_loop.simps [simp del] utoa_digits.simps [simp del]

definition utoa :: "mem \<Rightarrow> u32 \<Rightarrow> u32 \<Rightarrow> mem option" where
  "utoa m n s = (let (m, i) = utoa_digits m s 0 n in reverse (m(s + i := 0)) s)"

definition itoa :: "mem \<Rightarrow> u32 \<Rightarrow> u32 \<Rightarrow> mem option" where
  "itoa m n s = (if n <s 0 then utoa (m(s := 45)) (- n) (s + 1) else utoa m n s)"

fun i2hex_loop :: "mem \<Rightarrow> u32 \<Rightarrow> nat \<Rightarrow> u32 \<Rightarrow> mem" where
  "i2hex_loop m dest 0 val = m"
| "i2hex_loop m dest (Suc k) val =
     (let x = val AND 0xF in
      i2hex_loop (m(dest + of_nat k := ucast (x + (if 9 < x then 65 - 10 else 48)))) dest k (drop_bit 4 val))"

definition i2hex :: "mem \<Rightarrow> u32 \<Rightarrow> u32 \<Rightarrow> mem" where
  "i2hex m val dest =
     (let len = (if val < 255 then 2 else if val < 65535 then 4 else 8 :: nat) in
      (i2hex_loop m dest len val)(dest + of_nat len := 0))"

partial_function (option) atoi_loop :: "mem \<Rightarrow> u32 \<Rightarrow> u32 \<Rightarrow> u32 \<Rightarrow> bool \<Rightarrow> (u32 \<times> bool \<times> u32) option" where
  [code]: "atoi_loop m s i num sign =
     (let c = m (s + i) in
      if c = 0 then Some (num, sign, i)
      else if isdigit c then atoi_loop m s (i + 1) (num * 10 + ucast c - 48) sign
      else if m s = 45 \<and> i = 0 then atoi_loop m s (i + 1) num True
      else Some (num, sign, i))"

definition atoiindex :: "mem \<Rightarrow> u32 \<Rightarrow> (u32 \<times> u32) option" where
  "atoiindex m s = map_option (\<lambda>(num, sign, i). (if sign then num * (- 1) else num, i)) (atoi_loop m s 0 0 False)"

definition atoi :: "mem \<Rightarrow> u32 \<Rightarrow> u32 option" where
  "atoi m s = map_option fst (atoiindex m s)"

subsection \<open>Zero-terminated strings\<close>

definition cstr :: "mem \<Rightarrow> u32 \<Rightarrow> u8 list \<Rightarrow> bool" where
  "cstr m a xs \<longleftrightarrow> unat a + length xs < 2 ^ 32 \<and> 0 \<notin> set xs \<and>
     (\<forall>i. i < length xs \<longrightarrow> m (a + of_nat i) = xs ! i) \<and> m (a + of_nat (length xs)) = 0"

lemma cstr_nth: "cstr m a xs \<Longrightarrow> i < length xs \<Longrightarrow> m (a + of_nat i) = xs ! i"
  by (simp add: cstr_def)

lemma cstrI:
  assumes "unat a + length xs < 2 ^ 32" "0 \<notin> set xs" "\<And>i. i < length xs \<Longrightarrow> m (a + of_nat i) = xs ! i"
    "m (a + of_nat (length xs)) = 0"
  shows "cstr m a xs"
  using assms by (simp add: cstr_def)

lemma offset_inj:
  assumes "unat (a :: u32) + k < 2 ^ 32" "unat a + l < 2 ^ 32"
  shows "a + of_nat k = a + of_nat l \<longleftrightarrow> k = l"
proof -
  have "unat (of_nat k :: u32) = k" "unat (of_nat l :: u32) = l" using assms by (simp_all add: unat_of_nat)
  then show ?thesis by (metis add_left_cancel)
qed

lemma unat_offset: "unat (a :: u32) + k < 2 ^ 32 \<Longrightarrow> unat (a + of_nat k) = unat a + k"
  by (subst unat_plus_small) (simp_all add: unat_of_nat)

lemma cstr_Nil [simp]: "cstr m a [] \<longleftrightarrow> m a = 0"
  using unat_lt_32 [of a] by (simp add: cstr_def)

lemma cstr_Cons [simp]:
  "cstr m a (x # xs) \<longleftrightarrow> x \<noteq> 0 \<and> m a = x \<and> unat a + 1 < 2 ^ 32 \<and> cstr m (a + 1) xs"
proof (cases "unat a + 1 < 2 ^ 32")
  case True
  then have "unat (a + 1) = unat a + 1" by (subst unat_plus_small) auto
  then show ?thesis using True
    by (auto simp: cstr_def All_less_Suc2 add.assoc nth_Cons split: nat.splits)
next
  case False
  then show ?thesis by (auto simp: cstr_def)
qed

lemma cstr_same:
  assumes "cstr m a xs" "same_on (unat a) (unat a + length xs + 1) m m'"
  shows "cstr m' a xs"
  using assms by (auto simp: cstr_def same_on_def unat_offset)

lemma strlen_cstr: "cstr m a xs \<Longrightarrow> strlen m a = Some (of_nat (length xs))"
proof -
  have "cstr m a xs \<Longrightarrow> strlen_from m a n = Some (n + of_nat (length xs))" for n
    by (induction xs arbitrary: a n) (simp_all add: strlen_from.simps add.assoc)
  then show "cstr m a xs \<Longrightarrow> strlen m a = Some (of_nat (length xs))" by (simp add: strlen_def)
qed

lemma strcpy_cstr:
  assumes "cstr m src xs" "unat dest + length xs < 2 ^ 32"
    "unat dest + length xs < unat src \<or> unat src + length xs < unat dest"
  shows "\<exists>m'. strcpy m dest src = Some m' \<and> cstr m' dest xs \<and> cstr m' src xs \<and>
    same_on 0 (unat dest) m m' \<and> same_on (unat dest + length xs + 1) (2 ^ 32) m m'"
  using assms
proof (induction xs arbitrary: m src dest)
  case Nil
  then have "dest \<noteq> src" by auto
  with Nil show ?case
    by (intro exI [of _ "m(dest := 0)"]) (auto simp: strcpy.simps same_on_def)
next
  case (Cons x xs)
  let ?m = "m(dest := x)"
  have u: "unat (src + 1) = unat src + 1" "unat (dest + 1) = unat dest + 1"
    using Cons.prems by (subst unat_plus_small; simp)+
  have m1: "same_on lo hi m ?m" if "hi \<le> unat dest \<or> unat dest < lo" for lo hi
    using that by (auto simp: same_on_def)
  have "cstr ?m (src + 1) xs"
    by (rule cstr_same [of m]) (use Cons.prems u in \<open>auto intro!: m1\<close>)
  then have "\<exists>m'. strcpy ?m (dest + 1) (src + 1) = Some m' \<and> cstr m' (dest + 1) xs \<and> cstr m' (src + 1) xs \<and>
      same_on 0 (unat (dest + 1)) ?m m' \<and> same_on (unat (dest + 1) + length xs + 1) (2 ^ 32) ?m m'"
    by (rule Cons.IH) (use Cons.prems u in auto)
  then obtain m' where m': "strcpy ?m (dest + 1) (src + 1) = Some m'"
    "cstr m' (dest + 1) xs" "cstr m' (src + 1) xs" "same_on 0 (unat dest + 1) ?m m'" "same_on (unat dest + 1 + length xs + 1) (2 ^ 32) ?m m'"
    unfolding u by blast
  have d: "m' dest = x" using m'(4) by (simp add: same_on_def)
  have sr: "m' src = x"
  proof -
    have "unat src < unat dest + 1 \<or> unat dest + 1 + length xs + 1 \<le> unat src" using Cons.prems by auto
    then have "m' src = ?m src" using m'(4,5) unat_lt_32 [of src] by (auto simp: same_on_def)
    moreover have "src \<noteq> dest" using Cons.prems(3) by auto
    ultimately show ?thesis using Cons.prems(1) by simp
  qed
  have "strcpy m dest src = Some m'" using m'(1) Cons.prems(1) by (subst strcpy.simps) (simp add: Let_def)
  moreover have "same_on 0 (unat dest) m m'"
    by (rule same_on_trans [OF m1 same_on_mono [OF m'(4)]]) auto
  moreover have "same_on (unat dest + length (x # xs) + 1) (2 ^ 32) m m'"
    by (rule same_on_trans [OF m1 same_on_mono [OF m'(5)]]) auto
  ultimately show ?case using m'(2,3) d sr Cons.prems(1,2) u by auto
qed

lemma char_diff_eq_0: "char_diff a b = 0 \<longleftrightarrow> a = b"
proof
  assume "char_diff a b = 0"
  then have eq: "scast a = (scast b :: u32)" by (simp add: char_diff_def)
  show "a = b"
  proof (rule bit_word_eqI)
    fix n assume "n < LENGTH(8)"
    then have n: "min 7 n = n" by simp
    have "bit (scast a :: u32) n = bit (scast b :: u32) n" using eq by simp
    with \<open>n < LENGTH(8)\<close> n show "bit a n = bit b n" by (simp add: bit_signed_iff)
  qed
qed (simp add: char_diff_def)

lemma strcmp_cstr:
  assumes "cstr m a xs" "cstr m b ys"
  shows "\<exists>r. strcmp m a b = Some r \<and> (r = 0 \<longleftrightarrow> xs = ys)"
  using assms
proof (induction xs arbitrary: a b ys)
  case Nil
  then show ?case by (cases ys) (auto simp: strcmp.simps char_diff_eq_0)
next
  case (Cons x xs)
  show ?case
  proof (cases "\<exists>ys'. ys = x # ys'")
    case True
    with Cons show ?thesis by (auto simp: strcmp.simps [of m a])
  next
    case False
    from False Cons.prems show ?thesis
      by (cases ys) (auto simp: strcmp.simps [of m a] char_diff_eq_0)
  qed
qed

lemma strchr_cstr:
  assumes "cstr m a xs"
  shows "strchr m a c = Some (if c \<in> set xs then a + of_nat (length (takeWhile (\<lambda>x. x \<noteq> c) xs)) else 0)"
  using assms
proof (induction xs arbitrary: a)
  case (Cons x xs)
  then show ?case by (subst strchr.simps) (auto simp: add.assoc)
qed (simp add: strchr.simps)

text \<open>The common prefix, counted in 16 bits.\<close>

fun common :: "u8 list \<Rightarrow> u8 list \<Rightarrow> nat" where
  "common (x # xs) (y # ys) = (if x = y then Suc (common xs ys) else 0)"
| "common xs ys = 0"

lemma strcfirst_cstr:
  assumes "cstr m a xs" "cstr m b ys"
  shows "strcfirst m a b = Some (of_nat (common xs ys))"
proof -
  have "cstr m a xs \<Longrightarrow> cstr m b ys \<Longrightarrow> strcfirst_from m a b n = Some (n + of_nat (common xs ys))" for n a b
  proof (induction xs ys arbitrary: a b n rule: common.induct)
    case (1 x xs y ys)
    then show ?case by (subst strcfirst_from.simps) (auto simp: add.assoc)
  qed (auto simp: strcfirst_from.simps)
  from this [OF assms, of 0] show ?thesis by (simp add: strcfirst_def)
qed

subsection \<open>Reversal\<close>

lemma reverse_loop_swaps:
  assumes "unat s + j + 1 < 2 ^ 32" "i \<le> j + 1"
  shows "reverse_loop m s (of_nat i) (of_nat j) x =
    (if \<exists>k. i \<le> k \<and> k \<le> j \<and> x = s + of_nat k then m (s + of_nat (i + j) - (x - s)) else m x)"
  using assms
proof (induction "j - i" arbitrary: i j m rule: less_induct)
  case less
  have j: "unat (of_nat j :: u32) = j" using less.prems by (simp add: unat_of_nat)
  show ?case
  proof (cases "i < j")
    case True
    then have i: "unat (of_nat i :: u32) = i" using less.prems by (simp add: unat_of_nat)
    have lt: "(of_nat i :: u32) < of_nat j" using True i j by (simp add: word_less_nat_alt)
    let ?m = "m(s + of_nat i := m (s + of_nat j), s + of_nat j := m (s + of_nat i))"
    have w: "of_nat i + 1 = (of_nat (Suc i) :: u32)" "of_nat j - 1 = (of_nat (j - 1) :: u32)"
      using True by (simp_all add: of_nat_diff)
    have step: "reverse_loop m s (of_nat i) (of_nat j) = reverse_loop ?m s (of_nat (Suc i)) (of_nat (j - 1))"
      using lt unfolding w [symmetric] by (simp add: reverse_loop.simps [of m s "of_nat i"])
    have IH: "reverse_loop ?m s (of_nat (Suc i)) (of_nat (j - 1)) x =
      (if \<exists>k. Suc i \<le> k \<and> k \<le> j - 1 \<and> x = s + of_nat k then ?m (s + of_nat (Suc i + (j - 1)) - (x - s)) else ?m x)"
      by (rule less.hyps) (use True less.prems in auto)
    have inj: "s + of_nat k = s + of_nat l \<longleftrightarrow> k = l" if "k \<le> j" "l \<le> j" for k l
      by (rule offset_inj) (use that less.prems in auto)
    have sum: "Suc i + (j - 1) = i + j" using True by simp
    show ?thesis
    proof (cases "\<exists>k. i \<le> k \<and> k \<le> j \<and> x = s + of_nat k")
      case False
      have nex: "\<not> (\<exists>k. Suc i \<le> k \<and> k \<le> j - 1 \<and> x = s + of_nat k)" using False by auto
      have "x \<noteq> s + of_nat i" "x \<noteq> s + of_nat j" using False True by (auto dest: spec)
      then show ?thesis unfolding step IH if_not_P [OF nex] if_not_P [OF False] by simp
    next
      case ex: True
      then obtain k where k: "i \<le> k" "k \<le> j" "x = s + of_nat k" by blast
      have tgt: "s + of_nat (i + j) - (x - s) = s + of_nat (i + j - k)"
        using k by (simp add: of_nat_diff algebra_simps)
      have uniq: "(\<exists>l. Suc i \<le> l \<and> l \<le> j - 1 \<and> x = s + of_nat l) \<longleftrightarrow> Suc i \<le> k \<and> k \<le> j - 1"
        using k inj True by (metis diff_le_self le_trans)
      consider "k = i" | "k = j" | "Suc i \<le> k" "k \<le> j - 1" using k True by linarith
      then show ?thesis
      proof cases
        case 1
        then have "\<not> (Suc i \<le> k \<and> k \<le> j - 1)" by simp
        then show ?thesis using 1 k(3) True inj [of i j]
          unfolding step IH uniq if_P [OF ex] tgt by simp
      next
        case 2
        then have "\<not> (Suc i \<le> k \<and> k \<le> j - 1)" using True by simp
        then show ?thesis using 2 k(3) unfolding step IH uniq if_P [OF ex] tgt by auto
      next
        case 3
        then have "i + j - k \<noteq> i" "i + j - k \<noteq> j" "i + j - k \<le> j" using True by auto
        then have "s + of_nat (i + j - k) \<noteq> s + of_nat i" "s + of_nat (i + j - k) \<noteq> s + of_nat j"
          using inj True by auto
        then show ?thesis using 3 unfolding step IH uniq if_P [OF ex] sum tgt by simp
      qed
    qed
  next
    case False
    have i: "unat (of_nat i :: u32) = i" using less.prems by (simp add: unat_of_nat)
    have "\<not> (of_nat i :: u32) < of_nat j" using False i j by (simp add: word_less_nat_alt)
    then have "reverse_loop m s (of_nat i) (of_nat j) = m" by (simp add: reverse_loop.simps [of m s "of_nat i"])
    moreover have "i = j \<or> i = j + 1" using False less.prems(2) by linarith
    ultimately show ?thesis by auto
  qed
qed

lemma reverse_cstr:
  assumes "cstr m s xs" "xs \<noteq> []"
  shows "\<exists>m'. reverse m s = Some m' \<and> cstr m' s (rev xs) \<and>
    (\<forall>x. \<not> (\<exists>k. k < length xs \<and> x = s + of_nat k) \<longrightarrow> m' x = m x)"
proof -
  let ?n = "length xs" let ?m = "reverse_loop m s (of_nat 0) (of_nat (?n - 1))"
  have len: "unat s + ?n < 2 ^ 32" "0 \<notin> set xs" and nth: "\<And>i. i < ?n \<Longrightarrow> m (s + of_nat i) = xs ! i"
    and z: "m (s + of_nat ?n) = 0" using assms(1) by (auto simp: cstr_def)
  have n1: "of_nat ?n - 1 = (of_nat (?n - 1) :: u32)" using assms(2) by (simp add: of_nat_diff Suc_leI)
  have r: "reverse m s = Some ?m" using strlen_cstr [OF assms(1)] n1 by (simp add: reverse_def)
  have sw: "?m x = (if \<exists>k. 0 \<le> k \<and> k \<le> ?n - 1 \<and> x = s + of_nat k then m (s + of_nat (0 + (?n - 1)) - (x - s)) else m x)" for x
    by (rule reverse_loop_swaps) (use len assms(2) in \<open>cases xs; simp\<close>)+
  have eq: "(\<exists>k. 0 \<le> k \<and> k \<le> ?n - 1 \<and> x = s + of_nat k) \<longleftrightarrow> (\<exists>k. k < ?n \<and> x = s + of_nat k)" for x
    using assms(2) by (auto simp: Suc_leI le_diff_conv2 Suc_le_eq intro: exI)
  have nth': "?m (s + of_nat i) = rev xs ! i" if "i < ?n" for i
  proof -
    have "s + of_nat (0 + (?n - 1)) - (s + of_nat i - s) = s + of_nat (?n - 1 - i)"
      using that by (simp add: of_nat_diff algebra_simps)
    then have "?m (s + of_nat i) = m (s + of_nat (?n - 1 - i))"
      using sw [of "s + of_nat i"] that unfolding eq by (metis (no_types, lifting))
    with nth [of "?n - 1 - i"] that show ?thesis by (simp add: rev_nth)
  qed
  have z': "?m (s + of_nat ?n) = 0"
  proof -
    have "\<not> (\<exists>k. k < ?n \<and> s + of_nat ?n = s + of_nat k)"
    proof
      assume "\<exists>k. k < ?n \<and> s + of_nat ?n = s + of_nat k"
      then obtain k where "k < ?n" "s + of_nat ?n = s + of_nat k" by blast
      with offset_inj [of s ?n k] len show False by simp
    qed
    then have "?m (s + of_nat ?n) = m (s + of_nat ?n)"
      using sw [of "s + of_nat ?n"] unfolding eq by (simp only: if_False)
    then show ?thesis using z by simp
  qed
  have "cstr ?m s (rev xs)" using nth' z' len by (simp add: cstr_def)
  moreover have "\<forall>x. \<not> (\<exists>k. k < ?n \<and> x = s + of_nat k) \<longrightarrow> ?m x = m x"
    using sw unfolding eq by (metis (no_types, lifting))
  ultimately show ?thesis using r by blast
qed

subsection \<open>Decimal\<close>

fun digs :: "nat \<Rightarrow> u8 list" where
  "digs n = (if n < 10 then [of_nat (48 + n)] else digs (n div 10) @ [of_nat (48 + n mod 10)])"

declare digs.simps [simp del]

fun wr_bytes :: "mem \<Rightarrow> u32 \<Rightarrow> u8 list \<Rightarrow> mem" where
  "wr_bytes m a [] = m"
| "wr_bytes m a (x # xs) = wr_bytes (m(a := x)) (a + 1) xs"

lemma digit_char: "d < 10 \<Longrightarrow> unat (of_nat (48 + d) :: u8) = 48 + d"
  by (simp add: unat_of_nat del: of_nat_add)

lemma digs_isdigit: "c \<in> set (digs n) \<Longrightarrow> isdigit c"
proof (induction n rule: digs.induct)
  case (1 n)
  have d: "isdigit (of_nat (48 + k))" if "k < 10" for k
    using digit_char [OF that] that by (simp add: isdigit_def word_le_nat_alt del: of_nat_add)
  from 1 show ?case using d [of n] d [of "n mod 10"]
    by (subst (asm) (2) digs.simps) (auto split: if_splits simp del: of_nat_add)
qed

lemma digs_nonempty [simp]: "digs n \<noteq> []"
  by (simp add: digs.simps)

lemma digs_length: "n < 10 ^ Suc k \<Longrightarrow> length (digs n) \<le> Suc k"
proof (induction k arbitrary: n)
  case 0
  then show ?case by (simp add: digs.simps)
next
  case (Suc k)
  have "n div 10 < 10 ^ Suc k" using Suc.prems by (simp add: less_mult_imp_div_less)
  from Suc.IH [OF this] show ?case by (simp add: digs.simps [of n])
qed

lemma utoa_digits_write:
  "utoa_digits m s i n = (wr_bytes m (s + i) (rev (digs (unat n))), i + of_nat (length (digs (unat n))))"
proof (induction m s i n rule: utoa_digits.induct)
  case (1 m s i n)
  have c: "ucast (n mod 10 + 48) = (of_nat (48 + unat n mod 10) :: u8)"
  proof (rule word_unat_eqI)
    have "unat (n mod 10 + 48) = unat n mod 10 + 48"
      by (subst unat_plus_small) (simp_all add: unat_mod_distrib)
    then show "unat (ucast (n mod 10 + 48) :: u8) = unat (of_nat (48 + unat n mod 10) :: u8)"
      using digit_char [of "unat n mod 10"] by (simp add: unsigned_ucast_eq take_bit_eq_mod add.commute del: of_nat_add)
  qed
  have pos: "0 < n div 10 \<longleftrightarrow> \<not> unat n < 10"
    by (simp add: word_less_nat_alt unat_div_distrib) linarith
  show ?case
  proof (cases "unat n < 10")
    case True
    with pos c show ?thesis by (simp add: utoa_digits.simps [of m s i n] digs.simps [of "unat n"] Let_def fun_upd_def)
  next
    case False
    let ?m = "m(s + i := of_nat (48 + unat n mod 10))"
    have d: "unat (n div 10) = unat n div 10" by (simp add: unat_div_distrib)
    have p: "0 < n div 10" using pos False by blast
    have "utoa_digits ?m s (i + 1) (n div 10) =
        (wr_bytes ?m (s + (i + 1)) (rev (digs (unat n div 10))), i + 1 + of_nat (length (digs (unat n div 10))))"
      using 1 [OF _ refl refl p, of ?m] c unfolding d by (simp add: fun_upd_def)
    moreover have "utoa_digits m s i n = utoa_digits ?m s (i + 1) (n div 10)"
      unfolding utoa_digits.simps [of m s i n] Let_def c using p by (rule if_P)
    moreover have "digs (unat n) = digs (unat n div 10) @ [of_nat (48 + unat n mod 10)]"
      using False by (subst digs.simps) simp
    ultimately show ?thesis by (simp add: add.assoc add.commute add.left_commute del: of_nat_add fun_upd_apply)
  qed
qed

lemma wr_bytes_nth:
  assumes "unat a + length xs \<le> 2 ^ 32"
  shows "i < length xs \<Longrightarrow> wr_bytes m a xs (a + of_nat i) = xs ! i"
    "unat x < unat a \<or> unat a + length xs \<le> unat x \<Longrightarrow> wr_bytes m a xs x = m x"
  using assms
proof (induction xs arbitrary: m a i x)
  case (Cons y ys)
  {
    case 1
    show ?case
    proof (cases ys)
      case Nil
      with 1 show ?thesis by simp
    next
      case c: (Cons z zs)
      have u: "unat (a + 1) = unat a + 1" using 1 c by (subst unat_plus_small) auto
      show ?thesis
      proof (cases i)
        case 0
        with Cons.IH(2) [where a = "a + 1"] 1 u show ?thesis by simp
      next
        case (Suc k)
        with Cons.IH(1) [where i = k and a = "a + 1"] 1 u show ?thesis by (simp add: add.assoc)
      qed
    qed
  next
    case 2
    then have ne: "x \<noteq> a" by auto
    show ?case
    proof (cases ys)
      case c: (Cons z zs)
      have u: "unat (a + 1) = unat a + 1" using 2 c by (subst unat_plus_small) auto
      with Cons.IH(2) [where a = "a + 1"] 2 ne show ?thesis by auto
    qed (use ne in simp)
  }
qed simp_all

lemma wr_bytes_cstr:
  assumes "unat a + length xs < 2 ^ 32" "0 \<notin> set xs"
  shows "cstr ((wr_bytes m a xs)(a + of_nat (length xs) := 0)) a xs"
  using assms offset_inj [of a _ "length xs"] wr_bytes_nth(1) [of a xs _ m]
  by (simp add: cstr_def)

lemma isdigit_nonzero: "isdigit c \<Longrightarrow> c \<noteq> 0"
  by (auto simp: isdigit_def)

lemma utoa_cstr:
  assumes "unat s + 10 < 2 ^ 32"
  shows "\<exists>m'. utoa m n s = Some m' \<and> cstr m' s (digs (unat n)) \<and> same_on 0 (unat s) m m' \<and>
    same_on (unat s + 11) (2 ^ 32) m m'"
proof -
  let ?d = "rev (digs (unat n))" let ?m = "(wr_bytes m s ?d)(s + of_nat (length ?d) := 0)"
  have len: "length ?d \<le> 10" using digs_length [of "unat n" 9] unat_lt_32 [of n] by simp
  have b: "unat s + length ?d < 2 ^ 32" using len assms by simp
  have "cstr ?m s ?d" by (rule wr_bytes_cstr [OF b]) (use digs_isdigit isdigit_nonzero in fastforce)
  then obtain m' where m': "reverse ?m s = Some m'" "cstr m' s (digs (unat n))"
    "\<forall>x. \<not> (\<exists>k. k < length ?d \<and> x = s + of_nat k) \<longrightarrow> m' x = ?m x"
    using reverse_cstr [of ?m s ?d] by auto
  have out: "m' x = m x" if "unat x < unat s \<or> unat s + 11 \<le> unat x" for x
  proof -
    have "unat (s + of_nat k) = unat s + k" if "k \<le> length ?d" for k
      using that b by (intro unat_offset) simp
    then have "\<not> (\<exists>k. k < length ?d \<and> x = s + of_nat k)" "x \<noteq> s + of_nat (length ?d)"
      using that len by (auto simp del: length_rev)
    moreover have "wr_bytes m s ?d x = m x" by (rule wr_bytes_nth(2)) (use that len b in auto)
    ultimately show ?thesis using m'(3) by simp
  qed
  have "utoa m n s = Some m'" using m'(1) by (simp add: utoa_def utoa_digits_write)
  with m'(2) out show ?thesis by (auto simp: same_on_def)
qed

text \<open>What \<^verbatim>\<open>atoi\<close> computes on digits.\<close>

definition dval :: "u32 \<Rightarrow> u8 list \<Rightarrow> u32" where
  "dval v ds = foldl (\<lambda>v c. v * 10 + ucast c - 48) v ds"

lemma dval_digs: "dval 0 (digs n) = of_nat n"
proof (induction n rule: digs.induct)
  case (1 n)
  have u: "ucast (of_nat (48 + k) :: u8) = (of_nat (48 + k) :: u32)" if "k < 10" for k
    using digit_char [OF that] that
    by (intro word_unat_eqI) (simp add: unsigned_ucast_eq unat_of_nat take_bit_eq_mod del: of_nat_add)
  show ?case
  proof (cases "n < 10")
    case True
    with u [of n] show ?thesis by (simp add: digs.simps [of n] dval_def del: of_nat_add) simp
  next
    case False
    have "n = n div 10 * 10 + n mod 10" by simp
    then have "(of_nat n :: u32) = of_nat (n div 10) * 10 + of_nat (n mod 10)"
      by (metis of_nat_add of_nat_mult of_nat_numeral)
    with 1 [OF False] u [of "n mod 10"] False show ?thesis
      by (simp add: digs.simps [of n] dval_def del: of_nat_add) simp
  qed
qed

lemma atoi_loop_digits:
  assumes "cstr m (s + i) ds" "\<forall>c \<in> set ds. isdigit c"
  shows "\<exists>j. atoi_loop m s i v sg = Some (dval v ds, sg, j)"
  using assms
proof (induction ds arbitrary: i v)
  case Nil
  then show ?case by (auto simp: atoi_loop.simps dval_def)
next
  case (Cons c ds)
  then have "cstr m (s + (i + 1)) ds" by (simp add: add.assoc)
  from Cons.IH [OF this] Cons.prems show ?case
    by (subst atoi_loop.simps) (auto simp: dval_def Let_def isdigit_nonzero)
qed

lemma atoi_digits:
  assumes "cstr m s ds" "\<forall>c \<in> set ds. isdigit c"
  shows "atoi m s = Some (dval 0 ds)"
  using atoi_loop_digits [of m s 0 ds 0 False] assms by (auto simp: atoi_def atoiindex_def)

lemma atoi_minus_digits:
  assumes "m s = 45" "cstr m (s + 1) ds" "\<forall>c \<in> set ds. isdigit c"
  shows "atoi m s = Some (- dval 0 ds)"
proof -
  have "\<exists>j. atoi_loop m s 1 0 True = Some (dval 0 ds, True, j)"
    by (rule atoi_loop_digits) (use assms in auto)
  moreover have "atoi_loop m s 0 0 False = atoi_loop m s 1 0 True"
    by (subst atoi_loop.simps) (simp add: assms(1) isdigit_def)
  ultimately show ?thesis by (auto simp: atoi_def atoiindex_def)
qed

text \<open>C15: \<^verbatim>\<open>itoa\<close> followed by \<^verbatim>\<open>atoi\<close> is the identity on all 32-bit integers (the most negative one included,
  whose negation wraps), and \<^verbatim>\<open>itoa\<close> returns and writes at most the 12 bytes of its buffer.\<close>

theorem itoa_atoi_roundtrip:
  assumes "unat s + 12 \<le> 2 ^ 32"
  shows "\<exists>m'. itoa m n s = Some m' \<and> atoi m' s = Some n \<and> same_on 0 (unat s) m m' \<and>
    same_on (unat s + 12) (2 ^ 32) m m'"
proof (cases "n <s 0")
  case True
  have u: "unat (s + 1) = unat s + 1" using assms by (subst unat_plus_small) auto
  obtain m' where m': "utoa (m(s := 45)) (- n) (s + 1) = Some m'" "cstr m' (s + 1) (digs (unat (- n)))"
    "same_on 0 (unat s + 1) (m(s := 45)) m'" "same_on (unat s + 12) (2 ^ 32) (m(s := 45)) m'"
    using utoa_cstr [of "s + 1" "m(s := 45)" "- n"] assms u by (auto simp: add.commute)
  have "m' s = 45" using m'(3) by (simp add: same_on_def)
  then have "atoi m' s = Some (- dval 0 (digs (unat (- n))))"
    by (rule atoi_minus_digits [OF _ m'(2)]) (use digs_isdigit in blast)
  then have "atoi m' s = Some n" by (simp add: dval_digs)
  moreover have "same_on 0 (unat s) m m'" "same_on (unat s + 12) (2 ^ 32) m m'"
    using m'(3,4) by (auto simp: same_on_def)
  moreover have "itoa m n s = Some m'" using m'(1) True by (simp add: itoa_def)
  ultimately show ?thesis by blast
next
  case False
  obtain m' where m': "utoa m n s = Some m'" "cstr m' s (digs (unat n))" "same_on 0 (unat s) m m'"
    "same_on (unat s + 11) (2 ^ 32) m m'"
    using utoa_cstr [of s m n] assms by auto
  have "atoi m' s = Some n" using atoi_digits [OF m'(2)] digs_isdigit by (simp add: dval_digs)
  moreover have "same_on (unat s + 12) (2 ^ 32) m m'" using m'(4) by (rule same_on_mono) auto
  moreover have "itoa m n s = Some m'" using m'(1) False by (simp add: itoa_def)
  ultimately show ?thesis using m'(3) by blast
qed

theorem itoa_atoi_roundtrip_witness:
  "\<exists>m'. itoa (\<lambda>_. 7) (- 12) 0x1000 = Some m' \<and> atoi m' 0x1000 = Some (- 12) \<and>
     same_on 0 (unat (0x1000 :: u32)) (\<lambda>_. 7) m' \<and> same_on (unat (0x1000 :: u32) + 12) (2 ^ 32) (\<lambda>_. 7) m'"
  using itoa_atoi_roundtrip [of "0x1000" "\<lambda>_. 7" "- 12"] by simp

text \<open>\<^verbatim>\<open>strcat\<close> on two strings that do not overlap returns, leaves the concatenation at \<^verbatim>\<open>dest\<close>, keeps \<^verbatim>\<open>src\<close>, and
  touches nothing but the bytes of the appended string and its terminator.\<close>

theorem strcat_appends:
  assumes "cstr m dest xs" "cstr m src ys" "unat dest + length xs + length ys < 2 ^ 32"
    "unat dest + length xs + length ys < unat src \<or> unat src + length ys < unat dest"
  shows "\<exists>m'. strcat m dest src = Some m' \<and> cstr m' dest (xs @ ys) \<and> cstr m' src ys \<and>
    same_on 0 (unat dest + length xs) m m' \<and> same_on (unat dest + length xs + length ys + 1) (2 ^ 32) m m'"
proof -
  have u: "unat (dest + of_nat (length xs)) = unat dest + length xs"
    using assms(3) by (intro unat_offset) simp
  have "\<exists>m'. strcpy m (dest + of_nat (length xs)) src = Some m' \<and> cstr m' (dest + of_nat (length xs)) ys \<and>
    cstr m' src ys \<and> same_on 0 (unat (dest + of_nat (length xs))) m m' \<and>
    same_on (unat (dest + of_nat (length xs)) + length ys + 1) (2 ^ 32) m m'"
    by (rule strcpy_cstr) (use assms u in auto)
  then obtain m' where m': "strcpy m (dest + of_nat (length xs)) src = Some m'"
    "cstr m' (dest + of_nat (length xs)) ys" "cstr m' src ys" "same_on 0 (unat dest + length xs) m m'"
    "same_on (unat dest + length xs + length ys + 1) (2 ^ 32) m m'"
    unfolding u by blast
  have at: "m' (dest + of_nat i) = (xs @ ys) ! i" if "i < length (xs @ ys)" for i
  proof (cases "i < length xs")
    case True
    then have "unat (dest + of_nat i) = unat dest + i" using assms(3) by (intro unat_offset) simp
    then have "m' (dest + of_nat i) = m (dest + of_nat i)" using m'(4) True by (simp add: same_on_def)
    with True assms(1) show ?thesis by (simp add: cstr_def nth_append)
  next
    case False
    then have "dest + of_nat i = dest + of_nat (length xs) + of_nat (i - length xs)"
      by (simp add: of_nat_diff)
    moreover have "m' (dest + of_nat (length xs) + of_nat (i - length xs)) = ys ! (i - length xs)"
      using False that by (intro cstr_nth [OF m'(2)]) simp
    ultimately show ?thesis using False by (simp only: nth_append if_False)
  qed
  have "cstr m' dest (xs @ ys)"
    using at assms m'(2) by (simp add: cstr_def add.assoc)
  with m' show ?thesis using strlen_cstr [OF assms(1)] by (auto simp: strcat_def)
qed

theorem strcat_appends_witness:
  "\<exists>m'. strcat ((\<lambda>_. 0)(100 := 65, 200 := 66, 201 := 67)) 100 200 = Some m' \<and> cstr m' 100 ([65] @ [66, 67]) \<and>
     cstr m' 200 [66, 67] \<and> same_on 0 (unat (100 :: u32) + length [65 :: u8]) ((\<lambda>_. 0)(100 := 65, 200 := 66, 201 := 67)) m' \<and>
     same_on (unat (100 :: u32) + length [65 :: u8] + length [66 :: u8, 67] + 1) (2 ^ 32) ((\<lambda>_. 0)(100 := 65, 200 := 66, 201 := 67)) m'"
  by (rule strcat_appends) simp_all

text \<open>\<^verbatim>\<open>strcmp\<close> on two strings returns 0 exactly when they are equal.\<close>

theorem strcmp_decides_equality:
  assumes "cstr m a xs" "cstr m b ys"
  shows "\<exists>r. strcmp m a b = Some r \<and> (r = 0 \<longleftrightarrow> xs = ys)"
  using assms by (rule strcmp_cstr)

theorem strcmp_decides_equality_witness:
  "\<exists>r. strcmp ((\<lambda>_. 0)(100 := 65, 200 := 65, 201 := 67)) 100 200 = Some r \<and> (r = 0 \<longleftrightarrow> [65 :: u8] = [65, 67])"
  by (rule strcmp_decides_equality) simp_all

subsection \<open>Hexadecimal\<close>

definition hex_digit :: "u8 \<Rightarrow> nat" where
  "hex_digit c = (if isdigit c then unat c - 48 else unat c - 55)"

definition hex_val :: "u8 list \<Rightarrow> nat" where
  "hex_val ds = foldl (\<lambda>v c. 16 * v + hex_digit c) 0 ds"

definition hex_char :: "nat \<Rightarrow> u8" where
  "hex_char x = of_nat (x + (if 9 < x then 55 else 48))"

lemma unat_hex_char: "x < 16 \<Longrightarrow> unat (hex_char x) = x + (if 9 < x then 55 else 48)"
  by (simp add: hex_char_def unat_of_nat del: of_nat_add)

lemma hex_digit_char: "x < 16 \<Longrightarrow> hex_digit (hex_char x) = x"
  using unat_hex_char [of x] by (auto simp: hex_digit_def isdigit_def word_le_nat_alt)

lemma hex_char_nonzero: "x < 16 \<Longrightarrow> hex_char x \<noteq> 0"
  using unat_hex_char [of x] by (metis add_is_0 unsigned_0 zero_neq_numeral)

lemma hex_nibble: "ucast ((v AND 0xF) + (if 9 < v AND 0xF then 55 else 48)) = hex_char (unat (v :: u32) mod 16)"
proof -
  have a: "v AND 0xF = of_nat (unat v mod 16)"
  proof -
    have "v AND 0xF = v AND mask 4" by (simp add: mask_eq_exp_minus_1)
    then show ?thesis by (simp add: take_bit_eq_mask [symmetric] take_bit_eq_mod word_unat_eq_iff unat_mod_distrib unat_of_nat)
  qed
  have u: "unat (of_nat (unat v mod 16) :: u32) = unat v mod 16" by (simp add: unat_of_nat)
  have lt: "(9 :: u32) < of_nat (unat v mod 16) \<longleftrightarrow> 9 < unat v mod 16" by (simp add: word_less_nat_alt u)
  let ?x = "unat v mod 16"
  have e: "of_nat ?x + (if 9 < ?x then 55 else 48) = (of_nat (?x + (if 9 < ?x then 55 else 48)) :: u32)" by simp
  have "?x + (if 9 < ?x then 55 else 48) < 256" by (simp split: if_split) linarith
  then show ?thesis
    unfolding a lt e by (intro word_unat_eqI) (simp add: hex_char_def unsigned_ucast_eq unat_of_nat take_bit_eq_mod del: of_nat_add)
qed

lemma i2hex_loop_nth:
  assumes "unat d + k \<le> 2 ^ 32"
  shows "i2hex_loop m d k v x =
    (if unat d \<le> unat x \<and> unat x < unat d + k then hex_char (unat v div 16 ^ (unat d + k - 1 - unat x) mod 16) else m x)"
  using assms
proof (induction k arbitrary: m v)
  case (Suc k)
  have e: "unat (d + of_nat k) = unat d + k" using Suc.prems by (intro unat_offset) simp
  then have x: "x = d + of_nat k \<longleftrightarrow> unat x = unat d + k" by (simp add: word_unat_eq_iff)
  have v: "unat (drop_bit 4 v) = unat v div 16" by (simp add: drop_bit_eq_div unat_div_distrib)
  have p: "unat v div 16 div 16 ^ (unat d + k - Suc (unat x)) = unat v div 16 ^ (unat d + k - unat x)"
    if "unat x < unat d + k"
  proof -
    have "unat d + k - unat x = Suc (unat d + k - Suc (unat x))" using that by simp
    then show ?thesis by (simp only: div_mult2_eq power_Suc)
  qed
  show ?case using Suc p hex_nibble [of v] by (auto simp: Let_def v x split: if_splits)
qed auto

definition hex_digits :: "nat \<Rightarrow> nat \<Rightarrow> u8 list" where
  "hex_digits k n = map (\<lambda>i. hex_char (n div 16 ^ (k - 1 - i) mod 16)) [0..<k]"

lemma hex_digits_Suc: "hex_digits (Suc k) n = hex_digits k (n div 16) @ [hex_char (n mod 16)]"
proof -
  have "n div 16 ^ (k - i) = n div 16 div 16 ^ (k - Suc i)" if "i < k" for i
  proof -
    have "k - i = Suc (k - Suc i)" using that by simp
    then show ?thesis by (simp only: div_mult2_eq power_Suc)
  qed
  then show ?thesis by (simp add: hex_digits_def)
qed

lemma hex_val_digits: "n < 16 ^ k \<Longrightarrow> hex_val (hex_digits k n) = n"
proof (induction k arbitrary: n)
  case 0
  then show ?case by (simp add: hex_digits_def hex_val_def)
next
  case (Suc k)
  then have "n div 16 < 16 ^ k" by (simp add: less_mult_imp_div_less mult.commute)
  from Suc.IH [OF this] show ?case by (simp add: hex_digits_Suc hex_val_def hex_digit_char)
qed

text \<open>\<^verbatim>\<open>i2hex\<close> writes a zero-terminated string of 2, 4 or 8 upper-case hexadecimal digits whose value is the
  argument, and nothing outside it.\<close>

theorem i2hex_spells_value:
  assumes "unat d + 8 < 2 ^ 32"
  shows "\<exists>ds. cstr (i2hex m v d) d ds \<and> hex_val ds = unat v \<and> length ds \<in> {2, 4, 8} \<and>
    same_on 0 (unat d) m (i2hex m v d) \<and> same_on (unat d + length ds + 1) (2 ^ 32) m (i2hex m v d)"
proof -
  define k :: nat where "k = (if v < 255 then 2 else if v < 65535 then 4 else 8)"
  have k: "k \<in> {2, 4, 8}" "k \<le> 8" by (auto simp: k_def)
  have v: "unat v < 16 ^ k" using unat_lt_32 [of v] by (auto simp: k_def word_less_nat_alt)
  have m: "i2hex m v d = (i2hex_loop m d k v)(d + of_nat k := 0)" by (simp add: i2hex_def k_def Let_def)
  have off: "unat (d + of_nat i) = unat d + i" if "i \<le> k" for i
    using that k(2) assms by (intro unat_offset) simp
  have at: "i2hex m v d (d + of_nat i) = hex_digits k (unat v) ! i" if "i < k" for i
  proof -
    have "d + of_nat i \<noteq> d + of_nat k" using off [of i] off [of k] that by (metis add_left_cancel less_imp_le less_irrefl order_refl)
    then show ?thesis using off [of i] that k(2) assms
      by (simp add: m i2hex_loop_nth hex_digits_def)
  qed
  have "cstr (i2hex m v d) d (hex_digits k (unat v))"
  proof (rule cstrI)
    show "i2hex m v d (d + of_nat i) = hex_digits k (unat v) ! i" if "i < length (hex_digits k (unat v))" for i
      using that by (intro at) (simp add: hex_digits_def)
    show "0 \<notin> set (hex_digits k (unat v))" by (auto simp: hex_digits_def hex_char_nonzero dest: sym)
  qed (use k(2) assms in \<open>simp_all add: hex_digits_def m\<close>)
  moreover have "same_on 0 (unat d) m (i2hex m v d)" "same_on (unat d + k + 1) (2 ^ 32) m (i2hex m v d)"
    using off [of k] k(2) assms by (auto simp: m same_on_def i2hex_loop_nth)
  ultimately show ?thesis using hex_val_digits [OF v] k(1)
    by (intro exI [of _ "hex_digits k (unat v)"]) (simp add: hex_digits_def)
qed

theorem i2hex_spells_value_witness:
  "\<exists>ds. cstr (i2hex (\<lambda>_. 7) 0xBEEF 0x1000) 0x1000 ds \<and> hex_val ds = unat (0xBEEF :: u32) \<and> length ds \<in> {2, 4, 8} \<and>
    same_on 0 (unat (0x1000 :: u32)) (\<lambda>_. 7) (i2hex (\<lambda>_. 7) 0xBEEF 0x1000) \<and>
    same_on (unat (0x1000 :: u32) + length ds + 1) (2 ^ 32) (\<lambda>_. 7) (i2hex (\<lambda>_. 7) 0xBEEF 0x1000)"
  by (rule i2hex_spells_value) simp

end
