(* ===== verification/VK_Time.thy ===== *)
theory VK_Time
  imports VK_Kheap "HOL-Library.Signed_Division"
begin

section \<open>Time (time/time.c)\<close>

text \<open>
  The real-time clock and the two conversions between seconds since 1970 and calendar dates.
  \<^verbatim>\<open>time_t\<close> is a 32-bit signed integer: an \<open>int\<close> wrapped to 32 bits at each assignment that may overflow;
  divisions truncate as in C. The clock registers behind ports 0x70 and 0x71 are a parameter.
\<close>

definition wrap32 :: "int \<Rightarrow> int" where "wrap32 x = signed_take_bit 31 x"

definition monthdays :: "int list" where
  "monthdays = [31, 29, 31, 30, 31, 30, 31, 31, 30, 31, 30, 31]"

subsection \<open>The CMOS clock\<close>

record cmos_time =
  ct_seconds :: u8
  ct_minutes :: u8
  ct_hours :: u8
  ct_weekday :: u8
  ct_monthday :: u8
  ct_month :: u8
  ct_year :: u8
  ct_century :: u8

definition CMOS_FLAG_SET :: u8 where "CMOS_FLAG_SET = 1"
definition CMOS_FLAG_BCD :: u8 where "CMOS_FLAG_BCD = 2"
definition CMOS_FLAG_12 :: u8 where "CMOS_FLAG_12 = 4"

text \<open>\<^verbatim>\<open>outb(0x70, (0x80 << 7) | r); inb(0x71)\<close>: the port takes the low byte.\<close>

definition cmos_read :: "(u8 \<Rightarrow> u8) \<Rightarrow> u8 \<Rightarrow> u8" where
  "cmos_read reg r = reg (ucast ((push_bit 7 0x80 :: u32) OR ucast r))"

definition bcd :: "u8 \<Rightarrow> u8" where
  "bcd x = drop_bit 1 (x AND 0xF0) + drop_bit 3 (x AND 0xF0) + (x AND 0xF)"

definition cmos_flags_of :: "(u8 \<Rightarrow> u8) \<Rightarrow> u8 \<Rightarrow> u8" where
  "cmos_flags_of reg cmos_flags =
     (if cmos_flags AND CMOS_FLAG_SET = 0 then
        let register_b = cmos_read reg 0xB;
            fl = (if register_b AND 2 = 0 then cmos_flags OR CMOS_FLAG_12 else cmos_flags) in
        if register_b AND 4 = 0 then fl OR CMOS_FLAG_BCD else fl
      else cmos_flags)"

definition cmos_registers :: "(u8 \<Rightarrow> u8) \<Rightarrow> cmos_time" where
  "cmos_registers reg = \<lparr>ct_seconds = cmos_read reg 0, ct_minutes = cmos_read reg 2, ct_hours = cmos_read reg 4,
     ct_weekday = cmos_read reg 6, ct_monthday = cmos_read reg 7, ct_month = cmos_read reg 8,
     ct_year = cmos_read reg 9, ct_century = cmos_read reg 0x32\<rparr>"

definition cmos_from_bcd :: "cmos_time \<Rightarrow> cmos_time" where
  "cmos_from_bcd ct = \<lparr>ct_seconds = bcd (ct_seconds ct), ct_minutes = bcd (ct_minutes ct), ct_hours = bcd (ct_hours ct),
     ct_weekday = bcd (ct_weekday ct), ct_monthday = bcd (ct_monthday ct), ct_month = bcd (ct_month ct),
     ct_year = bcd (ct_year ct), ct_century = bcd (ct_century ct)\<rparr>"

definition hours_from_12 :: "u8 \<Rightarrow> u8" where
  "hours_from_12 h =
     (if h AND 0x80 \<noteq> 0 then let h = h AND NOT 0x80 in if h \<noteq> 12 then h + 12 else 0 else h)"

definition store_cmos_time :: "mem \<Rightarrow> u32 \<Rightarrow> cmos_time \<Rightarrow> mem" where
  "store_cmos_time m p ct = m(p := ct_seconds ct, p + 1 := ct_minutes ct, p + 2 := ct_hours ct, p + 3 := ct_weekday ct,
     p + 4 := ct_monthday ct, p + 5 := ct_month ct, p + 6 := ct_year ct, p + 7 := ct_century ct)"

definition get_cmos_time :: "(u32 \<Rightarrow> 'a kheap_scheme \<Rightarrow> (u32 \<times> 'a kheap_scheme) res) \<Rightarrow> (u8 \<Rightarrow> u8) \<Rightarrow> u8 \<Rightarrow> 'a kheap_scheme
    \<Rightarrow> (u32 \<times> cmos_time \<times> u8 \<times> 'a kheap_scheme) res" where
  "get_cmos_time malloc reg cmos_flags s =
     (let cmos_flags = cmos_flags_of reg cmos_flags in
      bindR (malloc 8 s) (\<lambda>(p, s).
      let ct = cmos_registers reg;
          ct = (if cmos_flags AND CMOS_FLAG_BCD \<noteq> 0 then cmos_from_bcd ct else ct);
          ct = (if cmos_flags AND CMOS_FLAG_12 \<noteq> 0 then ct\<lparr>ct_hours := hours_from_12 (ct_hours ct)\<rparr> else ct);
          ct = ct\<lparr>ct_year := ct_year ct + 100\<rparr> in
      Inr (p, ct, cmos_flags, s\<lparr>kmem := store_cmos_time (kmem s) p ct\<rparr>)))"

subsection \<open>Conversions\<close>

text \<open>The fall-through cases of the switch on the month (counted from 0).\<close>

definition case_month :: "nat \<Rightarrow> int \<Rightarrow> u8 \<Rightarrow> int \<Rightarrow> int" where
  "case_month k days month tr = (if k \<le> unat month \<and> unat month \<le> 11 then wrap32 (tr + days * 86400) else tr)"

definition std_months :: "u8 \<Rightarrow> u8 \<Rightarrow> int \<Rightarrow> int" where
  "std_months month year tr =
     (let tr = case_month 11 30 month tr;
          tr = case_month 10 31 month tr;
          tr = case_month 9 30 month tr;
          tr = case_month 8 31 month tr;
          tr = case_month 7 31 month tr;
          tr = case_month 6 30 month tr;
          tr = case_month 5 31 month tr;
          tr = case_month 4 30 month tr;
          tr = case_month 3 31 month tr;
          tr = case_month 2 28 month tr;
          tr = (if unat year mod 4 = 0 \<and> (unat year mod 100 \<noteq> 0 \<or> unat year mod 400 = 0) then case_month 2 1 month tr else tr)
      in case_month 1 31 month tr)"

function std_years :: "int \<Rightarrow> int \<Rightarrow> int" where
  "std_years years tr =
     (if 1969 < years then
        let tr = wrap32 (tr + 365 * 86400);
            tr = (if years mod 4 = 0 then
                    if years mod 100 = 0 then if years mod 400 = 0 then wrap32 (tr + 86400) else tr
                    else wrap32 (tr + 86400)
                  else tr)
        in std_years (years - 1) tr
      else tr)"
  by pat_completeness auto
termination by (relation "measure (\<lambda>(y, _). nat (y - 1969))") auto

declare std_years.simps [simp del]

definition convert_to_std_time :: "u8 \<Rightarrow> u8 \<Rightarrow> u8 \<Rightarrow> u8 \<Rightarrow> u8 \<Rightarrow> u8 \<Rightarrow> int" where
  "convert_to_std_time seconds minutes hours day month year =
     (let tr = wrap32 (uint seconds + 60 * uint minutes + 3600 * uint hours + 86400 * (uint day - 1));
          years = 1900 + uint year - 1;
          month = month - 1;
          tr = std_months month year tr
      in std_years years tr)"

text \<open>The search for the month; \<open>None\<close> when it would read past \<^verbatim>\<open>monthdays\<close>.\<close>

function month_loop :: "int \<Rightarrow> nat \<Rightarrow> (int \<times> nat) option" where
  "month_loop time month =
     (if month < 12 then
        if monthdays ! month \<le> time then month_loop (time - monthdays ! month) (month + 1) else Some (time, month)
      else None)"
  by pat_completeness auto
termination by (relation "measure (\<lambda>(_, k). 12 - k)") auto

declare month_loop.simps [simp del]

definition convert_to_readable_time :: "int \<Rightarrow> (u8 \<times> u8 \<times> u8 \<times> u8 \<times> u8 \<times> u8) option" where
  "convert_to_readable_time time =
     (let seconds = word_of_int (time smod 60); time = time sdiv 60;
          minutes = word_of_int (time smod 60); time = time sdiv 60;
          hour = word_of_int (time smod 24); time = time sdiv 24;
          time = time + 25568;
          year = word_of_int (push_bit 2 (time sdiv 1461)); time = time smod 1461;
          (year, time) = (if 365 < time then (year + word_of_int ((time - 1) sdiv 365), (time - 1) smod 365) else (year, time));
          time = (if year AND 3 \<noteq> 0 \<and> 59 \<le> time then time + 1 else time)
      in map_option (\<lambda>(time, month). (seconds, minutes, hour, word_of_int (time + 1), of_nat month + 1, year))
           (month_loop time 0))"

definition get_current_time_utc :: "(u32 \<Rightarrow> 'a kheap_scheme \<Rightarrow> (u32 \<times> 'a kheap_scheme) res) \<Rightarrow> (u8 \<Rightarrow> u8) \<Rightarrow> u8 \<Rightarrow> 'a kheap_scheme
    \<Rightarrow> (int \<times> u8 \<times> 'a kheap_scheme) res" where
  "get_current_time_utc malloc reg cmos_flags s =
     bindR (get_cmos_time malloc reg cmos_flags s) (\<lambda>(p, ct, cmos_flags, s).
       Inr (convert_to_std_time (ct_seconds ct) (ct_minutes ct) (ct_hours ct) (ct_monthday ct) (ct_month ct) (ct_year ct),
            cmos_flags, s))"

subsection \<open>The calendar\<close>

definition leap :: "int \<Rightarrow> bool" where
  "leap y \<longleftrightarrow> y mod 4 = 0 \<and> (y mod 100 \<noteq> 0 \<or> y mod 400 = 0)"

definition days_before_year :: "int \<Rightarrow> int" where
  "days_before_year y = (\<Sum>k\<in>{1970..<y}. if leap k then 366 else 365)"

definition month_lengths :: "int \<Rightarrow> int list" where
  "month_lengths y = [31, if leap y then 29 else 28, 31, 30, 31, 30, 31, 31, 30, 31, 30, 31]"

definition days_before_month :: "int \<Rightarrow> nat \<Rightarrow> int" where
  "days_before_month y m = sum_list (take (m - 1) (month_lengths y))"

definition valid_date :: "int \<Rightarrow> nat \<Rightarrow> int \<Rightarrow> bool" where
  "valid_date y m d \<longleftrightarrow> 1970 \<le> y \<and> y < 2038 \<and> 1 \<le> m \<and> m \<le> 12 \<and> 1 \<le> d \<and> d \<le> month_lengths y ! (m - 1)"

definition unix_time :: "int \<Rightarrow> nat \<Rightarrow> int \<Rightarrow> int \<Rightarrow> int \<Rightarrow> int \<Rightarrow> int" where
  "unix_time y m d hh mm ss = 86400 * (days_before_year y + days_before_month y m + d - 1) + 3600 * hh + 60 * mm + ss"

lemma wrap32_absorb [simp]: "wrap32 (wrap32 a + b) = wrap32 (a + b)"
  unfolding wrap32_def by (metis signed_take_bit_add signed_take_bit_signed_take_bit min.idem)

lemma wrap32_id: "- (2 ^ 31) \<le> x \<Longrightarrow> x < 2 ^ 31 \<Longrightarrow> wrap32 x = x"
  unfolding wrap32_def by (rule signed_take_bit_int_eq_self) auto

lemma days_before_year_next: "1970 \<le> y \<Longrightarrow> days_before_year (y + 1) = days_before_year y + (if leap y then 366 else 365)"
proof -
  assume "1970 \<le> y"
  then have "{1970..<y + 1} = insert y {1970..<y}" by auto
  then show ?thesis by (simp add: days_before_year_def)
qed

lemma std_years_sum: "std_years years (wrap32 t) = wrap32 (t + 86400 * days_before_year (years + 1))"
proof (induction "nat (years - 1969)" arbitrary: years t)
  case 0
  then show ?case by (simp add: std_years.simps days_before_year_def)
next
  case (Suc n)
  then have y: "1969 < years" "n = nat (years - 1 - 1969)" by auto
  let ?d = "if leap years then 366 else 365 :: int"
  have "std_years years (wrap32 t) = std_years (years - 1) (wrap32 (t + 86400 * ?d))"
    using y by (subst std_years.simps) (simp add: leap_def Let_def add.assoc)
  also have "\<dots> = wrap32 (t + 86400 * ?d + 86400 * days_before_year (years - 1 + 1))"
    by (rule Suc.hyps(1) [OF y(2)])
  finally show ?case using days_before_year_next [of years] y by (simp add: algebra_simps split: if_splits)
qed

lemma leap_window: "1970 \<le> y \<Longrightarrow> y < 2100 \<Longrightarrow> leap y \<longleftrightarrow> y mod 4 = 0"
proof
  assume r: "1970 \<le> y" "y < 2100" and "y mod 4 = 0"
  have "y = 2000 \<or> y mod 100 \<noteq> 0" using r by presburger
  with \<open>y mod 4 = 0\<close> show "leap y" by (auto simp: leap_def)
qed (simp add: leap_def)

lemma days_before_year_closed:
  "1970 \<le> y \<Longrightarrow> y \<le> 2100 \<Longrightarrow> days_before_year y = 365 * (y - 1970) + (y - 1969) div 4"
proof (induction "nat (y - 1970)" arbitrary: y)
  case 0
  then have "y = 1970" by simp
  then show ?case by (simp add: days_before_year_def)
next
  case (Suc n)
  then have y: "n = nat (y - 1 - 1970)" "1970 \<le> y - 1" "y - 1 < 2100" by auto
  have IH: "days_before_year (y - 1) = 365 * (y - 1 - 1970) + (y - 1 - 1969) div 4"
    by (rule Suc.hyps(1) [OF y(1)]) (use y in auto)
  have "days_before_year y = days_before_year (y - 1) + (if leap (y - 1) then 366 else 365)"
    using days_before_year_next [OF y(2)] by simp
  moreover have "(y - 1969) div 4 = (y - 1 - 1969) div 4 + (if (y - 1) mod 4 = 0 then 1 else 0)" by presburger
  ultimately show ?case using IH leap_window [OF y(2,3)] by simp
qed

lemma month_cases:
  assumes "1 \<le> (m :: nat)" "m \<le> 12"
  obtains "m = 1" | "m = 2" | "m = 3" | "m = 4" | "m = 5" | "m = 6" | "m = 7" | "m = 8" | "m = 9" | "m = 10" | "m = 11" | "m = 12"
proof -
  have "m = 1 \<or> m = 2 \<or> m = 3 \<or> m = 4 \<or> m = 5 \<or> m = 6 \<or> m = 7 \<or> m = 8 \<or> m = 9 \<or> m = 10 \<or> m = 11 \<or> m = 12"
    using assms by presburger
  then show thesis using that by blast
qed

lemma std_months_sum:
  assumes "1 \<le> unat month" "unat month \<le> 12"
    "unat month \<le> 2 \<or> (unat year mod 4 = 0 \<and> (unat year mod 100 \<noteq> 0 \<or> unat year mod 400 = 0) \<longleftrightarrow> leap y)"
  shows "std_months (month - 1) year (wrap32 t) = wrap32 (t + 86400 * days_before_month y (unat month))"
proof -
  have u: "unat (month - 1) = unat month - 1" using assms(1) by (subst unat_sub) (auto simp: word_le_nat_alt)
  from assms(1,2) show ?thesis
    by (cases rule: month_cases)
      (use assms(3) in \<open>simp_all add: std_months_def case_month_def u days_before_month_def month_lengths_def add.assoc Let_def\<close>)
qed

lemma day_of_year_bounds:
  assumes "valid_date y m d"
  shows "0 \<le> days_before_month y m + d - 1" "days_before_month y m + d - 1 < (if leap y then 366 else 365)"
proof -
  have m: "1 \<le> m" "m \<le> 12" using assms by (auto simp: valid_date_def)
  from m assms show "0 \<le> days_before_month y m + d - 1"
    by (cases rule: month_cases) (simp_all add: valid_date_def days_before_month_def month_lengths_def)
  from m assms show "days_before_month y m + d - 1 < (if leap y then 366 else 365)"
    by (cases rule: month_cases) (simp_all add: valid_date_def days_before_month_def month_lengths_def split: if_splits)
qed

lemma unix_time_bounds:
  assumes "valid_date y m d" "0 \<le> hh" "hh < 24" "0 \<le> mm" "mm < 60" "0 \<le> ss" "ss < 60"
  shows "0 \<le> unix_time y m d hh mm ss" "unix_time y m d hh mm ss < 2 ^ 31"
proof -
  have y: "1970 \<le> y" "y < 2038" using assms(1) by (auto simp: valid_date_def)
  have "days_before_year y = 365 * (y - 1970) + (y - 1969) div 4" by (rule days_before_year_closed) (use y in auto)
  then have "0 \<le> days_before_year y" "days_before_year y \<le> 24472" using y by auto
  moreover have "days_before_month y m + d - 1 \<le> 365" "0 \<le> days_before_month y m + d - 1"
    using day_of_year_bounds [OF assms(1)] by (auto split: if_splits)
  ultimately show "0 \<le> unix_time y m d hh mm ss" "unix_time y m d hh mm ss < 2 ^ 31"
    using assms by (simp_all add: unix_time_def)
qed

text \<open>The date fields as the kernel's bytes: years count from 1900. The leap test of the code looks at the
  offset, so it misses that 2000 is a leap year.\<close>

definition date_bytes :: "u8 \<Rightarrow> u8 \<Rightarrow> u8 \<Rightarrow> u8 \<Rightarrow> u8 \<Rightarrow> u8 \<Rightarrow> bool" where
  "date_bytes ss mm hh d m y \<longleftrightarrow> valid_date (1900 + uint y) (unat m) (uint d) \<and> hh < 24 \<and> mm < 60 \<and> ss < 60"

lemma date_bytes_bounds:
  assumes "date_bytes ss mm hh d m y"
  shows "valid_date (1900 + uint y) (unat m) (uint d)" "uint hh < 24" "uint mm < 60" "uint ss < 60"
  using assms by (auto simp: date_bytes_def word_less_def)

lemma std_time_unix:
  assumes "date_bytes ss mm hh d m y" "y \<noteq> 100 \<or> m \<le> 2"
  shows "convert_to_std_time ss mm hh d m y = unix_time (1900 + uint y) (unat m) (uint d) (uint hh) (uint mm) (uint ss)"
proof -
  note b = date_bytes_bounds [OF assms(1)]
  let ?t = "uint ss + 60 * uint mm + 3600 * uint hh + 86400 * (uint d - 1)" let ?y = "1900 + uint y"
  have y: "1970 \<le> ?y" "?y < 2038" "1 \<le> unat m" "unat m \<le> 12" using b(1) by (auto simp: valid_date_def)
  have uy: "uint y = int (unat y)" by simp
  have leap: "unat m \<le> 2 \<or> (unat y mod 4 = 0 \<and> (unat y mod 100 \<noteq> 0 \<or> unat y mod 400 = 0) \<longleftrightarrow> leap ?y)"
  proof (cases "unat m \<le> 2")
    case False
    then have "y \<noteq> 100" using assms(2) by (auto simp: word_le_nat_alt)
    then have "unat y \<noteq> 100" by (simp add: word_unat_eq_iff)
    moreover have r: "70 \<le> unat y" "unat y < 138" using y(1,2) uy by linarith+
    ultimately have "unat y mod 100 \<noteq> 0" by presburger
    moreover have "leap ?y \<longleftrightarrow> ?y mod 4 = 0" by (rule leap_window) (use y in auto)
    moreover have "?y mod 4 = 0 \<longleftrightarrow> unat y mod 4 = 0" unfolding uy by presburger
    ultimately show ?thesis by simp
  qed simp
  have "convert_to_std_time ss mm hh d m y = wrap32 (?t + 86400 * days_before_month ?y (unat m) + 86400 * days_before_year ?y)"
    using std_months_sum [OF y(3,4) leap] by (simp add: convert_to_std_time_def std_years_sum)
  also have "\<dots> = wrap32 (unix_time ?y (unat m) (uint d) (uint hh) (uint mm) (uint ss))"
    by (simp add: unix_time_def algebra_simps)
  also have "\<dots> = unix_time ?y (unat m) (uint d) (uint hh) (uint mm) (uint ss)"
    by (rule wrap32_id) (use unix_time_bounds [OF b(1), of "uint hh" "uint mm" "uint ss"] b in auto)
  finally show ?thesis .
qed

lemma month_loop_finds:
  assumes "0 \<le> t" "t < monthdays ! (k + j)" "k + j < 12"
  shows "month_loop (sum_list (take j (drop k monthdays)) + t) k = Some (t, k + j)"
  using assms
proof (induction j arbitrary: k)
  case 0
  then show ?case by (simp add: month_loop.simps)
next
  case (Suc j)
  have l: "length monthdays = 12" by (simp add: monthdays_def)
  have pos: "\<forall>x\<in>set (drop (Suc k) monthdays). 0 \<le> x"
    by (auto dest!: in_set_dropD simp: monthdays_def)
  have dr: "drop k monthdays = monthdays ! k # drop (Suc k) monthdays"
    using Suc.prems l by (simp add: Cons_nth_drop_Suc)
  have "0 \<le> sum_list (take j (drop (Suc k) monthdays))"
    by (rule sum_list_nonneg) (use pos in \<open>auto dest: in_set_takeD\<close>)
  moreover have "month_loop (sum_list (take j (drop (Suc k) monthdays)) + t) (Suc k) = Some (t, Suc k + j)"
    using Suc.prems by (intro Suc.IH) auto
  ultimately show ?case using Suc.prems by (subst month_loop.simps) (simp add: dr)
qed

lemma sdiv_smod_split:
  assumes "0 \<le> x" "0 \<le> r" "r < (c :: int)"
  shows "(c * x + r) smod c = r" "(c * x + r) sdiv c = x"
proof -
  have d: "(c * x + r) mod c = r" "(c * x + r) div c = x" using assms by auto
  have "0 \<le> c * x + r" using assms by simp
  then have "\<bar>c * x + r\<bar> = c * x + r" "c * x + r = 0 \<or> sgn (c * x + r) = 1" by (auto simp: sgn_if)
  moreover have "c * x + r = 0 \<Longrightarrow> r = 0 \<and> x = 0" using d by auto
  ultimately show "(c * x + r) smod c = r" "(c * x + r) sdiv c = x"
    using assms d by (auto simp: signed_modulo_int_def signed_divide_int_def)
qed

lemma split_seconds:
  assumes "0 \<le> D" "0 \<le> hh" "hh < 24" "0 \<le> mm" "mm < 60" "0 \<le> ss" "ss < (60 :: int)"
  defines "t \<equiv> 86400 * D + 3600 * hh + 60 * mm + ss"
  shows "t smod 60 = ss" "t sdiv 60 smod 60 = mm" "t sdiv 60 sdiv 60 smod 24 = hh" "t sdiv 60 sdiv 60 sdiv 24 = D"
proof -
  have t: "t = 60 * (60 * (24 * D + hh) + mm) + ss" by (simp add: t_def algebra_simps)
  have pos: "0 \<le> 24 * D + hh" using assms by simp
  have q1: "t smod 60 = ss" "t sdiv 60 = 60 * (24 * D + hh) + mm"
    using assms pos unfolding t by (intro sdiv_smod_split; simp)+
  have q2: "(60 * (24 * D + hh) + mm) smod 60 = mm" "(60 * (24 * D + hh) + mm) sdiv 60 = 24 * D + hh"
    using assms pos by (intro sdiv_smod_split; simp)+
  have q3: "(24 * D + hh) smod 24 = hh" "(24 * D + hh) sdiv 24 = D"
    using assms by (intro sdiv_smod_split; simp)+
  show "t smod 60 = ss" "t sdiv 60 smod 60 = mm" "t sdiv 60 sdiv 60 smod 24 = hh" "t sdiv 60 sdiv 60 sdiv 24 = D"
    using q1 q2 q3 by simp_all
qed

text \<open>The four-year cycle of \<^verbatim>\<open>convert_to_readable_time\<close>, which starts with a leap year.\<close>

lemma year_cycle:
  assumes "70 \<le> y" "y < (200 :: int)"
  shows "days_before_year (1900 + y) + 25568 = 1461 * (y div 4) + (if y mod 4 = 0 then 0 else 365 * (y mod 4) + 1)"
proof -
  have "days_before_year (1900 + y) = 365 * (y - 70) + (y - 69) div 4"
    using days_before_year_closed [of "1900 + y"] assms by simp
  moreover have "(y - 69) div 4 = (if y mod 4 = 0 then y div 4 - 18 else y div 4 - 17)" by presburger
  moreover have "365 * y = 1460 * (y div 4) + 365 * (y mod 4)" by presburger
  ultimately show ?thesis by (auto split: if_splits)
qed

lemma and_3: "(w :: u8) AND 3 = of_nat (unat w mod 4)"
proof -
  have "w AND 3 = w AND mask 2" by (simp add: mask_eq_exp_minus_1)
  then show ?thesis by (simp add: take_bit_eq_mask [symmetric] take_bit_eq_mod word_unat_eq_iff unat_mod_distrib unat_of_nat)
qed

lemma month_of_day:
  assumes "valid_date y m d"
  shows "month_loop (let t = days_before_month y m + d - 1 in if \<not> leap y \<and> 59 \<le> t then t + 1 else t) 0 = Some (d - 1, m - 1)"
proof -
  have m: "1 \<le> m" "m \<le> 12" using assms by (auto simp: valid_date_def)
  have d: "1 \<le> d" "d \<le> month_lengths y ! (m - 1)" using assms by (auto simp: valid_date_def)
  have "month_loop (sum_list (take (m - 1) (drop 0 monthdays)) + (d - 1)) 0 = Some (d - 1, 0 + (m - 1))"
  proof (rule month_loop_finds)
    from m d show "d - 1 < monthdays ! (0 + (m - 1))"
      by (cases rule: month_cases) (auto simp: monthdays_def month_lengths_def split: if_splits)
  qed (use m d in auto)
  moreover from m d have "(let t = days_before_month y m + d - 1 in if \<not> leap y \<and> 59 \<le> t then t + 1 else t) =
      sum_list (take (m - 1) monthdays) + (d - 1)"
    by (cases rule: month_cases) (simp_all add: monthdays_def days_before_month_def month_lengths_def Let_def split: if_splits)
  ultimately show ?thesis by simp
qed

lemma readable_unix:
  assumes "70 \<le> y" "y < 138" "valid_date (1900 + y) m d" "0 \<le> hh" "hh < 24" "0 \<le> mm" "mm < 60" "0 \<le> ss" "ss < 60"
  shows "convert_to_readable_time (unix_time (1900 + y) m d hh mm ss) =
    Some (word_of_int ss, word_of_int mm, word_of_int hh, word_of_int d, of_nat m, word_of_int y)"
proof -
  define t where "t = days_before_month (1900 + y) m + d - 1"
  define q where "q = y div 4"
  define k where "k = y mod 4"
  have yqk: "y = 4 * q + k" "0 \<le> k" "k < 4" "17 \<le> q" using assms(1) by (auto simp: q_def k_def)
  have leap: "leap (1900 + y) \<longleftrightarrow> k = 0"
  proof -
    have "leap (1900 + y) \<longleftrightarrow> (1900 + y) mod 4 = 0" by (rule leap_window) (use assms in auto)
    also have "(1900 + y) mod 4 = y mod 4" by presburger
    finally show ?thesis by (simp add: k_def)
  qed
  have t: "0 \<le> t" "t < (if k = 0 then 366 else 365)"
    using day_of_year_bounds [OF assms(3)] by (simp_all add: t_def leap)
  have m: "1 \<le> m" using assms(3) by (simp add: valid_date_def)
  have D: "days_before_year (1900 + y) + t + 25568 = 1461 * q + ((if k = 0 then 0 else 365 * k + 1) + t)"
    using year_cycle [of y] assms(1,2) by (simp add: q_def k_def)
  let ?T = "days_before_year (1900 + y) + t + 25568" let ?r = "(if k = 0 then 0 else 365 * k + 1) + t"
  have r: "0 \<le> ?r" "?r < 1461" using t yqk by (auto split: if_splits)
  have T: "?T sdiv 1461 = q" "?T smod 1461 = ?r"
    unfolding D using r yqk by (intro sdiv_smod_split; simp)+
  have b: "365 < ?r \<longleftrightarrow> k \<noteq> 0" using t yqk by (auto split: if_splits)
  have b': "(?r - 1) sdiv 365 = k" "(?r - 1) smod 365 = t" if "k \<noteq> 0"
    using that t yqk sdiv_smod_split [of k t 365] by auto
  have yr: "word_of_int (push_bit 2 q) + word_of_int k = (word_of_int y :: u8)"
    unfolding yqk(1) by (simp add: push_bit_eq_mult mult.commute)
  have "unat (word_of_int y :: u8) = nat y" using assms(1,2) by (simp add: unsigned_of_int take_bit_eq_mod)
  then have "(word_of_int y :: u8) AND 3 = of_nat (nat y mod 4)" by (simp add: and_3)
  moreover have "nat y mod 4 = nat k" using assms(1) by (simp add: k_def nat_mod_distrib)
  moreover have "(of_nat (nat k) :: u8) = 0 \<longleftrightarrow> k = 0"
    using yqk(2,3) by (auto simp: word_unat_eq_iff unsigned_of_int take_bit_eq_mod)
  ultimately have a3: "(word_of_int y :: u8) AND 3 \<noteq> 0 \<longleftrightarrow> k \<noteq> 0" by simp
  have unix: "unix_time (1900 + y) m d hh mm ss = 86400 * (days_before_year (1900 + y) + t) + 3600 * hh + 60 * mm + ss"
    by (simp add: unix_time_def t_def algebra_simps)
  have pos: "0 \<le> days_before_year (1900 + y) + t"
    using days_before_year_closed [of "1900 + y"] assms(1,2) t by auto
  define X where "X = unix_time (1900 + y) m d hh mm ss"
  have sp: "X smod 60 = ss" "X sdiv 60 smod 60 = mm" "X sdiv 60 sdiv 60 smod 24 = hh"
    "X sdiv 60 sdiv 60 sdiv 24 = days_before_year (1900 + y) + t"
    unfolding X_def unix by (rule split_seconds [OF pos assms(4-9)])+
  have ml: "month_loop (if k \<noteq> 0 \<and> 59 \<le> t then t + 1 else t) 0 = Some (d - 1, m - 1)"
    using month_of_day [OF assms(3)] unfolding Let_def leap t_def .
  have mm: "of_nat (m - 1) + 1 = (of_nat m :: u8)" using m by (simp add: of_nat_diff)
  show ?thesis
  proof (cases "k = 0")
    case True
    then show ?thesis using ml mm yr a3 b T
      unfolding X_def [symmetric] convert_to_readable_time_def by (simp add: Let_def sp)
  next
    case False
    then show ?thesis using ml mm yr a3 b b' T
      unfolding X_def [symmetric] convert_to_readable_time_def by (simp add: Let_def sp)
  qed
qed

text \<open>C16: \<^verbatim>\<open>convert_to_std_time\<close> gives the POSIX time of every date from 1970 to 2037 in the Gregorian calendar, except
  for the dates of 2000 after February, whose leap day the code forgets; no intermediate sum overflows.\<close>

theorem convert_to_std_time_posix:
  assumes "date_bytes ss mm hh d m y" "y \<noteq> 100 \<or> m \<le> 2"
  shows "convert_to_std_time ss mm hh d m y = unix_time (1900 + uint y) (unat m) (uint d) (uint hh) (uint mm) (uint ss)"
  using assms by (rule std_time_unix)

theorem convert_to_std_time_posix_witness:
  "convert_to_std_time 5 4 3 29 2 116 = unix_time (1900 + uint (116 :: u8)) (unat (2 :: u8)) (uint (29 :: u8)) (uint (3 :: u8)) (uint (4 :: u8)) (uint (5 :: u8))"
  by (rule convert_to_std_time_posix) (simp_all add: date_bytes_def valid_date_def month_lengths_def leap_def)



text \<open>On the dates of 2000 after February \<^verbatim>\<open>convert_to_std_time\<close> is one day short.\<close>

theorem year_2000_loses_leap_day:
  "convert_to_std_time 0 0 0 1 3 100 = unix_time 2000 3 1 0 0 0 - 86400"
proof -
  have z: "wrap32 0 = 0" by (simp add: wrap32_def)
  have "std_months (3 - 1) 100 0 = wrap32 (86400 * 59)"
    by (simp add: std_months_def case_month_def Let_def)
  then have "convert_to_std_time 0 0 0 1 3 100 = wrap32 (86400 * 59 + 86400 * days_before_year 2000)"
    by (simp add: convert_to_std_time_def std_years_sum z)
  then show ?thesis
    by (simp add: unix_time_def days_before_year_closed days_before_month_def month_lengths_def leap_def wrap32_id)
qed

end
