(* ===== verification/VK_Queue.thy ===== *)
theory VK_Queue
  imports VK_Kheap
begin

section \<open>Queues, stacks and lists (util/data_structs.c)\<close>

text \<open>
  The structures live in byte memory, as the C structs lay them out. \<^verbatim>\<open>front\<close>, \<^verbatim>\<open>rear\<close> and \<^verbatim>\<open>buffer\<close> are \<^verbatim>\<open>void**\<close>, so
  adding \<^verbatim>\<open>sizeof(void*)\<close> to them moves them by 16 bytes: the elements of a queue are 16 bytes apart, in a
  buffer of 4 bytes per element. The locale \<open>fifo\<close> is what the scheduler relies on; the code meets it as long as
  the elements stay inside the buffer.
\<close>

subsection \<open>Queues\<close>

definition q_front :: "mem \<Rightarrow> u32 \<Rightarrow> u32" where "q_front m q = load32 m q"
definition q_rear :: "mem \<Rightarrow> u32 \<Rightarrow> u32" where "q_rear m q = load32 m (q + 4)"
definition q_size :: "mem \<Rightarrow> u32 \<Rightarrow> u32" where "q_size m q = load32 m (q + 8)"

definition queue_init :: "(u32 \<Rightarrow> 'a kheap_scheme \<Rightarrow> (u32 \<times> 'a kheap_scheme) res) \<Rightarrow> u32 \<Rightarrow> 'a kheap_scheme \<Rightarrow> (u32 \<times> 'a kheap_scheme) res" where
  "queue_init malloc sz s =
     bindR (malloc 12 s) (\<lambda>(tr, s).
     bindR (malloc (sz * 4) s) (\<lambda>(front, s).
     let m = store32 (kmem s) tr front;
         m = store32 m (tr + 4) (q_front m tr - 4 * 4);
         m = store32 m (tr + 8) sz
     in Inr (tr, s\<lparr>kmem := m\<rparr>)))"

definition queue_add :: "(u32 \<Rightarrow> u32 \<Rightarrow> 'a kheap_scheme \<Rightarrow> (u32 \<times> 'a kheap_scheme) res) \<Rightarrow> u32 \<Rightarrow> u32 \<Rightarrow> 'a kheap_scheme \<Rightarrow> 'a kheap_scheme res" where
  "queue_add realloc queue element s =
     bindR (if q_rear (kmem s) queue = q_front (kmem s) queue + q_size (kmem s) queue * 4 * 4 then
              bindR (realloc (q_front (kmem s) queue) (q_size (kmem s) queue * 4 * 2) s) (\<lambda>(p, s).
              let m = store32 (kmem s) queue p;
                  m = store32 m (queue + 8) (q_size m queue * 2)
              in Inr (s\<lparr>kmem := m\<rparr>))
            else Inr s) (\<lambda>s.
     let m = store32 (kmem s) (queue + 4) (q_rear (kmem s) queue + 4 * 4);
         m = store32 m (q_rear m queue) element
     in Inr (s\<lparr>kmem := m\<rparr>))"

definition queue_take :: "u32 \<Rightarrow> 'a kheap_scheme \<Rightarrow> u32 \<times> 'a kheap_scheme" where
  "queue_take queue s =
     (if q_rear (kmem s) queue < q_front (kmem s) queue then (0, s)
      else
        let tr = load32 (kmem s) (q_front (kmem s) queue);
            m = memcpy (kmem s) (q_front (kmem s) queue) (q_front (kmem s) queue + 4 * 4) (unat (4 * (q_size (kmem s) queue - 1)));
            m = store32 m (queue + 4) (q_rear m queue - 4 * 4)
        in (tr, s\<lparr>kmem := m\<rparr>))"

text \<open>The index of the first of the \<open>n\<close> cells from \<open>i\<close> on that holds the element, or the end.\<close>

fun find_cell :: "mem \<Rightarrow> u32 \<Rightarrow> u32 \<Rightarrow> nat \<Rightarrow> u32 \<Rightarrow> u32" where
  "find_cell m base element 0 i = i"
| "find_cell m base element (Suc n) i =
     (if load32 m (base + 4 * (4 * i)) = element then i else find_cell m base element n (i + 1))"

definition queue_remove :: "u32 \<Rightarrow> u32 \<Rightarrow> 'a kheap_scheme \<Rightarrow> 'a kheap_scheme" where
  "queue_remove queue element s =
     (if q_rear (kmem s) queue < q_front (kmem s) queue then s
      else
        let front = q_front (kmem s) queue; sz = q_size (kmem s) queue;
            i = find_cell (kmem s) front element (unat sz) 0;
            m = memcpy (kmem s) front (front + 4 * (4 * i)) (unat (4 * (sz - 1 - i)));
            m = store32 m (queue + 4) (q_rear m queue - 4 * 4)
        in s\<lparr>kmem := m\<rparr>)"

subsection \<open>Stacks\<close>

definition st_buffer :: "mem \<Rightarrow> u32 \<Rightarrow> u32" where "st_buffer m st = load32 m st"
definition st_count :: "mem \<Rightarrow> u32 \<Rightarrow> u32" where "st_count m st = load32 m (st + 4)"
definition st_buffer_size :: "mem \<Rightarrow> u32 \<Rightarrow> u32" where "st_buffer_size m st = load32 m (st + 8)"

definition stack_init :: "(u32 \<Rightarrow> 'a kheap_scheme \<Rightarrow> (u32 \<times> 'a kheap_scheme) res) \<Rightarrow> u32 \<Rightarrow> 'a kheap_scheme \<Rightarrow> (u32 \<times> 'a kheap_scheme) res" where
  "stack_init malloc sz s =
     bindR (malloc 12 s) (\<lambda>(tr, s).
     let s = s\<lparr>kmem := store32 (kmem s) (tr + 8) sz\<rparr> in
     bindR (malloc (4 * sz) s) (\<lambda>(buf, s).
     let m = store32 (kmem s) tr buf;
         m = store32 m (tr + 4) 0
     in Inr (tr, s\<lparr>kmem := m\<rparr>)))"

text \<open>\<^verbatim>\<open>(void**) stack->buffer_size + n*sizeof(void*)\<close>: the cell address is computed from the size.\<close>

definition st_cell :: "mem \<Rightarrow> u32 \<Rightarrow> u32 \<Rightarrow> u32" where
  "st_cell m stack n = st_buffer_size m stack + 4 * (n * 4)"

definition stack_add :: "(u32 \<Rightarrow> u32 \<Rightarrow> 'a kheap_scheme \<Rightarrow> (u32 \<times> 'a kheap_scheme) res) \<Rightarrow> u32 \<Rightarrow> u32 \<Rightarrow> 'a kheap_scheme \<Rightarrow> 'a kheap_scheme res" where
  "stack_add realloc stack element s =
     bindR (if st_buffer_size (kmem s) stack \<le> st_count (kmem s) stack * 4 then
              let s = s\<lparr>kmem := store32 (kmem s) (stack + 8) (st_buffer_size (kmem s) stack * 2)\<rparr> in
              bindR (realloc (st_buffer (kmem s) stack) (st_buffer_size (kmem s) stack * 4) s) (\<lambda>(p, s).
              Inr (s\<lparr>kmem := store32 (kmem s) stack p\<rparr>))
            else Inr s) (\<lambda>s.
     let m = store32 (kmem s) (st_cell (kmem s) stack (st_count (kmem s) stack)) element;
         m = store32 m (stack + 4) (st_count m stack + 1)
     in Inr (s\<lparr>kmem := m\<rparr>))"

definition stack_take :: "u32 \<Rightarrow> 'a kheap_scheme \<Rightarrow> u32 \<times> 'a kheap_scheme" where
  "stack_take stack s =
     (if st_count (kmem s) stack = 0 then (0, s)
      else
        let tr = load32 (kmem s) (st_cell (kmem s) stack (st_count (kmem s) stack - 1))
        in (tr, s\<lparr>kmem := store32 (kmem s) (stack + 4) (st_count (kmem s) stack - 1)\<rparr>))"

definition stack_look :: "u32 \<Rightarrow> u32 \<Rightarrow> 'a kheap_scheme \<Rightarrow> u32" where
  "stack_look stack position s =
     (if st_count (kmem s) stack \<le> position then 0 else load32 (kmem s) (st_cell (kmem s) stack position))"

definition stack_remove :: "u32 \<Rightarrow> u32 \<Rightarrow> 'a kheap_scheme \<Rightarrow> 'a kheap_scheme" where
  "stack_remove stack element s =
     (if st_count (kmem s) stack = 0 then s
      else
        let buffer = st_buffer (kmem s) stack; count = st_count (kmem s) stack;
            i = find_cell (kmem s) buffer element (unat count) 0;
            m = memcpy (kmem s) buffer (buffer + 4 * (4 * i)) (unat (4 * (count - 1 - i)))
        in s\<lparr>kmem := store32 m (stack + 4) (st_count m stack - 1)\<rparr>)"

subsection \<open>Lists\<close>

definition le_element :: "mem \<Rightarrow> u32 \<Rightarrow> u32" where "le_element m l = load32 m l"
definition le_next :: "mem \<Rightarrow> u32 \<Rightarrow> u32" where "le_next m l = load32 m (l + 4)"

fun list_free_loop :: "(u32 \<Rightarrow> 'a kheap_scheme \<Rightarrow> 'a kheap_scheme res) \<Rightarrow> bool \<Rightarrow> nat \<Rightarrow> u32 \<Rightarrow> 'a kheap_scheme \<Rightarrow> 'a kheap_scheme res" where
  "list_free_loop free elements 0 list s = Inr s"
| "list_free_loop free elements (Suc n) list s =
     bindR (if elements \<and> le_element (kmem s) list \<noteq> 0 then free (le_element (kmem s) list) s else Inr s) (\<lambda>s.
     let next = le_next (kmem s) list in
     bindR (free list s) (\<lambda>s. if next = 0 then Inr s else list_free_loop free elements n next s))"

definition list_free :: "(u32 \<Rightarrow> 'a kheap_scheme \<Rightarrow> 'a kheap_scheme res) \<Rightarrow> u32 \<Rightarrow> u32 \<Rightarrow> 'a kheap_scheme \<Rightarrow> 'a kheap_scheme res" where
  "list_free free list list_size s =
     bindR (if list_size = 0 \<and> list \<noteq> 0 then free list s else Inr s) (\<lambda>s.
     list_free_loop free True (unat list_size) list s)"

definition list_free_eonly :: "(u32 \<Rightarrow> 'a kheap_scheme \<Rightarrow> 'a kheap_scheme res) \<Rightarrow> u32 \<Rightarrow> u32 \<Rightarrow> 'a kheap_scheme \<Rightarrow> 'a kheap_scheme res" where
  "list_free_eonly free list list_size s = list_free_loop free False (unat list_size) list s"

fun list_copy_loop :: "(u32 \<Rightarrow> 'a kheap_scheme \<Rightarrow> (u32 \<times> 'a kheap_scheme) res) \<Rightarrow> u32 \<Rightarrow> u32 \<Rightarrow> u32 \<Rightarrow> nat \<Rightarrow> u32 \<Rightarrow> 'a kheap_scheme
    \<Rightarrow> (u32 \<times> u32 \<times> 'a kheap_scheme) res" where
  "list_copy_loop malloc before dest src 0 element_size s = Inr (before, dest, s)"
| "list_copy_loop malloc before dest src (Suc n) element_size s =
     (if src = 0 then Inr (before, dest, s)
      else
        bindR (malloc element_size s) (\<lambda>(e, s).
        let m = store32 (kmem s) dest e;
            m = memcpy m (le_element m dest) (le_element m src) (unat element_size) in
        bindR (malloc 8 (s\<lparr>kmem := m\<rparr>)) (\<lambda>(nx, s).
        let m = store32 (kmem s) (dest + 4) nx in
        list_copy_loop malloc dest (le_next m dest) (le_next m src) n element_size (s\<lparr>kmem := m\<rparr>))))"

text \<open>With an empty source \<^verbatim>\<open>before\<close> is still the null pointer when \<^verbatim>\<open>before->next\<close> is written.\<close>

definition list_copy :: "(u32 \<Rightarrow> 'a kheap_scheme \<Rightarrow> (u32 \<times> 'a kheap_scheme) res) \<Rightarrow> (u32 \<Rightarrow> 'a kheap_scheme \<Rightarrow> 'a kheap_scheme res)
    \<Rightarrow> u32 \<Rightarrow> u32 \<Rightarrow> u32 \<Rightarrow> u32 \<Rightarrow> 'a kheap_scheme \<Rightarrow> 'a kheap_scheme res" where
  "list_copy malloc free dest src sz element_size s =
     bindR (list_copy_loop malloc 0 dest src (unat sz) element_size s) (\<lambda>(before, dest, s).
     if before = 0 then Inl BadPtr
     else free dest (s\<lparr>kmem := store32 (kmem s) (before + 4) 0\<rparr>))"

subsection \<open>A queue inside its buffer\<close>

text \<open>
  \<open>queue_at m q xs\<close>: the queue at \<open>q\<close> holds \<open>xs\<close>, 16 bytes apart, all inside the buffer of four bytes per
  element, which is apart from the struct.
\<close>

definition queue_at :: "mem \<Rightarrow> u32 \<Rightarrow> u32 list \<Rightarrow> bool" where
  "queue_at m q xs \<longleftrightarrow> 16 \<le> unat (q_front m q) \<and> unat (q_size m q) + 1 < 2 ^ 28 \<and>
     unat (q_front m q) + 4 * unat (q_size m q) + 16 \<le> 2 ^ 32 \<and> unat q + 12 \<le> 2 ^ 32 \<and>
     (unat q + 12 \<le> unat (q_front m q) \<or> unat (q_front m q) + 4 * unat (q_size m q) \<le> unat q) \<and>
     4 * length xs \<le> unat (q_size m q) + 3 \<and>
     q_rear m q = q_front m q + 16 * of_nat (length xs) - 16 \<and>
     (\<forall>i. i < length xs \<longrightarrow> load32 m (q_front m q + 16 * of_nat i) = xs ! i)"

definition queue_capacity :: "mem \<Rightarrow> u32 \<Rightarrow> nat" where
  "queue_capacity m q = (unat (q_size m q) + 3) div 4"

text \<open>Nothing changes but the \<^verbatim>\<open>rear\<close> field and the buffer.\<close>

definition queue_frame :: "mem \<Rightarrow> u32 \<Rightarrow> mem \<Rightarrow> bool" where
  "queue_frame m q m' \<longleftrightarrow> q_front m' q = q_front m q \<and> q_size m' q = q_size m q \<and>
     (\<forall>x. m' x \<noteq> m x \<longrightarrow> unat q + 4 \<le> unat x \<and> unat x < unat q + 8 \<or>
        unat (q_front m q) \<le> unat x \<and> unat x < unat (q_front m q) + 4 * unat (q_size m q))"

lemma unat_add_small: "unat (a :: u32) + k < 2 ^ 32 \<Longrightarrow> unat (a + of_nat k) = unat a + k"
  by (subst unat_plus_small) (simp_all add: unat_of_nat)

lemma store32_changes:
  assumes "unat a + 4 \<le> 2 ^ 32" "store32 m a v x \<noteq> m x"
  shows "unat a \<le> unat x \<and> unat x < unat a + 4"
proof (rule ccontr)
  assume n: "\<not> ?thesis"
  have "same_on (unat x) (Suc (unat x)) m (store32 m a v)" by (rule store32_same_on) (use n assms(1) in auto)
  with assms(2) show False by (simp add: same_on_def)
qed

lemma queue_fields:
  assumes "unat (q :: u32) + 12 \<le> 2 ^ 32"
  shows "unat (q + 4) = unat q + 4" "unat (q + 8) = unat q + 8"
  using assms unat_add_small [of q 4] unat_add_small [of q 8] by auto

lemma queue_cell:
  assumes "queue_at m q xs" "4 * i + 1 \<le> unat (q_size m q)"
  shows "unat (q_front m q + 16 * of_nat i) = unat (q_front m q) + 16 * i"
  using assms unat_add_small [of "q_front m q" "16 * i"] by (simp add: queue_at_def)

lemma queue_not_full:
  assumes "queue_at m q xs" "length xs \<le> unat (q_size m q)"
  shows "q_rear m q \<noteq> q_front m q + q_size m q * 4 * 4"
proof
  let ?n = "q_size m q" let ?k = "length xs"
  note q = assms(1) [unfolded queue_at_def]
  assume "q_rear m q = q_front m q + ?n * 4 * 4"
  then have "(16 * of_nat (Suc (unat ?n)) :: u32) = 16 * of_nat ?k" using q by (simp add: algebra_simps)
  then have "(of_nat (16 * Suc (unat ?n)) :: u32) = of_nat (16 * ?k)" by (simp only: of_nat_mult of_nat_numeral)
  then have "unat (of_nat (16 * Suc (unat ?n)) :: u32) = unat (of_nat (16 * ?k) :: u32)" by simp
  then have e: "16 * Suc (unat ?n) mod 2 ^ 32 = 16 * ?k mod 2 ^ 32" by (simp only: unat_of_nat len_num0 len_bit0 len_num1) simp
  have "16 * ?k < 2 ^ 32" "16 * Suc (unat ?n) < 2 ^ 32" using assms(2) q by auto
  with e assms(2) show False by (simp only: mod_less) auto
qed

lemma queue_add_at:
  assumes "queue_at (kmem s) q xs" "length xs < queue_capacity (kmem s) q"
  shows "\<exists>m'. queue_add realloc q e s = Inr (s\<lparr>kmem := m'\<rparr>) \<and> queue_at m' q (xs @ [e]) \<and> queue_frame (kmem s) q m'"
proof -
  let ?m = "kmem s" let ?f = "q_front ?m q" let ?n = "q_size ?m q" let ?k = "length xs"
  note q = assms(1) [unfolded queue_at_def]
  have room: "4 * ?k + 1 \<le> unat ?n" using assms(2) by (simp add: queue_capacity_def)
  have qf: "unat (q + 4) = unat q + 4" "unat (q + 8) = unat q + 8" using q by (auto intro: queue_fields)
  have notfull: "q_rear ?m q \<noteq> ?f + ?n * 4 * 4" using assms(1) room by (intro queue_not_full) auto
  let ?c = "?f + 16 * of_nat ?k" let ?m1 = "store32 ?m (q + 4) (q_rear ?m q + 4 * 4)" let ?m2 = "store32 ?m1 ?c e"
  have uc: "unat ?c = unat ?f + 16 * ?k" using room by (intro queue_cell [OF assms(1)]) simp
  have r: "q_rear ?m q + 4 * 4 = ?c" using q by simp
  have b: "unat ?c + 4 \<le> 2 ^ 32" "unat ?c + 4 \<le> unat q \<or> unat q + 12 \<le> unat ?c"
    using uc q room by auto
  have fl: "q_front ?m2 q = ?f" "q_size ?m2 q = ?n" "q_rear ?m1 q = ?c" "q_rear ?m2 q = ?c"
    using b q qf r by (auto simp: q_front_def q_size_def q_rear_def load32_store32_apart)
  have cell: "load32 ?m2 (?f + 16 * of_nat i) = (xs @ [e]) ! i" if "i < Suc ?k" for i
  proof -
    have ui: "unat (?f + 16 * of_nat i) = unat ?f + 16 * i" using that room by (intro queue_cell [OF assms(1)]) simp
    show ?thesis
    proof (cases "i = ?k")
      case False
      then have ik: "i < ?k" using that by simp
      have s2: "load32 ?m2 (?f + 16 * of_nat i) = load32 ?m1 (?f + 16 * of_nat i)"
        by (rule load32_store32_apart) (use ui uc ik b in auto)
      have s1: "load32 ?m1 (?f + 16 * of_nat i) = load32 ?m (?f + 16 * of_nat i)"
        by (rule load32_store32_apart) (use ui uc ik b q qf room in auto)
      show ?thesis using s1 s2 ik q by (simp add: nth_append)
    qed simp
  qed
  have "queue_at ?m2 q (xs @ [e])"
    unfolding queue_at_def fl using q room cell by (simp add: algebra_simps)
  moreover have "queue_frame ?m q ?m2"
  proof -
    have "unat q + 4 \<le> unat x \<and> unat x < unat q + 8 \<or> unat ?f \<le> unat x \<and> unat x < unat ?f + 4 * unat ?n" if "?m2 x \<noteq> ?m x" for x
    proof (cases "?m2 x = ?m1 x")
      case True
      then have "?m1 x \<noteq> ?m x" using that by simp
      then show ?thesis using store32_changes [of "q + 4" ?m "q_rear ?m q + 4 * 4" x] qf q by auto
    next
      case False
      then show ?thesis using store32_changes [of ?c ?m1 e x] b uc room by auto
    qed
    then show ?thesis unfolding queue_frame_def using fl(1,2) by blast
  qed
  moreover have "queue_add realloc q e s = Inr (s\<lparr>kmem := ?m2\<rparr>)"
    using notfull fl(3) by (simp add: queue_add_def Let_def)
  ultimately show ?thesis by blast
qed

lemma load32_cong:
  assumes "\<And>j. j < 4 \<Longrightarrow> m' (a + of_nat j) = m (b + of_nat j)"
  shows "load32 m' a = load32 m b"
  using assms [of 0] assms [of 1] assms [of 2] assms [of 3] by (simp add: load32_def)

lemma queue_take_empty: "queue_at (kmem s) q [] \<Longrightarrow> queue_take q s = (0, s)"
proof -
  assume a: "queue_at (kmem s) q []"
  have "unat (q_front (kmem s) q - 16) = unat (q_front (kmem s) q) - 16"
    using a by (subst unat_sub) (auto simp: queue_at_def word_le_nat_alt)
  then have "q_rear (kmem s) q < q_front (kmem s) q" using a by (auto simp: queue_at_def word_less_nat_alt)
  then show ?thesis by (simp add: queue_take_def)
qed

lemma queue_take_at:
  assumes "queue_at (kmem s) q (x # xs)"
  shows "\<exists>m'. queue_take q s = (x, s\<lparr>kmem := m'\<rparr>) \<and> queue_at m' q xs \<and> queue_frame (kmem s) q m'"
proof -
  let ?m = "kmem s" let ?f = "q_front ?m q" let ?n = "q_size ?m q" let ?k = "length xs"
  note q = assms [unfolded queue_at_def]
  have qf: "unat (q + 4) = unat q + 4" "unat (q + 8) = unat q + 8" using q by (auto intro: queue_fields)
  have n1: "1 \<le> unat ?n" using q by simp
  have un: "unat (4 * (?n - 1)) = 4 * (unat ?n - 1)"
  proof -
    have "unat (?n - 1) = unat ?n - 1" using n1 by (subst unat_sub) (auto simp: word_le_nat_alt)
    moreover have "unat (4 * (?n - 1)) = (4 * unat (?n - 1)) mod 2 ^ 32" by (subst unat_word_ariths) simp
    moreover have "4 * (unat ?n - 1) < 2 ^ 32" using q by auto
    ultimately show ?thesis by (simp only: mod_less)
  qed
  have ur: "unat (q_rear ?m q) = unat ?f + 16 * ?k" 
    using q queue_cell [OF assms, of ?k] by (simp add: algebra_simps)
  let ?N = "4 * (unat ?n - 1)" let ?m1 = "memcpy ?m ?f (?f + 4 * 4) ?N"
  have f16: "unat (?f + 4 * 4) = unat ?f + 16" using q unat_add_small [of ?f 16] by simp
  have out: "same_on lo hi ?m ?m1" if "hi \<le> unat ?f \<or> unat ?f + ?N \<le> lo" for lo hi
    by (rule memcpy_outside) (use that q in auto)
  have st: "load32 ?m1 q = ?f" "load32 ?m1 (q + 4) = q_rear ?m q" "load32 ?m1 (q + 8) = ?n"
  proof -
    have o: "same_on (unat q) (unat q + 12) ?m ?m1" using q n1 by (intro out) auto
    have "load32 ?m1 a = load32 ?m a" if "unat q \<le> unat a" "unat a + 4 \<le> unat q + 12" for a
      using that q by (intro load32_same_on [OF o]) auto
    then show "load32 ?m1 q = ?f" "load32 ?m1 (q + 4) = q_rear ?m q" "load32 ?m1 (q + 8) = ?n"
      using qf by (auto simp: q_front_def q_rear_def q_size_def)
  qed
  let ?m2 = "store32 ?m1 (q + 4) (q_rear ?m1 q - 4 * 4)"
  have fl: "q_front ?m2 q = ?f" "q_size ?m2 q = ?n" "q_rear ?m2 q = q_rear ?m q - 16"
    using st q qf by (auto simp: q_front_def q_size_def q_rear_def load32_store32_apart)
  have cell: "load32 ?m2 (?f + 16 * of_nat i) = xs ! i" if "i < ?k" for i
  proof -
    have b: "4 * i + 5 \<le> unat ?n" using that q by simp
    have ui: "unat (?f + 16 * of_nat i) = unat ?f + 16 * i" using b by (intro queue_cell [OF assms]) simp
    have "load32 ?m2 (?f + 16 * of_nat i) = load32 ?m1 (?f + 16 * of_nat i)"
      by (rule load32_store32_apart) (use ui b q qf in auto)
    also have "\<dots> = load32 ?m (?f + 16 * of_nat (Suc i))"
    proof (rule load32_cong)
      fix j :: nat assume "j < 4"
      then have "?m1 (?f + of_nat (16 * i + j)) = ?m (?f + 4 * 4 + of_nat (16 * i + j))"
        by (intro memcpy_copies) (use q b f16 in auto)
      then show "?m1 (?f + 16 * of_nat i + of_nat j) = ?m (?f + 16 * of_nat (Suc i) + of_nat j)"
        by (simp add: algebra_simps)
    qed
    finally show ?thesis using q that by (metis Suc_mono length_Cons nth_Cons_Suc)
  qed
  have "queue_at ?m2 q xs"
    unfolding queue_at_def fl using q cell by (simp add: algebra_simps)
  moreover have "queue_frame ?m q ?m2"
  proof -
    have "unat q + 4 \<le> unat y \<and> unat y < unat q + 8 \<or> unat ?f \<le> unat y \<and> unat y < unat ?f + 4 * unat ?n" if "?m2 y \<noteq> ?m y" for y
    proof (cases "?m2 y = ?m1 y")
      case True
      then have "\<not> (Suc (unat y) \<le> unat ?f \<or> unat ?f + ?N \<le> unat y)"
        using that out [of "Suc (unat y)" "unat y"] by (auto simp: same_on_def)
      then show ?thesis by auto
    next
      case False
      then show ?thesis using store32_changes [of "q + 4" ?m1 "q_rear ?m1 q - 4 * 4" y] qf q by auto
    qed
    then show ?thesis unfolding queue_frame_def using fl(1,2) by blast
  qed
  moreover have "\<not> q_rear ?m q < ?f" "load32 ?m ?f = x" using ur q by (auto simp: word_less_nat_alt)
  then have "queue_take q s = (x, s\<lparr>kmem := ?m2\<rparr>)" unfolding queue_take_def un Let_def by simp
  ultimately show ?thesis by blast
qed

subsection \<open>The interface of a queue\<close>

fun add_all :: "('q \<Rightarrow> 'e \<Rightarrow> 's \<Rightarrow> 's res) \<Rightarrow> 'q \<Rightarrow> 'e list \<Rightarrow> 's \<Rightarrow> 's res" where
  "add_all add q [] s = Inr s"
| "add_all add q (e # es) s = bindR (add q e s) (add_all add q es)"

fun take_n :: "('q \<Rightarrow> 's \<Rightarrow> 'e \<times> 's) \<Rightarrow> 'q \<Rightarrow> nat \<Rightarrow> 's \<Rightarrow> 'e list \<times> 's" where
  "take_n tk q 0 s = ([], s)"
| "take_n tk q (Suc n) s = (let (x, s) = tk q s; (xs, s) = take_n tk q n s in (x # xs, s))"

text \<open>What a reader and a writer of a queue rely on; a queue that is empty may block its reader.\<close>

locale channel =
  fixes isq :: "'s \<Rightarrow> 'q \<Rightarrow> 'e list \<Rightarrow> bool"
    and cap :: "'s \<Rightarrow> 'q \<Rightarrow> nat"
    and add :: "'q \<Rightarrow> 'e \<Rightarrow> 's \<Rightarrow> 's res"
    and tk :: "'q \<Rightarrow> 's \<Rightarrow> 'e \<times> 's"
  assumes take_head: "isq s q (x # xs) \<Longrightarrow> \<exists>s'. tk q s = (x, s') \<and> isq s' q xs \<and> cap s' q = cap s q"
    and add_last: "isq s q xs \<Longrightarrow> length xs < cap s q \<Longrightarrow>
      \<exists>s'. add q e s = Inr s' \<and> isq s' q (xs @ [e]) \<and> cap s' q = cap s q"
begin

lemma add_all_appends:
  "isq s q xs \<Longrightarrow> length xs + length es \<le> cap s q \<Longrightarrow>
    \<exists>s'. add_all add q es s = Inr s' \<and> isq s' q (xs @ es) \<and> cap s' q = cap s q"
proof (induction es arbitrary: xs s)
  case (Cons e es)
  then obtain s1 where s1: "add q e s = Inr s1" "isq s1 q (xs @ [e])" "cap s1 q = cap s q"
    using add_last [of s q xs e] by auto
  from Cons.IH [OF s1(2)] Cons.prems(2) s1 show ?case by auto
qed auto

lemma take_n_all:
  "isq s q xs \<Longrightarrow> \<exists>s'. take_n tk q (length xs) s = (xs, s') \<and> isq s' q [] \<and> cap s' q = cap s q"
proof (induction xs arbitrary: s)
  case (Cons x xs)
  from take_head [OF Cons.prems] obtain s1 where s1: "tk q s = (x, s1)" "isq s1 q xs" "cap s1 q = cap s q" by blast
  from Cons.IH [OF s1(2)] s1 show ?case by auto
qed auto

lemma in_order:
  assumes "isq s q xs" "length xs + length es \<le> cap s q"
  shows "\<exists>s1 s2. add_all add q es s = Inr s1 \<and> take_n tk q (length xs + length es) s1 = (xs @ es, s2) \<and> isq s2 q []"
proof -
  from add_all_appends [OF assms] obtain s1 where s1: "add_all add q es s = Inr s1" "isq s1 q (xs @ es)" by blast
  from take_n_all [OF s1(2)] obtain s2 where "take_n tk q (length xs + length es) s1 = (xs @ es, s2)" "isq s2 q []" by auto
  with s1 show ?thesis by blast
qed

end

text \<open>A queue whose reader gets a distinguished value when it is empty.\<close>

locale fifo = channel +
  fixes nothing :: 'b
  assumes take_empty: "isq s q [] \<Longrightarrow> tk q s = (nothing, s)"
begin

lemma first_in_first_out:
  assumes "isq s q xs" "length xs + length es \<le> cap s q"
  shows "\<exists>s1 s2. add_all add q es s = Inr s1 \<and> take_n tk q (length xs + length es) s1 = (xs @ es, s2) \<and> tk q s2 = (nothing, s2)"
  using in_order [OF assms] take_empty by blast

end

lemma queue_frame_capacity: "queue_frame m q m' \<Longrightarrow> queue_capacity m' q = queue_capacity m q"
  by (simp add: queue_frame_def queue_capacity_def)

interpretation qf: fifo "\<lambda>s. queue_at (kmem s)" "\<lambda>s. queue_capacity (kmem s)" "queue_add realloc" queue_take 0
proof
  show "queue_at (kmem s) q [] \<Longrightarrow> queue_take q s = (0, s)" for s :: "'a kheap_scheme" and q
    by (rule queue_take_empty)
  show "\<exists>s'. queue_take q s = (x, s') \<and> queue_at (kmem s') q xs \<and> queue_capacity (kmem s') q = queue_capacity (kmem s) q"
    if "queue_at (kmem s) q (x # xs)" for s :: "'a kheap_scheme" and q x xs
    using queue_take_at [OF that] queue_frame_capacity by fastforce
  show "\<exists>s'. queue_add realloc q e s = Inr s' \<and> queue_at (kmem s') q (xs @ [e]) \<and> queue_capacity (kmem s') q = queue_capacity (kmem s) q"
    if "queue_at (kmem s) q xs" "length xs < queue_capacity (kmem s) q" for s :: "'a kheap_scheme" and q xs e
    using queue_add_at [OF that] queue_frame_capacity by fastforce
qed

text \<open>C18: a queue of capacity \<^verbatim>\<open>size\<close> is first in, first out as long as it holds at most a quarter of that many elements
  (rounded up): adding elements and taking all gives the old and then the new ones in order, and then nothing.\<close>

theorem queue_first_in_first_out:
  assumes "queue_at (kmem s) q xs" "length xs + length es \<le> queue_capacity (kmem s) q"
  shows "\<exists>s1 s2. add_all (queue_add realloc) q es s = Inr s1 \<and>
    take_n queue_take q (length xs + length es) s1 = (xs @ es, s2) \<and> queue_take q s2 = (0, s2)"
  using assms by (rule qf.first_in_first_out)

text \<open>beyond that, the code does not look at the end of its buffer: with a queue that already holds as many elements
  as fit, \<^verbatim>\<open>queue_add\<close> writes the next one outside the buffer, and does not reallocate it.\<close>

theorem queue_add_overflows:
  assumes "queue_at (kmem s) q xs" "length xs = queue_capacity (kmem s) q" "0 < unat (q_size (kmem s) q)"
  shows "\<exists>a. queue_add realloc q e s = Inr (s\<lparr>kmem := store32 (store32 (kmem s) (q + 4) a) a e\<rparr>) \<and>
    unat (q_front (kmem s) q) + 4 * unat (q_size (kmem s) q) \<le> unat a"
proof -
  let ?m = "kmem s" let ?f = "q_front ?m q" let ?n = "q_size ?m q" let ?k = "length xs"
  note q = assms(1) [unfolded queue_at_def]
  have k: "unat ?n \<le> 4 * ?k" "?k \<le> unat ?n" using assms(2,3) by (auto simp: queue_capacity_def)
  have r: "q_rear ?m q + 4 * 4 = ?f + of_nat (16 * ?k)" using q by simp
  have u: "unat (?f + of_nat (16 * ?k)) = unat ?f + 16 * ?k" using q k by (intro unat_add_small) auto
  have "queue_add realloc q e s =
      Inr (s\<lparr>kmem := store32 (store32 ?m (q + 4) (?f + of_nat (16 * ?k))) (?f + of_nat (16 * ?k)) e\<rparr>)"
    using queue_not_full [OF assms(1) k(2)] r unfolding queue_add_def
    by (simp add: q_rear_def Let_def del: of_nat_mult)
  moreover have "unat ?f + 4 * unat ?n \<le> unat (?f + of_nat (16 * ?k))" using u k by simp
  ultimately show ?thesis by blast
qed

text \<open>The ready queue of the scheduler as \<^verbatim>\<open>queue_init(10)\<close> makes it, and after three additions: three processes fit.\<close>

definition ready_queue_mem :: "nat \<Rightarrow> mem" where
  "ready_queue_mem k = store32 (store32 (store32 (\<lambda>_. 0) 0x1000 0x2000) 0x1004 (0x2000 + 16 * of_nat k - 16)) 0x1008 10"

lemma load32_zero [simp]: "load32 (\<lambda>_. 0) a = 0"
  by (simp add: load32_def)

lemma ready_queue_mem_at:
  assumes "k \<le> 3"
  shows "queue_at (ready_queue_mem k) 0x1000 (replicate k 0)" "queue_capacity (ready_queue_mem k) 0x1000 = 3" "q_size (ready_queue_mem k) 0x1000 = 10"
proof -
  have f: "q_front (ready_queue_mem k) 0x1000 = 0x2000" "q_rear (ready_queue_mem k) 0x1000 = 0x2000 + 16 * of_nat k - 16"
    "q_size (ready_queue_mem k) 0x1000 = 10"
    by (simp_all add: ready_queue_mem_def q_front_def q_rear_def q_size_def load32_store32_apart)
  have c: "load32 (ready_queue_mem k) (0x2000 + 16 * of_nat i) = 0" if "i < k" for i
  proof -
    have "unat (0x2000 + 16 * of_nat i :: u32) = 0x2000 + 16 * i"
      using that assms unat_add_small [of "0x2000" "16 * i"] by simp
    then show ?thesis using that assms by (simp add: ready_queue_mem_def load32_store32_apart)
  qed
  from f show "queue_capacity (ready_queue_mem k) 0x1000 = 3" "q_size (ready_queue_mem k) 0x1000 = 10"
    by (simp_all add: queue_capacity_def)
  from f c assms show "queue_at (ready_queue_mem k) 0x1000 (replicate k 0)" by (simp add: queue_at_def)
qed

definition ready_state :: "nat \<Rightarrow> kheap" where
  "ready_state k = \<lparr>kmem = ready_queue_mem k, KHEAP_BASE_START = 0, KHEAP_BASE_END = 0\<rparr>"

theorem queue_first_in_first_out_witness:
  "\<exists>s1 s2. add_all (queue_add (\<lambda>p n s. Inr (p, s))) 0x1000 [7, 8, 9] (ready_state 0) = Inr s1 \<and>
    take_n queue_take 0x1000 (length ([] :: u32 list) + length [7 :: u32, 8, 9]) s1 = ([] @ [7, 8, 9], s2) \<and> queue_take 0x1000 s2 = (0, s2)"
  by (rule queue_first_in_first_out) (use ready_queue_mem_at [of 0] in \<open>simp_all add: ready_state_def\<close>)

theorem queue_add_overflows_witness:
  "\<exists>a. queue_add (\<lambda>p n s. Inr (p, s)) 0x1000 7 (ready_state 3) =
      Inr ((ready_state 3)\<lparr>kmem := store32 (store32 (kmem (ready_state 3)) (0x1000 + 4) a) a 7\<rparr>) \<and>
    unat (q_front (kmem (ready_state 3)) 0x1000) + 4 * unat (q_size (kmem (ready_state 3)) 0x1000) \<le> unat a"
  by (rule queue_add_overflows [where xs = "replicate 3 0"])
    (use ready_queue_mem_at [of 3] in \<open>simp_all add: ready_state_def\<close>)

end
