(* ===== verification/VK_Task.thy ===== *)
theory VK_Task
  imports VK_Paging VK_Queue
begin

section \<open>Processes, threads, mutexes and the scheduler (tasking/, sync/)\<close>

text \<open>
  The tasking state extends the memory state. Processes, threads, mutexes and the entries of the sleep list are
  typed stores indexed by their address (\<open>None\<close>: no such object, so a dereference is \<open>BadPtr\<close>). A singly linked list
  that only one head points to is a list of pairs of the entry's address and its element, so that what is
  allocated and freed stays visible. The queues are in byte memory (\<open>VK_Queue\<close>).

  A switch to another thread ends the caller's run until it is scheduled again: an operation returns
  \<open>Returned s\<close>, or \<open>Switched s\<close> with the state in which the other thread starts to run; what the caller would do
  after it is resumed is not part of that call.
\<close>

subsection \<open>State\<close>

record g_regs =
  edi :: u32
  esi :: u32
  ebx :: u32
  edx :: u32
  ecx :: u32
  eax :: u32

record s_regs =
  ds :: u32
  es :: u32
  fs :: u32
  gs :: u32
  ss :: u32
  cs :: u32

record thread =
  gregs :: g_regs
  sregs :: s_regs
  t_eip :: u32
  t_esp :: u32
  t_ebp :: u32
  t_kesp :: u32
  t_base_stack :: u32
  t_base_kstack :: u32
  t_status :: u32

record process =
  active_thread :: u32
  running_threads :: u32
  waiting_threads :: "(u32 \<times> u32) list"
  p_flags :: u32
  page_directory :: u32
  data_loc :: u32
  data_size :: u32
  heap_addr :: u32
  heap_size :: u32
  p_tty :: u32
  files :: u32
  files_size :: u32
  files_count :: u32
  pid :: int
  p_group :: u32
  p_session :: u32
  p_status :: u32
  children :: "(u32 \<times> u32) list"
  parent :: u32
  signal_handlers :: "nat \<Rightarrow> u32"

definition PROCESS_STATUS_INIT :: u32 where "PROCESS_STATUS_INIT = 0"
definition PROCESS_STATUS_RUNNING :: u32 where "PROCESS_STATUS_RUNNING = 1"
definition PROCESS_STATUS_ASLEEP_THREADS :: u32 where "PROCESS_STATUS_ASLEEP_THREADS = 2"
definition PROCESS_STATUS_ASLEEP_SIGNAL :: u32 where "PROCESS_STATUS_ASLEEP_SIGNAL = 3"
definition PROCESS_STATUS_ZOMBIE :: u32 where "PROCESS_STATUS_ZOMBIE = 10"

definition THREAD_STATUS_INIT :: u32 where "THREAD_STATUS_INIT = 0"
definition THREAD_STATUS_RUNNING :: u32 where "THREAD_STATUS_RUNNING = 1"
definition THREAD_STATUS_ASLEEP_TIME :: u32 where "THREAD_STATUS_ASLEEP_TIME = 2"
definition THREAD_STATUS_ASLEEP_IRQ :: u32 where "THREAD_STATUS_ASLEEP_IRQ = 3"
definition THREAD_STATUS_ASLEEP_CHILD :: u32 where "THREAD_STATUS_ASLEEP_CHILD = 6"
definition THREAD_STATUS_ASLEEP_MUTEX :: u32 where "THREAD_STATUS_ASLEEP_MUTEX = 7"
definition THREAD_STATUS_ZOMBIE :: u32 where "THREAD_STATUS_ZOMBIE = 10"

lemmas task_status_defs =
  PROCESS_STATUS_INIT_def PROCESS_STATUS_RUNNING_def PROCESS_STATUS_ASLEEP_THREADS_def PROCESS_STATUS_ASLEEP_SIGNAL_def
  PROCESS_STATUS_ZOMBIE_def THREAD_STATUS_INIT_def THREAD_STATUS_RUNNING_def THREAD_STATUS_ASLEEP_TIME_def
  THREAD_STATUS_ASLEEP_IRQ_def THREAD_STATUS_ASLEEP_CHILD_def THREAD_STATUS_ASLEEP_MUTEX_def THREAD_STATUS_ZOMBIE_def

definition SLEEP_WAIT_IRQ :: u8 where "SLEEP_WAIT_IRQ = 1"
definition SLEEP_TIME :: u8 where "SLEEP_TIME = 3"

text \<open>A mutex: its owner (a process) and the entries of its waiting list, with the two words of their elements.\<close>

record mutex =
  mx_owner :: u32
  mx_waiting :: "(u32 \<times> u32 \<times> u32) list"

text \<open>An entry of the sleep list with its element (process, time, thread).\<close>

record wait_node =
  w_element :: u32
  w_process :: u32
  w_time :: u32
  w_thread :: u32
  w_next :: u32
  w_prev :: u32

text \<open>An entry of an interrupt's list: its address, its element's address, process, sleep-list entry, thread.\<close>

type_synonym irq_entry = "u32 \<times> u32 \<times> u32 \<times> u32 \<times> u32"

record pgroup =
  gid :: int
  g_processes :: "(u32 \<times> u32) list"
  g_session :: u32

record session =
  s_groups :: "(u32 \<times> u32) list"
  controlling_tty :: u32

text \<open>The processor's registers outside the instruction pointer, and the addresses of the labels the code stores.\<close>

record cpu_regs =
  c_gregs :: g_regs
  c_sregs :: s_regs
  c_esp :: u32
  c_ebp :: u32
  c_if :: bool

record tasking = paging +
  procs :: "u32 \<Rightarrow> process option"
  thrs :: "u32 \<Rightarrow> thread option"
  current_process :: u32
  idle_process :: u32
  kernel_process :: u32
  processes :: u32
  processes_size :: u32
  p_ready_queue :: u32
  scheduler_started :: bool
  irq_list :: "nat \<Rightarrow> irq_entry list"
  wnodes :: "u32 \<Rightarrow> wait_node option"
  wait_list :: u32
  wait_mutex :: u32
  signal_mutex :: u32
  mutexes :: "u32 \<Rightarrow> mutex option"
  signal_list :: "(u32 \<times> u32 \<times> u32 \<times> int) list"
  pgroups :: "u32 \<Rightarrow> pgroup option"
  groups :: u32
  groups_number :: u32
  groups_size :: u32
  sessions :: "u32 \<Rightarrow> session option"
  cpu :: cpu_regs
  tss_esp0 :: u32
  label_srt_end :: u32
  label_rmv :: u32
  label_exit_process :: u32

text \<open>The operations of the kernel heap a component is given.\<close>

record 's heap_ops =
  malloc :: "u32 \<Rightarrow> 's \<Rightarrow> (u32 \<times> 's) res"
  free :: "u32 \<Rightarrow> 's \<Rightarrow> 's res"
  realloc :: "u32 \<Rightarrow> u32 \<Rightarrow> 's \<Rightarrow> (u32 \<times> 's) res"

definition kernel_heap :: "(u32 \<Rightarrow> u32 \<Rightarrow> u32 \<Rightarrow> 'a kheap_scheme \<Rightarrow> 'a kheap_scheme res) \<Rightarrow> u32 list \<Rightarrow> nat \<Rightarrow> 'a kheap_scheme heap_ops" where
  "kernel_heap mapm pds f = \<lparr>malloc = kmalloc mapm pds f, free = kfree f, realloc = krealloc mapm pds f\<rparr>"

datatype 's ctl = Returned 's | Switched 's

definition bindC :: "'s ctl res \<Rightarrow> ('s \<Rightarrow> 's ctl res) \<Rightarrow> 's ctl res" where
  "bindC r f = bindR r (\<lambda>c. case c of Returned s \<Rightarrow> f s | Switched s \<Rightarrow> Inr (Switched s))"

definition returned :: "'s res \<Rightarrow> 's ctl res" where
  "returned r = bindR r (\<lambda>s. Inr (Returned s))"

lemma bindC_simps [simp, res_simps]:
  "bindC (Inl e) f = Inl e"
  "bindC (Inr (Returned s)) f = f s"
  "bindC (Inr (Switched s)) f = Inr (Switched s)"
  by (simp_all add: bindC_def)

lemma returned_simps [simp, res_simps]:
  "returned (Inl e) = Inl e"
  "returned (Inr s) = Inr (Returned s)"
  by (simp_all add: returned_def)

subsection \<open>Access to the stores\<close>

definition proc :: "u32 \<Rightarrow> 'a tasking_scheme \<Rightarrow> process res" where
  "proc p s = (case procs s p of None \<Rightarrow> Inl BadPtr | Some x \<Rightarrow> Inr x)"

definition thr :: "u32 \<Rightarrow> 'a tasking_scheme \<Rightarrow> thread res" where
  "thr t s = (case thrs s t of None \<Rightarrow> Inl BadPtr | Some x \<Rightarrow> Inr x)"

definition mtx :: "u32 \<Rightarrow> 'a tasking_scheme \<Rightarrow> mutex res" where
  "mtx a s = (case mutexes s a of None \<Rightarrow> Inl BadPtr | Some x \<Rightarrow> Inr x)"

definition wnode :: "u32 \<Rightarrow> 'a tasking_scheme \<Rightarrow> wait_node res" where
  "wnode a s = (case wnodes s a of None \<Rightarrow> Inl BadPtr | Some x \<Rightarrow> Inr x)"

definition upd_proc :: "u32 \<Rightarrow> (process \<Rightarrow> process) \<Rightarrow> 'a tasking_scheme \<Rightarrow> 'a tasking_scheme res" where
  "upd_proc p g s = bindR (proc p s) (\<lambda>x. Inr (s\<lparr>procs := (procs s)(p \<mapsto> g x)\<rparr>))"

definition upd_thr :: "u32 \<Rightarrow> (thread \<Rightarrow> thread) \<Rightarrow> 'a tasking_scheme \<Rightarrow> 'a tasking_scheme res" where
  "upd_thr t g s = bindR (thr t s) (\<lambda>x. Inr (s\<lparr>thrs := (thrs s)(t \<mapsto> g x)\<rparr>))"

definition upd_mtx :: "u32 \<Rightarrow> (mutex \<Rightarrow> mutex) \<Rightarrow> 'a tasking_scheme \<Rightarrow> 'a tasking_scheme res" where
  "upd_mtx a g s = bindR (mtx a s) (\<lambda>x. Inr (s\<lparr>mutexes := (mutexes s)(a \<mapsto> g x)\<rparr>))"

definition upd_wnode :: "u32 \<Rightarrow> (wait_node \<Rightarrow> wait_node) \<Rightarrow> 'a tasking_scheme \<Rightarrow> 'a tasking_scheme res" where
  "upd_wnode a g s = bindR (wnode a s) (\<lambda>x. Inr (s\<lparr>wnodes := (wnodes s)(a \<mapsto> g x)\<rparr>))"

lemmas store_access_defs = proc_def thr_def mtx_def wnode_def upd_proc_def upd_thr_def upd_mtx_def upd_wnode_def

subsection \<open>Switching\<close>

text \<open>The registers a thread that pauses itself in the kernel saves; \<open>label\<close> is where it resumes.\<close>

definition save_context :: "u32 \<Rightarrow> u32 \<Rightarrow> 'a tasking_scheme \<Rightarrow> 'a tasking_scheme res" where
  "save_context label t s =
     (let c = cpu s in
      upd_thr t (\<lambda>th. th\<lparr>
        gregs := (gregs th)\<lparr>ebx := ebx (c_gregs c), edi := edi (c_gregs c), esi := esi (c_gregs c)\<rparr>,
        t_ebp := c_ebp c,
        sregs := \<lparr>ds = ds (c_sregs c), es = es (c_sregs c), fs = fs (c_sregs c), gs = gs (c_sregs c), ss = 0x10, cs = 0x08\<rparr>,
        t_eip := label, t_esp := c_esp c\<rparr>) s)"

text \<open>\<^verbatim>\<open>schedule_switch\<close> of scheduler.s: the target thread in eax, its process in edx.\<close>

definition schedule_switch :: "u32 \<Rightarrow> u32 \<Rightarrow> 'a tasking_scheme \<Rightarrow> 'a tasking_scheme res" where
  "schedule_switch t p s =
     bindR (upd_proc p (\<lambda>x. x\<lparr>active_thread := t,
       p_flags := (p_flags x OR 0x200) AND 0xFFFFBEFF\<rparr>) (s\<lparr>current_process := p\<rparr>)) (\<lambda>s.
     bindR (thr t s) (\<lambda>th.
     bindR (proc p s) (\<lambda>x.
     Inr (s\<lparr>current_page_directory := page_directory x, tss_esp0 := t_kesp th,
       cpu := \<lparr>c_gregs = gregs th, c_sregs = sregs th, c_esp = t_esp th, c_ebp = t_ebp th, c_if = True\<rparr>\<rparr>))))"

subsection \<open>Processes in the scheduler\<close>

definition scheduler_add_process :: "'a tasking_scheme heap_ops \<Rightarrow> u32 \<Rightarrow> 'a tasking_scheme \<Rightarrow> 'a tasking_scheme res" where
  "scheduler_add_process h p s =
     bindR (proc p s) (\<lambda>x.
     if p \<noteq> idle_process s \<and> p_status x = PROCESS_STATUS_RUNNING then Inr s
     else bindR (upd_proc p (\<lambda>x. x\<lparr>p_status := PROCESS_STATUS_RUNNING\<rparr>) s) (\<lambda>s.
       queue_add (realloc h) (p_ready_queue s) p s))"

definition scheduler_remove_process :: "u32 \<Rightarrow> 'a tasking_scheme \<Rightarrow> 'a tasking_scheme ctl res" where
  "scheduler_remove_process p s =
     (if current_process s = p then
        let (tswitch, s) = queue_take (p_ready_queue s) s;
            tswitch = (if tswitch = 0 then idle_process s else tswitch) in
        bindR (proc (current_process s) s) (\<lambda>x.
        bindR (if active_thread x \<noteq> 0 then save_context (label_rmv s) (active_thread x) (s\<lparr>cpu := (cpu s)\<lparr>c_if := False\<rparr>\<rparr>) else Inr s) (\<lambda>s.
        bindR (proc tswitch s) (\<lambda>y.
        bindR (schedule_switch (active_thread y) tswitch s) (\<lambda>s. Inr (Switched s)))))
      else Inr (Returned (queue_remove (p_ready_queue s) p s)))"

subsection \<open>Threads (tasking/processes/threads.c)\<close>

definition PROCESS_KSTACK_SIZE_DEFAULT :: u32 where "PROCESS_KSTACK_SIZE_DEFAULT = 8192"
definition PROCESS_STACK_SIZE_DEFAULT :: u32 where "PROCESS_STACK_SIZE_DEFAULT = 8192"

definition zero_thread :: thread where
  "zero_thread = \<lparr>gregs = \<lparr>edi = 0, esi = 0, ebx = 0, edx = 0, ecx = 0, eax = 0\<rparr>,
     sregs = \<lparr>ds = 0, es = 0, fs = 0, gs = 0, ss = 0, cs = 0\<rparr>,
     t_eip = 0, t_esp = 0, t_ebp = 0, t_kesp = 0, t_base_stack = 0, t_base_kstack = 0, t_status = 0\<rparr>"

definition init_thread :: "'a tasking_scheme heap_ops \<Rightarrow> 'a tasking_scheme \<Rightarrow> (u32 \<times> 'a tasking_scheme) res" where
  "init_thread h s =
     bindR (malloc h 76 s) (\<lambda>(t, s).
     bindR (malloc h PROCESS_KSTACK_SIZE_DEFAULT s) (\<lambda>(kstack, s).
     Inr (t, s\<lparr>thrs := (thrs s)(t \<mapsto> zero_thread\<lparr>t_kesp := kstack + PROCESS_KSTACK_SIZE_DEFAULT,
       t_base_kstack := kstack, t_status := THREAD_STATUS_INIT\<rparr>)\<rparr>)))"

definition free_thread_memory :: "'a tasking_scheme heap_ops \<Rightarrow> nat \<Rightarrow> u32 \<Rightarrow> u32 \<Rightarrow> 'a tasking_scheme \<Rightarrow> 'a tasking_scheme res" where
  "free_thread_memory h f p t s =
     bindR (thr t s) (\<lambda>th.
     bindR (proc p s) (\<lambda>x.
     bindR (if t_base_stack th \<noteq> 0 then
              let stack_phys = get_physical (t_base_stack th) (page_directory x) s in
              bindR (unmap_flexible PROCESS_STACK_SIZE_DEFAULT (t_base_stack th) (page_directory x) s) (\<lambda>s.
              bindR (free_block (free h) f stack_phys s) (\<lambda>s.
              upd_thr t (\<lambda>th. th\<lparr>t_base_stack := 0\<rparr>) s))
            else Inr s) (\<lambda>s.
     if p \<noteq> current_process s \<or> t \<noteq> active_thread x then free h (t_base_kstack th) s else Inr s)))"

definition scheduler_remove_thread :: "'a tasking_scheme heap_ops \<Rightarrow> u32 \<Rightarrow> u32 \<Rightarrow> 'a tasking_scheme \<Rightarrow> 'a tasking_scheme ctl res" where
  "scheduler_remove_thread h p t s =
     bindR (proc p s) (\<lambda>x.
     if p_status x \<noteq> PROCESS_STATUS_RUNNING then Inr (Returned s)
     else
       bindR (malloc h 8 s) (\<lambda>(e, s).
       bindR (upd_proc p (\<lambda>x. x\<lparr>waiting_threads := waiting_threads x @ [(e, t)]\<rparr>) s) (\<lambda>s.
       if p = current_process s \<and> t = active_thread x then
         let s = s\<lparr>cpu := (cpu s)\<lparr>c_if := False\<rparr>\<rparr>;
             (next, s) = queue_take (running_threads x) s in
         bindR (save_context (label_srt_end s) t s) (\<lambda>s.
         bindR (upd_proc p (\<lambda>x. x\<lparr>active_thread := next\<rparr>) s) (\<lambda>s.
         if next = 0 then
           bindR (upd_proc p (\<lambda>x. x\<lparr>p_status := PROCESS_STATUS_ASLEEP_THREADS\<rparr>) s) (\<lambda>s.
           scheduler_remove_process p s)
         else bindR (schedule_switch next p s) (\<lambda>s. Inr (Switched s))))
       else Inr (Returned (queue_remove (running_threads x) t s)))))"

text \<open>
  The walk of \<^verbatim>\<open>scheduler_add_thread\<close> over the waiting list; the result is the list that is still linked, and the
  entries freed. A match at the head clears the whole list. After a match the freed entry stays the
  predecessor, so a match right behind it is freed but stays linked.
\<close>

fun unlink_rest :: "u32 \<Rightarrow> (u32 \<times> u32) list \<Rightarrow> (u32 \<times> u32) list \<times> u32 list"
  and unlink_freed :: "u32 \<Rightarrow> (u32 \<times> u32) list \<Rightarrow> (u32 \<times> u32) list \<times> u32 list" where
  "unlink_rest t [] = ([], [])"
| "unlink_rest t ((e, x) # xs) =
     (if x = t then let (ys, fr) = unlink_freed t xs in (ys, e # fr)
      else let (ys, fr) = unlink_rest t xs in ((e, x) # ys, fr))"
| "unlink_freed t [] = ([], [])"
| "unlink_freed t ((e, x) # xs) =
     (if x = t then let (ys, fr) = unlink_freed t xs in ((e, x) # ys, e # fr)
      else let (ys, fr) = unlink_rest t xs in ((e, x) # ys, fr))"

fun unlink_waiting :: "u32 \<Rightarrow> (u32 \<times> u32) list \<Rightarrow> (u32 \<times> u32) list \<times> u32 list" where
  "unlink_waiting t [] = ([], [])"
| "unlink_waiting t ((e, x) # xs) =
     (if x = t then ([], e # snd (unlink_freed t xs)) else let (ys, fr) = unlink_rest t xs in ((e, x) # ys, fr))"

fun free_all :: "'s heap_ops \<Rightarrow> u32 list \<Rightarrow> 's \<Rightarrow> 's res" where
  "free_all h [] s = Inr s"
| "free_all h (p # ps) s = bindR (free h p s) (free_all h ps)"

text \<open>The thread becomes the active one, or is queued behind it.\<close>

definition activate_thread :: "'a tasking_scheme heap_ops \<Rightarrow> u32 \<Rightarrow> u32 \<Rightarrow> 'a tasking_scheme \<Rightarrow> 'a tasking_scheme res" where
  "activate_thread h p t s =
     bindR (proc p s) (\<lambda>x.
     if active_thread x = 0 \<and> p_status x = PROCESS_STATUS_ASLEEP_THREADS then
       bindR (upd_proc p (\<lambda>x. x\<lparr>active_thread := t\<rparr>) s) (scheduler_add_process h p)
     else if active_thread x = 0 then upd_proc p (\<lambda>x. x\<lparr>active_thread := t\<rparr>) s
     else queue_add (realloc h) (running_threads x) t s)"

definition scheduler_add_thread :: "'a tasking_scheme heap_ops \<Rightarrow> u32 \<Rightarrow> u32 \<Rightarrow> 'a tasking_scheme \<Rightarrow> 'a tasking_scheme res" where
  "scheduler_add_thread h p t s =
     bindR (thr t s) (\<lambda>th.
     if t_status th = THREAD_STATUS_RUNNING then Inr s
     else
       bindR (if t_status th \<noteq> THREAD_STATUS_INIT then
                bindR (proc p s) (\<lambda>x.
                let (ws, fr) = unlink_waiting t (waiting_threads x) in
                bindR (upd_proc p (\<lambda>x. x\<lparr>waiting_threads := ws\<rparr>) s) (free_all h fr))
              else Inr s) (\<lambda>s.
       bindR (upd_thr t (\<lambda>th. th\<lparr>t_status := THREAD_STATUS_RUNNING\<rparr>) s) (activate_thread h p t)))"

subsection \<open>Mutexes (sync/mutex.s, sync/mutex.c)\<close>

definition ERROR_NONE :: u32 where "ERROR_NONE = 0"
definition ERROR_MUTEX_ALREADY_LOCKED :: u32 where "ERROR_MUTEX_ALREADY_LOCKED = 31"
definition ERROR_MUTEX_OWNED_BY_OTHER :: u32 where "ERROR_MUTEX_OWNED_BY_OTHER = 32"

definition mutex_lock :: "u32 \<Rightarrow> 'a tasking_scheme \<Rightarrow> (u32 \<times> 'a tasking_scheme) res" where
  "mutex_lock a s =
     bindR (mtx a s) (\<lambda>m.
     if mx_owner m = current_process s then Inr (ERROR_NONE, s)
     else if mx_owner m \<noteq> 0 then Inr (ERROR_MUTEX_ALREADY_LOCKED, s\<lparr>cpu := (cpu s)\<lparr>c_if := True\<rparr>\<rparr>)
     else bindR (upd_mtx a (\<lambda>m. m\<lparr>mx_owner := current_process s\<rparr>) s) (\<lambda>s. Inr (ERROR_NONE, s)))"

text \<open>The first word of the element is written twice; the second is whatever the allocated memory holds.\<close>

definition mutex_wait :: "'a tasking_scheme heap_ops \<Rightarrow> u32 \<Rightarrow> 'a tasking_scheme \<Rightarrow> 'a tasking_scheme ctl res" where
  "mutex_wait h a s =
     bindR (malloc h 8 s) (\<lambda>(e, s).
     bindR (malloc h 8 s) (\<lambda>(element, s).
     bindR (proc (current_process s) s) (\<lambda>x.
     bindR (upd_mtx a (\<lambda>m. m\<lparr>mx_waiting := mx_waiting m @ [(e, active_thread x, load32 (kmem s) (element + 4))]\<rparr>) s) (\<lambda>s.
     bindR (upd_thr (active_thread x) (\<lambda>t. t\<lparr>t_status := THREAD_STATUS_ASLEEP_MUTEX\<rparr>) s) (\<lambda>s.
     scheduler_remove_thread h (current_process s) (active_thread x) s)))))"

definition mutex_unlock_wakeup :: "'a tasking_scheme heap_ops \<Rightarrow> u32 \<Rightarrow> 'a tasking_scheme \<Rightarrow> 'a tasking_scheme res" where
  "mutex_unlock_wakeup h a s =
     bindR (mtx a s) (\<lambda>m.
     case mx_waiting m of [] \<Rightarrow> Inr s
     | (e, tw0, tw1) # rest \<Rightarrow>
         bindR (upd_mtx a (\<lambda>m. m\<lparr>mx_waiting := rest\<rparr>) s) (\<lambda>s.
         bindR (free h e s) (\<lambda>s.
         scheduler_add_thread h tw0 tw1 s)))"

definition mutex_unlock :: "'a tasking_scheme heap_ops \<Rightarrow> u32 \<Rightarrow> 'a tasking_scheme \<Rightarrow> (u32 \<times> 'a tasking_scheme) res" where
  "mutex_unlock h a s =
     bindR (mtx a s) (\<lambda>m.
     if mx_owner m \<noteq> current_process s then Inr (ERROR_MUTEX_OWNED_BY_OTHER, s)
     else bindR (upd_mtx a (\<lambda>m. m\<lparr>mx_owner := 0\<rparr>) s) (\<lambda>s.
       bindR (mutex_unlock_wakeup h a s) (\<lambda>s. Inr (ERROR_NONE, s))))"

text \<open>\<^verbatim>\<open>while(mutex_lock(m) != ERROR_NONE) mutex_wait(m);\<close>\<close>

fun mutex_acquire :: "'a tasking_scheme heap_ops \<Rightarrow> nat \<Rightarrow> u32 \<Rightarrow> 'a tasking_scheme \<Rightarrow> 'a tasking_scheme ctl res" where
  "mutex_acquire h 0 a s = Inl NoFuel"
| "mutex_acquire h (Suc f) a s =
     bindR (mutex_lock a s) (\<lambda>(err, s).
     if err = ERROR_NONE then Inr (Returned s)
     else bindC (mutex_wait h a s) (mutex_acquire h f a))"

end
