(* ===== verification/VK_Vga.thy ===== *)
theory VK_Vga
  imports VK_Task VK_Lib
begin

section \<open>The text screen (video/vga_text.c, video/video.c) and kprintf (util/lib.c)\<close>

text \<open>
  Video memory is part of the byte memory, at \<^verbatim>\<open>VGA_MEM_START\<close>; a cell is a character and its attribute. The
  state adds the globals of the two files, the bytes sent to the ports (oldest first) and the addresses
  of the string literals. Every printing operation may block on the screen's mutex, so it has a \<open>ctl\<close> result.
\<close>

subsection \<open>State\<close>

record vga = tasking +
  VIDEO_MODE :: u8
  VIDEO_TYPE :: u8
  VGA_MEM_START :: u32
  VGA_MEM_END :: u32
  TEXT_CURSOR_X :: u8
  TEXT_CURSOR_Y :: u8
  screen_mutex :: u32
  outp :: "(u16 \<times> u8) list"
  lit :: "string \<Rightarrow> u32"

definition VIDEO_TYPE_NONE :: u8 where "VIDEO_TYPE_NONE = 0x0"
definition VIDEO_TYPE_COLOR :: u8 where "VIDEO_TYPE_COLOR = 0x20"
definition VIDEO_TYPE_MONOCHROME :: u8 where "VIDEO_TYPE_MONOCHROME = 0x30"
definition VIDEO_MODE_VGA_TEXT :: u8 where "VIDEO_MODE_VGA_TEXT = 0x1"
definition VGA_COLUMNS :: u8 where "VGA_COLUMNS = 80"
definition VGA_LINES :: u8 where "VGA_LINES = 25"

lemmas vga_consts = VIDEO_TYPE_NONE_def VIDEO_TYPE_COLOR_def VIDEO_TYPE_MONOCHROME_def VIDEO_MODE_VGA_TEXT_def
  VGA_COLUMNS_def VGA_LINES_def

definition outb :: "u16 \<Rightarrow> u8 \<Rightarrow> 'a vga_scheme \<Rightarrow> 'a vga_scheme" where
  "outb port v s = s\<lparr>outp := outp s @ [(port, v)]\<rparr>"

subsection \<open>Clearing, scrolling and the cursor\<close>

text \<open>The loop that empties \<open>n\<close> cells from \<open>a\<close> on.\<close>

fun fill_cells :: "nat \<Rightarrow> u32 \<Rightarrow> u8 \<Rightarrow> mem \<Rightarrow> mem" where
  "fill_cells 0 a attr m = m"
| "fill_cells (Suc n) a attr m = fill_cells n (a + 2) attr (m(a := 0, a + 1 := attr))"

definition vga_text_cls :: "'a vga_scheme \<Rightarrow> 'a vga_scheme" where
  "vga_text_cls s = s\<lparr>kmem := fill_cells (0xFA0 div 2) (VGA_MEM_START s) 0xF (kmem s)\<rparr>"

definition vga_text_reset :: "'a vga_scheme \<Rightarrow> 'a vga_scheme" where
  "vga_text_reset s = (vga_text_cls s)\<lparr>TEXT_CURSOR_X := 0, TEXT_CURSOR_Y := 0\<rparr>"

definition vga_text_scroll_up :: "'a vga_scheme \<Rightarrow> 'a vga_scheme" where
  "vga_text_scroll_up s =
     (if VIDEO_MODE s \<noteq> VIDEO_MODE_VGA_TEXT then s
      else if VIDEO_TYPE s = VIDEO_TYPE_NONE then s
      else
        let VRAM = VGA_MEM_START s;
            m = memcpy (kmem s) VRAM (VRAM + ucast VGA_COLUMNS * 2) (unat (VGA_MEM_END s - VGA_MEM_START s - ucast VGA_COLUMNS * 2));
            LAST_LINE = VGA_MEM_END s - 2 * ucast VGA_COLUMNS;
            m = fill_cells (unat VGA_COLUMNS) LAST_LINE 0x7 m
        in s\<lparr>kmem := m, TEXT_CURSOR_Y := (if 0 < TEXT_CURSOR_Y s then TEXT_CURSOR_Y s - 1 else TEXT_CURSOR_Y s)\<rparr>)"

definition vga_text_update_cursor :: "'a vga_scheme \<Rightarrow> 'a vga_scheme" where
  "vga_text_update_cursor s =
     (let position = (ucast (TEXT_CURSOR_Y s) * 80 + ucast (TEXT_CURSOR_X s) :: u16);
          s = outb 0x3D4 0x0F s;
          s = outb 0x3D5 (ucast (position AND 0xFF)) s;
          s = outb 0x3D4 0x0E s
      in outb 0x3D5 (ucast (drop_bit 8 position AND 0xFF)) s)"

definition vga_text_disable_cursor :: "'a vga_scheme \<Rightarrow> 'a vga_scheme" where
  "vga_text_disable_cursor s = outb 0x3D5 0x3f (outb 0x3D4 0x0A s)"

definition vga_text_enable_cursor :: "'a vga_scheme \<Rightarrow> 'a vga_scheme" where
  "vga_text_enable_cursor s = outb 0x3D5 12 (outb 0x3D4 0x0A s)"

definition vga_text_set_cursor :: "u8 \<Rightarrow> u8 \<Rightarrow> 'a vga_scheme \<Rightarrow> 'a vga_scheme" where
  "vga_text_set_cursor X Y s = vga_text_update_cursor (s\<lparr>TEXT_CURSOR_X := X, TEXT_CURSOR_Y := Y\<rparr>)"

subsection \<open>Printing\<close>

definition vga_text_mutex_lock :: "'a vga_scheme heap_ops \<Rightarrow> nat \<Rightarrow> 'a vga_scheme \<Rightarrow> 'a vga_scheme ctl res" where
  "vga_text_mutex_lock h f s =
     (if \<not> scheduler_started s then Inr (Returned s) else mutex_acquire h f (screen_mutex s) s)"

definition cell_addr :: "'a vga_scheme \<Rightarrow> u32" where
  "cell_addr s = VGA_MEM_START s + 2 * ucast (TEXT_CURSOR_X s) + 2 * ucast VGA_COLUMNS * ucast (TEXT_CURSOR_Y s)"

text \<open>What \<^verbatim>\<open>vga_text_putc\<close> does with the character itself: the special ones, then the others.\<close>

definition putc_char :: "u8 \<Rightarrow> u8 \<Rightarrow> 'a vga_scheme \<Rightarrow> 'a vga_scheme" where
  "putc_char c color s =
     (let X = TEXT_CURSOR_X s; Y = TEXT_CURSOR_Y s in
      if c = 10 then s\<lparr>TEXT_CURSOR_X := 0, TEXT_CURSOR_Y := Y + 1\<rparr>
      else if c = 9 then
        let next_cursor = X + 8 - X mod 8 in
        if VGA_COLUMNS - 1 < next_cursor then s\<lparr>TEXT_CURSOR_Y := Y + 1, TEXT_CURSOR_X := 0\<rparr>
        else s\<lparr>TEXT_CURSOR_X := next_cursor\<rparr>
      else if c = 13 then s\<lparr>TEXT_CURSOR_X := 0\<rparr>
      else if c = 8 then
        if 0 < X then
          let s = s\<lparr>TEXT_CURSOR_X := X - 1\<rparr> in s\<lparr>kmem := (kmem s)(cell_addr s := 0)\<rparr>
        else if 0 < Y then s\<lparr>TEXT_CURSOR_Y := Y - 1, TEXT_CURSOR_X := VGA_COLUMNS\<rparr>
        else s
      else
        let CURRENT = cell_addr s;
            m = (kmem s)(CURRENT := c);
            m = (if VIDEO_TYPE s = VIDEO_TYPE_COLOR then m(CURRENT + 1 := color) else m)
        in s\<lparr>kmem := m, TEXT_CURSOR_X := X + 1\<rparr>)"

definition line_end :: "'a vga_scheme \<Rightarrow> 'a vga_scheme" where
  "line_end s =
     (if VGA_COLUMNS \<le> TEXT_CURSOR_X s then s\<lparr>TEXT_CURSOR_X := 0, TEXT_CURSOR_Y := TEXT_CURSOR_Y s + 1\<rparr> else s)"

definition vga_text_putc :: "'a vga_scheme heap_ops \<Rightarrow> nat \<Rightarrow> u8 \<Rightarrow> u8 \<Rightarrow> 'a vga_scheme \<Rightarrow> 'a vga_scheme ctl res" where
  "vga_text_putc h f c color s =
     (if VIDEO_MODE s \<noteq> VIDEO_MODE_VGA_TEXT then Inr (Returned s)
      else if VIDEO_TYPE s = VIDEO_TYPE_NONE then Inr (Returned s)
      else
        bindC (vga_text_mutex_lock h f s) (\<lambda>s.
        let s = line_end (putc_char c color s);
            s = (if VGA_LINES \<le> TEXT_CURSOR_Y s then vga_text_scroll_up s else s);
            s = vga_text_update_cursor s in
        bindR (mutex_unlock h (screen_mutex s) s) (\<lambda>(err, s). Inr (Returned s))))"

text \<open>The loop of \<^verbatim>\<open>vga_text_puts\<close>; the fuel bounds the characters, and the attempts to take the mutex for each.\<close>

fun puts_from :: "'a vga_scheme heap_ops \<Rightarrow> nat \<Rightarrow> u32 \<Rightarrow> u8 \<Rightarrow> 'a vga_scheme \<Rightarrow> 'a vga_scheme ctl res" where
  "puts_from h 0 str color s = Inl NoFuel"
| "puts_from h (Suc f) str color s =
     (if kmem s str \<noteq> 0 then bindC (vga_text_putc h (Suc f) (kmem s str) color s) (puts_from h f (str + 1) color)
      else Inr (Returned s))"

definition vga_text_puts :: "'a vga_scheme heap_ops \<Rightarrow> nat \<Rightarrow> u32 \<Rightarrow> u8 \<Rightarrow> 'a vga_scheme \<Rightarrow> 'a vga_scheme ctl res" where
  "vga_text_puts h f str color s =
     (if VIDEO_MODE s \<noteq> VIDEO_MODE_VGA_TEXT then Inr (Returned s)
      else if VIDEO_TYPE s = VIDEO_TYPE_NONE then Inr (Returned s)
      else puts_from h f str color s)"

abbreviation newline :: string where "newline \<equiv> [CHR 0x0A]"

definition vga_text_okmsg :: "'a vga_scheme heap_ops \<Rightarrow> nat \<Rightarrow> 'a vga_scheme \<Rightarrow> 'a vga_scheme ctl res" where
  "vga_text_okmsg h f s = vga_text_puts h f (lit s (''OK'' @ newline)) 0b00001010 (s\<lparr>TEXT_CURSOR_X := 50\<rparr>)"

definition vga_text_failmsg :: "'a vga_scheme heap_ops \<Rightarrow> nat \<Rightarrow> 'a vga_scheme \<Rightarrow> 'a vga_scheme ctl res" where
  "vga_text_failmsg h f s = vga_text_puts h f (lit s (''FAILED'' @ newline)) 0b00001100 (s\<lparr>TEXT_CURSOR_X := 50\<rparr>)"

definition vga_text_skipmsg :: "'a vga_scheme heap_ops \<Rightarrow> nat \<Rightarrow> 'a vga_scheme \<Rightarrow> 'a vga_scheme ctl res" where
  "vga_text_skipmsg h f s = vga_text_puts h f (lit s (''SKIPPED'' @ newline)) 0b00001111 (s\<lparr>TEXT_CURSOR_X := 50\<rparr>)"

definition vga_text_spemsg :: "'a vga_scheme heap_ops \<Rightarrow> nat \<Rightarrow> u32 \<Rightarrow> u8 \<Rightarrow> 'a vga_scheme \<Rightarrow> 'a vga_scheme ctl res" where
  "vga_text_spemsg h f msg color s = vga_text_puts h f msg color (s\<lparr>TEXT_CURSOR_X := 50\<rparr>)"

definition vga_text_nl :: "'a vga_scheme \<Rightarrow> 'a vga_scheme" where
  "vga_text_nl s =
     (if TEXT_CURSOR_X s \<noteq> 0 then s\<lparr>TEXT_CURSOR_Y := TEXT_CURSOR_Y s + 1, TEXT_CURSOR_X := 0\<rparr> else s)"

subsection \<open>kprintf\<close>

definition va_arg :: "u32 list \<Rightarrow> (u32 \<times> u32 list) res" where
  "va_arg ap = (case ap of [] \<Rightarrow> Inl BadPtr | x # ap \<Rightarrow> Inr (x, ap))"

text \<open>
  One conversion of \<^verbatim>\<open>vkprintf\<close>: the character after the percent sign, the argument, the address of the
  local buffer and the colour; the result has the colour of what follows.
\<close>

definition to_buffer :: "'a vga_scheme heap_ops \<Rightarrow> nat \<Rightarrow> u32 \<Rightarrow> u8 \<Rightarrow> mem option \<Rightarrow> 'a vga_scheme \<Rightarrow> 'a vga_scheme ctl res" where
  "to_buffer h f buf color r s = bindR (the_res r) (\<lambda>m. vga_text_puts h f buf color (s\<lparr>kmem := m\<rparr>))"

definition vkprintf_conv :: "'a vga_scheme heap_ops \<Rightarrow> nat \<Rightarrow> u32 \<Rightarrow> u8 \<Rightarrow> u8 \<Rightarrow> u32 \<Rightarrow> 'a vga_scheme \<Rightarrow> 'a vga_scheme ctl res" where
  "vkprintf_conv h f buf color c x s =
     (if c = 117 then to_buffer h f buf color (utoa (kmem s) x buf) s
      else if c = 105 \<or> c = 100 then to_buffer h f buf color (itoa (kmem s) x buf) s
      else if c = 88 then to_buffer h f buf color (toupper (i2hex (kmem s) x buf) buf) s
      else if c = 120 then to_buffer h f buf color (tolower (i2hex (kmem s) x buf) buf) s
      else if c = 115 then vga_text_puts h f x color s
      else if c = 99 then vga_text_putc h f (ucast x) color s
      else Inr (Returned s))"

definition takes_arg :: "u8 \<Rightarrow> bool" where
  "takes_arg c \<longleftrightarrow> c \<in> {117, 105, 100, 88, 120, 115, 99, 118, 108}"

definition conv_color :: "u8 \<Rightarrow> u32 \<Rightarrow> u8 \<Rightarrow> u8" where
  "conv_color c x color =
     (if c = 118 then ucast x
      else if c = 108 then
        (let level = (ucast x :: u8) in if level = 0 then 0b00000111 else if level = 1 then 0b00000010 else if level = 2 then 0b00000100 else 0b00001001)
      else color)"

fun vkprintf :: "'a vga_scheme heap_ops \<Rightarrow> nat \<Rightarrow> u32 \<Rightarrow> u8 \<Rightarrow> u32 \<Rightarrow> u32 list \<Rightarrow> 'a vga_scheme \<Rightarrow> 'a vga_scheme ctl res" where
  "vkprintf h 0 buf color args ap s = Inl NoFuel"
| "vkprintf h (Suc f) buf color args ap s =
     (let c = kmem s args in
      if c = 0 then Inr (Returned s)
      else if c = 37 then
        let args = args + 1; c = kmem s args in
        if takes_arg c then
          bindR (va_arg ap) (\<lambda>(x, ap).
          bindC (vkprintf_conv h (Suc f) buf color c x s) (vkprintf h f buf (conv_color c x color) (args + 1) ap))
        else bindC (vga_text_putc h (Suc f) c color s) (vkprintf h f buf color (args + 1) ap)
      else bindC (vga_text_putc h (Suc f) c color s) (vkprintf h f buf color (args + 1) ap))"

definition kprintf :: "'a vga_scheme heap_ops \<Rightarrow> nat \<Rightarrow> u32 \<Rightarrow> u32 \<Rightarrow> u32 list \<Rightarrow> 'a vga_scheme \<Rightarrow> 'a vga_scheme ctl res" where
  "kprintf h f buf args ap s = vkprintf h f buf 0b00000111 args ap s"

text \<open>
  What \<^verbatim>\<open>_fatal_kernel_error\<close> leaves on the screen before it halts (error/error.c). In the other theories a call of
  it is the fault \<open>Fatal\<close>.
\<close>

definition fatal_kernel_error :: "'a vga_scheme heap_ops \<Rightarrow> nat \<Rightarrow> u32 \<Rightarrow> u32 \<Rightarrow> u32 \<Rightarrow> u32 \<Rightarrow> u32 \<Rightarrow> 'a vga_scheme \<Rightarrow> 'a vga_scheme ctl res" where
  "fatal_kernel_error h f buf error_message error_context err_file err_line s =
     (let s = vga_text_nl (s\<lparr>cpu := (cpu s)\<lparr>c_if := False\<rparr>\<rparr>) in
      bindC (kprintf h f buf (lit s (''%v[FATAL ERROR] : %s'' @ newline)) [0b00001100, error_message] s) (\<lambda>s.
      bindC (kprintf h f buf (lit s (''%v[CONTEXT] : %s'' @ newline)) [0b00001100, error_context] s) (\<lambda>s.
      bindC (kprintf h f buf (lit s (''%v[LOCATION] : %s:%d'' @ newline)) [0b00001100, err_file, err_line] s) (\<lambda>s.
      kprintf h f buf (lit s (''%l-- SYSTEM HALTED --'' @ newline)) [2] s))))"

subsection \<open>The video mode\<close>

text \<open>The registers of the 80x25 text mode, in the order they are written.\<close>

definition g_80x25_text :: "u8 list" where
  "g_80x25_text =
    [0x67,
     0x03, 0x00, 0x03, 0x00, 0x02,
     0x5F, 0x4F, 0x50, 0x82, 0x55, 0x81, 0xBF, 0x1F,
     0x00, 0x4F, 0x0D, 0x0E, 0x00, 0x00, 0x00, 0x50,
     0x9C, 0x0E, 0x8F, 0x28, 0x1F, 0x96, 0xB9, 0xA3,
     0xFF,
     0x00, 0x00, 0x00, 0x00, 0x00, 0x10, 0x0E, 0x00,
     0xFF,
     0x00, 0x01, 0x02, 0x03, 0x04, 0x05, 0x14, 0x07,
     0x38, 0x39, 0x3A, 0x3B, 0x3C, 0x3D, 0x3E, 0x3F,
     0x0C, 0x00, 0x0F, 0x08, 0x00]"

text \<open>One run of index and data writes; \<open>inb\<close> is the device's answer, given the bytes it was sent.\<close>

fun write_regs :: "u16 \<Rightarrow> u16 \<Rightarrow> u8 \<Rightarrow> u8 list \<Rightarrow> 'a vga_scheme \<Rightarrow> 'a vga_scheme" where
  "write_regs ix dat i [] s = s"
| "write_regs ix dat i (r # rs) s = write_regs ix dat (i + 1) rs (outb dat r (outb ix i s))"

definition unlock_crtc :: "((u16 \<times> u8) list \<Rightarrow> u16 \<Rightarrow> u8) \<Rightarrow> 'a vga_scheme \<Rightarrow> 'a vga_scheme" where
  "unlock_crtc inb s =
     (let s = outb 0x3D4 0x03 s;
          s = outb 0x3D5 (inb (outp s) 0x3D5 OR 0x80) s;
          s = outb 0x3D4 0x11 s
      in outb 0x3D5 (inb (outp s) 0x3D5 AND NOT 0x80) s)"

definition vga_write_regs :: "((u16 \<times> u8) list \<Rightarrow> u16 \<Rightarrow> u8) \<Rightarrow> u8 list \<Rightarrow> 'a vga_scheme \<Rightarrow> 'a vga_scheme" where
  "vga_write_regs inb regs s =
     (let s = outb 0x3C2 (regs ! 0) s;
          s = write_regs 0x3C4 0x3C5 0 (take 5 (drop 1 regs)) s;
          s = unlock_crtc inb s;
          crtc = take 25 (drop 6 regs);
          crtc = crtc[3 := crtc ! 3 OR 0x80, 0x11 := crtc ! 0x11 AND NOT 0x80];
          s = write_regs 0x3D4 0x3D5 0 crtc s;
          s = write_regs 0x3CE 0x3CF 0 (take 9 (drop 31 regs)) s;
          s = write_regs 0x3C0 0x3C0 0 (take 21 (drop 40 regs)) s
      in outb 0x3C0 0x20 s)"

definition set_video_mode :: "((u16 \<times> u8) list \<Rightarrow> u16 \<Rightarrow> u8) \<Rightarrow> u8 \<Rightarrow> 'a vga_scheme \<Rightarrow> 'a vga_scheme" where
  "set_video_mode inb video_mode s =
     (if VIDEO_MODE s = video_mode then s
      else if video_mode = VIDEO_MODE_VGA_TEXT then (vga_write_regs inb g_80x25_text s)\<lparr>VIDEO_MODE := video_mode\<rparr>
      else s)"

text \<open>The type of the display comes from the BIOS data area.\<close>

definition vga_setup :: "'a vga_scheme heap_ops \<Rightarrow> nat \<Rightarrow> u32 \<Rightarrow> ((u16 \<times> u8) list \<Rightarrow> u16 \<Rightarrow> u8) \<Rightarrow> 'a vga_scheme \<Rightarrow> (bool \<times> 'a vga_scheme ctl) res" where
  "vga_setup h f buf inb s =
     (let s = set_video_mode inb VIDEO_MODE_VGA_TEXT s;
          vt = ucast (load16 (kmem s) 0xC0000410 AND 0x30);
          s = s\<lparr>VIDEO_TYPE := vt\<rparr> in
      if vt = VIDEO_TYPE_NONE then Inr (False, Returned s)
      else
        let s = (if vt = VIDEO_TYPE_MONOCHROME then s\<lparr>VGA_MEM_START := 0xC00B0000\<rparr> else s);
            s = (if vt = VIDEO_TYPE_COLOR then s\<lparr>VGA_MEM_START := 0xC00B8000\<rparr> else s);
            s = s\<lparr>VGA_MEM_END := VGA_MEM_START s + 0xFA0\<rparr>;
            s = vga_text_enable_cursor (vga_text_cls s) in
        bindR (kprintf h f buf (lit s (''%lVGA display setup done'' @ newline)) [1] s) (\<lambda>c. Inr (True, c)))"

end
