(* ===== verification/VK_Sched.thy ===== *)
theory VK_Sched
  imports VK_Task
begin

section \<open>Sleeping, waking and scheduling (tasking/scheduler)\<close>

text \<open>
  The sleep list is a doubly linked list in the store \<open>wnodes\<close>, so that an interrupt's entry can point into it.
  Freeing an entry removes it from the store: a later use of the pointer is \<open>BadPtr\<close>.
\<close>

definition scheduler_init :: "'a tasking_scheme heap_ops \<Rightarrow> 'a tasking_scheme \<Rightarrow> 'a tasking_scheme res" where
  "scheduler_init h s =
     bindR (queue_init (malloc h) 10 s) (\<lambda>(q, s).
     bindR (malloc h 8 (s\<lparr>p_ready_queue := q\<rparr>)) (\<lambda>(a, s).
     Inr (s\<lparr>wait_mutex := a, mutexes := (mutexes s)(a \<mapsto> \<lparr>mx_owner = 0, mx_waiting = []\<rparr>)\<rparr>)))"

definition scheduler_start :: "'a tasking_scheme \<Rightarrow> 'a tasking_scheme" where
  "scheduler_start s = s\<lparr>scheduler_started := True, cpu := (cpu s)\<lparr>c_if := True\<rparr>\<rparr>"

subsection \<open>Putting a thread to sleep\<close>

text \<open>The place of a new sleeper: walk while its remaining time reaches past the entry.\<close>

fun wait_place :: "nat \<Rightarrow> u32 \<Rightarrow> u32 \<Rightarrow> u32 \<Rightarrow> 'a tasking_scheme \<Rightarrow> (u32 \<times> u32) res" where
  "wait_place 0 ptr lst cumulated s = Inl NoFuel"
| "wait_place (Suc f) ptr lst cumulated s =
     (if ptr \<noteq> 0 \<and> cumulated \<noteq> 0 then
        bindR (wnode ptr s) (\<lambda>w.
        if cumulated < w_time w then Inr (ptr, lst)
        else wait_place f (w_next w) ptr (cumulated - w_time w) s)
      else Inr (ptr, lst))"

definition insert_sleeper :: "'a tasking_scheme heap_ops \<Rightarrow> nat \<Rightarrow> u32 \<Rightarrow> u32 \<Rightarrow> u16 \<Rightarrow> 'a tasking_scheme \<Rightarrow> (u32 \<times> 'a tasking_scheme) res" where
  "insert_sleeper h f p t wait_time s =
     bindR (wait_place f (wait_list s) 0 (ucast wait_time) s) (\<lambda>(ptr, lst).
     bindR (malloc h 12 s) (\<lambda>(e, s).
     let ptr = (if lst = 0 then 0 else ptr) in
     bindR (if lst = 0 then Inr (s\<lparr>wait_list := e\<rparr>) else upd_wnode lst (\<lambda>w. w\<lparr>w_next := e\<rparr>) s) (\<lambda>s.
     bindR (malloc h 12 s) (\<lambda>(element, s).
     bindR (upd_thr t (\<lambda>th. th\<lparr>t_status := THREAD_STATUS_ASLEEP_TIME\<rparr>)
       (s\<lparr>wnodes := (wnodes s)(e \<mapsto> \<lparr>w_element = element, w_process = p, w_time = ucast wait_time, w_thread = t,
          w_next = ptr, w_prev = lst\<rparr>)\<rparr>)) (\<lambda>s.
     Inr (e, s))))))"

definition insert_irq_waiter :: "'a tasking_scheme heap_ops \<Rightarrow> u32 \<Rightarrow> u32 \<Rightarrow> nat \<Rightarrow> u32 \<Rightarrow> 'a tasking_scheme \<Rightarrow> 'a tasking_scheme res" where
  "insert_irq_waiter h p t irq wait_entry s =
     bindR (malloc h 8 s) (\<lambda>(e, s).
     bindR (malloc h 12 s) (\<lambda>(element, s).
     upd_thr t (\<lambda>th. th\<lparr>t_status := THREAD_STATUS_ASLEEP_IRQ\<rparr>)
       (s\<lparr>irq_list := (irq_list s)(irq := irq_list s irq @ [(e, element, p, wait_entry, t)])\<rparr>)))"

definition scheduler_wait_thread :: "'a tasking_scheme heap_ops \<Rightarrow> nat \<Rightarrow> u32 \<Rightarrow> u32 \<Rightarrow> u8 \<Rightarrow> u16 \<Rightarrow> u16
    \<Rightarrow> 'a tasking_scheme \<Rightarrow> 'a tasking_scheme ctl res" where
  "scheduler_wait_thread h f p t sleep_reason sleep_data wait_time s =
     bindC (mutex_acquire h f (wait_mutex s) s) (\<lambda>s.
     bindR (if wait_time \<noteq> 0 \<and> (sleep_reason = SLEEP_WAIT_IRQ \<or> sleep_reason = SLEEP_TIME)
            then insert_sleeper h f p t wait_time s else Inr (0, s)) (\<lambda>(wait_entry, s).
     bindR (if sleep_data \<le> 20 \<and> sleep_reason = SLEEP_WAIT_IRQ
            then insert_irq_waiter h p t (unat sleep_data) wait_entry s else Inr s) (\<lambda>s.
     bindR (mutex_unlock h (wait_mutex s) s) (\<lambda>(err, s).
     scheduler_remove_thread h p t s))))"

subsection \<open>The clock tick\<close>

text \<open>The do-while loop of \<^verbatim>\<open>scheduler_sleep_update\<close>: wake the entry, and go on while the next has no time left.\<close>

fun wake_expired :: "'a tasking_scheme heap_ops \<Rightarrow> nat \<Rightarrow> u32 \<Rightarrow> 'a tasking_scheme \<Rightarrow> 'a tasking_scheme res" where
  "wake_expired h 0 ptr s = Inl NoFuel"
| "wake_expired h (Suc f) ptr s =
     bindR (wnode ptr s) (\<lambda>w.
     bindR (scheduler_add_thread h (w_process w) (w_thread w) s) (\<lambda>s.
     bindR (free h ptr (s\<lparr>wait_list := w_next w, wnodes := (wnodes s)(ptr := None)\<rparr>)) (\<lambda>s.
     if w_next w = 0 then Inr s
     else bindR (wnode (w_next w) s) (\<lambda>n. if w_time n = 0 then wake_expired h f (w_next w) s else Inr s))))"

definition scheduler_sleep_update :: "'a tasking_scheme heap_ops \<Rightarrow> nat \<Rightarrow> 'a tasking_scheme \<Rightarrow> 'a tasking_scheme res" where
  "scheduler_sleep_update h f s =
     (if wait_list s = 0 then Inr s
      else
        bindR (mutex_lock (wait_mutex s) s) (\<lambda>(err, s).
        if err \<noteq> ERROR_NONE then Inr s
        else
          bindR (wnode (wait_list s) s) (\<lambda>w.
          bindR (if 55 < w_time w then upd_wnode (wait_list s) (\<lambda>w. w\<lparr>w_time := w_time w - 55\<rparr>) s
                 else wake_expired h f (wait_list s) (s\<lparr>wait_list := 0\<rparr>)) (\<lambda>s.
          bindR (mutex_unlock h (wait_mutex s) s) (\<lambda>(err, s). Inr s)))))"

subsection \<open>Interrupts\<close>

text \<open>
  Taking the sleep-list entry of an interrupt waiter out of the list; for the first waiter the code tests the
  predecessor also when the entry is the head (\<open>first\<close>), for the others only when it is not.
\<close>

definition unlink_wait_entry :: "'a tasking_scheme heap_ops \<Rightarrow> bool \<Rightarrow> u32 \<Rightarrow> 'a tasking_scheme \<Rightarrow> 'a tasking_scheme res" where
  "unlink_wait_entry h first e s =
     bindR (wnode e s) (\<lambda>w.
     let head = (e = wait_list s);
         s = (if head then s\<lparr>wait_list := w_next w\<rparr> else s) in
     bindR (if (first \<or> \<not> head) \<and> w_prev w \<noteq> 0 then upd_wnode (w_prev w) (\<lambda>v. v\<lparr>w_next := w_next w\<rparr>) s else Inr s) (\<lambda>s.
     bindR (if w_next w \<noteq> 0 then upd_wnode (w_next w) (\<lambda>v. v\<lparr>w_prev := w_prev w\<rparr>) s else Inr s) (\<lambda>s.
     bindR (free h (w_element w) s) (\<lambda>s.
     free h e (s\<lparr>wnodes := (wnodes s)(e := None)\<rparr>)))))"

fun wake_irq_waiters :: "'a tasking_scheme heap_ops \<Rightarrow> bool \<Rightarrow> irq_entry list \<Rightarrow> 'a tasking_scheme \<Rightarrow> 'a tasking_scheme res" where
  "wake_irq_waiters h first [] s = Inr s"
| "wake_irq_waiters h first ((e, element, p, wait_entry, t) # rest) s =
     bindR (if wait_entry \<noteq> 0 then unlink_wait_entry h first wait_entry s else Inr s) (\<lambda>s.
     bindR (scheduler_add_thread h p t s) (\<lambda>s.
     bindR (free h element s) (\<lambda>s.
     bindR (free h e s) (\<lambda>s.
     wake_irq_waiters h False rest s))))"

definition scheduler_irq_wakeup :: "'a tasking_scheme heap_ops \<Rightarrow> nat \<Rightarrow> u32 \<Rightarrow> 'a tasking_scheme \<Rightarrow> 'a tasking_scheme ctl res" where
  "scheduler_irq_wakeup h f irq s =
     (if 21 \<le> irq then Inl BadPtr
      else if irq_list s (unat irq) = [] then Inr (Returned s)
      else
        bindC (mutex_acquire h f (wait_mutex s) s) (\<lambda>s.
        bindR (wake_irq_waiters h True (irq_list s (unat irq)) (s\<lparr>irq_list := (irq_list s)(unat irq := [])\<rparr>)) (\<lambda>s.
        bindR (mutex_unlock h (wait_mutex s) s) (\<lambda>(err, s). Inr (Returned s)))))"

subsection \<open>The tick of the scheduler (scheduler.s)\<close>

text \<open>
  \<^verbatim>\<open>schedule\<close> after its two calls: take the next ready process and one of its threads (its active one if no other
  is queued); with no ready process, another thread of the current one; with neither, return. The
  current process goes to the end of the ready queue when the process changes, unless it is the idle process.
\<close>

definition save_interrupted :: "u32 \<Rightarrow> cpu_regs \<Rightarrow> u32 \<Rightarrow> u32 \<Rightarrow> 'a tasking_scheme \<Rightarrow> 'a tasking_scheme res" where
  "save_interrupted p c eip fl s =
     bindR (proc p s) (\<lambda>x.
     bindR (upd_thr (active_thread x) (\<lambda>th. th\<lparr>gregs := c_gregs c, t_ebp := c_ebp c, t_eip := eip, t_esp := c_esp c, sregs := c_sregs c\<rparr>) s) (\<lambda>s.
     upd_proc p (\<lambda>x. x\<lparr>p_flags := fl\<rparr>) s))"

definition schedule_pick :: "'a tasking_scheme \<Rightarrow> ((u32 \<times> u32) option \<times> 'a tasking_scheme) res" where
  "schedule_pick s =
     (let (p, s) = queue_take (p_ready_queue s) s in
      if p \<noteq> 0 then
        bindR (proc p s) (\<lambda>x.
        let (t, s) = queue_take (running_threads x) s in
        Inr (Some (p, if t \<noteq> 0 then t else active_thread x), s))
      else
        bindR (proc (current_process s) s) (\<lambda>x.
        let (t, s) = queue_take (running_threads x) s in
        Inr (if t = 0 then None else Some (current_process s, t), s)))"

definition schedule_after :: "'a tasking_scheme heap_ops \<Rightarrow> cpu_regs \<Rightarrow> u32 \<Rightarrow> u32 \<Rightarrow> 'a tasking_scheme \<Rightarrow> 'a tasking_scheme ctl res" where
  "schedule_after h c eip fl s =
     bindR (schedule_pick s) (\<lambda>(r, s).
     case r of None \<Rightarrow> Inr (Returned s)
     | Some (p, t) \<Rightarrow>
         let old = current_process s in
         bindR (if old = 0 \<or> old = idle_process s then Inr s
                else bindR (save_interrupted old c eip fl s) (\<lambda>s.
                  if p = old then Inr s else queue_add (realloc h) (p_ready_queue s) old s)) (\<lambda>s.
         bindR (schedule_switch t p s) (\<lambda>s. Inr (Switched s))))"

end
