(* ===== verification/VK_Signal.thy ===== *)
theory VK_Signal
  imports VK_Sched
begin

section \<open>Process groups and signals (tasking/processes/groups.c, signal.c)\<close>

text \<open>
  The table of groups is an array of 12-byte records in the store \<open>pgroups\<close>, at the addresses
  \<open>groups + 12 * i\<close>; reading a slot outside the allocated array is \<open>BadPtr\<close>. A slot that was allocated but never
  written holds whatever the heap memory held.
\<close>

subsection \<open>Groups\<close>

definition DEFAULT_GROUP_SIZE :: u32 where "DEFAULT_GROUP_SIZE = 10"

definition group_addr :: "'a tasking_scheme \<Rightarrow> u32 \<Rightarrow> u32" where
  "group_addr s i = groups s + 12 * i"

definition grp :: "u32 \<Rightarrow> 'a tasking_scheme \<Rightarrow> pgroup res" where
  "grp a s = (case pgroups s a of None \<Rightarrow> Inl BadPtr | Some g \<Rightarrow> Inr g)"

definition upd_grp :: "u32 \<Rightarrow> (pgroup \<Rightarrow> pgroup) \<Rightarrow> 'a tasking_scheme \<Rightarrow> 'a tasking_scheme res" where
  "upd_grp a g s = bindR (grp a s) (\<lambda>x. Inr (s\<lparr>pgroups := (pgroups s)(a \<mapsto> g x)\<rparr>))"

definition raw_group :: "mem \<Rightarrow> u32 \<Rightarrow> pgroup" where
  "raw_group m a = \<lparr>gid = sint (load32 m a), g_processes = [], g_session = load32 m (a + 8)\<rparr>"

fun raw_groups :: "mem \<Rightarrow> u32 \<Rightarrow> nat \<Rightarrow> (u32 \<Rightarrow> pgroup option) \<Rightarrow> u32 \<Rightarrow> pgroup option" where
  "raw_groups m a 0 st = st"
| "raw_groups m a (Suc n) st = raw_groups m (a + 12) n (st(a \<mapsto> raw_group m a))"

definition groups_init :: "'a tasking_scheme heap_ops \<Rightarrow> 'a tasking_scheme \<Rightarrow> 'a tasking_scheme res" where
  "groups_init h s =
     bindR (malloc h (12 * DEFAULT_GROUP_SIZE) (s\<lparr>groups_size := DEFAULT_GROUP_SIZE\<rparr>)) (\<lambda>(a, s).
     Inr (s\<lparr>groups := a, pgroups := raw_groups (kmem s) a (unat DEFAULT_GROUP_SIZE) (pgroups s)\<rparr>))"

text \<open>The binary search; its bounds are unsigned and the last one is inclusive. The fuel bounds the halvings.\<close>

fun get_group_from :: "nat \<Rightarrow> int \<Rightarrow> u32 \<Rightarrow> u32 \<Rightarrow> 'a tasking_scheme \<Rightarrow> u32 res" where
  "get_group_from 0 g start end' s = Inl NoFuel"
| "get_group_from (Suc f) g start end' s =
     (if start \<le> end' then
        let off = (start + end') div 2 in
        bindR (grp (group_addr s off) s) (\<lambda>x.
        if gid x = g then Inr (group_addr s off)
        else if gid x < g then get_group_from f g (off + 1) end' s
        else get_group_from f g start (off - 1) s)
      else Inr 0)"

definition get_group :: "nat \<Rightarrow> int \<Rightarrow> 'a tasking_scheme \<Rightarrow> u32 res" where
  "get_group f g s = get_group_from f g 0 (groups_number s) s"

text \<open>The search of \<^verbatim>\<open>process_setgroup\<close> also keeps the last position looked at.\<close>

fun find_group :: "nat \<Rightarrow> int \<Rightarrow> u32 \<Rightarrow> u32 \<Rightarrow> u32 \<Rightarrow> 'a tasking_scheme \<Rightarrow> (bool \<times> u32) res" where
  "find_group 0 g start end' off s = Inl NoFuel"
| "find_group (Suc f) g start end' off s =
     (if start \<le> end' then
        let off = (start + end') div 2 in
        bindR (grp (group_addr s off) s) (\<lambda>x.
        if gid x = g then Inr (True, off)
        else if gid x < g then find_group f g (off + 1) end' off s
        else find_group f g start (off - 1) off s)
      else Inr (False, off))"

text \<open>\<^verbatim>\<open>memcpy(&groups[off+1], &groups[off], n*sizeof(pgroup_t))\<close>: the copy runs upwards, so it reads slots it has
  already written.\<close>

fun shift_groups :: "nat \<Rightarrow> u32 \<Rightarrow> 'a tasking_scheme \<Rightarrow> 'a tasking_scheme res" where
  "shift_groups 0 off s = Inr s"
| "shift_groups (Suc n) off s =
     bindR (grp (group_addr s off) s) (\<lambda>x.
     bindR (upd_grp (group_addr s (off + 1)) (\<lambda>_. x) s) (shift_groups n (off + 1)))"

text \<open>\<^verbatim>\<open>krealloc\<close> of the table: the old slots move, the new ones hold raw memory.\<close>

fun move_groups :: "u32 \<Rightarrow> u32 \<Rightarrow> nat \<Rightarrow> (u32 \<Rightarrow> pgroup option) \<Rightarrow> (u32 \<Rightarrow> pgroup option) \<Rightarrow> u32 \<Rightarrow> pgroup option" where
  "move_groups old new 0 from st = st"
| "move_groups old new (Suc n) from st =
     move_groups (old + 12) (new + 12) n from ((st(old := None))(new := from old))"

definition grow_groups :: "'a tasking_scheme heap_ops \<Rightarrow> 'a tasking_scheme \<Rightarrow> 'a tasking_scheme res" where
  "grow_groups h s =
     (let n = groups_size s in
      bindR (realloc h (groups s) (n * 2 * 12) (s\<lparr>groups_size := n * 2\<rparr>)) (\<lambda>(a, s).
      let st = move_groups (groups s) a (unat n) (pgroups s) (pgroups s) in
      Inr (s\<lparr>groups := a, pgroups := raw_groups (kmem s) (a + 12 * n) (unat n) st\<rparr>)))"

fun remove_member :: "u32 \<Rightarrow> bool \<Rightarrow> (u32 \<times> u32) list \<Rightarrow> ((u32 \<times> u32) list \<times> u32 option)" where
  "remove_member p hasbef [] = ([], None)"
| "remove_member p hasbef ((e, x) # xs) =
     (if x = p then (if hasbef then xs else [], Some e)
      else let (ys, fr) = remove_member p True xs in ((e, x) # ys, fr))"

definition ERROR_IS_SESSION_LEADER :: u32 where "ERROR_IS_SESSION_LEADER = 27"
definition ERROR_IS_ANOTHER_SESSION :: u32 where "ERROR_IS_ANOTHER_SESSION = 28"

text \<open>\<^verbatim>\<open>((pgroup_t*)process->session->groups->element)->processes->element\<close>: the session leader.\<close>

definition session_leader :: "u32 \<Rightarrow> 'a tasking_scheme \<Rightarrow> u32 res" where
  "session_leader sid s =
     (case sessions s sid of None \<Rightarrow> Inl BadPtr
      | Some sn \<Rightarrow> (case s_groups sn of [] \<Rightarrow> Inl BadPtr
         | (_, g) # _ \<Rightarrow> bindR (grp g s) (\<lambda>x. case g_processes x of [] \<Rightarrow> Inl BadPtr | (_, p) # _ \<Rightarrow> Inr p)))"

definition leave_old_group :: "'a tasking_scheme heap_ops \<Rightarrow> u32 \<Rightarrow> u32 \<Rightarrow> 'a tasking_scheme \<Rightarrow> (u32 \<times> 'a tasking_scheme) res" where
  "leave_old_group h p off s =
     bindR (proc p s) (\<lambda>x.
     bindR (grp (p_group x) s) (\<lambda>g.
     let (ps, fr) = remove_member p False (g_processes g) in
     bindR (upd_grp (p_group x) (\<lambda>g. g\<lparr>g_processes := ps\<rparr>) s) (\<lambda>s.
     bindR (case fr of None \<Rightarrow> Inr s | Some e \<Rightarrow> free h e s) (\<lambda>s.
     bindR (upd_proc p (\<lambda>x. x\<lparr>p_group := group_addr s off\<rparr>) s) (\<lambda>s.
     Inr (ERROR_NONE, s))))))"

definition process_setgroup :: "'a tasking_scheme heap_ops \<Rightarrow> nat \<Rightarrow> int \<Rightarrow> u32 \<Rightarrow> 'a tasking_scheme \<Rightarrow> (u32 \<times> 'a tasking_scheme) res" where
  "process_setgroup h f g p s =
     bindR (proc p s) (\<lambda>x.
     bindR (session_leader (p_session x) s) (\<lambda>leader.
     if leader = p then Inr (ERROR_IS_SESSION_LEADER, s)
     else
       bindR (find_group f g 0 (groups_number s) 0 s) (\<lambda>(found, off).
       if found then
         bindR (grp (group_addr s off) s) (\<lambda>y.
         if p_session x \<noteq> g_session y then Inr (ERROR_IS_ANOTHER_SESSION, s)
         else
           bindR (malloc h 8 s) (\<lambda>(e, s).
           bindR (upd_grp (group_addr s off) (\<lambda>y. y\<lparr>g_processes := g_processes y @ [(e, p)]\<rparr>) s) (\<lambda>s.
           leave_old_group h p off s)))
       else
         bindR (if groups_number s = groups_size s then grow_groups h s else Inr s) (\<lambda>s.
         bindR (shift_groups (unat (groups_number s - off)) off s) (\<lambda>s.
         bindR (malloc h 8 (s\<lparr>groups_number := groups_number s + 1\<rparr>)) (\<lambda>(e, s).
         bindR (upd_grp (group_addr s off) (\<lambda>_. \<lparr>gid = g, g_processes = [(e, p)], g_session = p_session x\<rparr>) s) (\<lambda>s.
         leave_old_group h p off s)))))))"

subsection \<open>Signals\<close>

definition NSIG :: int where "NSIG = 29"
definition SIGCHLD :: int where "SIGCHLD = 4"
definition SIGCONT :: int where "SIGCONT = 5"
definition EXIT_CONDITION_SIGNAL :: u32 where "EXIT_CONDITION_SIGNAL = push_bit 8 2"

definition default_action :: "nat list" where
  "default_action = [2, 1, 1, 1, 2, 2, 1, 1, 1, 1, 1, 1, 1, 1, 4, 1, 4, 4, 4, 1, 1, 1, 1, 1, 1, 2, 1, 1, 1]"

definition signals_init :: "'a tasking_scheme heap_ops \<Rightarrow> 'a tasking_scheme \<Rightarrow> 'a tasking_scheme res" where
  "signals_init h s =
     bindR (malloc h 8 s) (\<lambda>(a, s).
     Inr (s\<lparr>signal_mutex := a, mutexes := (mutexes s)(a \<mapsto> \<lparr>mx_owner = 0, mx_waiting = []\<rparr>)\<rparr>))"

text \<open>The default action EXIT: a new thread of the process that runs \<^verbatim>\<open>exit_process\<close> on its kernel stack.\<close>

definition spawn_exit_thread :: "'a tasking_scheme heap_ops \<Rightarrow> u32 \<Rightarrow> int \<Rightarrow> 'a tasking_scheme \<Rightarrow> 'a tasking_scheme res" where
  "spawn_exit_thread h p sig s =
     bindR (init_thread h s) (\<lambda>(t, s).
     bindR (thr t s) (\<lambda>th.
     let kesp = t_kesp th - 4 * 0x10;
         m = store32 (kmem s) (kesp + 8) (EXIT_CONDITION_SIGNAL OR (word_of_int sig AND 0xFF));
         m = store32 m (kesp + 4) p in
     bindR (upd_thr t (\<lambda>th. th\<lparr>t_eip := label_exit_process s, t_esp := kesp,
       sregs := \<lparr>ds = 0x10, es = 0x10, fs = 0x10, gs = 0x10, ss = 0x10, cs = 0x08\<rparr>\<rparr>) (s\<lparr>kmem := m\<rparr>)) (\<lambda>s.
     scheduler_add_thread h p t s)))"

definition handle_signal :: "'a tasking_scheme heap_ops \<Rightarrow> u32 \<Rightarrow> int \<Rightarrow> 'a tasking_scheme \<Rightarrow> 'a tasking_scheme ctl res" where
  "handle_signal h p sig s =
     bindR (proc p s) (\<lambda>x.
     if p_status x = PROCESS_STATUS_ZOMBIE then Inr (Returned s)
     else
       let handler = signal_handlers x (nat sig) in
       bindR (if sig = SIGCONT \<and> p_status x = PROCESS_STATUS_ASLEEP_SIGNAL then scheduler_add_process h p s else Inr s) (\<lambda>s.
       bindR (proc p s) (\<lambda>x.
       if handler = 0 then
         if default_action ! nat sig = 1 then
           (if pid x \<noteq> 1 then returned (spawn_exit_thread h p sig s) else Inr (Returned s))
         else if default_action ! nat sig = 4 then
           (if p \<noteq> current_process s \<and> p_status x = PROCESS_STATUS_RUNNING then
              bindR (upd_proc p (\<lambda>x. x\<lparr>p_status := PROCESS_STATUS_ASLEEP_SIGNAL\<rparr>) s) (scheduler_remove_process p)
            else Inr (Returned s))
         else Inr (Returned s)
       else Inr (Returned s))))"

text \<open>The loop of \<^verbatim>\<open>handle_signals\<close>; the lock is tried once, and the thread waits when that fails.\<close>

fun handle_signals_from :: "'a tasking_scheme heap_ops \<Rightarrow> (u32 \<times> u32 \<times> u32 \<times> int) list \<Rightarrow> 'a tasking_scheme \<Rightarrow> 'a tasking_scheme ctl res" where
  "handle_signals_from h [] s = Inr (Returned s)"
| "handle_signals_from h ((e, element, p, sig) # rest) s =
     bindC (handle_signal h p sig s) (\<lambda>s.
     bindC (bindR (mutex_lock (signal_mutex s) s) (\<lambda>(err, s).
            if err \<noteq> ERROR_NONE then mutex_wait h (signal_mutex s) s else Inr (Returned s))) (\<lambda>s.
     bindR (free h element s) (\<lambda>s.
     bindR (free h e s) (\<lambda>s.
     bindR (mutex_unlock h (signal_mutex s) (s\<lparr>signal_list := rest\<rparr>)) (\<lambda>(err, s).
     handle_signals_from h rest s)))))"

definition handle_signals :: "'a tasking_scheme heap_ops \<Rightarrow> 'a tasking_scheme \<Rightarrow> 'a tasking_scheme ctl res" where
  "handle_signals h s = (if signal_list s = [] then Inr (Returned s) else handle_signals_from h (signal_list s) s)"

definition processes_at :: "int \<Rightarrow> 'a tasking_scheme \<Rightarrow> u32" where
  "processes_at j s = load32 (kmem s) (processes s + 4 * word_of_int j)"

definition send_signal :: "'a tasking_scheme heap_ops \<Rightarrow> nat \<Rightarrow> int \<Rightarrow> int \<Rightarrow> 'a tasking_scheme \<Rightarrow> 'a tasking_scheme ctl res" where
  "send_signal h f pd sig s =
     (let p = processes_at pd s in
      bindR (proc p s) (\<lambda>x.
      if p_status x = PROCESS_STATUS_ZOMBIE then Inr (Returned s)
      else if sig \<le> 0 \<or> NSIG \<le> sig then Inr (Returned s)
      else
        bindC (mutex_acquire h f (signal_mutex s) s) (\<lambda>s.
        bindR (malloc h 8 s) (\<lambda>(e, s).
        bindR (malloc h 8 s) (\<lambda>(element, s).
        bindR (mutex_unlock h (signal_mutex s) (s\<lparr>signal_list := signal_list s @ [(e, element, p, sig)]\<rparr>)) (\<lambda>(err, s).
        Inr (Returned s)))))))"

fun send_signals :: "'a tasking_scheme heap_ops \<Rightarrow> nat \<Rightarrow> (u32 \<times> u32) list \<Rightarrow> int \<Rightarrow> 'a tasking_scheme \<Rightarrow> 'a tasking_scheme ctl res" where
  "send_signals h f [] sig s = Inr (Returned s)"
| "send_signals h f ((e, p) # ps) sig s =
     bindR (proc p s) (\<lambda>x. bindC (send_signal h f (pid x) sig s) (send_signals h f ps sig))"

definition send_signal_to_group :: "'a tasking_scheme heap_ops \<Rightarrow> nat \<Rightarrow> int \<Rightarrow> int \<Rightarrow> 'a tasking_scheme \<Rightarrow> 'a tasking_scheme ctl res" where
  "send_signal_to_group h f g sig s =
     bindR (get_group f g s) (\<lambda>a.
     if sig \<le> 0 \<or> NSIG \<le> sig then Inr (Returned s)
     else bindR (grp a s) (\<lambda>x. send_signals h f (g_processes x) sig s))"

text \<open>The timer interrupt: sleepers, signals, then the switch (scheduler.s).\<close>

definition schedule :: "'a tasking_scheme heap_ops \<Rightarrow> nat \<Rightarrow> cpu_regs \<Rightarrow> u32 \<Rightarrow> u32 \<Rightarrow> 'a tasking_scheme \<Rightarrow> 'a tasking_scheme ctl res" where
  "schedule h f c eip fl s =
     bindR (scheduler_sleep_update h f s) (\<lambda>s.
     bindC (handle_signals h s) (schedule_after h c eip fl))"

end
