(* ===== verification/VK_Stream.thy ===== *)
theory VK_Stream
  imports VK_Vga VK_Signal VK_Time
begin

section \<open>Streams and device nodes (io/stream.c, filesystem/devfs.c)\<close>

text \<open>
  The console state: streams, terminals, file nodes and device records are typed stores indexed by address; the bytes
  of their buffers and the entries of the device directory are in byte memory. A call that returns a value has a
  \<open>call\<close> result: \<open>Ret v s\<close>, or \<open>Yield s\<close> when it switched to another thread.
\<close>

subsection \<open>State\<close>

text \<open>An entry of a stream's waiting list: its address, its element's, the process and the thread.\<close>

record iostream =
  io_buffer :: u32
  io_count :: u32
  io_buffer_size :: u32
  io_attributes :: u32
  io_file :: u32
  io_waiting :: "(u32 \<times> u32 \<times> u32 \<times> u32) list"

record termios =
  c_iflag :: u32
  c_oflag :: u32
  c_cflag :: u32
  c_lflag :: u32
  c_cc :: "nat \<Rightarrow> u8"

record tty =
  tty_buffer :: u32
  tty_count :: u32
  tty_buffer_size :: u32
  canon_buffer :: u32
  canon_buffer_count :: u32
  canon_buffer_size :: u32
  char_width :: u32
  char_height :: u32
  cursor_pos :: u32
  keyboard_stream :: u32
  tty_pointer :: u32
  termio :: termios
  foreground_processes :: u32
  tty_session :: u32

record fsnode =
  fn_file_system :: u32
  fn_length :: u64
  fn_attributes :: u8
  fn_hard_links :: u32
  fn_creation_time :: int
  fn_last_access_time :: int
  fn_last_modification_time :: int
  fn_specific :: u32

record devfs_node_specific =
  device_struct :: u32
  device_type :: u32
  device_info :: u32

record file_system =
  fs_drive :: u32
  fs_partition :: u8
  fs_type :: u8
  fs_flags :: u8
  fs_root_dir :: u32
  fs_inode_cache :: u32
  fs_cache_mutex :: u32
  fs_inode_cache_size :: u32
  fs_specific :: u32

record console = vga +
  streams :: "u32 \<Rightarrow> iostream option"
  ttys :: "u32 \<Rightarrow> tty option"
  fsnodes :: "u32 \<Rightarrow> fsnode option"
  devspecs :: "u32 \<Rightarrow> devfs_node_specific option"
  fsystems :: "u32 \<Rightarrow> file_system option"
  devfs :: u32
  tty1 :: u32
  tty2 :: u32
  tty3 :: u32
  current_tty :: u32
  kbd_maj :: bool
  kbd_ctrl :: bool
  kbd_alt :: bool
  cmos_flags :: u8

definition the_obj :: "'v option \<Rightarrow> 'v res" where
  "the_obj x = (case x of None \<Rightarrow> Inl BadPtr | Some v \<Rightarrow> Inr v)"

lemma the_obj_simps [simp, res_simps]: "the_obj None = Inl BadPtr" "the_obj (Some v) = Inr v"
  by (simp_all add: the_obj_def)

definition upd_stream :: "u32 \<Rightarrow> (iostream \<Rightarrow> iostream) \<Rightarrow> 'a console_scheme \<Rightarrow> 'a console_scheme res" where
  "upd_stream a g s = bindR (the_obj (streams s a)) (\<lambda>x. Inr (s\<lparr>streams := (streams s)(a \<mapsto> g x)\<rparr>))"

definition upd_tty :: "u32 \<Rightarrow> (tty \<Rightarrow> tty) \<Rightarrow> 'a console_scheme \<Rightarrow> 'a console_scheme res" where
  "upd_tty a g s = bindR (the_obj (ttys s a)) (\<lambda>x. Inr (s\<lparr>ttys := (ttys s)(a \<mapsto> g x)\<rparr>))"

datatype ('v, 's) call = Ret 'v 's | Yield 's

definition bindV :: "('v, 's) call res \<Rightarrow> ('v \<Rightarrow> 's \<Rightarrow> ('w, 's) call res) \<Rightarrow> ('w, 's) call res" where
  "bindV r f = bindR r (\<lambda>c. case c of Ret v s \<Rightarrow> f v s | Yield s \<Rightarrow> Inr (Yield s))"

definition after :: "'s ctl res \<Rightarrow> ('s \<Rightarrow> ('w, 's) call res) \<Rightarrow> ('w, 's) call res" where
  "after r f = bindR r (\<lambda>c. case c of Returned s \<Rightarrow> f s | Switched s \<Rightarrow> Inr (Yield s))"

definition dropped :: "('v, 's) call res \<Rightarrow> 's ctl res" where
  "dropped r = bindR r (\<lambda>c. case c of Ret v s \<Rightarrow> Inr (Returned s) | Yield s \<Rightarrow> Inr (Switched s))"

lemma call_simps [simp, res_simps]:
  "bindV (Inl e) f = Inl e" "bindV (Inr (Ret v s)) f = f v s" "bindV (Inr (Yield s)) f = Inr (Yield s)"
  "after (Inl e) g = Inl e" "after (Inr (Returned s)) g = g s" "after (Inr (Switched s)) g = Inr (Yield s)"
  "dropped (Inl e) = Inl e" "dropped (Inr (Ret v s)) = Inr (Returned s)" "dropped (Inr (Yield s)) = Inr (Switched s)"
  by (simp_all add: bindV_def after_def dropped_def)

definition UNKNOWN_ERROR :: u32 where "UNKNOWN_ERROR = 1"
definition ERROR_FILE_FS_INTERNAL :: u32 where "ERROR_FILE_FS_INTERNAL = 16"
definition ERROR_FILE_OUT :: u32 where "ERROR_FILE_OUT = 17"
definition ERROR_EOF :: u32 where "ERROR_EOF = 20"
definition ERROR_PERMISSION :: u32 where "ERROR_PERMISSION = 41"
definition ERROR_NO_TTY :: u32 where "ERROR_NO_TTY = 42"
definition ERROR_IO :: u32 where "ERROR_IO = 44"

subsection \<open>Streams\<close>

definition IOSTREAM_DEFAULT_BUFFER_SIZE :: u32 where "IOSTREAM_DEFAULT_BUFFER_SIZE = 100"
definition IOSTREAM_ATTR_BLOCKING_READ :: u32 where "IOSTREAM_ATTR_BLOCKING_READ = 1"
definition IOSTREAM_ATTR_BLOCKING_WRITE :: u32 where "IOSTREAM_ATTR_BLOCKING_WRITE = 2"
definition IOSTREAM_ATTR_AUTOEXPAND :: u32 where "IOSTREAM_ATTR_AUTOEXPAND = 4"
definition IOSTREAM_ATTR_ONE_BYTE :: u32 where "IOSTREAM_ATTR_ONE_BYTE = 8"
definition THREAD_STATUS_ASLEEP_IO :: u32 where "THREAD_STATUS_ASLEEP_IO = 5"

lemmas iostream_consts = IOSTREAM_DEFAULT_BUFFER_SIZE_def IOSTREAM_ATTR_BLOCKING_READ_def IOSTREAM_ATTR_BLOCKING_WRITE_def
  IOSTREAM_ATTR_AUTOEXPAND_def IOSTREAM_ATTR_ONE_BYTE_def

definition DEVFS_TYPE_DIRECTORY :: u32 where "DEVFS_TYPE_DIRECTORY = 1"
definition DEVFS_TYPE_BLOCKDEV :: u32 where "DEVFS_TYPE_BLOCKDEV = 2"
definition DEVFS_TYPE_BLOCKDEV_PART :: u32 where "DEVFS_TYPE_BLOCKDEV_PART = 3"
definition DEVFS_TYPE_TTY :: u32 where "DEVFS_TYPE_TTY = 4"
definition DEVFS_TYPE_IOSTREAM :: u32 where "DEVFS_TYPE_IOSTREAM = 5"

definition iostream_alloc :: "'a console_scheme heap_ops \<Rightarrow> 'a console_scheme \<Rightarrow> (u32 \<times> 'a console_scheme) res" where
  "iostream_alloc h s =
     bindR (malloc h 24 s) (\<lambda>(tr, s).
     bindR (malloc h IOSTREAM_DEFAULT_BUFFER_SIZE s) (\<lambda>(b, s).
     bindR (malloc h 36 s) (\<lambda>(file, s).
     bindR (malloc h 12 s) (\<lambda>(spe, s).
     Inr (tr, s\<lparr>
       streams := (streams s)(tr \<mapsto> \<lparr>io_buffer = b, io_count = 0, io_buffer_size = IOSTREAM_DEFAULT_BUFFER_SIZE,
         io_attributes = IOSTREAM_ATTR_BLOCKING_READ OR IOSTREAM_ATTR_AUTOEXPAND, io_file = file, io_waiting = []\<rparr>),
       fsnodes := (fsnodes s)(file \<mapsto> \<lparr>fn_file_system = devfs s, fn_length = 0, fn_attributes = 0, fn_hard_links = 0,
         fn_creation_time = 0, fn_last_access_time = 0, fn_last_modification_time = 0, fn_specific = spe\<rparr>),
       devspecs := (devspecs s)(spe \<mapsto> \<lparr>device_struct = tr, device_type = DEVFS_TYPE_IOSTREAM, device_info = 0\<rparr>)\<rparr>)))))"

definition iostream_free :: "'a console_scheme heap_ops \<Rightarrow> u32 \<Rightarrow> 'a console_scheme \<Rightarrow> 'a console_scheme res" where
  "iostream_free h a s =
     bindR (the_obj (streams s a)) (\<lambda>x.
     bindR (free h (io_buffer x) s) (\<lambda>s.
     free h a (s\<lparr>streams := (streams s)(a := None)\<rparr>)))"

definition iostream_wait :: "'a console_scheme heap_ops \<Rightarrow> u32 \<Rightarrow> 'a console_scheme \<Rightarrow> 'a console_scheme ctl res" where
  "iostream_wait h a s =
     bindR (malloc h 8 s) (\<lambda>(e, s).
     bindR (malloc h 8 s) (\<lambda>(element, s).
     bindR (proc (current_process s) s) (\<lambda>p.
     bindR (upd_stream a (\<lambda>x. x\<lparr>io_waiting := io_waiting x @ [(e, element, current_process s, active_thread p)]\<rparr>) s) (\<lambda>s.
     bindR (upd_thr (active_thread p) (\<lambda>t. t\<lparr>t_status := THREAD_STATUS_ASLEEP_IO\<rparr>) s) (\<lambda>s.
     scheduler_remove_thread h (current_process s) (active_thread p) s)))))"

fun wake_stream_waiters :: "'a console_scheme heap_ops \<Rightarrow> (u32 \<times> u32 \<times> u32 \<times> u32) list \<Rightarrow> 'a console_scheme \<Rightarrow> 'a console_scheme res" where
  "wake_stream_waiters h [] s = Inr s"
| "wake_stream_waiters h ((e, element, p, t) # rest) s =
     bindR (scheduler_add_thread h p t s) (\<lambda>s.
     bindR (free h e s) (wake_stream_waiters h rest))"

definition iostream_wake :: "'a console_scheme heap_ops \<Rightarrow> u32 \<Rightarrow> 'a console_scheme \<Rightarrow> 'a console_scheme res" where
  "iostream_wake h a s =
     bindR (the_obj (streams s a)) (\<lambda>x.
     bindR (wake_stream_waiters h (io_waiting x) s) (upd_stream a (\<lambda>x. x\<lparr>io_waiting := []\<rparr>)))"

text \<open>\<^verbatim>\<open>!iostream->attributes & IOSTREAM_ATTR_BLOCKING_READ\<close> negates the attributes, not the test.\<close>

definition not_and :: "u32 \<Rightarrow> u32 \<Rightarrow> bool" where
  "not_and attributes flag \<longleftrightarrow> (if attributes = 0 then 1 else 0) AND flag \<noteq> 0"

fun iostream_getch :: "'a console_scheme heap_ops \<Rightarrow> nat \<Rightarrow> u32 \<Rightarrow> 'a console_scheme \<Rightarrow> (u8, 'a console_scheme) call res" where
  "iostream_getch h 0 a s = Inl NoFuel"
| "iostream_getch h (Suc f) a s =
     bindR (the_obj (streams s a)) (\<lambda>x.
     if io_count x \<noteq> 0 then
       let tr = kmem s (io_buffer x);
           n = io_count x - 1;
           s = s\<lparr>streams := (streams s)(a \<mapsto> x\<lparr>io_count := n\<rparr>)\<rparr>
       in Inr (Ret tr (s\<lparr>kmem := memcpy (kmem s) (io_buffer x) (io_buffer x + 1) (unat n)\<rparr>))
     else if not_and (io_attributes x) IOSTREAM_ATTR_BLOCKING_READ then Inr (Ret 0 s)
     else after (iostream_wait h a s) (iostream_getch h f a))"

text \<open>
  When the stream is full and may block, the code spins until another thread takes characters out; this call
  alone never ends.
\<close>

definition iostream_write :: "'a console_scheme heap_ops \<Rightarrow> u32 \<Rightarrow> u32 \<Rightarrow> u32 \<Rightarrow> 'a console_scheme \<Rightarrow> (u32 \<times> 'a console_scheme) res" where
  "iostream_write h buffer count a s =
     bindR (the_obj (streams s a)) (\<lambda>x.
     let full = io_buffer_size x < io_count x + count in
     if full \<and> io_attributes x AND IOSTREAM_ATTR_AUTOEXPAND = 0 then
       if io_attributes x AND IOSTREAM_ATTR_BLOCKING_WRITE \<noteq> 0 then Inl NoFuel else Inr (ERROR_FILE_OUT, s)
     else
       bindR (if full then
                bindR (upd_stream a (\<lambda>x. x\<lparr>io_buffer_size := io_buffer_size x * 2\<rparr>) s) (\<lambda>s.
                bindR (realloc h (io_buffer x) (io_buffer_size x * 2) s) (\<lambda>(b, s).
                upd_stream a (\<lambda>x. x\<lparr>io_buffer := b\<rparr>) s))
              else Inr s) (\<lambda>s.
       bindR (the_obj (streams s a)) (\<lambda>x.
       bindR (upd_stream a (\<lambda>x. x\<lparr>io_count := io_count x + count\<rparr>)
         (s\<lparr>kmem := memcpy (kmem s) (io_buffer x + io_count x) buffer (unat count)\<rparr>)) (\<lambda>s.
       bindR (iostream_wake h a s) (\<lambda>s. Inr (ERROR_NONE, s))))))"

fun iostream_read :: "'a console_scheme heap_ops \<Rightarrow> nat \<Rightarrow> u32 \<Rightarrow> u32 \<Rightarrow> u32 \<Rightarrow> 'a console_scheme \<Rightarrow> (u32, 'a console_scheme) call res" where
  "iostream_read h 0 buffer count a s = Inl NoFuel"
| "iostream_read h (Suc f) buffer count a s =
     bindR (the_obj (streams s a)) (\<lambda>x.
     if (io_attributes x OR IOSTREAM_ATTR_ONE_BYTE) \<noteq> 0 \<and> 1 < count then Inr (Ret ERROR_FILE_FS_INTERNAL s)
     else if io_count x \<noteq> 0 then
       let countmin = (if io_count x < count then io_count x else count);
           m = memcpy (kmem s) buffer (io_buffer x) (unat countmin);
           m = (if io_count x < count then memset m (buffer + count) 0 (unat (count - io_count x)) else m);
           n = io_count x - countmin
       in Inr (Ret ERROR_NONE (s\<lparr>streams := (streams s)(a \<mapsto> x\<lparr>io_count := n\<rparr>),
            kmem := memcpy m (io_buffer x) (io_buffer x + countmin) (unat n)\<rparr>))
     else if not_and (io_attributes x) IOSTREAM_ATTR_BLOCKING_READ then Inr (Ret ERROR_EOF s)
     else after (iostream_wait h a s) (iostream_read h f buffer count a))"

subsection \<open>The device directory\<close>

text \<open>
  A directory is an array of 8-byte entries in byte memory: the node's address, then the name's. The search for a
  free slot looks at the first byte of the entry only; it ends at a free slot (\<open>True\<close>) or at the end.
\<close>

fun free_slot :: "nat \<Rightarrow> u32 \<Rightarrow> u32 \<Rightarrow> mem \<Rightarrow> (bool \<times> u32) res" where
  "free_slot 0 dirptr lim m = Inl NoFuel"
| "free_slot (Suc f) dirptr lim m =
     (if dirptr < lim then if m dirptr = 0 then Inr (True, dirptr) else free_slot f (dirptr + 8) lim m
      else Inr (False, dirptr))"

text \<open>Copy the name and link the node at the entry \<open>dirent\<close>.\<close>

definition set_dirent :: "'a console_scheme heap_ops \<Rightarrow> u32 \<Rightarrow> u32 \<Rightarrow> u32 \<Rightarrow> 'a console_scheme \<Rightarrow> 'a console_scheme res" where
  "set_dirent h dirent name node s =
     bindR (the_res (strlen (kmem s) name)) (\<lambda>name_len.
     bindR (malloc h (name_len + 1) s) (\<lambda>(p, s).
     let m = store32 (kmem s) (dirent + 4) p in
     bindR (the_res (strcpy m p name)) (\<lambda>m.
     let m = m(p + name_len := 0);
         m = store32 m dirent node
     in Inr (s\<lparr>kmem := m\<rparr>))))"

definition devfs_register_device :: "'a console_scheme heap_ops \<Rightarrow> (u8 \<Rightarrow> u8) \<Rightarrow> nat \<Rightarrow> u32 \<Rightarrow> u32 \<Rightarrow> u32 \<Rightarrow> u32 \<Rightarrow> u32
    \<Rightarrow> 'a console_scheme \<Rightarrow> (u32 \<times> 'a console_scheme) res" where
  "devfs_register_device h reg f dir name device dev_type dev_info s =
     bindR (malloc h 36 s) (\<lambda>(node, s).
     bindR (get_current_time_utc (malloc h) reg (cmos_flags s) s) (\<lambda>(now, fl, s).
     bindR (malloc h 12 (s\<lparr>cmos_flags := fl\<rparr>)) (\<lambda>(spe, s).
     let s = s\<lparr>fsnodes := (fsnodes s)(node \<mapsto> \<lparr>fn_file_system = devfs s, fn_length = 0, fn_attributes = 0,
                 fn_hard_links = load32 (kmem s) (node + 16), fn_creation_time = now, fn_last_access_time = now,
                 fn_last_modification_time = now, fn_specific = spe\<rparr>),
               devspecs := (devspecs s)(spe \<mapsto> \<lparr>device_struct = device, device_type = dev_type, device_info = dev_info\<rparr>)\<rparr> in
     bindR (the_obj (fsnodes s dir)) (\<lambda>d.
     bindR (the_obj (devspecs s (fn_specific d))) (\<lambda>dirspe.
     bindR (free_slot f (device_struct dirspe) (device_struct dirspe + ucast (fn_length d)) (kmem s)) (\<lambda>(found, dirptr).
     if found then bindR (set_dirent h dirptr name node s) (\<lambda>s. Inr (node, s))
     else
       let off = dirptr - device_struct dirspe;
           len = fn_length d * 2;
           s = s\<lparr>fsnodes := (fsnodes s)(dir \<mapsto> d\<lparr>fn_length := len\<rparr>)\<rparr> in
       bindR (realloc h (device_struct dirspe) (ucast len) s) (\<lambda>(table, s).
       let s = s\<lparr>devspecs := (devspecs s)(fn_specific d \<mapsto> dirspe\<lparr>device_struct := table\<rparr>)\<rparr> in
       bindR (set_dirent h (table + off) name node s) (\<lambda>s. Inr (node, s)))))))))"

fun find_device :: "nat \<Rightarrow> u32 \<Rightarrow> u32 \<Rightarrow> u32 \<Rightarrow> mem \<Rightarrow> u32 res" where
  "find_device 0 dirptr lim name m = Inl NoFuel"
| "find_device (Suc f) dirptr lim name m =
     (if dirptr < lim then
        if load32 m dirptr = 0 then Inr 0
        else bindR (the_res (strcmp m (load32 m (dirptr + 4)) name)) (\<lambda>c.
          if c = 0 then Inr (load32 m dirptr) else find_device f (dirptr + 8) lim name m)
      else Inr 0)"

definition devfs_open :: "nat \<Rightarrow> u32 \<Rightarrow> u32 \<Rightarrow> 'a console_scheme \<Rightarrow> u32 res" where
  "devfs_open f dir name s =
     bindR (the_obj (fsnodes s dir)) (\<lambda>d.
     bindR (the_obj (devspecs s (fn_specific d))) (\<lambda>spe.
     bindR (the_obj (fsystems s (devfs s))) (\<lambda>fs.
     let search = find_device f (device_struct spe) (device_struct spe + ucast (fn_length d)) name (kmem s) in
     if dir = fs_root_dir fs then
       bindR (the_res (strcmp (kmem s) name (lit s ''tty''))) (\<lambda>c.
       if c = 0 then
         bindR (proc (current_process s) s) (\<lambda>p.
         bindR (the_obj (ttys s (p_tty p))) (\<lambda>t. Inr (tty_pointer t)))
       else search)
     else search)))"

text \<open>
  The loop of \<^verbatim>\<open>devfs_list_dir\<close>: one record and one list entry per device. The last entry allocated is freed by the
  caller of the loop, but stays linked.
\<close>

fun list_devices :: "'a console_scheme heap_ops \<Rightarrow> nat \<Rightarrow> u32 \<Rightarrow> u64 \<Rightarrow> u32 \<Rightarrow> u32 \<Rightarrow> 'a console_scheme \<Rightarrow> (u32 \<times> u32 \<times> 'a console_scheme) res" where
  "list_devices h 0 dirptr lim ptr n s = Inl NoFuel"
| "list_devices h (Suc f) dirptr lim ptr n s =
     (if ucast dirptr < lim \<and> load32 (kmem s) dirptr \<noteq> 0 then
        let name = load32 (kmem s) (dirptr + 4) in
        bindR (the_res (strlen (kmem s) name)) (\<lambda>name_len.
        bindR (malloc h (8 + name_len + 1) s) (\<lambda>(fd, s).
        let m = strncpy (kmem s) (fd + 8) name name_len;
            m = store32 m (fd + 4) name_len;
            m = store32 m fd (load32 m dirptr);
            m = store32 m ptr fd in
        bindR (malloc h 8 (s\<lparr>kmem := m\<rparr>)) (\<lambda>(nxt, s).
        list_devices h f (dirptr + 8) lim nxt (n + 1) (s\<lparr>kmem := store32 (kmem s) (ptr + 4) nxt\<rparr>))))
      else Inr (ptr, n, s))"

definition devfs_list_dir :: "'a console_scheme heap_ops \<Rightarrow> nat \<Rightarrow> u32 \<Rightarrow> u32 \<Rightarrow> u32 \<Rightarrow> 'a console_scheme \<Rightarrow> (u32 \<times> u32 \<times> 'a console_scheme) res" where
  "devfs_list_dir h f dest dir n s =
     bindR (the_obj (fsnodes s dir)) (\<lambda>d.
     bindR (the_obj (devspecs s (fn_specific d))) (\<lambda>spe.
     bindR (list_devices h f (device_struct spe) (ucast (device_struct spe) + fn_length d) dest n s) (\<lambda>(ptr, n, s).
     bindR (free h ptr s) (\<lambda>s. Inr (ERROR_NONE, n, s)))))"

end
