(* ===== verification/VK_Tty.thy ===== *)
theory VK_Tty
  imports VK_Stream
begin

section \<open>Terminals and the keyboard (io/ttys.c, devices/keyboard.c, cpu/isrs.c)\<close>

text \<open>
  A terminal's text, its input line and the streams are in byte memory. The single characters and literals the code
  passes by address are given by the address of that local or literal.
\<close>

subsection \<open>Flags and control characters\<close>

definition VEOF :: nat where "VEOF = 1"
definition VEOL :: nat where "VEOL = 2"
definition VERASE :: nat where "VERASE = 3"
definition VINTR :: nat where "VINTR = 4"
definition VKILL :: nat where "VKILL = 5"
definition VMIN :: nat where "VMIN = 6"
definition VQUIT :: nat where "VQUIT = 7"
definition VSTART :: nat where "VSTART = 8"
definition VSTOP :: nat where "VSTOP = 9"
definition VSUSP :: nat where "VSUSP = 10"
definition VTIME :: nat where "VTIME = 11"

definition BRKINT :: u32 where "BRKINT = 1"
definition ICRNL :: u32 where "ICRNL = 2"
definition IGNCR :: u32 where "IGNCR = 8"
definition INLCR :: u32 where "INLCR = 32"
definition ISTRIP :: u32 where "ISTRIP = 128"
definition OPOST :: u32 where "OPOST = 1"
definition ONLCR :: u32 where "ONLCR = 4"
definition CREAD :: u32 where "CREAD = 128"
definition ISIG :: u32 where "ISIG = 1"
definition ICANON :: u32 where "ICANON = 2"
definition ECHO :: u32 where "ECHO = 8"
definition ECHOE :: u32 where "ECHOE = 16"
definition ECHOK :: u32 where "ECHOK = 32"
definition ECHONL :: u32 where "ECHONL = 64"
definition TOSTOP :: u32 where "TOSTOP = 256"
definition IEXTEN :: u32 where "IEXTEN = 512"

lemmas cc_defs = VEOF_def VEOL_def VERASE_def VINTR_def VKILL_def VMIN_def VQUIT_def VSTART_def VSTOP_def VSUSP_def VTIME_def
lemmas termios_defs = BRKINT_def ICRNL_def IGNCR_def INLCR_def ISTRIP_def OPOST_def ONLCR_def CREAD_def ISIG_def ICANON_def
  ECHO_def ECHOE_def ECHOK_def ECHONL_def TOSTOP_def IEXTEN_def

definition SIGINT :: int where "SIGINT = 9"
definition SIGKILL :: int where "SIGKILL = 10"
definition SIGSTOP :: int where "SIGSTOP = 14"
definition SIGTSTP :: int where "SIGTSTP = 16"
definition SIGTTIN :: int where "SIGTTIN = 17"
definition SIGTTOU :: int where "SIGTTOU = 18"

definition TTY_DEFAULT_BUFFER_SIZE :: u32 where "TTY_DEFAULT_BUFFER_SIZE = 1024"

subsection \<open>Writing\<close>

definition CSI :: string where "CSI = [CHR 0x1B, CHR 0x5B]"

text \<open>
  The parameters of an escape sequence: the two numbers, the control character and the index. For the second number
  the index restarts at the semicolon it begins at.
\<close>

definition parse_csi :: "mem \<Rightarrow> u32 \<Rightarrow> (u32 \<times> u32 \<times> u8 \<times> u32) res" where
  "parse_csi mm buffer =
     bindR (the_res (atoiindex mm (buffer + 2))) (\<lambda>(n, i).
     let n = (if n = 0 then 1 else n);
         control = mm (buffer + 2 + i) in
     if control = 59 then
       bindR (the_res (atoiindex mm (buffer + 2 + i))) (\<lambda>(m, i).
       let m = (if m = 0 then 1 else m) in Inr (n, m, mm (buffer + 2 + i), i))
     else Inr (n, 1, control, i))"

definition do_csi :: "u32 \<Rightarrow> u32 \<Rightarrow> u32 \<Rightarrow> u8 \<Rightarrow> 'a console_scheme \<Rightarrow> 'a console_scheme res" where
  "do_csi t n m control s =
     (if control = 72 then
        bindR (upd_tty t (\<lambda>x. x\<lparr>cursor_pos := char_width x * n + m\<rparr>) s) (\<lambda>s.
        Inr (vga_text_set_cursor (ucast (n - 1)) (ucast (m - 1)) s))
      else if control = 74 then Inr (if n = 2 then vga_text_cls s else s)
      else Inr s)"

fun putc_all :: "'a console_scheme heap_ops \<Rightarrow> nat \<Rightarrow> nat \<Rightarrow> u32 \<Rightarrow> 'a console_scheme \<Rightarrow> 'a console_scheme ctl res" where
  "putc_all h f 0 a s = Inr (Returned s)"
| "putc_all h f (Suc n) a s = bindC (vga_text_putc h f (kmem s a) 0b00000111 s) (putc_all h f n (a + 1))"

text \<open>The text goes to the terminal's buffer, and to the screen when the terminal is the current one.\<close>

definition tty_print :: "'a console_scheme heap_ops \<Rightarrow> nat \<Rightarrow> u32 \<Rightarrow> u32 \<Rightarrow> u32 \<Rightarrow> 'a console_scheme \<Rightarrow> (u32, 'a console_scheme) call res" where
  "tty_print h f buffer count t s =
     bindR (the_obj (ttys s t)) (\<lambda>x.
     bindR (if tty_buffer_size x < tty_count x + count then
              bindR (realloc h (tty_buffer x) (tty_buffer_size x * 2) s) (\<lambda>(b, s).
              upd_tty t (\<lambda>x. x\<lparr>tty_buffer_size := tty_buffer_size x * 2, tty_buffer := b\<rparr>) s)
            else Inr s) (\<lambda>s.
     bindR (the_obj (ttys s t)) (\<lambda>x.
     bindR (upd_tty t (\<lambda>x. x\<lparr>tty_count := tty_count x + count\<rparr>)
       (s\<lparr>kmem := memcpy (kmem s) (tty_buffer x + tty_count x) buffer (unat count)\<rparr>)) (\<lambda>s.
     after (if t = current_tty s then putc_all h f (unat count) buffer s else Inr (Returned s)) (\<lambda>s.
     Inr (Ret ERROR_NONE s))))))"

fun tty_write :: "'a console_scheme heap_ops \<Rightarrow> nat \<Rightarrow> u32 \<Rightarrow> u32 \<Rightarrow> u32 \<Rightarrow> 'a console_scheme \<Rightarrow> (u32, 'a console_scheme) call res" where
  "tty_write h 0 buffer count t s = Inl NoFuel"
| "tty_write h (Suc f) buffer count t s =
     bindR (proc (current_process s) s) (\<lambda>p.
     bindR (the_obj (ttys s t)) (\<lambda>x.
     if p_group p \<noteq> foreground_processes x \<and> c_lflag (termio x) AND TOSTOP \<noteq> 0 \<and> signal_handlers p (nat SIGTTOU) \<noteq> 1 then
       after (send_signal h (Suc f) (pid p) SIGTTOU s) (\<lambda>s. Inr (Ret ERROR_IO s))
     else
       bindR (the_res (strcfirst (kmem s) (lit s CSI) buffer)) (\<lambda>cc.
       if cc = 2 then
         bindR (parse_csi (kmem s) buffer) (\<lambda>(n, m, control, i).
         bindR (do_csi t n m control s) (\<lambda>s.
         let count = count - 3 - i in
         if count \<noteq> 0 then tty_write h f (buffer + 3 + i) count t s else Inr (Ret ERROR_NONE s)))
       else tty_print h (Suc f) buffer count t s)))"

subsection \<open>Reading\<close>

text \<open>The loop of the canonical mode: characters to the input line until a new line or the count; the rest of the count is returned.\<close>

fun canon_loop :: "'a console_scheme heap_ops \<Rightarrow> nat \<Rightarrow> nat \<Rightarrow> u32 \<Rightarrow> 'a console_scheme \<Rightarrow> (nat, 'a console_scheme) call res" where
  "canon_loop h f 0 t s = Inr (Ret 0 s)"
| "canon_loop h f (Suc n) t s =
     bindR (the_obj (ttys s t)) (\<lambda>x.
     bindV (iostream_getch h f (keyboard_stream x) s) (\<lambda>ch s.
     bindR (the_obj (ttys s t)) (\<lambda>x.
     bindR (if canon_buffer_size x \<le> canon_buffer_count x then
              bindR (realloc h (canon_buffer x) (canon_buffer_size x * 2) s) (\<lambda>(b, s).
              upd_tty t (\<lambda>x. x\<lparr>canon_buffer_size := canon_buffer_size x * 2, canon_buffer := b\<rparr>) s)
            else Inr s) (\<lambda>s.
     bindR (the_obj (ttys s t)) (\<lambda>x.
     bindR (upd_tty t (\<lambda>x. x\<lparr>canon_buffer_count := canon_buffer_count x + 1\<rparr>)
       (s\<lparr>kmem := (kmem s)(canon_buffer x + canon_buffer_count x := ch)\<rparr>)) (\<lambda>s.
     if ch = 10 then Inr (Ret n s) else canon_loop h f n t s))))))"

definition read_canon :: "'a console_scheme heap_ops \<Rightarrow> nat \<Rightarrow> u32 \<Rightarrow> u32 \<Rightarrow> u32 \<Rightarrow> 'a console_scheme \<Rightarrow> (u32, 'a console_scheme) call res" where
  "read_canon h f buffer count t s =
     bindV (canon_loop h f (unat count) t s) (\<lambda>n s.
     bindR (the_obj (ttys s t)) (\<lambda>x.
     let m = memcpy (kmem s) buffer (canon_buffer x) (unat (canon_buffer_count x));
         m = memset m (buffer + canon_buffer_count x) 0 (unat (of_nat n - canon_buffer_count x)) in
     bindR (upd_tty t (\<lambda>x. x\<lparr>canon_buffer_count := 0\<rparr>) (s\<lparr>kmem := m(canon_buffer x := 0)\<rparr>)) (\<lambda>s.
     Inr (Ret ERROR_NONE s))))"

fun raw_loop :: "'a console_scheme heap_ops \<Rightarrow> nat \<Rightarrow> nat \<Rightarrow> u32 \<Rightarrow> u32 \<Rightarrow> 'a console_scheme \<Rightarrow> (u32, 'a console_scheme) call res" where
  "raw_loop h f 0 a t s = Inr (Ret ERROR_NONE s)"
| "raw_loop h f (Suc n) a t s =
     bindR (the_obj (ttys s t)) (\<lambda>x.
     bindV (iostream_getch h f (keyboard_stream x) s) (\<lambda>ch s.
     raw_loop h f n (a + 1) t (s\<lparr>kmem := (kmem s)(a := ch)\<rparr>)))"

definition read_available :: "u32 \<Rightarrow> u32 \<Rightarrow> u32 \<Rightarrow> 'a console_scheme \<Rightarrow> (u32, 'a console_scheme) call res" where
  "read_available buffer count k s =
     bindR (the_obj (streams s k)) (\<lambda>x.
     if io_count x \<noteq> 0 then
       let countmin = (if io_count x < count then io_count x else count);
           m = memcpy (kmem s) buffer (io_buffer x) (unat countmin);
           n = io_count x - countmin;
           m = memcpy m (io_buffer x + countmin) (io_buffer x) (unat n)
       in Inr (Ret ERROR_NONE (s\<lparr>kmem := m, streams := (streams s)(k \<mapsto> x\<lparr>io_count := n\<rparr>)\<rparr>))
     else Inr (Ret ERROR_NONE s))"

definition tty_read :: "'a console_scheme heap_ops \<Rightarrow> nat \<Rightarrow> u32 \<Rightarrow> u32 \<Rightarrow> u32 \<Rightarrow> 'a console_scheme \<Rightarrow> (u32, 'a console_scheme) call res" where
  "tty_read h f buffer count t s =
     bindR (proc (current_process s) s) (\<lambda>p.
     bindR (the_obj (ttys s t)) (\<lambda>x.
     let vmin = c_cc (termio x) VMIN; vtime = c_cc (termio x) VTIME in
     if p_group p \<noteq> foreground_processes x then
       after (send_signal h f (pid p) SIGTTIN s) (\<lambda>s. Inr (Ret ERROR_IO s))
     else if c_lflag (termio x) AND ICANON \<noteq> 0 then read_canon h f buffer count t s
     else if vmin = 0 \<and> vtime = 0 then read_available buffer count (keyboard_stream x) s
     else if 0 < vmin \<and> vtime = 0 then raw_loop h f (unat (if count < ucast vmin then count else ucast vmin)) buffer t s
     else Inr (Ret UNKNOWN_ERROR s)))"

subsection \<open>Switching and input\<close>

definition vga_text_tty_switch :: "'a console_scheme heap_ops \<Rightarrow> nat \<Rightarrow> u32 \<Rightarrow> 'a console_scheme \<Rightarrow> 'a console_scheme ctl res" where
  "vga_text_tty_switch h f t s =
     bindR (the_obj (ttys s t)) (\<lambda>x. vga_text_puts h f (tty_buffer x) 0b00000111 (vga_text_reset s))"

definition tty_switch :: "'a console_scheme heap_ops \<Rightarrow> nat \<Rightarrow> u32 \<Rightarrow> 'a console_scheme \<Rightarrow> 'a console_scheme ctl res" where
  "tty_switch h f t s = (if t \<noteq> current_tty s then vga_text_tty_switch h f t (s\<lparr>current_tty := t\<rparr>) else Inr (Returned s))"

text \<open>The input flags; \<open>None\<close> is a character that is dropped.\<close>

definition input_char :: "u32 \<Rightarrow> u8 \<Rightarrow> u8 option" where
  "input_char fl c =
     (let c = (if fl AND ISTRIP \<noteq> 0 then c AND 127 else c);
          c = (if fl AND INLCR \<noteq> 0 \<and> c = 10 then 13 else c) in
      if fl AND IGNCR \<noteq> 0 \<and> c = 13 then None
      else Some (if fl AND ICRNL \<noteq> 0 \<and> c = 13 then 10 else c))"

definition tty_erase :: "'a console_scheme heap_ops \<Rightarrow> nat \<Rightarrow> u32 \<Rightarrow> 'a console_scheme \<Rightarrow> 'a console_scheme ctl res" where
  "tty_erase h f t s =
     bindR (the_obj (ttys s t)) (\<lambda>x.
     let lf = c_lflag (termio x); cc = c_cc (termio x);
         terase = kmem s (canon_buffer x + canon_buffer_count x - 1) in
     if lf AND ICANON \<noteq> 0 \<and> lf AND ECHOE \<noteq> 0 \<and> canon_buffer_count x \<noteq> 0 \<and>
        terase \<noteq> cc VEOF \<and> terase \<noteq> cc VEOL \<and> terase \<noteq> 10 then
       bindR (upd_tty t (\<lambda>x. x\<lparr>canon_buffer_count := canon_buffer_count x - 1, tty_count := tty_count x - 1\<rparr>)
         (s\<lparr>kmem := (kmem s)(canon_buffer x + (canon_buffer_count x - 1) := 0, tty_buffer x + (tty_count x - 1) := 0)\<rparr>)) (\<lambda>s.
       if lf AND ECHO \<noteq> 0 then vga_text_putc h f 8 0 s else Inr (Returned s))
     else Inr (Returned s))"

text \<open>The signal and the echo of a control character.\<close>

definition signal_char :: "(nat \<Rightarrow> u8) \<Rightarrow> u8 \<Rightarrow> (int \<times> string) option" where
  "signal_char cc c =
     (if c = cc VINTR then Some (SIGINT, ''^C'' @ newline)
      else if c = cc VKILL then Some (SIGKILL, ''^U'' @ newline)
      else if c = cc VSTART then Some (SIGCONT, ''^Q'' @ newline)
      else if c = cc VSTOP then Some (SIGSTOP, ''^S'' @ newline)
      else if c = cc VSUSP then Some (SIGTSTP, ''^Z'' @ newline)
      else None)"

text \<open>An ordinary character: echoed, then written to the terminal's stream. \<open>ca\<close> is the address of the local \<^verbatim>\<open>c\<close>.\<close>

definition deliver_char :: "'a console_scheme heap_ops \<Rightarrow> nat \<Rightarrow> u32 \<Rightarrow> u32 \<Rightarrow> u8 \<Rightarrow> 'a console_scheme \<Rightarrow> 'a console_scheme ctl res" where
  "deliver_char h f ca t c s =
     (let s = s\<lparr>kmem := (kmem s)(ca := c)\<rparr> in
      bindR (the_obj (ttys s t)) (\<lambda>x.
      bindC (if c_lflag (termio x) AND ECHO \<noteq> 0 \<or> c = 10 \<and> c_lflag (termio x) AND ICANON AND ECHONL \<noteq> 0
             then dropped (tty_write h f ca 1 t s) else Inr (Returned s)) (\<lambda>s.
      bindR (iostream_write h ca 1 (keyboard_stream x) s) (\<lambda>(err, s). Inr (Returned s)))))"

definition tty_input :: "'a console_scheme heap_ops \<Rightarrow> nat \<Rightarrow> u32 \<Rightarrow> u32 \<Rightarrow> u8 \<Rightarrow> 'a console_scheme \<Rightarrow> 'a console_scheme ctl res" where
  "tty_input h f ca t c s =
     bindR (the_obj (ttys s t)) (\<lambda>x.
     case input_char (c_iflag (termio x)) c of None \<Rightarrow> Inr (Returned s)
     | Some c \<Rightarrow>
         if c = c_cc (termio x) VERASE then tty_erase h f t s
         else
           case (if c_lflag (termio x) AND ISIG \<noteq> 0 \<and> foreground_processes x \<noteq> 0 then signal_char (c_cc (termio x)) c else None) of
             Some (sig, echo) \<Rightarrow>
               bindR (grp (foreground_processes x) s) (\<lambda>g.
               bindC (send_signal_to_group h f (gid g) sig s) (\<lambda>s.
               if c_lflag (termio x) AND ECHO \<noteq> 0 then dropped (tty_write h f (lit s echo) 3 t s) else Inr (Returned s)))
           | None \<Rightarrow> if c = c_cc (termio x) VEOF then Inr (Returned s) else deliver_char h f ca t c s)"

definition I_TTY_SETPGRP :: u32 where "I_TTY_SETPGRP = 1"
definition I_TTY_GETPGRP :: u32 where "I_TTY_GETPGRP = 2"

definition tty_ioctl :: "nat \<Rightarrow> u32 \<Rightarrow> u32 \<Rightarrow> u32 \<Rightarrow> 'a console_scheme \<Rightarrow> (u32 \<times> 'a console_scheme) res" where
  "tty_ioctl f t func arg s =
     bindR (proc (current_process s) s) (\<lambda>p.
     bindR (the_obj (ttys s t)) (\<lambda>x.
     if func = I_TTY_SETPGRP then
       if t \<noteq> p_tty p then Inr (ERROR_NO_TTY, s)
       else if tty_session x \<noteq> p_session p then Inr (ERROR_IS_ANOTHER_SESSION, s)
       else
         bindR (get_group f (sint arg) s) (\<lambda>g.
         if g = 0 then Inr (ERROR_PERMISSION, s)
         else
           bindR (grp g s) (\<lambda>y.
           if g_session y \<noteq> p_session p \<or> g_processes y = [] \<or> snd (hd (g_processes y)) = 0 then Inr (ERROR_PERMISSION, s)
           else bindR (upd_tty t (\<lambda>x. x\<lparr>foreground_processes := g\<rparr>) s) (\<lambda>s. Inr (ERROR_NONE, s))))
     else if func = I_TTY_GETPGRP then
       if t \<noteq> p_tty p then Inr (ERROR_NO_TTY, s)
       else
         bindR (if foreground_processes x \<noteq> 0
                then bindR (grp (foreground_processes x) s) (\<lambda>g. Inr (word_of_int (gid g)))
                else Inr (2147483648 - 1)) (\<lambda>i.
         Inr (ERROR_NONE, s\<lparr>kmem := store32 (kmem s) arg i\<rparr>))
     else Inr (UNKNOWN_ERROR, s)))"

subsection \<open>Setting terminals up\<close>

text \<open>A fresh record holds what the allocated memory held; the offsets are those of the C structure.\<close>

definition raw_termios :: "mem \<Rightarrow> u32 \<Rightarrow> termios" where
  "raw_termios m p = \<lparr>c_iflag = load32 m p, c_oflag = load32 m (p + 4), c_cflag = load32 m (p + 8), c_lflag = load32 m (p + 12),
     c_cc = (\<lambda>i. m (p + 16 + of_nat i))\<rparr>"

definition raw_tty :: "mem \<Rightarrow> u32 \<Rightarrow> tty" where
  "raw_tty m p = \<lparr>tty_buffer = load32 m p, tty_count = load32 m (p + 4), tty_buffer_size = load32 m (p + 8),
     canon_buffer = load32 m (p + 12), canon_buffer_count = load32 m (p + 16), canon_buffer_size = load32 m (p + 20),
     char_width = load32 m (p + 24), char_height = load32 m (p + 28), cursor_pos = load32 m (p + 32),
     keyboard_stream = load32 m (p + 36), tty_pointer = load32 m (p + 40), termio = raw_termios m (p + 44),
     foreground_processes = load32 m (p + 92), tty_session = load32 m (p + 96)\<rparr>"

definition init_termios :: "termios \<Rightarrow> termios" where
  "init_termios t = t\<lparr>
     c_iflag := ICRNL OR BRKINT, c_oflag := ONLCR OR OPOST,
     c_lflag := ECHO OR ECHOE OR ECHOK OR ICANON OR ISIG OR IEXTEN, c_cflag := CREAD,
     c_cc := (c_cc t)(VEOF := 4, VEOL := 0, VERASE := 8, VINTR := 3, VKILL := 21, VMIN := 1, VQUIT := 28, VSTART := 17,
       VSTOP := 19, VSUSP := 26, VTIME := 0)\<rparr>"

definition tty_alloc :: "'a console_scheme heap_ops \<Rightarrow> 'a console_scheme \<Rightarrow> (u32 \<times> 'a console_scheme) res" where
  "tty_alloc h s =
     bindR (malloc h 100 s) (\<lambda>(tr, s).
     let x = raw_tty (kmem s) tr in
     bindR (malloc h TTY_DEFAULT_BUFFER_SIZE s) (\<lambda>(b, s).
     bindR (iostream_alloc h s) (\<lambda>(k, s).
     bindR (upd_stream k (\<lambda>y. y\<lparr>io_attributes := io_attributes y OR IOSTREAM_ATTR_ONE_BYTE\<rparr>) s) (\<lambda>s.
     bindR (malloc h 256 s) (\<lambda>(cb, s).
     Inr (tr, s\<lparr>ttys := (ttys s)(tr \<mapsto> x\<lparr>tty_buffer := b, tty_count := 0, tty_buffer_size := TTY_DEFAULT_BUFFER_SIZE,
       keyboard_stream := k, canon_buffer := cb, canon_buffer_count := 0, canon_buffer_size := 256,
       foreground_processes := 0\<rparr>)\<rparr>))))))"

definition tty_init :: "'a console_scheme heap_ops \<Rightarrow> (u8 \<Rightarrow> u8) \<Rightarrow> nat \<Rightarrow> u32 \<Rightarrow> 'a console_scheme \<Rightarrow> (u32, 'a console_scheme) call res" where
  "tty_init h reg f name s =
     bindR (tty_alloc h s) (\<lambda>(tr, s).
     bindV (tty_write h f (lit s ''VK 0.0-indev ('') 14 tr s) (\<lambda>err s.
     bindR (the_res (strlen (kmem s) name)) (\<lambda>n.
     bindV (tty_write h f name n tr s) (\<lambda>err s.
     bindV (tty_write h f (lit s ('')'' @ newline)) 2 tr s) (\<lambda>err s.
     bindR (the_obj (fsystems s (devfs s))) (\<lambda>fs.
     bindR (devfs_register_device h reg f (fs_root_dir fs) name tr DEVFS_TYPE_TTY 0 s) (\<lambda>(trf, s).
     if trf = 0 then
       bindR (the_obj (ttys s tr)) (\<lambda>x.
       bindR (free h (tty_buffer x) s) (\<lambda>s.
       bindR (iostream_free h (keyboard_stream x) s) (\<lambda>s.
       bindR (free h tr (s\<lparr>ttys := (ttys s)(tr := None)\<rparr>)) (\<lambda>s. Inr (Ret 0 s)))))
     else
       bindR (upd_tty tr (\<lambda>x. x\<lparr>tty_pointer := trf, termio := init_termios (termio x), char_width := 80, char_height := 25,
         cursor_pos := 0\<rparr>) s) (\<lambda>s. Inr (Ret tr s)))))))))"

text \<open>\<open>buf\<close> is the address of the local buffer of \<^verbatim>\<open>kprintf\<close>.\<close>

definition tty_init_named :: "'a console_scheme heap_ops \<Rightarrow> (u8 \<Rightarrow> u8) \<Rightarrow> nat \<Rightarrow> string \<Rightarrow> string \<Rightarrow> 'a console_scheme \<Rightarrow> (u32, 'a console_scheme) call res" where
  "tty_init_named h reg f name msg s =
     bindV (tty_init h reg f (lit s name) s) (\<lambda>t s.
     if t = 0 then after (vga_text_failmsg h f s) (\<lambda>s. Inl (Fatal msg)) else Inr (Ret t s))"

definition ttys_init :: "'a console_scheme heap_ops \<Rightarrow> (u8 \<Rightarrow> u8) \<Rightarrow> nat \<Rightarrow> u32 \<Rightarrow> 'a console_scheme \<Rightarrow> 'a console_scheme ctl res" where
  "ttys_init h reg f buf s =
     bindC (kprintf h f buf (lit s ''Initializing ttys...'') [] s) (\<lambda>s.
     bindC (dropped (bindV (tty_init_named h reg f ''tty1'' ''Failed to initialize TTY 1'' s) (\<lambda>t s. Inr (Ret t (s\<lparr>tty1 := t\<rparr>))))) (\<lambda>s.
     bindC (dropped (bindV (tty_init_named h reg f ''tty2'' ''Failed to initialize TTY 2'' s) (\<lambda>t s. Inr (Ret t (s\<lparr>tty2 := t\<rparr>))))) (\<lambda>s.
     bindC (dropped (bindV (tty_init_named h reg f ''tty3'' ''Failed to initialize TTY 3'' s) (\<lambda>t s. Inr (Ret t (s\<lparr>tty3 := t\<rparr>))))) (\<lambda>s.
     vga_text_okmsg h f (s\<lparr>current_tty := tty1 s\<rparr>)))))"

end
