(* ===== verification/VK_Input.thy ===== *)
theory VK_Input
  imports VK_Tty
begin

section \<open>Keyboard, interrupts and faults (devices/keyboard.c, cpu/isrs.c)\<close>

subsection \<open>The keyboard maps\<close>

definition azer_kbd_map :: "u8 list" where
  "azer_kbd_map =
    [0, 0,
     38, 130, 34, 39, 40, 45, 138, 95, 135, 133, 41, 61,
     8, 9,
     97, 122, 101, 114, 116, 121, 117, 105, 111, 112, 94, 36,
     10, 0,
     113, 115, 100, 102, 103, 104, 106, 107, 108, 109, 151, 0, 0, 42,
     119, 120, 99, 118, 98, 110, 44, 59, 58, 33, 0,
     0, 0, 32, 0, 0, 0, 0, 0, 0, 0, 0, 0, 0, 0, 0, 0, 0, 0, 0, 0, 0, 0, 0, 0, 0, 0, 0, 0, 0, 0,
     0, 60]"

definition azer_maj_kbd_map :: "u8 list" where
  "azer_maj_kbd_map =
    [0, 0,
     49, 50, 51, 52, 53, 54, 55, 56, 57, 48, 167, 43,
     8, 9,
     65, 90, 69, 82, 84, 89, 85, 73, 79, 80, 249, 156,
     10, 0,
     81, 83, 68, 70, 71, 72, 74, 75, 76, 77, 37, 0, 0, 230,
     87, 88, 67, 86, 66, 78, 63, 46, 47, 245, 0,
     0, 0, 32, 0, 0, 0, 0, 0, 0, 0, 0, 0, 0, 0, 0, 0, 0, 0, 0, 0, 0, 0, 0, 0, 0, 0, 0, 0, 0, 0,
     0, 62]"

definition azer_ctrl_kbd_map :: "u8 list" where
  "azer_ctrl_kbd_map =
    [0, 0,
     0, 0, 0, 0, 0, 0, 0, 0, 0, 0, 0, 0,
     0, 0,
     0, 26, 0, 0, 0, 0, 21, 0, 0, 0, 0, 0,
     0, 0,
     17, 19, 4, 0, 0, 8, 0, 0, 0, 0, 0, 0, 0, 0,
     0, 0, 3, 0, 0, 0, 0, 0, 0, 0, 0,
     0, 0, 0, 0, 0, 0, 0, 0, 0, 0, 0, 0, 0, 0, 0, 0, 0, 0, 0, 0, 0, 0, 0, 0, 0, 0, 0, 0, 0, 0,
     0, 0]"

text \<open>A read outside the table is \<open>BadPtr\<close>.\<close>

definition kbd_read :: "u8 list \<Rightarrow> u8 \<Rightarrow> u8 res" where
  "kbd_read tbl keycode = (if unat keycode < length tbl then Inr (tbl ! unat keycode) else Inl BadPtr)"

definition getchar :: "u8 \<Rightarrow> 'a console_scheme \<Rightarrow> u8 res" where
  "getchar keycode s =
     (if length azer_kbd_map < unat keycode then Inr 0
      else if kbd_maj s then kbd_read azer_maj_kbd_map keycode
      else if kbd_ctrl s then kbd_read azer_ctrl_kbd_map keycode
      else kbd_read azer_kbd_map keycode)"

subsection \<open>Interrupts\<close>

text \<open>The modifier keys: shift and caps lock toggle, control and alt follow the key.\<close>

definition kbd_modifiers :: "u8 \<Rightarrow> 'a console_scheme \<Rightarrow> 'a console_scheme" where
  "kbd_modifiers keycode s =
     (let s = (if keycode = 42 \<or> keycode = 170 \<or> keycode = 58 then s\<lparr>kbd_maj := \<not> kbd_maj s\<rparr> else s);
          s = (if keycode = 0x1D then s\<lparr>kbd_ctrl := True\<rparr> else if keycode = 0x9D then s\<lparr>kbd_ctrl := False\<rparr> else s)
      in if keycode = 0x38 then s\<lparr>kbd_alt := True\<rparr> else if keycode = 0xB8 then s\<lparr>kbd_alt := False\<rparr> else s)"

text \<open>\<open>keycode\<close> is what port 0x60 delivers; \<open>ca\<close> the address of the local in \<^verbatim>\<open>tty_input\<close>.\<close>

definition keyboard_interrupt :: "'a console_scheme heap_ops \<Rightarrow> nat \<Rightarrow> u32 \<Rightarrow> u8 \<Rightarrow> 'a console_scheme \<Rightarrow> 'a console_scheme ctl res" where
  "keyboard_interrupt h f ca keycode s =
     (if tty1 s = 0 \<or> tty2 s = 0 \<or> tty3 s = 0 then Inr (Returned s)
      else
        let s = kbd_modifiers keycode s in
        if kbd_ctrl s \<and> kbd_alt s \<and> keycode = 0x3B then tty_switch h f (tty1 s) s
        else if kbd_ctrl s \<and> kbd_alt s \<and> keycode = 0x3C then tty_switch h f (tty2 s) s
        else if kbd_ctrl s \<and> kbd_alt s \<and> keycode = 0x3D then tty_switch h f (tty3 s) s
        else bindR (getchar keycode s) (\<lambda>ch.
          if ch \<noteq> 0 then tty_input h f ca (current_tty s) ch s else Inr (Returned s)))"

definition irq_handler :: "'a console_scheme heap_ops \<Rightarrow> nat \<Rightarrow> u32 \<Rightarrow> u8 \<Rightarrow> u32 \<Rightarrow> 'a console_scheme \<Rightarrow> 'a console_scheme ctl res" where
  "irq_handler h f ca keycode irq_number s =
     bindC (if irq_number = 1 then keyboard_interrupt h f ca keycode s else Inr (Returned s)) (\<lambda>s.
     if irq_number \<noteq> 0 then scheduler_irq_wakeup h f irq_number s else Inr (Returned s))"

subsection \<open>Faults\<close>

record regs_int =
  r_int_no :: u32
  r_err_code :: u32
  r_eip :: u32

text \<open>
  A write to a page that is not present in user space maps two pages at the faulting address and resumes; every other
  fault halts. \<open>cr2\<close> is the faulting address. What is printed before a halt is not kept: \<open>Fatal\<close> ends the run.
\<close>

definition handle_page_fault :: "'a console_scheme heap_ops \<Rightarrow> nat \<Rightarrow> u32 \<Rightarrow> regs_int \<Rightarrow> 'a console_scheme \<Rightarrow> 'a console_scheme ctl res" where
  "handle_page_fault h f cr2 r s =
     (if cr2 < 0xBFFFFFFF \<and> r_err_code r AND 1 = 0 \<and> r_err_code r AND 2 \<noteq> 0 then
        bindR (proc (current_process s) s) (\<lambda>p. returned (map_memory (malloc h) f 8192 cr2 (page_directory p) s))
      else Inl (Fatal ''Page fault''))"

definition handle_user_fault :: "'a console_scheme ctl res" where
  "handle_user_fault = Inl (Fatal ''Kernel exception'')"

definition fault_handler :: "'a console_scheme heap_ops \<Rightarrow> nat \<Rightarrow> u32 \<Rightarrow> u32 \<Rightarrow> regs_int \<Rightarrow> 'a console_scheme \<Rightarrow> 'a console_scheme ctl res" where
  "fault_handler h f buf cr2 r s =
     (if r_int_no r = 8 then Inl (Fatal ''DOUBLE FAULT'')
      else
        bindR (proc (current_process s) s) (\<lambda>p.
        bindC (kprintf h f buf (lit s (''%lFAULT in process 0x%X / %d'' @ newline)) [2, current_process s, word_of_int (pid p)] s) (\<lambda>s.
        bindC (kprintf h f buf (lit s (''%lEIP = 0x%X'' @ newline)) [3, r_eip r] s) (\<lambda>s.
        if r_int_no r = 1 then Inl (Fatal ''Debug'')
        else if r_int_no r \<in> {0, 5, 6, 11, 12, 13, 16} then handle_user_fault
        else if r_int_no r = 14 then handle_page_fault h f cr2 r s
        else Inl (Fatal ''Unhandled exception'')))))"

end
