(* ===== verification/VK_TaskHeap.thy ===== *)
theory VK_TaskHeap
  imports VK_Task
begin

section \<open>The heap below the tasking layer\<close>

text \<open>
  What the tasking layer relies on of the kernel heap: an allocation, release or reallocation may change the heap,
  the physical blocks and the page tables, but no process, thread, mutex or list of the tasking
  layer. The law is discharged for the kernel's \<^verbatim>\<open>kmalloc\<close>, \<^verbatim>\<open>kfree\<close> and \<^verbatim>\<open>krealloc\<close>, which may grow the heap through
  \<^verbatim>\<open>map_memory\<close>.
\<close>

locale task_heap =
  fixes h :: "'a tasking_scheme heap_ops"
  assumes malloc_keeps: "malloc h n s = Inr (p, s') \<Longrightarrow> paging.more s' = paging.more s"
    and free_keeps: "free h p s = Inr s' \<Longrightarrow> paging.more s' = paging.more s"
    and realloc_keeps: "realloc h p n s = Inr (q, s') \<Longrightarrow> paging.more s' = paging.more s"

lemma more_fields:
  assumes "paging.more s' = paging.more (s :: 'a tasking_scheme)"
  shows "procs s' = procs s" "thrs s' = thrs s" "current_process s' = current_process s" "idle_process s' = idle_process s"
    "p_ready_queue s' = p_ready_queue s" "irq_list s' = irq_list s" "wnodes s' = wnodes s" "wait_list s' = wait_list s"
    "wait_mutex s' = wait_mutex s" "signal_mutex s' = signal_mutex s" "mutexes s' = mutexes s" "signal_list s' = signal_list s"
    "pgroups s' = pgroups s" "groups s' = groups s" "groups_number s' = groups_number s"
  using assms by (cases s; cases s'; simp)+

lemma kheap_more_paging: "kheap.more s' = kheap.more (s :: 'a paging_scheme) \<Longrightarrow> paging.more s' = paging.more s"
  by (cases s; cases s') simp

lemma kblocks_more_paging: "kblocks.more s' = kblocks.more (s :: 'a paging_scheme) \<Longrightarrow> paging.more s' = paging.more s"
  by (cases s; cases s') simp

subsection \<open>The page tables\<close>

lemma paging_more_simps [simp]:
  "paging.more (set_word a v s) = paging.more s" "paging.more (clear_page p s) = paging.more s"
  "paging.more (fill_map_table pt ph fl i n s) = paging.more s"
  by (simp_all add: set_word_def clear_page_def,
      induction n arbitrary: ph i s) (simp_all add: set_word_def)

lemma pt_alloc_more: "pt_alloc s = Inr (p, s') \<Longrightarrow> paging.more s' = paging.more s"
proof -
  have "pt_alloc_from n i s = Inr (p, s') \<Longrightarrow> paging.more s' = paging.more s" for n i
    by (induction n arbitrary: i) (auto simp: Let_def split: if_splits)
  then show "pt_alloc s = Inr (p, s') \<Longrightarrow> paging.more s' = paging.more s" by (simp add: pt_alloc_def)
qed

lemma map_page_more: "map_page ph va pd s = Inr s' \<Longrightarrow> paging.more s' = paging.more s"
  by (auto simp: map_page_def Let_def bindR_Inr_iff split: if_splits dest!: pt_alloc_more)

lemma map_page_table_more: "map_page_table ph va pd s = Inr s' \<Longrightarrow> paging.more s' = paging.more s"
  by (auto simp: map_page_table_def Let_def bindR_Inr_iff split: if_splits dest!: pt_alloc_more)

lemma range_loops_more:
  assumes big: "\<And>a s s'. big a s = Inr s' \<Longrightarrow> paging.more s' = paging.more s"
    and small: "\<And>a s s'. small a s = Inr s' \<Longrightarrow> paging.more s' = paging.more s"
    and r: "range_loops big small va sz s = Inr s'"
  shows "paging.more s' = paging.more s"
proof -
  have b: "paging.more s' = paging.more s" if "big_loop f big sz add s = Inr (sz', add', s')" for f sz add s sz' add' s'
    using that
  proof (induction f arbitrary: sz add s)
    case (Suc f)
    then show ?case by (auto simp: bindR_Inr_iff split: if_splits dest: big)
  qed simp
  have m: "paging.more s' = paging.more s" if "small_loop f small sz add s = Inr s'" for f sz add s s'
    using that
  proof (induction f arbitrary: sz add s)
    case (Suc f)
    then show ?case by (auto simp: bindR_Inr_iff split: if_splits dest: small)
  qed simp
  from r obtain sz1 add1 s1 where s1: "small_loop (Suc (unat sz1)) small sz1 add1 s1 = Inr s'"
    "(if va mod 0x400000 = 0 \<and> 0x400000 < sz then big_loop (Suc (unat sz)) big sz 0 s else Inr (sz, 0, s)) = Inr (sz1, add1, s1)"
    unfolding range_loops_def by (auto elim!: bindR_InrE)
  have "paging.more s1 = paging.more s" using s1(2) b by (auto split: if_splits simp del: big_loop.simps)
  with m [OF s1(1)] show ?thesis by simp
qed

subsection \<open>The physical blocks\<close>

lemma put_more [simp]: "paging.more (put p b s) = paging.more (s :: 'a paging_scheme)"
  by (simp add: put_def)

lemma upd_more: "upd p g s = Inr s' \<Longrightarrow> paging.more s' = paging.more (s :: 'a paging_scheme)"
  by (auto simp: upd_def bindR_Inr_iff)

lemma split_node_more:
  assumes m: "\<And>n s p s'. ma n s = Inr (p, s') \<Longrightarrow> paging.more s' = paging.more (s :: 'a paging_scheme)"
    and r: "split_node ma cur sz ft ut s = Inr (q, s')"
  shows "paging.more s' = paging.more s"
  using r by (auto simp: split_node_def set_prev_if_def bindR_Inr_iff Let_def split: if_splits dest!: m upd_more)

lemma reserve_block_more:
  assumes m: "\<And>n s p s'. ma n s = Inr (p, s') \<Longrightarrow> paging.more s' = paging.more (s :: 'a paging_scheme)"
    and r: "reserve_block ma f sz type s = Inr (q, s')"
  shows "paging.more s' = paging.more s"
proof -
  have "reserve_block_from ma f sz type cur s = Inr (q, s') \<Longrightarrow> paging.more s' = paging.more s" for sz cur
  proof (induction f arbitrary: cur)
    case (Suc f)
    have sp: "split_node ma cur sz ft ut s = Inr (q, s') \<Longrightarrow> paging.more s' = paging.more s" for ft ut
      by (rule split_node_more [OF m])
    from Suc show ?case by (auto simp: bindR_Inr_iff split: if_splits dest: sp)
  qed simp
  with r show ?thesis by (simp add: reserve_block_def)
qed

lemma map_memory_more:
  assumes m: "\<And>n s p s'. ma n s = Inr (p, s') \<Longrightarrow> paging.more s' = paging.more (s :: 'a paging_scheme)"
    and r: "map_memory ma f sz va pd s = Inr s'"
  shows "paging.more s' = paging.more s"
proof -
  from r obtain ph s1 where s1: "reserve_block ma f (page_size sz va) (block_type_for pd s) s = Inr (ph, s1)"
    "range_loops (\<lambda>add. map_page_table (ph + add) (page_start va + add) pd)
       (\<lambda>add. map_page (ph + add) (page_start va + add) pd) (page_start va) (page_size sz va) s1 = Inr s'"
    by (auto simp: map_memory_def Let_def bindR_Inr_iff)
  have "paging.more s' = paging.more s1" by (rule range_loops_more [OF map_page_table_more map_page_more s1(2)])
  moreover have "paging.more s1 = paging.more s" by (rule reserve_block_more [OF m s1(1)])
  ultimately show ?thesis by simp
qed

subsection \<open>The heap\<close>

lemma merge_inner_more: "merge_inner f cur nxt s = Inr (b, s') \<Longrightarrow> kheap.more s' = kheap.more s"
proof (induction f arbitrary: nxt s)
  case (Suc f)
  then show ?case by (fastforce simp: Let_def split: if_splits)
qed simp

lemma merge_free_blocks_more: "merge_free_blocks f s = Inr s' \<Longrightarrow> kheap.more s' = kheap.more s"
proof -
  have "merge_free_blocks_from f cur s = Inr s' \<Longrightarrow> kheap.more s' = kheap.more s" for cur
  proof (induction f arbitrary: cur s)
    case (Suc f)
    then show ?case
      by (auto simp: Let_def bindR_Inr_iff simp del: merge_inner.simps split: if_splits dest!: merge_inner_more)
  qed simp
  then show "merge_free_blocks f s = Inr s' \<Longrightarrow> kheap.more s' = kheap.more s" by (simp add: merge_free_blocks_def)
qed

lemma kfree_more: "kfree f p s = Inr s' \<Longrightarrow> kheap.more s' = kheap.more s"
  by (auto simp: kfree_def Let_def split: if_splits dest!: merge_free_blocks_more)

lemma kmalloc_walk_more: "kmalloc_walk f i n s = Inr (Some (p, s')) \<Longrightarrow> kheap.more s' = kheap.more s"
proof (induction f arbitrary: i)
  case (Suc f)
  then show ?case by (fastforce simp: Let_def kmalloc_take_def split: if_splits)
qed simp

lemma map_in_all_more:
  assumes m: "\<And>sz a pd s s'. mapm sz a pd s = Inr s' \<Longrightarrow> paging.more s' = paging.more (s :: 'a paging_scheme)"
  shows "map_in_all mapm pds s = Inr s' \<Longrightarrow> paging.more s' = paging.more s"
  by (induction pds arbitrary: s) (auto simp: bindR_Inr_iff dest!: m)

lemma kmalloc_more:
  assumes m: "\<And>sz a pd s s'. mapm sz a pd s = Inr s' \<Longrightarrow> paging.more s' = paging.more (s :: 'a paging_scheme)"
  shows "kmalloc mapm pds f n s = Inr (p, s') \<Longrightarrow> paging.more s' = paging.more s"
proof (induction f arbitrary: n s)
  case (Suc f)
  from Suc.prems obtain r where r: "kmalloc_walk (Suc f) (KHEAP_BASE_START s) (alignup n 4) s = Inr r"
    "(case r of Some (p, s') \<Rightarrow> Inr (p, s') | None \<Rightarrow> bindR (kheap_expand mapm pds (Suc f) s) (kmalloc mapm pds f (alignup n 4))) = Inr (p, s')"
    unfolding kmalloc.simps by (rule bindR_InrE)
  show ?case
  proof (cases r)
    case None
    with r obtain s1 where s1: "kheap_expand mapm pds (Suc f) s = Inr s1" "kmalloc mapm pds f (alignup n 4) s1 = Inr (p, s')"
      by (auto elim: bindR_InrE)
    have "paging.more s1 = paging.more s"
    proof -
      from s1(1) obtain s2 s3 where s2: "map_in_all mapm pds s = Inr s2" "merge_free_blocks (Suc f) s3 = Inr s1" "kheap.more s3 = kheap.more s2"
        unfolding kheap_expand_def Let_def by (auto simp del: merge_free_blocks_from.simps split: if_splits elim!: bindR_InrE)
      have "paging.more s2 = paging.more s" by (rule map_in_all_more [OF m s2(1)])
      with kheap_more_paging [OF merge_free_blocks_more [OF s2(2)]] kheap_more_paging [OF s2(3)] show ?thesis by simp
    qed
    with Suc.IH [OF s1(2)] show ?thesis by simp
  next
    case (Some a)
    with r show ?thesis by (cases a) (auto simp del: kmalloc_walk.simps dest!: kmalloc_walk_more intro: kheap_more_paging)
  qed
qed simp

lemma map_memory_d_more: "map_memory_d d f kpd ps sz a pd s = Inr s' \<Longrightarrow> paging.more s' = paging.more s"
proof (induction d arbitrary: sz a pd s s')
  case (Suc d)
  have "paging.more s' = paging.more s" if "kmalloc (map_memory_d d f kpd ps) (kpd # ps) (Suc f) n s = Inr (p, s')"
    for n p and s s' :: "'a paging_scheme"
    by (rule kmalloc_more [OF Suc.IH that])
  from map_memory_more [OF this] Suc.prems show ?case by (simp del: kmalloc.simps)
qed simp

lemma krealloc_more:
  assumes m: "\<And>sz a pd s s'. mapm sz a pd s = Inr s' \<Longrightarrow> paging.more s' = paging.more (s :: 'a paging_scheme)"
    and r: "krealloc mapm pds f p n s = Inr (q, s')"
  shows "paging.more s' = paging.more s"
proof -
  from r obtain s1 s2 where s1: "kmalloc mapm pds f n s = Inr (q, s1)" "kfree f p s2 = Inr s'" "kheap.more s2 = kheap.more s1"
    unfolding krealloc_def Let_def by (auto simp del: kmalloc.simps split: if_splits elim!: bindR_InrE)
  from kmalloc_more [OF m s1(1)] kheap_more_paging [OF kfree_more [OF s1(2)]] kheap_more_paging [OF s1(3)]
  show ?thesis by simp
qed

interpretation th: task_heap "kernel_heap (map_memory_d d f kpd ps) pds g"
  for d f kpd g and ps pds :: "u32 list"
proof
  fix s :: "'a tasking_scheme" and n p q s'
  show "malloc (kernel_heap (map_memory_d d f kpd ps) pds g) n s = Inr (p, s') \<Longrightarrow> paging.more s' = paging.more s"
    unfolding kernel_heap_def heap_ops.simps by (rule kmalloc_more [OF map_memory_d_more])
  show "free (kernel_heap (map_memory_d d f kpd ps) pds g) p s = Inr s' \<Longrightarrow> paging.more s' = paging.more s"
    unfolding kernel_heap_def heap_ops.simps by (intro kheap_more_paging kfree_more)
  show "realloc (kernel_heap (map_memory_d d f kpd ps) pds g) p n s = Inr (q, s') \<Longrightarrow> paging.more s' = paging.more s"
    unfolding kernel_heap_def heap_ops.simps by (rule krealloc_more [OF map_memory_d_more])
qed

end
