(* ===== verification/VK_TaskProps.thy ===== *)
theory VK_TaskProps
  imports VK_Signal VK_TaskHeap
begin

section \<open>Properties of the tasking layer\<close>

text \<open>
  The lemmas are proved once in the locale \<open>task_heap\<close> and instantiated for the kernel's heap: what an operation
  keeps of the tasking state, and then the behaviour of waking threads, of mutexes, of the scheduler, of the
  sleep list and of signals.
\<close>

subsection \<open>Frames\<close>

lemma upd_proc_Inr: "upd_proc p g s = Inr s' \<longleftrightarrow> (\<exists>x. procs s p = Some x \<and> s' = s\<lparr>procs := (procs s)(p \<mapsto> g x)\<rparr>)"
  by (auto simp: upd_proc_def proc_def bindR_Inr_iff split: option.splits)

lemma upd_thr_Inr: "upd_thr t g s = Inr s' \<longleftrightarrow> (\<exists>x. thrs s t = Some x \<and> s' = s\<lparr>thrs := (thrs s)(t \<mapsto> g x)\<rparr>)"
  by (auto simp: upd_thr_def thr_def bindR_Inr_iff split: option.splits)

lemma upd_mtx_Inr: "upd_mtx a g s = Inr s' \<longleftrightarrow> (\<exists>x. mutexes s a = Some x \<and> s' = s\<lparr>mutexes := (mutexes s)(a \<mapsto> g x)\<rparr>)"
  by (auto simp: upd_mtx_def mtx_def bindR_Inr_iff split: option.splits)

lemma upd_wnode_Inr: "upd_wnode a g s = Inr s' \<longleftrightarrow> (\<exists>x. wnodes s a = Some x \<and> s' = s\<lparr>wnodes := (wnodes s)(a \<mapsto> g x)\<rparr>)"
  by (auto simp: upd_wnode_def wnode_def bindR_Inr_iff split: option.splits)

lemma deref_Inr:
  "proc p s = Inr x \<longleftrightarrow> procs s p = Some x" "thr t s = Inr y \<longleftrightarrow> thrs s t = Some y"
  "mtx a s = Inr m \<longleftrightarrow> mutexes s a = Some m" "wnode a s = Inr w \<longleftrightarrow> wnodes s a = Some w"
  by (auto simp: store_access_defs split: option.splits)

lemmas task_res = bindR_Inr_iff upd_proc_Inr upd_thr_Inr upd_mtx_Inr upd_wnode_Inr deref_Inr

text \<open>The mutexes and the lists of sleepers, interrupts and signals are as before.\<close>

definition lists_same :: "'a tasking_scheme \<Rightarrow> 'a tasking_scheme \<Rightarrow> bool" where
  "lists_same s s' \<longleftrightarrow> mutexes s' = mutexes s \<and> wnodes s' = wnodes s \<and> wait_list s' = wait_list s \<and>
     irq_list s' = irq_list s \<and> signal_list s' = signal_list s \<and> current_process s' = current_process s \<and>
     wait_mutex s' = wait_mutex s \<and> signal_mutex s' = signal_mutex s"

lemma lists_same_trans: "lists_same s s' \<Longrightarrow> lists_same s' s'' \<Longrightarrow> lists_same s s''"
  by (simp add: lists_same_def)

lemma lists_same_more: "paging.more s' = paging.more s \<Longrightarrow> lists_same s s'"
  by (auto simp: lists_same_def dest: more_fields)

lemma lists_same_simps [simp]:
  "lists_same s s" "lists_same s (procs_update f s') = lists_same s s'" "lists_same s (thrs_update g s') = lists_same s s'"
  by (simp_all add: lists_same_def)

lemma queue_take_more: "queue_take q s = (x, s') \<Longrightarrow> kheap.more s' = kheap.more s"
  by (auto simp: queue_take_def Let_def split: if_splits)

context task_heap
begin

lemma queue_add_more: "queue_add (realloc h) q e s = Inr s' \<Longrightarrow> paging.more s' = paging.more s"
  by (fastforce simp: queue_add_def Let_def bindR_Inr_iff split: if_splits dest!: realloc_keeps)

lemma free_all_more: "free_all h ps s = Inr s' \<Longrightarrow> paging.more s' = paging.more s"
  by (induction ps arbitrary: s) (auto simp: bindR_Inr_iff dest!: free_keeps)

text \<open>Adding a process to the ready queue only touches its status and the queue.\<close>

lemma add_process_effect:
  assumes "scheduler_add_process h p s = Inr s'"
  shows "\<exists>x c. procs s p = Some x \<and> procs s' = (procs s)(p \<mapsto> x\<lparr>p_status := c\<rparr>) \<and> thrs s' = thrs s \<and> lists_same s s'"
proof -
  from assms obtain x where x: "procs s p = Some x"
    and c: "s' = s \<or> queue_add (realloc h) (p_ready_queue s) p (s\<lparr>procs := (procs s)(p \<mapsto> x\<lparr>p_status := PROCESS_STATUS_RUNNING\<rparr>)\<rparr>) = Inr s'"
    unfolding scheduler_add_process_def by (auto simp: task_res split: if_splits)
  from c show ?thesis
  proof
    assume "s' = s"
    with x show ?thesis by (intro exI [of _ x] exI [of _ "p_status x"]) (auto simp: map_upd_triv)
  next
    assume q: "queue_add (realloc h) (p_ready_queue s) p (s\<lparr>procs := (procs s)(p \<mapsto> x\<lparr>p_status := PROCESS_STATUS_RUNNING\<rparr>)\<rparr>) = Inr s'"
    note m = queue_add_more [OF q]
    from more_fields [OF m] lists_same_more [OF m] x show ?thesis
      by (intro exI [of _ x] exI [of _ PROCESS_STATUS_RUNNING]) (auto simp: lists_same_def)
  qed
qed

text \<open>The last step of \<^verbatim>\<open>scheduler_add_thread\<close>: active, or queued behind the active thread.\<close>

lemma activate_effect:
  assumes "activate_thread h p t s = Inr s'"
  shows "\<exists>x a c. procs s p = Some x \<and> procs s' = (procs s)(p \<mapsto> x\<lparr>active_thread := a, p_status := c\<rparr>) \<and>
    thrs s' = thrs s \<and> lists_same s s'"
proof -
  from assms obtain x where x: "procs s p = Some x" and
    c: "(\<exists>s1. s1 = s\<lparr>procs := (procs s)(p \<mapsto> x\<lparr>active_thread := t\<rparr>)\<rparr> \<and> (s' = s1 \<or> scheduler_add_process h p s1 = Inr s'))
      \<or> queue_add (realloc h) (running_threads x) t s = Inr s'"
    unfolding activate_thread_def by (auto simp: task_res split: if_splits)
  from c show ?thesis
  proof (elim disjE exE conjE)
    fix s1 assume "s1 = s\<lparr>procs := (procs s)(p \<mapsto> x\<lparr>active_thread := t\<rparr>)\<rparr>" "s' = s1"
    with x show ?thesis by (intro exI [of _ x] exI [of _ t] exI [of _ "p_status x"]) auto
  next
    fix s1 assume s1: "s1 = s\<lparr>procs := (procs s)(p \<mapsto> x\<lparr>active_thread := t\<rparr>)\<rparr>" and "scheduler_add_process h p s1 = Inr s'"
    from add_process_effect [OF this(2)] x show ?thesis unfolding s1 by (auto simp: lists_same_def)
  next
    assume q: "queue_add (realloc h) (running_threads x) t s = Inr s'"
    from more_fields [OF queue_add_more [OF q]] lists_same_more [OF queue_add_more [OF q]] x show ?thesis
      by (intro exI [of _ x] exI [of _ "active_thread x"] exI [of _ "p_status x"]) (auto simp: map_upd_triv)
  qed
qed

lemma add_thread_cases:
  assumes "scheduler_add_thread h p t s = Inr s'"
  shows "\<exists>th. thrs s t = Some th \<and> (t_status th = THREAD_STATUS_RUNNING \<and> s' = s \<or>
    t_status th \<noteq> THREAD_STATUS_RUNNING \<and> (\<exists>x ws a c. procs s p = Some x \<and>
      procs s' = (procs s)(p \<mapsto> x\<lparr>waiting_threads := ws, active_thread := a, p_status := c\<rparr>) \<and>
      ws = (if t_status th = THREAD_STATUS_INIT then waiting_threads x else fst (unlink_waiting t (waiting_threads x))) \<and>
      thrs s' = (thrs s)(t \<mapsto> th\<lparr>t_status := THREAD_STATUS_RUNNING\<rparr>) \<and> lists_same s s'))"
proof -
  from assms obtain th where th: "thrs s t = Some th"
    unfolding scheduler_add_thread_def by (auto simp: task_res)
  show ?thesis
  proof (cases "t_status th = THREAD_STATUS_RUNNING")
    case True
    with assms th show ?thesis unfolding scheduler_add_thread_def by (auto simp: thr_def)
  next
    case False
    obtain ws fr where ws: "unlink_waiting t (waiting_threads (the (procs s p))) = (ws, fr)" by force
    let ?w = "if t_status th = THREAD_STATUS_INIT then waiting_threads (the (procs s p)) else ws"
    obtain s1 where s1: "lists_same s s1" "thrs s1 = thrs s"
      "procs s1 = (if t_status th = THREAD_STATUS_INIT then procs s else (procs s)(p \<mapsto> (the (procs s p))\<lparr>waiting_threads := ?w\<rparr>))"
      "t_status th \<noteq> THREAD_STATUS_INIT \<longrightarrow> procs s p \<noteq> None"
      and r: "bindR (upd_thr t (\<lambda>th. th\<lparr>t_status := THREAD_STATUS_RUNNING\<rparr>) s1) (activate_thread h p t) = Inr s'"
    proof (cases "t_status th = THREAD_STATUS_INIT")
      case True
      with assms th False that [of s] show ?thesis unfolding scheduler_add_thread_def by (auto simp: thr_def)
    next
      case ni: False
      from assms th False ni ws obtain x s2 where x: "procs s p = Some x"
        and f: "free_all h fr (s\<lparr>procs := (procs s)(p \<mapsto> x\<lparr>waiting_threads := ws\<rparr>)\<rparr>) = Inr s2"
        and r: "bindR (upd_thr t (\<lambda>th. th\<lparr>t_status := THREAD_STATUS_RUNNING\<rparr>) s2) (activate_thread h p t) = Inr s'"
        unfolding scheduler_add_thread_def by (auto simp: thr_def proc_def upd_proc_def elim!: bindR_InrE split: option.splits)
      note m = free_all_more [OF f]
      from that [of s2] r more_fields [OF m] lists_same_more [OF m] x ni show ?thesis by (auto simp: lists_same_def)
    qed
    from r th s1(2) have "activate_thread h p t (s1\<lparr>thrs := (thrs s)(t \<mapsto> th\<lparr>t_status := THREAD_STATUS_RUNNING\<rparr>)\<rparr>) = Inr s'"
      by (simp add: upd_thr_def thr_def)
    from activate_effect [OF this] obtain y a c where y: "procs s1 p = Some y"
      "procs s' = (procs s1)(p \<mapsto> y\<lparr>active_thread := a, p_status := c\<rparr>)"
      "thrs s' = (thrs s)(t \<mapsto> th\<lparr>t_status := THREAD_STATUS_RUNNING\<rparr>)" "lists_same s1 s'"
      by (auto simp: lists_same_def)
    have "procs s p \<noteq> None" using y(1) s1(3,4) by (auto split: if_splits)
    then obtain x where x: "procs s p = Some x" by blast
    have "y = x\<lparr>waiting_threads := ?w\<rparr>" using y(1) s1(3) x by (auto split: if_splits)
    then have "procs s' = (procs s)(p \<mapsto> x\<lparr>waiting_threads := ?w, active_thread := a, p_status := c\<rparr>)"
      using y(2) s1(3) x by (auto split: if_splits)
    with x y(3) lists_same_trans [OF s1(1) y(4)] th False ws show ?thesis
      by (intro exI [of _ th] conjI disjI2 exI [of _ x] exI [of _ ?w] exI [of _ a] exI [of _ c]) auto
  qed
qed

end

subsection \<open>Waking a thread\<close>

lemma unlink_absent:
  assumes "t \<notin> snd ` set xs"
  shows "unlink_rest t xs = (xs, [])" "unlink_freed t xs = (xs, [])"
  using assms by (induction xs) auto

lemma unlink_rest_found:
  assumes "t \<notin> snd ` set xs" "t \<notin> snd ` set ys"
  shows "unlink_rest t (xs @ (e, t) # ys) = (xs @ ys, [e])"
  using assms by (induction xs) (auto simp: unlink_absent)

lemma unlink_waiting_found:
  assumes "t \<notin> snd ` set xs" "t \<notin> snd ` set ys"
  shows "unlink_waiting t (xs @ (e, t) # ys) = (if xs = [] then [] else xs @ ys, [e])"
  using assms by (cases xs) (auto simp: unlink_rest_found unlink_absent)

text \<open>C21: waking a sleeping thread marks it running and takes it off its process's list of waiting threads. When it is not
  the first of that list, exactly its entry goes; when it is the first, the code clears the whole list, and the
  other waiting threads are forgotten.\<close>

theorem add_thread_wakes:
  assumes "scheduler_add_thread (kernel_heap (map_memory_d d f kpd ps) pds g) p t s = Inr s'"
    "thrs s t = Some th" "t_status th \<noteq> THREAD_STATUS_RUNNING" "t_status th \<noteq> THREAD_STATUS_INIT"
    "procs s p = Some x" "waiting_threads x = xs @ (e, t) # ys" "t \<notin> snd ` set xs" "t \<notin> snd ` set ys"
  shows "\<exists>y. procs s' p = Some y \<and> waiting_threads y = (if xs = [] then [] else xs @ ys) \<and>
    thrs s' = (thrs s)(t \<mapsto> th\<lparr>t_status := THREAD_STATUS_RUNNING\<rparr>)"
proof -
  from th.add_thread_cases [OF assms(1)] assms(2-5) obtain a c where
    "procs s' = (procs s)(p \<mapsto> x\<lparr>waiting_threads := fst (unlink_waiting t (waiting_threads x)), active_thread := a, p_status := c\<rparr>)"
    "thrs s' = (thrs s)(t \<mapsto> th\<lparr>t_status := THREAD_STATUS_RUNNING\<rparr>)" by auto
  with unlink_waiting_found [OF assms(7,8)] assms(6) show ?thesis by simp
qed

subsection \<open>Mutexes\<close>

context task_heap
begin

lemma mutex_lock_effect:
  assumes "mutex_lock a s = Inr (err, s')" "mutexes s a = Some m"
  shows "\<exists>m'. mutexes s' a = Some m' \<and> mx_waiting m' = mx_waiting m \<and>
    (if mx_owner m = 0 \<or> mx_owner m = current_process s then err = ERROR_NONE \<and> mx_owner m' = current_process s
     else err = ERROR_MUTEX_ALREADY_LOCKED \<and> mx_owner m' = mx_owner m)"
  using assms unfolding mutex_lock_def by (auto simp: task_res split: if_splits)

lemma unlock_wakeup_mutexes:
  assumes "mutex_unlock_wakeup h a s = Inr s'" "mutexes s a = Some m"
  shows "\<exists>m'. mutexes s' a = Some m' \<and> mx_owner m' = mx_owner m"
proof (cases "mx_waiting m")
  case Nil
  with assms show ?thesis by (auto simp: mutex_unlock_wakeup_def mtx_def)
next
  case (Cons w rest)
  obtain e tw0 tw1 where w: "w = (e, tw0, tw1)" by (cases w) auto
  from assms Cons w obtain s1 where s1: "free h e (s\<lparr>mutexes := (mutexes s)(a \<mapsto> m\<lparr>mx_waiting := rest\<rparr>)\<rparr>) = Inr s1"
    "scheduler_add_thread h tw0 tw1 s1 = Inr s'"
    unfolding mutex_unlock_wakeup_def by (auto simp: task_res)
  have "mutexes s' = mutexes s1" using add_thread_cases [OF s1(2)] by (auto simp: lists_same_def)
  with more_fields(11) [OF free_keeps [OF s1(1)]] show ?thesis by simp
qed

lemma unlock_lists:
  assumes "mutex_unlock h a s = Inr (err, s')"
  shows "lists_same s (s'\<lparr>mutexes := mutexes s\<rparr>)"
proof -
  from assms obtain m where m: "mutexes s a = Some m" unfolding mutex_unlock_def by (auto simp: task_res)
  show ?thesis
  proof (cases "mx_owner m = current_process s")
    case False
    with assms m show ?thesis unfolding mutex_unlock_def by (auto simp: mtx_def)
  next
    case True
    let ?s1 = "s\<lparr>mutexes := (mutexes s)(a \<mapsto> m\<lparr>mx_owner := 0\<rparr>)\<rparr>"
    from assms m True have w: "mutex_unlock_wakeup h a ?s1 = Inr s'" unfolding mutex_unlock_def by (auto simp: task_res)
    show ?thesis
    proof (cases "mx_waiting m")
      case Nil
      with w show ?thesis by (auto simp: mutex_unlock_wakeup_def mtx_def lists_same_def)
    next
      case (Cons v rest)
      obtain e tw0 tw1 where v: "v = (e, tw0, tw1)" by (cases v) auto
      from w Cons v obtain s2 where s2: "free h e (?s1\<lparr>mutexes := (mutexes ?s1)(a \<mapsto> m\<lparr>mx_owner := 0, mx_waiting := rest\<rparr>)\<rparr>) = Inr s2"
        "scheduler_add_thread h tw0 tw1 s2 = Inr s'"
        unfolding mutex_unlock_wakeup_def by (auto simp: task_res)
      have "lists_same s2 s'" using add_thread_cases [OF s2(2)] by auto
      with more_fields [OF free_keeps [OF s2(1)]] show ?thesis by (auto simp: lists_same_def)
    qed
  qed
qed

lemma mutex_unlock_effect:
  assumes "mutex_unlock h a s = Inr (err, s')" "mutexes s a = Some m"
  shows "\<exists>m'. mutexes s' a = Some m' \<and>
    (if mx_owner m = current_process s then err = ERROR_NONE \<and> mx_owner m' = 0
     else err = ERROR_MUTEX_OWNED_BY_OTHER \<and> mx_owner m' = mx_owner m)"
proof (cases "mx_owner m = current_process s")
  case True
  with assms obtain s1 where s1: "mutex_unlock_wakeup h a (s\<lparr>mutexes := (mutexes s)(a \<mapsto> m\<lparr>mx_owner := 0\<rparr>)\<rparr>) = Inr s1"
    "s' = s1" "err = ERROR_NONE"
    unfolding mutex_unlock_def by (auto simp: task_res)
  from unlock_wakeup_mutexes [OF s1(1), of "m\<lparr>mx_owner := 0\<rparr>"] s1 True show ?thesis by auto
next
  case False
  with assms show ?thesis unfolding mutex_unlock_def by (auto simp: mtx_def)
qed

end

text \<open>
  The life of one mutex: processes lock and unlock it in any order, and anything else may happen that does not touch
  it. The set holds the processes whose last successful call was a lock.
\<close>

inductive mutex_step :: "'a tasking_scheme heap_ops \<Rightarrow> u32 \<Rightarrow> 'a tasking_scheme \<times> u32 set \<Rightarrow> 'a tasking_scheme \<times> u32 set \<Rightarrow> bool"
  for h a where
  locked: "p \<noteq> 0 \<Longrightarrow> mutex_lock a (s\<lparr>current_process := p\<rparr>) = Inr (ERROR_NONE, s') \<Longrightarrow> mutex_step h a (s, H) (s', insert p H)"
| refused: "p \<noteq> 0 \<Longrightarrow> mutex_lock a (s\<lparr>current_process := p\<rparr>) = Inr (err, s') \<Longrightarrow> err \<noteq> ERROR_NONE \<Longrightarrow> mutex_step h a (s, H) (s', H)"
| unlocked: "p \<noteq> 0 \<Longrightarrow> mutex_unlock h a (s\<lparr>current_process := p\<rparr>) = Inr (ERROR_NONE, s') \<Longrightarrow> mutex_step h a (s, H) (s', H - {p})"
| not_owner: "p \<noteq> 0 \<Longrightarrow> mutex_unlock h a (s\<lparr>current_process := p\<rparr>) = Inr (err, s') \<Longrightarrow> err \<noteq> ERROR_NONE \<Longrightarrow> mutex_step h a (s, H) (s', H)"
| other: "mutexes s' a = mutexes s a \<Longrightarrow> mutex_step h a (s, H) (s', H)"

inductive_cases mutex_stepE: "mutex_step h a (s, H) (s', H')"

definition mutex_held :: "u32 \<Rightarrow> 'a tasking_scheme \<Rightarrow> u32 set \<Rightarrow> bool" where
  "mutex_held a s H \<longleftrightarrow> (\<exists>m. mutexes s a = Some m \<and> 0 \<notin> H \<and> H \<subseteq> {mx_owner m})"

context task_heap
begin

lemma mutex_held_step:
  assumes "mutex_step h a (s, H) (s', H')" "mutex_held a s H"
  shows "mutex_held a s' H'"
proof -
  from assms(2) obtain m where m: "mutexes s a = Some m" "0 \<notin> H" "H \<subseteq> {mx_owner m}" by (auto simp: mutex_held_def)
  have ne: "ERROR_NONE \<noteq> ERROR_MUTEX_ALREADY_LOCKED" "ERROR_NONE \<noteq> ERROR_MUTEX_OWNED_BY_OTHER"
    by (simp_all add: ERROR_NONE_def ERROR_MUTEX_ALREADY_LOCKED_def ERROR_MUTEX_OWNED_BY_OTHER_def)
  from assms(1) show ?thesis
  proof (elim mutex_stepE, goal_cases)
    case (1 p)
    with mutex_lock_effect [OF 1(3)] m ne show ?case by (auto simp: mutex_held_def split: if_splits)
  next
    case (2 p err)
    with mutex_lock_effect [OF 2(3)] m ne show ?case by (auto simp: mutex_held_def split: if_splits)
  next
    case (3 p)
    with mutex_unlock_effect [OF 3(3)] m ne show ?case by (auto simp: mutex_held_def split: if_splits)
  next
    case (4 p err)
    with mutex_unlock_effect [OF 4(3)] m ne show ?case by (auto simp: mutex_held_def split: if_splits)
  next
    case 5
    with m show ?case by (auto simp: mutex_held_def)
  qed
qed

lemma mutex_held_run: "(mutex_step h a)\<^sup>*\<^sup>* c c' \<Longrightarrow> mutex_held a (fst c) (snd c) \<Longrightarrow> mutex_held a (fst c') (snd c')"
proof (induction rule: rtranclp_induct)
  case (step c1 c2)
  then show ?case using mutex_held_step [of a "fst c1" "snd c1" "fst c2" "snd c2"] by simp
qed simp

end


text \<open>a thread that waits for a mutex is not woken when the mutex is unlocked: the waiting entry holds the thread where the
  code expects the process, so \<^verbatim>\<open>mutex_unlock\<close> either faults or returns with the thread as it was.\<close>

theorem mutex_waiter_not_woken:
  assumes "mutexes s a = Some m" "mx_waiting m = (e, t, w) # rest" "thrs s t = Some th"
    "t_status th = THREAD_STATUS_ASLEEP_MUTEX" "procs s t = None"
    "mutex_unlock (kernel_heap (map_memory_d d f kpd ps) pds g) a s = Inr (err, s')"
  shows "thrs s' t = Some th"
proof -
  let ?h = "kernel_heap (map_memory_d d f kpd ps) pds g"
  show ?thesis
  proof (cases "mx_owner m = current_process s")
    case False
    with assms show ?thesis unfolding mutex_unlock_def by (auto simp: mtx_def)
  next
    case True
    with assms obtain s1 where s1: "free ?h e (s\<lparr>mutexes := (mutexes s)(a \<mapsto> m\<lparr>mx_owner := 0, mx_waiting := rest\<rparr>)\<rparr>) = Inr s1"
      "scheduler_add_thread ?h t w s1 = Inr s'"
      unfolding mutex_unlock_def mutex_unlock_wakeup_def by (auto simp: task_res)
    note k = more_fields [OF th.free_keeps [OF s1(1)]]
    have "procs s1 t = None" using k(1) assms(5) by simp
    with th.add_thread_cases [OF s1(2)] have "s' = s1" by auto
    with k(2) assms(3) show ?thesis by simp
  qed
qed

end
