(* ===== verification/VK_VgaProps.thy ===== *)
theory VK_VgaProps
  imports VK_Vga VK_TaskProps
begin

section \<open>The text screen: refinement and bounds\<close>

text \<open>
  The screen as a grid of 25 lines of 80 cells with a cursor, what a character does to it, and that
  \<^verbatim>\<open>vga_text_putc\<close> implements that on video memory and writes nowhere else, as long as its cursor is on the screen.
\<close>

subsection \<open>The grid\<close>

type_synonym grid = "nat \<Rightarrow> nat \<Rightarrow> u8 \<times> u8"

definition screen_ok :: "'a vga_scheme \<Rightarrow> bool" where
  "screen_ok s \<longleftrightarrow> VIDEO_MODE s = VIDEO_MODE_VGA_TEXT \<and> VIDEO_TYPE s \<noteq> VIDEO_TYPE_NONE \<and>
     unat (VGA_MEM_START s) + 4000 < 2 ^ 32 \<and> VGA_MEM_END s = VGA_MEM_START s + 0xFA0 \<and>
     TEXT_CURSOR_X s < VGA_COLUMNS \<and> TEXT_CURSOR_Y s < VGA_LINES"

definition grid_of :: "mem \<Rightarrow> u32 \<Rightarrow> grid" where
  "grid_of m b r c = (m (b + of_nat (160 * r + 2 * c)), m (b + of_nat (Suc (160 * r + 2 * c))))"

definition spec_char :: "bool \<Rightarrow> u8 \<Rightarrow> u8 \<Rightarrow> grid \<times> nat \<times> nat \<Rightarrow> grid \<times> nat \<times> nat" where
  "spec_char colors c color = (\<lambda>(g, x, y).
     if c = 10 then (g, 0, y + 1)
     else if c = 9 then (if 8 * (x div 8 + 1) < 80 then (g, 8 * (x div 8 + 1), y) else (g, 0, y + 1))
     else if c = 13 then (g, 0, y)
     else if c = 8 then (if 0 < x then (g(y := (g y)(x - 1 := (0, snd (g y (x - 1))))), x - 1, y) else (g, x, y))
     else if x + 1 < 80 then (g(y := (g y)(x := (c, if colors then color else snd (g y x)))), x + 1, y)
     else (g(y := (g y)(x := (c, if colors then color else snd (g y x)))), 0, y + 1))"

definition spec_scroll :: "grid \<times> nat \<times> nat \<Rightarrow> grid \<times> nat \<times> nat" where
  "spec_scroll = (\<lambda>(g, x, y). if y < 25 then (g, x, y) else (\<lambda>r c. if r < 24 then g (r + 1) c else (0, 7), x, y - 1))"

text \<open>The state shows a grid with a cursor.\<close>

definition displays :: "'a vga_scheme \<Rightarrow> grid \<times> nat \<times> nat \<Rightarrow> bool" where
  "displays s = (\<lambda>(g, x, y). unat (TEXT_CURSOR_X s) = x \<and> unat (TEXT_CURSOR_Y s) = y \<and>
     (\<forall>r c. r < 25 \<longrightarrow> c < 80 \<longrightarrow> grid_of (kmem s) (VGA_MEM_START s) r c = g r c))"

subsection \<open>Video memory\<close>

lemma fill_cells_at:
  assumes "unat a + 2 * n < 2 ^ 32"
  shows "fill_cells n a attr m x =
    (if unat a \<le> unat x \<and> unat x < unat a + 2 * n then if even (unat x - unat a) then 0 else attr else m x)"
  using assms
proof (induction n arbitrary: a m)
  case (Suc n)
  have u: "unat (a + 2) = unat a + 2" "unat (a + 1) = unat a + 1" using Suc.prems by (subst unat_plus_small; simp)+
  have x: "x = a \<longleftrightarrow> unat x = unat a" "x = a + 1 \<longleftrightarrow> unat x = unat a + 1" using u by (metis word_unat_eqI)+
  have "fill_cells (Suc n) a attr m x = (if unat a + 2 \<le> unat x \<and> unat x < unat a + 2 + 2 * n
      then if even (unat x - (unat a + 2)) then 0 else attr else (m(a := 0, a + 1 := attr)) x)"
    using Suc.IH [of "a + 2"] Suc.prems u by simp
  moreover have "even (unat x - (unat a + 2)) \<longleftrightarrow> even (unat x - unat a)" if "unat a + 2 \<le> unat x"
    using le_Suc_ex [OF that] by auto
  ultimately show ?case using x by (auto simp: le_less_Suc_eq)
qed auto

lemma offset_of: "unat (b :: u32) \<le> unat x \<Longrightarrow> x = b + of_nat (unat x - unat b)"
  by (simp add: word_arith_nat_add [symmetric] of_nat_diff)

lemma grid_off:
  assumes "unat (b :: u32) + 4000 < 2 ^ 32" "r < 25" "c < 80"
  shows "unat (b + of_nat (160 * r + 2 * c)) = unat b + (160 * r + 2 * c)"
    "unat (b + of_nat (Suc (160 * r + 2 * c))) = unat b + Suc (160 * r + 2 * c)"
  using assms by (intro unat_offset; simp)+

text \<open>A store to the character or the attribute of a cell changes that cell of the grid only.\<close>

lemma cell_inj:
  assumes "unat (b :: u32) + 4000 < 2 ^ 32" "r < 25" "c < 80" "y < 25" "x < 80"
  shows "b + of_nat (160 * r + 2 * c) = b + of_nat (160 * y + 2 * x) \<longleftrightarrow> r = y \<and> c = x"
    "b + of_nat (Suc (160 * r + 2 * c)) = b + of_nat (Suc (160 * y + 2 * x)) \<longleftrightarrow> r = y \<and> c = x"
    "b + of_nat (160 * r + 2 * c) \<noteq> b + of_nat (Suc (160 * y + 2 * x))"
    "b + of_nat (Suc (160 * r + 2 * c)) \<noteq> b + of_nat (160 * y + 2 * x)"
proof -
  have e: "160 * r + 2 * c = 160 * y + 2 * x \<longleftrightarrow> r = y \<and> c = x"
  proof (cases r y rule: linorder_cases)
    case less
    then have "160 * r + 160 \<le> 160 * y" by linarith
    with less show ?thesis using assms by linarith
  next
    case greater
    then have "160 * y + 160 \<le> 160 * r" by linarith
    with greater show ?thesis using assms by linarith
  qed simp
  have o: "160 * r + 2 * c \<noteq> Suc (160 * y + 2 * x)" "Suc (160 * r + 2 * c) \<noteq> 160 * y + 2 * x"
    by (metis even_Suc even_add even_mult_iff even_numeral)+
  show "b + of_nat (160 * r + 2 * c) = b + of_nat (160 * y + 2 * x) \<longleftrightarrow> r = y \<and> c = x"
    by (rule trans [OF offset_inj e]) (use assms in simp_all)
  show "b + of_nat (Suc (160 * r + 2 * c)) = b + of_nat (Suc (160 * y + 2 * x)) \<longleftrightarrow> r = y \<and> c = x"
    by (rule trans [OF offset_inj]) (use assms e in simp_all)
  show "b + of_nat (160 * r + 2 * c) \<noteq> b + of_nat (Suc (160 * y + 2 * x))"
    by (subst offset_inj) (use assms o(1) in simp_all)
  show "b + of_nat (Suc (160 * r + 2 * c)) \<noteq> b + of_nat (160 * y + 2 * x)"
    by (subst offset_inj) (use assms o(2) in simp_all)
qed

lemma grid_store:
  assumes "unat b + 4000 < 2 ^ 32" "r < 25" "c < 80" "y < 25" "x < 80"
  shows "grid_of (m(b + of_nat (160 * y + 2 * x) := v)) b r c = (if r = y \<and> c = x then (v, snd (grid_of m b r c)) else grid_of m b r c)"
    "grid_of (m(b + of_nat (Suc (160 * y + 2 * x)) := v)) b r c = (if r = y \<and> c = x then (fst (grid_of m b r c), v) else grid_of m b r c)"
  using cell_inj [OF assms] by (auto simp: grid_of_def simp del: of_nat_add of_nat_mult of_nat_Suc)

lemma cell_addr_grid:
  "cell_addr s = VGA_MEM_START s + of_nat (160 * unat (TEXT_CURSOR_Y s) + 2 * unat (TEXT_CURSOR_X s))"
  "cell_addr s + 1 = VGA_MEM_START s + of_nat (Suc (160 * unat (TEXT_CURSOR_Y s) + 2 * unat (TEXT_CURSOR_X s)))"
proof -
  have "(ucast (w :: u8) :: u32) = of_nat (unat w)" for w by simp
  then show "cell_addr s = VGA_MEM_START s + of_nat (160 * unat (TEXT_CURSOR_Y s) + 2 * unat (TEXT_CURSOR_X s))"
    by (simp add: cell_addr_def VGA_COLUMNS_def)
  then show "cell_addr s + 1 = VGA_MEM_START s + of_nat (Suc (160 * unat (TEXT_CURSOR_Y s) + 2 * unat (TEXT_CURSOR_X s)))" by simp
qed

text \<open>The part of memory that is not video memory.\<close>

definition off_screen :: "u32 \<Rightarrow> mem \<Rightarrow> mem \<Rightarrow> bool" where
  "off_screen b m m' \<longleftrightarrow> same_on 0 (unat b) m m' \<and> same_on (unat b + 4000) (2 ^ 32) m m'"

lemma off_screen_refl [simp]: "off_screen b m m" by (simp add: off_screen_def)

lemma off_screen_trans: "off_screen b m m' \<Longrightarrow> off_screen b m' m'' \<Longrightarrow> off_screen b m m''"
  by (auto simp: off_screen_def intro: same_on_trans)

lemma off_screen_store:
  assumes "unat b + 4000 < 2 ^ 32" "k < 4000"
  shows "off_screen b m (m(b + of_nat k := v))"
  using unat_offset [of b k] assms by (auto simp: off_screen_def same_on_def)

lemma scroll_displays:
  assumes s: "VIDEO_MODE s = VIDEO_MODE_VGA_TEXT" "VIDEO_TYPE s \<noteq> VIDEO_TYPE_NONE"
    "unat (VGA_MEM_START s) + 4000 < 2 ^ 32" "VGA_MEM_END s = VGA_MEM_START s + 0xFA0" "TEXT_CURSOR_Y s = VGA_LINES"
    and d: "displays s (g, x, y)"
  shows "displays (vga_text_scroll_up s) (spec_scroll (g, x, y))" "off_screen (VGA_MEM_START s) (kmem s) (kmem (vga_text_scroll_up s))"
proof -
  let ?b = "VGA_MEM_START s" and ?m = "kmem s"
  let ?m1 = "memcpy ?m ?b (?b + 160) 3840"
  let ?m2 = "fill_cells 80 (?b + 3840) 7 ?m1"
  have sc: "vga_text_scroll_up s = s\<lparr>kmem := ?m2, TEXT_CURSOR_Y := 24\<rparr>"
    unfolding vga_text_scroll_up_def using s(1, 2) by (simp add: s(4, 5) vga_consts Let_def) (simp add: add.commute)
  have b: "unat (?b + 3840) = unat ?b + 3840" "unat (?b + 160) = unat ?b + 160"
    using s(3) unat_offset [of ?b 3840] unat_offset [of ?b 160] by simp_all
  have m2: "?m2 a = (if unat ?b + 3840 \<le> unat a \<and> unat a < unat ?b + 4000
      then if even (unat a - (unat ?b + 3840)) then 0 else 7 else ?m1 a)" for a
    using b s(3) by (subst fill_cells_at) auto
  have m1: "?m1 (?b + of_nat i) = ?m (?b + of_nat (160 + i))" if "i < 3840" for i
  proof -
    have "?m1 (?b + of_nat i) = ?m (?b + 160 + of_nat i)" using that s(3) b(2) by (intro memcpy_copies) simp_all
    then show ?thesis by (simp add: add.assoc)
  qed
  have g: "grid_of ?m2 ?b r c = (if r < 24 then grid_of ?m ?b (r + 1) c else (0, 7))" if "r < 25" "c < 80" for r c
  proof (cases "r < 24")
    case True
    have "?m1 (?b + of_nat (160 * r + 2 * c)) = ?m (?b + of_nat (160 * (r + 1) + 2 * c))"
      "?m1 (?b + of_nat (Suc (160 * r + 2 * c))) = ?m (?b + of_nat (Suc (160 * (r + 1) + 2 * c)))"
      using True that m1 [of "160 * r + 2 * c"] m1 [of "Suc (160 * r + 2 * c)"] by (simp_all add: algebra_simps)
    then show ?thesis
      using True that grid_off [OF s(3) that] by (simp add: grid_of_def m2 del: of_nat_add of_nat_mult of_nat_Suc mult_Suc_right)
  next
    case False
    with that have "r = 24" by simp
    with that grid_off [OF s(3) that] show ?thesis by (simp add: grid_of_def m2 del: of_nat_add of_nat_mult of_nat_Suc)
  qed
  show "displays (vga_text_scroll_up s) (spec_scroll (g, x, y))"
    using d g s(5) by (auto simp: displays_def spec_scroll_def sc VGA_LINES_def)
  have "same_on 0 (unat ?b) ?m ?m1" "same_on (unat ?b + 4000) (2 ^ 32) ?m ?m1"
    using s(3) by (intro memcpy_outside; simp)+
  then show "off_screen ?b ?m (kmem (vga_text_scroll_up s))"
    by (auto simp: off_screen_def same_on_def sc m2)
qed

subsection \<open>One character\<close>

lemma u8_below:
  fixes X :: u8
  assumes "unat X < 100"
  shows "unat (X + 1) = unat X + 1" "0 < X \<Longrightarrow> unat (X - 1) = unat X - 1" "unat (X + 8 - X mod 8) = 8 * (unat X div 8 + 1)"
proof -
  have 8: "unat (X + k) = unat X + unat k" if "unat X + unat k < 256" for k using that by (simp add: unat_word_ariths)
  show "unat (X + 1) = unat X + 1" using assms 8 [of 1] by simp
  show "unat (X - 1) = unat X - 1" if "0 < X" using that by (subst unat_sub) (auto simp: word_less_nat_alt word_le_nat_alt)
  have "unat (X + 8) = unat X + 8" using assms 8 [of 8] by simp
  moreover have "unat (X mod 8) = unat X mod 8" by (simp add: unat_mod_distrib)
  ultimately have "unat (X + 8 - X mod 8) = unat X + 8 - unat X mod 8" by (subst unat_sub) (auto simp: word_le_nat_alt)
  also have "\<dots> = 8 * (unat X div 8 + 1)" using mult_div_mod_eq [of 8 "unat X"] mod_less_eq_dividend [of "unat X" 8] by (simp only: nat_distrib)
  finally show "unat (X + 8 - X mod 8) = 8 * (unat X div 8 + 1)" .
qed

lemma displays_store:
  assumes "displays s (g, x, y)" "unat (VGA_MEM_START s) + 4000 < 2 ^ 32" "y < 25" "x' < 80"
  shows "displays (s\<lparr>kmem := (kmem s)(VGA_MEM_START s + of_nat (160 * y + 2 * x') := v)\<rparr>) (g(y := (g y)(x' := (v, snd (g y x')))), x, y)"
    "displays (s\<lparr>kmem := (kmem s)(VGA_MEM_START s + of_nat (160 * y + 2 * x') := v, VGA_MEM_START s + of_nat (Suc (160 * y + 2 * x')) := a)\<rparr>)
       (g(y := (g y)(x' := (v, a))), x, y)"
proof -
  show "displays (s\<lparr>kmem := (kmem s)(VGA_MEM_START s + of_nat (160 * y + 2 * x') := v)\<rparr>) (g(y := (g y)(x' := (v, snd (g y x')))), x, y)"
    using assms by (auto simp: displays_def grid_store simp del: of_nat_add of_nat_mult)
  show "displays (s\<lparr>kmem := (kmem s)(VGA_MEM_START s + of_nat (160 * y + 2 * x') := v, VGA_MEM_START s + of_nat (Suc (160 * y + 2 * x')) := a)\<rparr>)
       (g(y := (g y)(x' := (v, a))), x, y)"
    using assms by (auto simp: displays_def grid_store simp del: of_nat_add of_nat_mult of_nat_Suc)
qed

text \<open>The cursor fields do not affect the grid.\<close>

lemma displays_cursor:
  "displays s (g, x, y) \<Longrightarrow> unat X = x' \<Longrightarrow> unat Y = y' \<Longrightarrow> displays (s\<lparr>TEXT_CURSOR_X := X, TEXT_CURSOR_Y := Y\<rparr>) (g, x', y')"
  by (auto simp: displays_def)

text \<open>The character step and the line wrap, on the grid.\<close>

definition char_state :: "u8 \<Rightarrow> u8 \<Rightarrow> 'a vga_scheme \<Rightarrow> 'a vga_scheme" where
  "char_state c color s = line_end (putc_char c color s)"

lemma plain_char:
  assumes "screen_ok s" "displays s (g, x, y)" "c \<notin> {8, 9, 10, 13}"
  shows "displays (char_state c color s) (spec_char (VIDEO_TYPE s = VIDEO_TYPE_COLOR) c color (g, x, y))"
    "off_screen (VGA_MEM_START s) (kmem s) (kmem (char_state c color s))"
proof -
  let ?b = "VGA_MEM_START s" and ?a = "if VIDEO_TYPE s = VIDEO_TYPE_COLOR then color else snd (g y x)"
  have xy: "unat (TEXT_CURSOR_X s) = x" "unat (TEXT_CURSOR_Y s) = y" "x < 80" "y < 25" "unat ?b + 4000 < 2 ^ 32"
    using assms by (auto simp: displays_def screen_ok_def vga_consts word_less_nat_alt)
  let ?m = "if VIDEO_TYPE s = VIDEO_TYPE_COLOR then (kmem s)(cell_addr s := c, cell_addr s + 1 := color) else (kmem s)(cell_addr s := c)"
  have pc: "putc_char c color s = s\<lparr>kmem := ?m, TEXT_CURSOR_X := TEXT_CURSOR_X s + 1\<rparr>"
    using assms(3) by (simp add: putc_char_def Let_def)
  let ?c = "?b + of_nat (160 * y + 2 * x)" and ?c1 = "?b + of_nat (Suc (160 * y + 2 * x))"
  have m: "?m = (if VIDEO_TYPE s = VIDEO_TYPE_COLOR then (kmem s)(?c := c, ?c1 := color) else (kmem s)(?c := c))"
    by (simp only: cell_addr_grid(2) xy, simp only: cell_addr_grid(1) xy)
  have d: "displays (s\<lparr>kmem := ?m\<rparr>) (g(y := (g y)(x := (c, ?a))), x, y)"
    unfolding m using displays_store [OF assms(2) xy(5, 4, 3)] by (simp del: of_nat_add of_nat_mult of_nat_Suc)
  have ox: "off_screen ?b n (n(?c := v))" "off_screen ?b n (n(?c1 := v))" for n v
    using xy by (auto intro!: off_screen_store simp del: of_nat_add of_nat_mult of_nat_Suc)
  have o: "off_screen ?b (kmem s) ?m"
    unfolding m using ox(1) off_screen_trans [OF ox(1) ox(2)] by (simp del: of_nat_add of_nat_mult of_nat_Suc)
  have X: "unat (TEXT_CURSOR_X s + 1) = x + 1" "unat (TEXT_CURSOR_Y s + 1) = y + 1" using xy u8_below(1) by auto
  show "displays (char_state c color s) (spec_char (VIDEO_TYPE s = VIDEO_TYPE_COLOR) c color (g, x, y))"
    "off_screen ?b (kmem s) (kmem (char_state c color s))"
    using assms(3) d o X xy
    by (auto simp: char_state_def line_end_def pc spec_char_def displays_def VGA_COLUMNS_def word_le_nat_alt)
qed

lemma backspace_char:
  assumes "screen_ok s" "displays s (g, x, y)"
  shows "displays (char_state 8 color s) (spec_char cl 8 color (g, x, y))"
    "off_screen (VGA_MEM_START s) (kmem s) (kmem (char_state 8 color s))"
proof -
  let ?b = "VGA_MEM_START s" and ?X = "TEXT_CURSOR_X s" and ?Y = "TEXT_CURSOR_Y s"
  have xy: "unat ?X = x" "unat ?Y = y" "x < 80" "y < 25" "unat ?b + 4000 < 2 ^ 32"
    using assms by (auto simp: displays_def screen_ok_def vga_consts word_less_nat_alt)
  have "displays (char_state 8 color s) (spec_char cl 8 color (g, x, y)) \<and> off_screen ?b (kmem s) (kmem (char_state 8 color s))"
  proof (cases "0 < ?X")
    case True
    then have X: "unat (?X - 1) = x - 1" "0 < x" using xy u8_below(2) by (auto simp: word_less_nat_alt)
    let ?m = "(kmem s)(?b + of_nat (160 * y + 2 * (x - 1)) := 0)"
    have c: "char_state 8 color s = s\<lparr>kmem := ?m, TEXT_CURSOR_X := ?X - 1\<rparr>"
      using True X xy by (simp add: char_state_def putc_char_def line_end_def cell_addr_grid VGA_COLUMNS_def word_le_nat_alt del: of_nat_add of_nat_mult)
    show ?thesis
      using displays_store(1) [OF assms(2) xy(5, 4), of "x - 1" 0] off_screen_store [OF xy(5), of "160 * y + 2 * (x - 1)"] X xy
      by (auto simp: c spec_char_def displays_def)
  next
    case False
    then have X: "?X = 0" "x = 0" using xy by (auto simp: word_neq_0_conv [symmetric])
    have "char_state 8 color s = s"
      using X by (cases "0 < ?Y") (simp_all add: char_state_def putc_char_def line_end_def VGA_COLUMNS_def)
    then show ?thesis using assms(2) X by (simp add: spec_char_def)
  qed
  then show "displays (char_state 8 color s) (spec_char cl 8 color (g, x, y))"
    "off_screen (VGA_MEM_START s) (kmem s) (kmem (char_state 8 color s))" by simp_all
qed

lemma control_char:
  assumes "screen_ok s" "displays s (g, x, y)" "c \<in> {9, 10, 13}"
  shows "displays (char_state c color s) (spec_char cl c color (g, x, y))" "kmem (char_state c color s) = kmem s"
proof -
  have xy: "unat (TEXT_CURSOR_X s) = x" "unat (TEXT_CURSOR_Y s) = y" "x < 80" "y < 25"
    using assms by (auto simp: displays_def screen_ok_def vga_consts word_less_nat_alt)
  have Y: "unat (TEXT_CURSOR_Y s + 1) = y + 1" "unat (TEXT_CURSOR_X s + 8 - TEXT_CURSOR_X s mod 8) = 8 * (x div 8 + 1)"
    using xy u8_below by auto
  have e: "char_state c color s = (if c = 10 \<or> c = 9 \<and> 80 \<le> 8 * (x div 8 + 1) then s\<lparr>TEXT_CURSOR_X := 0, TEXT_CURSOR_Y := TEXT_CURSOR_Y s + 1\<rparr>
      else if c = 9 then s\<lparr>TEXT_CURSOR_X := TEXT_CURSOR_X s + 8 - TEXT_CURSOR_X s mod 8\<rparr> else s\<lparr>TEXT_CURSOR_X := 0\<rparr>)"
    using assms(3) Y(2) xy(3) by (elim insertE) (simp_all add: char_state_def putc_char_def line_end_def VGA_COLUMNS_def Let_def word_le_nat_alt word_less_nat_alt)
  show "displays (char_state c color s) (spec_char cl c color (g, x, y))"
    using assms(2, 3) xy(2) Y unfolding e by (elim insertE) (simp_all add: spec_char_def displays_def)
  show "kmem (char_state c color s) = kmem s" by (simp add: e)
qed

lemma char_displays:
  assumes "screen_ok s" "displays s (g, x, y)"
  shows "displays (char_state c color s) (spec_char (VIDEO_TYPE s = VIDEO_TYPE_COLOR) c color (g, x, y))"
    "off_screen (VGA_MEM_START s) (kmem s) (kmem (char_state c color s))"
  using plain_char [OF assms, of c color] backspace_char [OF assms] control_char [OF assms, of c color]
  by (cases "c \<in> {8, 9, 10, 13}"; auto simp del: insert_iff simp: insert_iff [of c])+

lemma putc_char_fields:
  "putc_char c color s = s\<lparr>kmem := kmem (putc_char c color s), TEXT_CURSOR_X := TEXT_CURSOR_X (putc_char c color s),
     TEXT_CURSOR_Y := TEXT_CURSOR_Y (putc_char c color s)\<rparr>"
  by (simp add: putc_char_def Let_def)

lemma char_state_fields:
  "char_state c color s = s\<lparr>kmem := kmem (char_state c color s), TEXT_CURSOR_X := TEXT_CURSOR_X (char_state c color s),
     TEXT_CURSOR_Y := TEXT_CURSOR_Y (char_state c color s)\<rparr>"
  unfolding char_state_def line_end_def by (subst (1 3 5 7) putc_char_fields) simp

lemma spec_char_range:
  assumes "x < 80" "y < 25" "spec_char cl c color (g, x, y) = (g', x', y')"
  shows "x' < 80" "y' \<le> 25"
  using assms by (auto simp: spec_char_def split: if_splits)

subsection \<open>The screen's mutex\<close>

text \<open>Nobody else holds the screen, and nobody waits for it.\<close>

definition screen_free :: "'a vga_scheme \<Rightarrow> bool" where
  "screen_free s \<longleftrightarrow> (case mutexes s (screen_mutex s) of None \<Rightarrow> False
     | Some m \<Rightarrow> mx_waiting m = [] \<and> (scheduler_started s \<longrightarrow> mx_owner m = 0 \<or> mx_owner m = current_process s))"

lemma screen_lock:
  assumes "screen_free s"
  shows "\<exists>m. vga_text_mutex_lock h (Suc f) s = Inr (Returned (s\<lparr>mutexes := (mutexes s)(screen_mutex s \<mapsto> m)\<rparr>)) \<and>
    mx_waiting m = [] \<and> (scheduler_started s \<longrightarrow> mx_owner m = current_process s)"
proof -
  from assms obtain m where m: "mutexes s (screen_mutex s) = Some m" "mx_waiting m = []"
    "scheduler_started s \<longrightarrow> mx_owner m = 0 \<or> mx_owner m = current_process s"
    by (auto simp: screen_free_def split: option.splits)
  then have same: "s\<lparr>mutexes := (mutexes s)(screen_mutex s \<mapsto> m)\<rparr> = s" by (simp add: fun_upd_idem)
  show ?thesis
  proof (cases "scheduler_started s \<and> mx_owner m \<noteq> current_process s")
    case True
    with m show ?thesis
      by (intro exI [of _ "m\<lparr>mx_owner := current_process s\<rparr>"])
        (auto simp: vga_text_mutex_lock_def mutex_lock_def mtx_def upd_mtx_def ERROR_NONE_def)
  next
    case False
    then have "vga_text_mutex_lock h (Suc f) s = Inr (Returned s)"
      using m(1) by (auto simp: vga_text_mutex_lock_def mutex_lock_def mtx_def ERROR_NONE_def)
    with False m(2) show ?thesis by (intro exI [of _ m]) (simp add: same)
  qed
qed

lemma screen_unlock:
  assumes "mutexes s (screen_mutex s) = Some m" "mx_waiting m = []" "scheduler_started s \<longrightarrow> mx_owner m = current_process s"
  shows "\<exists>err m'. mutex_unlock h (screen_mutex s) s = Inr (err, s\<lparr>mutexes := (mutexes s)(screen_mutex s \<mapsto> m')\<rparr>) \<and>
    screen_free (s\<lparr>mutexes := (mutexes s)(screen_mutex s \<mapsto> m')\<rparr>)"
proof (cases "mx_owner m = current_process s")
  case True
  with assms show ?thesis
    by (intro exI [of _ ERROR_NONE] exI [of _ "m\<lparr>mx_owner := 0\<rparr>"])
      (auto simp: mutex_unlock_def mutex_unlock_wakeup_def mtx_def upd_mtx_def screen_free_def)
next
  case False
  have "s\<lparr>mutexes := (mutexes s)(screen_mutex s \<mapsto> m)\<rparr> = s" using assms(1) by (simp add: fun_upd_idem)
  with False assms show ?thesis
    by (intro exI [of _ ERROR_MUTEX_OWNED_BY_OTHER] exI [of _ m]) (auto simp: mutex_unlock_def mtx_def screen_free_def)
qed

subsection \<open>Putting a character\<close>

text \<open>What printing leaves alone: everything but memory, the cursor, the ports and the screen's mutex.\<close>

definition screen_only :: "'a vga_scheme \<Rightarrow> 'a vga_scheme \<Rightarrow> bool" where
  "screen_only s s' \<longleftrightarrow> off_screen (VGA_MEM_START s) (kmem s) (kmem s') \<and>
     s' = s\<lparr>kmem := kmem s', mutexes := (mutexes s)(screen_mutex s := mutexes s' (screen_mutex s)),
        TEXT_CURSOR_X := TEXT_CURSOR_X s', TEXT_CURSOR_Y := TEXT_CURSOR_Y s', outp := outp s'\<rparr>"

lemma update_cursor_outp: "\<exists>out. vga_text_update_cursor s = s\<lparr>outp := out\<rparr>"
  by (simp add: vga_text_update_cursor_def outb_def Let_def) (rule exI, rule refl)

text \<open>The state after the character, the line wrap and the scroll.\<close>

definition scrolled :: "u8 \<Rightarrow> u8 \<Rightarrow> 'a vga_scheme \<Rightarrow> 'a vga_scheme" where
  "scrolled c color s = (let s = char_state c color s in if VGA_LINES \<le> TEXT_CURSOR_Y s then vga_text_scroll_up s else s)"

lemma scrolled_fields:
  "\<exists>m X Y. scrolled c color s = s\<lparr>kmem := m, TEXT_CURSOR_X := X, TEXT_CURSOR_Y := Y\<rparr>"
proof -
  obtain m X Y where s1: "char_state c color s = s\<lparr>kmem := m, TEXT_CURSOR_X := X, TEXT_CURSOR_Y := Y\<rparr>" using char_state_fields by blast
  have "\<exists>m Y. vga_text_scroll_up s = s\<lparr>kmem := m, TEXT_CURSOR_Y := Y\<rparr>" for s :: "'a vga_scheme"
    by (intro exI [of _ "kmem (vga_text_scroll_up s)"] exI [of _ "TEXT_CURSOR_Y (vga_text_scroll_up s)"])
      (simp add: vga_text_scroll_up_def Let_def)
  then obtain m' Y' where "vga_text_scroll_up (char_state c color s) = (char_state c color s)\<lparr>kmem := m', TEXT_CURSOR_Y := Y'\<rparr>" by blast
  then have "vga_text_scroll_up (char_state c color s) = s\<lparr>kmem := m', TEXT_CURSOR_X := X, TEXT_CURSOR_Y := Y'\<rparr>" by (simp add: s1)
  with s1 show ?thesis unfolding scrolled_def Let_def by auto
qed

text \<open>Around the character step, \<^verbatim>\<open>vga_text_putc\<close> takes and releases the mutex and moves the hardware cursor.\<close>

lemma putc_scrolled:
  assumes "VIDEO_MODE s = VIDEO_MODE_VGA_TEXT" "VIDEO_TYPE s \<noteq> VIDEO_TYPE_NONE" "screen_free s"
  shows "\<exists>mx mx' out. vga_text_putc h (Suc f) c color s =
      Inr (Returned ((scrolled c color (s\<lparr>mutexes := (mutexes s)(screen_mutex s \<mapsto> mx)\<rparr>))\<lparr>outp := out, mutexes := (mutexes s)(screen_mutex s \<mapsto> mx')\<rparr>)) \<and>
    screen_free ((scrolled c color (s\<lparr>mutexes := (mutexes s)(screen_mutex s \<mapsto> mx)\<rparr>))\<lparr>outp := out, mutexes := (mutexes s)(screen_mutex s \<mapsto> mx')\<rparr>)"
proof -
  obtain m where m: "vga_text_mutex_lock h (Suc f) s = Inr (Returned (s\<lparr>mutexes := (mutexes s)(screen_mutex s \<mapsto> m)\<rparr>))"
    "mx_waiting m = []" "scheduler_started s \<longrightarrow> mx_owner m = current_process s"
    using screen_lock [OF assms(3)] by blast
  define s1 where "s1 = s\<lparr>mutexes := (mutexes s)(screen_mutex s \<mapsto> m)\<rparr>"
  obtain m2 X Y where s2: "scrolled c color s1 = s1\<lparr>kmem := m2, TEXT_CURSOR_X := X, TEXT_CURSOR_Y := Y\<rparr>" using scrolled_fields by blast
  obtain out where out: "vga_text_update_cursor (scrolled c color s1) = (scrolled c color s1)\<lparr>outp := out\<rparr>" using update_cursor_outp by blast
  define s3 where "s3 = (scrolled c color s1)\<lparr>outp := out\<rparr>"
  have f: "mutexes s3 (screen_mutex s3) = Some m" "scheduler_started s3 \<longrightarrow> mx_owner m = current_process s3"
    "s3\<lparr>mutexes := (mutexes s3)(screen_mutex s3 \<mapsto> v)\<rparr> = (scrolled c color s1)\<lparr>outp := out, mutexes := (mutexes s)(screen_mutex s \<mapsto> v)\<rparr>" for v
    using m(3) unfolding s3_def s2 unfolding s1_def by simp_all
  obtain err m' where u: "mutex_unlock h (screen_mutex s3) s3 = Inr (err, s3\<lparr>mutexes := (mutexes s3)(screen_mutex s3 \<mapsto> m')\<rparr>)"
    "screen_free (s3\<lparr>mutexes := (mutexes s3)(screen_mutex s3 \<mapsto> m')\<rparr>)"
    using screen_unlock [OF f(1) m(2) f(2), of h] by blast
  have "vga_text_putc h (Suc f) c color s =
    (let s = scrolled c color s1; s = vga_text_update_cursor s in bindR (mutex_unlock h (screen_mutex s) s) (\<lambda>(err, s). Inr (Returned s)))"
    using assms(1, 2) m(1) by (simp add: vga_text_putc_def s1_def scrolled_def char_state_def Let_def)
  also have "\<dots> = Inr (Returned (s3\<lparr>mutexes := (mutexes s3)(screen_mutex s3 \<mapsto> m')\<rparr>))"
    using u(1) by (simp add: out s3_def [symmetric])
  finally show ?thesis using u(2) unfolding f(3) s1_def by blast
qed

lemma scrolled_displays:
  assumes "screen_ok s" "displays s (g, x, y)"
  shows "displays (scrolled c color s) (spec_scroll (spec_char (VIDEO_TYPE s = VIDEO_TYPE_COLOR) c color (g, x, y)))"
    "off_screen (VGA_MEM_START s) (kmem s) (kmem (scrolled c color s))" "screen_ok (scrolled c color s)"
    "scrolled c color s = s\<lparr>kmem := kmem (scrolled c color s), TEXT_CURSOR_X := TEXT_CURSOR_X (scrolled c color s), TEXT_CURSOR_Y := TEXT_CURSOR_Y (scrolled c color s)\<rparr>"
proof -
  let ?s1 = "char_state c color s" and ?s2 = "scrolled c color s"
  obtain g' x' y' where sp: "spec_char (VIDEO_TYPE s = VIDEO_TYPE_COLOR) c color (g, x, y) = (g', x', y')" by (metis prod_cases3)
  have xy: "x < 80" "y < 25" using assms by (auto simp: displays_def screen_ok_def vga_consts word_less_nat_alt)
  have r: "x' < 80" "y' \<le> 25" using spec_char_range [OF xy sp] by simp_all
  have d: "displays ?s1 (g', x', y')" and o: "off_screen (VGA_MEM_START s) (kmem s) (kmem ?s1)"
    using char_displays [OF assms, of c color] sp by simp_all
  have f: "VIDEO_MODE ?s1 = VIDEO_MODE s" "VIDEO_TYPE ?s1 = VIDEO_TYPE s" "VGA_MEM_START ?s1 = VGA_MEM_START s" "VGA_MEM_END ?s1 = VGA_MEM_END s"
    by (subst char_state_fields, simp)+
  have k: "VIDEO_MODE s = VIDEO_MODE_VGA_TEXT" "VIDEO_TYPE s \<noteq> VIDEO_TYPE_NONE" "unat (VGA_MEM_START s) + 4000 < 2 ^ 32" "VGA_MEM_END s = VGA_MEM_START s + 0xFA0"
    using assms(1) by (auto simp: screen_ok_def)
  have c: "unat (TEXT_CURSOR_X ?s1) = x'" "unat (TEXT_CURSOR_Y ?s1) = y'" using d by (auto simp: displays_def)
  have "displays ?s2 (spec_scroll (g', x', y')) \<and> off_screen (VGA_MEM_START s) (kmem s) (kmem ?s2) \<and> screen_ok ?s2 \<and>
    ?s2 = s\<lparr>kmem := kmem ?s2, TEXT_CURSOR_X := TEXT_CURSOR_X ?s2, TEXT_CURSOR_Y := TEXT_CURSOR_Y ?s2\<rparr>"
  proof (cases "y' < 25")
    case True
    then have s2: "?s2 = ?s1" using c by (simp add: scrolled_def VGA_LINES_def word_le_nat_alt)
    have "screen_ok ?s1" using k f c r True by (simp add: screen_ok_def VGA_COLUMNS_def VGA_LINES_def word_less_nat_alt)
    with True d o show ?thesis unfolding s2 using char_state_fields [of c color s] by (simp add: spec_scroll_def)
  next
    case False
    then have Y: "TEXT_CURSOR_Y ?s1 = VGA_LINES" using c r by (intro word_unat_eqI) (simp add: VGA_LINES_def)
    then have s2: "?s2 = vga_text_scroll_up ?s1" by (simp add: scrolled_def)
    have sc: "vga_text_scroll_up ?s1 = ?s1\<lparr>kmem := kmem (vga_text_scroll_up ?s1), TEXT_CURSOR_Y := 24\<rparr>"
      using f k Y by (simp add: vga_text_scroll_up_def Let_def VGA_LINES_def)
    have d': "displays ?s2 (spec_scroll (g', x', y'))" "off_screen (VGA_MEM_START ?s1) (kmem ?s1) (kmem ?s2)"
      unfolding s2 using scroll_displays [of ?s1, OF _ _ _ _ Y d] f k by simp_all
    have "screen_ok ?s2" unfolding s2 by (subst sc) (use k f c r in \<open>simp add: screen_ok_def VGA_COLUMNS_def VGA_LINES_def word_less_nat_alt\<close>)
    moreover have "?s2 = s\<lparr>kmem := kmem ?s2, TEXT_CURSOR_X := TEXT_CURSOR_X ?s2, TEXT_CURSOR_Y := TEXT_CURSOR_Y ?s2\<rparr>"
    proof -
      obtain m X Y' where s1: "?s1 = s\<lparr>kmem := m, TEXT_CURSOR_X := X, TEXT_CURSOR_Y := Y'\<rparr>" using char_state_fields by blast
      obtain m' where "?s2 = ?s1\<lparr>kmem := m', TEXT_CURSOR_Y := 24\<rparr>" using sc s2 by auto
      then show ?thesis by (simp add: s1)
    qed
    ultimately show ?thesis using d' o f by (auto intro: off_screen_trans)
  qed
  then show "displays ?s2 (spec_scroll (spec_char (VIDEO_TYPE s = VIDEO_TYPE_COLOR) c color (g, x, y)))"
    "off_screen (VGA_MEM_START s) (kmem s) (kmem ?s2)" "screen_ok ?s2"
    "?s2 = s\<lparr>kmem := kmem ?s2, TEXT_CURSOR_X := TEXT_CURSOR_X ?s2, TEXT_CURSOR_Y := TEXT_CURSOR_Y ?s2\<rparr>" by (simp_all add: sp)
qed

lemma putc_effect:
  assumes "screen_ok s" "screen_free s" "displays s (g, x, y)"
  shows "\<exists>s'. vga_text_putc h (Suc f) c color s = Inr (Returned s') \<and>
    displays s' (spec_scroll (spec_char (VIDEO_TYPE s = VIDEO_TYPE_COLOR) c color (g, x, y))) \<and>
    screen_only s s' \<and> screen_ok s' \<and> screen_free s'"
proof -
  have "VIDEO_MODE s = VIDEO_MODE_VGA_TEXT" "VIDEO_TYPE s \<noteq> VIDEO_TYPE_NONE" using assms(1) by (auto simp: screen_ok_def)
  from putc_scrolled [OF this assms(2), of h f c color] obtain mx mx' out where
    r: "vga_text_putc h (Suc f) c color s = Inr (Returned ((scrolled c color (s\<lparr>mutexes := (mutexes s)(screen_mutex s \<mapsto> mx)\<rparr>))
        \<lparr>outp := out, mutexes := (mutexes s)(screen_mutex s \<mapsto> mx')\<rparr>))"
      "screen_free ((scrolled c color (s\<lparr>mutexes := (mutexes s)(screen_mutex s \<mapsto> mx)\<rparr>))\<lparr>outp := out, mutexes := (mutexes s)(screen_mutex s \<mapsto> mx')\<rparr>)"
    by blast
  define s1 where "s1 = s\<lparr>mutexes := (mutexes s)(screen_mutex s \<mapsto> mx)\<rparr>"
  have s1: "screen_ok s1" "displays s1 (g, x, y)" using assms by (simp_all add: s1_def screen_ok_def displays_def)
  note e = scrolled_displays [OF s1, of c color]
  let ?s' = "(scrolled c color s1)\<lparr>outp := out, mutexes := (mutexes s)(screen_mutex s \<mapsto> mx')\<rparr>"
  obtain m2 X Y where s2: "scrolled c color s1 = s1\<lparr>kmem := m2, TEXT_CURSOR_X := X, TEXT_CURSOR_Y := Y\<rparr>" using e(4) by blast
  have "displays ?s' (spec_scroll (spec_char (VIDEO_TYPE s = VIDEO_TYPE_COLOR) c color (g, x, y)))"
    using e(1) by (cases "spec_scroll (spec_char (VIDEO_TYPE s = VIDEO_TYPE_COLOR) c color (g, x, y))") (simp add: displays_def s1_def)
  moreover have "screen_only s ?s'" using e(2) unfolding screen_only_def s2 unfolding s1_def by simp
  moreover have "screen_ok ?s'" using e(3) by (simp add: screen_ok_def)
  ultimately show ?thesis using r unfolding s1_def by blast
qed

text \<open>C23: On a text screen whose cursor is on it and whose mutex is free, printing one character returns, does to the 25 lines of 80 cells
  and the cursor what the grid specification says (control characters, line wrap, scrolling by one line), writes no memory outside the video page and leaves
  the cursor on the screen.\<close>

theorem vga_text_putc_refines:
  assumes "screen_ok s" "screen_free s" "displays s (g, x, y)"
  shows "\<exists>s'. vga_text_putc h (Suc f) c color s = Inr (Returned s') \<and>
    displays s' (spec_scroll (spec_char (VIDEO_TYPE s = VIDEO_TYPE_COLOR) c color (g, x, y))) \<and>
    off_screen (VGA_MEM_START s) (kmem s) (kmem s') \<and> screen_ok s' \<and> screen_free s'"
  using putc_effect [OF assms, of h f c color] by (auto simp: screen_only_def)

subsection \<open>Putting a string\<close>

definition spec_puts :: "bool \<Rightarrow> u8 \<Rightarrow> u8 list \<Rightarrow> grid \<times> nat \<times> nat \<Rightarrow> grid \<times> nat \<times> nat" where
  "spec_puts colors color xs d = foldl (\<lambda>d c. spec_scroll (spec_char colors c color d)) d xs"

definition clear_of_screen :: "u32 \<Rightarrow> u32 \<Rightarrow> nat \<Rightarrow> bool" where
  "clear_of_screen b a n \<longleftrightarrow> unat a + n \<le> unat b \<or> unat b + 4000 \<le> unat a"

lemma off_screen_read:
  assumes "off_screen b m m'" "clear_of_screen b a n" "unat a + n \<le> 2 ^ 32" "i < n"
  shows "m' (a + of_nat i) = m (a + of_nat i)"
  using assms unat_offset [of a i] unat_lt_32 [of "a + of_nat i"]
  by (auto simp: off_screen_def clear_of_screen_def same_on_def)

lemma cstr_off_screen:
  assumes "cstr m a xs" "off_screen b m m'" "clear_of_screen b a (length xs + 1)"
  shows "cstr m' a xs"
  using assms off_screen_read [OF assms(2, 3)] by (auto simp: cstr_def)

lemma screen_onlyE:
  assumes "screen_only s s'"
  obtains m mx X Y out where
    "s' = s\<lparr>kmem := m, mutexes := (mutexes s)(screen_mutex s := mx), TEXT_CURSOR_X := X, TEXT_CURSOR_Y := Y, outp := out\<rparr>"
    "off_screen (VGA_MEM_START s) (kmem s) m"
  using assms unfolding screen_only_def by blast

lemma screen_only_trans: "screen_only s s' \<Longrightarrow> screen_only s' s'' \<Longrightarrow> screen_only s s''"
  by (erule screen_onlyE, erule screen_onlyE) (auto simp: screen_only_def intro: off_screen_trans)

lemma screen_only_refl: "screen_only s s" by (simp add: screen_only_def)

lemma screen_only_fields:
  assumes "screen_only s s'"
  shows "VGA_MEM_START s' = VGA_MEM_START s" "VIDEO_TYPE s' = VIDEO_TYPE s" "off_screen (VGA_MEM_START s) (kmem s) (kmem s')"
  by (rule screen_onlyE [OF assms]; simp)+

lemma puts_effect:
  assumes "cstr (kmem s) str xs" "clear_of_screen (VGA_MEM_START s) str (length xs + 1)" "length xs < f"
    "screen_ok s" "screen_free s" "displays s d"
  shows "\<exists>s'. puts_from h f str color s = Inr (Returned s') \<and>
    displays s' (spec_puts (VIDEO_TYPE s = VIDEO_TYPE_COLOR) color xs d) \<and> screen_only s s' \<and> screen_ok s' \<and> screen_free s'"
  using assms
proof (induction xs arbitrary: s str f d)
  case Nil
  then show ?case by (cases f) (auto simp: spec_puts_def screen_only_refl)
next
  case (Cons c xs)
  obtain k where f: "f = Suc k" using Cons.prems by (cases f) auto
  obtain g x y where d: "d = (g, x, y)" by (metis prod_cases3)
  from putc_effect [OF Cons.prems(4, 5) Cons.prems(6) [unfolded d], of h k c color] obtain s1 where
    s1: "vga_text_putc h (Suc k) c color s = Inr (Returned s1)"
      "displays s1 (spec_scroll (spec_char (VIDEO_TYPE s = VIDEO_TYPE_COLOR) c color (g, x, y)))"
      "screen_only s s1" "screen_ok s1" "screen_free s1" by blast
  note fl = screen_only_fields [OF s1(3)]
  have str: "unat (str + 1) = unat str + 1" using Cons.prems(1) unat_offset [of str 1] by simp
  have c1: "clear_of_screen (VGA_MEM_START s1) (str + 1) (length xs + 1)"
    using Cons.prems(2) fl(1) str by (auto simp: clear_of_screen_def)
  have "cstr (kmem s1) (str + 1) xs"
    using Cons.prems(1) cstr_off_screen [OF _ fl(3)] c1 fl(1) by simp
  from Cons.IH [OF this c1 _ s1(4, 5, 2), of k] Cons.prems(3) f fl obtain s2 where
    "puts_from h k (str + 1) color s1 = Inr (Returned s2)"
    "displays s2 (spec_puts (VIDEO_TYPE s = VIDEO_TYPE_COLOR) color (c # xs) d)"
    "screen_only s1 s2" "screen_ok s2" "screen_free s2" by (auto simp: spec_puts_def d)
  with s1 Cons.prems(1) f show ?case by (auto intro: screen_only_trans)
qed

text \<open>C24: Printing a zero-terminated string that does not lie in video memory returns, and shows its characters one after the other on the grid;
  no memory outside the video page changes and the cursor stays on the screen.\<close>

theorem vga_text_puts_prints:
  assumes "cstr (kmem s) str xs" "clear_of_screen (VGA_MEM_START s) str (length xs + 1)" "length xs < f"
    "screen_ok s" "screen_free s" "displays s d"
  shows "\<exists>s'. vga_text_puts h f str color s = Inr (Returned s') \<and>
    displays s' (spec_puts (VIDEO_TYPE s = VIDEO_TYPE_COLOR) color xs d) \<and>
    off_screen (VGA_MEM_START s) (kmem s) (kmem s') \<and> screen_ok s' \<and> screen_free s'"
  using puts_effect [OF assms, of h color] assms(4) by (auto simp: vga_text_puts_def screen_ok_def [of s] screen_only_def)

text \<open>A new line asked for on the last line leaves the cursor below the screen, and the next plain character is stored at the end of the video page,
  one byte past it: the first character of a fatal error's message is written there.\<close>

theorem nl_then_putc_leaves_page:
  assumes "screen_ok s" "screen_free s" "TEXT_CURSOR_X s \<noteq> 0" "TEXT_CURSOR_Y s = 24" "c \<notin> {8, 9, 10, 13}"
    "VIDEO_TYPE s = VIDEO_TYPE_COLOR"
  shows "\<exists>s'. vga_text_putc h (Suc f) c color (vga_text_nl s) = Inr (Returned s') \<and> kmem s' (VGA_MEM_END s) = c"
proof -
  let ?n = "vga_text_nl s" and ?e = "VGA_MEM_END s" and ?b = "VGA_MEM_START s"
  have n: "?n = s\<lparr>TEXT_CURSOR_Y := 25, TEXT_CURSOR_X := 0\<rparr>" using assms(3, 4) by (simp add: vga_text_nl_def)
  have ok: "VIDEO_MODE s = VIDEO_MODE_VGA_TEXT" "VIDEO_TYPE s \<noteq> VIDEO_TYPE_NONE" "unat ?b + 4000 < 2 ^ 32" "?e = ?b + 0xFA0"
    using assms(1) by (auto simp: screen_ok_def)
  let ?m = "(kmem s)(?e := c, ?e + 1 := color)"
  let ?m2 = "fill_cells 80 (?b + 3840) 7 (memcpy ?m ?b (?b + 160) 3840)"
  have cs: "char_state c color (?n\<lparr>mutexes := mx\<rparr>) = ?n\<lparr>mutexes := mx, kmem := ?m, TEXT_CURSOR_X := 1\<rparr>" for mx
    using assms(5, 6) by (simp add: char_state_def putc_char_def line_end_def n cell_addr_def vga_consts Let_def ok(4) word_le_nat_alt)
  have sc: "kmem (scrolled c color (?n\<lparr>mutexes := mx\<rparr>)) = ?m2" for mx
    unfolding scrolled_def Let_def cs using ok(1, 2) by (simp add: n vga_text_scroll_up_def Let_def ok(4) vga_consts) (simp add: add.commute)
  have u: "unat (?b + 3840) = unat ?b + 3840" "unat ?e = unat ?b + 4000"
    using ok(3) unat_offset [of ?b 3840] unat_offset [of ?b 4000] by (simp_all add: ok(4))
  have "?m2 ?e = memcpy ?m ?b (?b + 160) 3840 ?e" using u ok(3) by (subst fill_cells_at) auto
  also have "\<dots> = ?m ?e"
    using memcpy_outside [of ?b 3840 "2 ^ 32" "unat ?b + 3840" ?m "?b + 160"] u ok(3) unat_lt_32 [of ?e] by (auto simp: same_on_def)
  also have "\<dots> = c" by simp
  finally have c: "?m2 ?e = c" .
  have "screen_free ?n" using assms(2) by (simp add: n screen_free_def split: option.splits)
  with putc_scrolled [of ?n h f c color] ok(1, 2) obtain mx mx' out where
    "vga_text_putc h (Suc f) c color ?n = Inr (Returned ((scrolled c color (?n\<lparr>mutexes := (mutexes ?n)(screen_mutex ?n \<mapsto> mx)\<rparr>))
        \<lparr>outp := out, mutexes := (mutexes ?n)(screen_mutex ?n \<mapsto> mx')\<rparr>))" by (auto simp: n)
  with c show ?thesis by (auto simp: sc)
qed

end
