(* ===== verification/VK_ConsoleProps.thy ===== *)
theory VK_ConsoleProps
  imports VK_Input VK_VgaProps
begin

section \<open>Streams and terminals: order, bounds and errors\<close>

text \<open>
  A stream is a channel in the sense of \<open>VK_Queue\<close>: what is written comes out in order. A terminal's reader gets the
  line that was typed when its buffer is large enough; the other lemmas show where the code does not do that.
\<close>

subsection \<open>Bytes in memory\<close>

definition bytes_at :: "mem \<Rightarrow> u32 \<Rightarrow> u8 list \<Rightarrow> bool" where
  "bytes_at m a xs \<longleftrightarrow> (\<forall>i < length xs. m (a + of_nat i) = xs ! i)"

definition region :: "u32 \<Rightarrow> nat \<Rightarrow> u32 set" where
  "region a n = {x. unat a \<le> unat x \<and> unat x < unat a + n}"

lemma in_region: "unat a + n \<le> 2 ^ 32 \<Longrightarrow> i < n \<Longrightarrow> a + of_nat i \<in> region a n"
  using unat_offset [of a i] by (simp add: region_def)

lemma region_mono: "n \<le> k \<Longrightarrow> region a n \<subseteq> region a k"
  by (auto simp: region_def)

lemma bytes_at_Nil [simp]: "bytes_at m a []" by (simp add: bytes_at_def)

lemma bytes_at_Cons: "bytes_at m a (x # xs) \<longleftrightarrow> m a = x \<and> bytes_at m (a + 1) xs"
proof -
  have "(\<forall>i < Suc (length xs). m (a + of_nat i) = (x # xs) ! i) \<longleftrightarrow> m a = x \<and> (\<forall>i < length xs. m (a + 1 + of_nat i) = xs ! i)"
    by (auto simp: All_less_Suc2 add.assoc)
  then show ?thesis by (simp add: bytes_at_def)
qed

lemma bytes_at_append: "bytes_at m a (xs @ ys) \<longleftrightarrow> bytes_at m a xs \<and> bytes_at m (a + of_nat (length xs)) ys"
  by (induction xs arbitrary: a) (auto simp: bytes_at_Cons add.assoc add.commute)

lemma bytes_at_cong:
  assumes "bytes_at m a xs" "unat a + length xs \<le> 2 ^ 32" "\<And>x. x \<in> region a (length xs) \<Longrightarrow> m' x = m x"
  shows "bytes_at m' a xs"
  using assms in_region by (simp add: bytes_at_def)

lemma memcpy_bytes:
  assumes "bytes_at m src xs" "unat d + length xs \<le> 2 ^ 32" "unat src + length xs \<le> 2 ^ 32"
    "unat src + length xs \<le> unat d \<or> unat d < unat src"
  shows "bytes_at (memcpy m d src (length xs)) d xs"
  using assms memcpy_copies [OF assms(2, 3, 4)] by (simp add: bytes_at_def)

lemma memcpy_other:
  assumes "unat d + n \<le> 2 ^ 32" "x \<notin> region d n"
  shows "memcpy m d src n x = m x"
  using memcpy_outside [OF assms(1), of "unat x + 1" "unat x" m src] assms(2)
  by (auto simp: same_on_def region_def)

subsection \<open>Streams as channels\<close>

text \<open>The stream \<open>a\<close> holds \<open>xs\<close> and nobody waits for it; \<open>ca\<close> is the cell a character is passed in, outside its buffer.\<close>

definition stream_at :: "u32 \<Rightarrow> 'a console_scheme \<Rightarrow> u32 \<Rightarrow> u8 list \<Rightarrow> bool" where
  "stream_at ca s a xs \<longleftrightarrow> (case streams s a of None \<Rightarrow> False
     | Some x \<Rightarrow> io_waiting x = [] \<and> unat (io_count x) = length xs \<and> length xs \<le> unat (io_buffer_size x) \<and>
         unat (io_buffer x) + unat (io_buffer_size x) < 2 ^ 32 \<and> ca \<notin> region (io_buffer x) (unat (io_buffer_size x)) \<and>
         bytes_at (kmem s) (io_buffer x) xs)"

definition stream_cap :: "'a console_scheme \<Rightarrow> u32 \<Rightarrow> nat" where
  "stream_cap s a = (case streams s a of None \<Rightarrow> 0 | Some x \<Rightarrow> unat (io_buffer_size x))"

text \<open>Writing one character from its cell, and reading one.\<close>

definition stream_put :: "'a console_scheme heap_ops \<Rightarrow> u32 \<Rightarrow> u32 \<Rightarrow> u8 \<Rightarrow> 'a console_scheme \<Rightarrow> 'a console_scheme res" where
  "stream_put h ca a c s = bindR (iostream_write h ca 1 a (s\<lparr>kmem := (kmem s)(ca := c)\<rparr>)) (\<lambda>(err, s). Inr s)"

definition stream_get :: "'a console_scheme heap_ops \<Rightarrow> nat \<Rightarrow> u32 \<Rightarrow> 'a console_scheme \<Rightarrow> u8 \<times> 'a console_scheme" where
  "stream_get h f a s = (case iostream_getch h (Suc f) a s of Inr (Ret c s') \<Rightarrow> (c, s') | _ \<Rightarrow> (0, s))"

lemma getch_head:
  assumes "stream_at ca s a (c # zs)" "streams s a = Some x"
  shows "\<exists>m. iostream_getch h (Suc f) a s = Inr (Ret c (s\<lparr>streams := (streams s)(a \<mapsto> x\<lparr>io_count := io_count x - 1\<rparr>), kmem := m\<rparr>)) \<and>
    (\<forall>y. y \<notin> region (io_buffer x) (unat (io_buffer_size x)) \<longrightarrow> m y = kmem s y) \<and>
    stream_at ca (s\<lparr>streams := (streams s)(a \<mapsto> x\<lparr>io_count := io_count x - 1\<rparr>), kmem := m\<rparr>) a zs"
proof -
  let ?b = "io_buffer x" and ?n = "unat (io_buffer_size x)"
  have x: "io_waiting x = []" "unat (io_count x) = Suc (length zs)" "Suc (length zs) \<le> ?n" "unat ?b + ?n < 2 ^ 32"
    "ca \<notin> region ?b ?n" "kmem s ?b = c" "bytes_at (kmem s) (?b + 1) zs"
    using assms by (auto simp: stream_at_def bytes_at_Cons)
  have "io_count x \<noteq> 0" using x(2) by auto
  with unat_minus_one [OF this] x(2) have n: "unat (io_count x - 1) = length zs" "io_count x \<noteq> 0" by simp_all
  have b: "unat (?b + 1) = unat ?b + 1" using x(3, 4) by (subst unat_plus_small) auto
  let ?m = "memcpy (kmem s) ?b (?b + 1) (length zs)"
  have "bytes_at ?m ?b zs" using x b by (intro memcpy_bytes) auto
  moreover have "?m y = kmem s y" if "y \<notin> region ?b ?n" for y
    using that x(3, 4) region_mono [of "length zs" ?n ?b] by (intro memcpy_other) auto
  ultimately show ?thesis
    using assms n x by (intro exI [of _ ?m]) (auto simp: stream_at_def Let_def)
qed

lemma put_last:
  assumes "stream_at ca s a xs" "streams s a = Some x" "length xs < unat (io_buffer_size x)"
  shows "\<exists>s'. stream_put h ca a c s = Inr s' \<and> stream_at ca s' a (xs @ [c]) \<and> stream_cap s' a = stream_cap s a"
proof -
  let ?b = "io_buffer x" and ?n = "unat (io_buffer_size x)"
  have x: "io_waiting x = []" "unat (io_count x) = length xs" "unat ?b + ?n < 2 ^ 32"
    "ca \<notin> region ?b ?n" "bytes_at (kmem s) ?b xs"
    using assms by (auto simp: stream_at_def)
  have u: "unat (io_count x + 1) = length xs + 1" using x(2) assms(3) unat_lt_32 [of "io_buffer_size x"] by (subst unat_plus_small) auto
  have c: "io_count x = of_nat (length xs)" using x(2) unat_lt_32 [of "io_count x"] by (intro word_unat_eqI) (simp add: unat_of_nat)
  have nf: "\<not> io_buffer_size x < io_count x + 1" using u assms(3) by (simp add: word_less_nat_alt)
  let ?m = "(kmem s)(ca := c, ?b + of_nat (length xs) := c)"
  let ?s' = "s\<lparr>kmem := ?m, streams := (streams s)(a \<mapsto> x\<lparr>io_count := io_count x + 1, io_waiting := []\<rparr>)\<rparr>"
  have "stream_put h ca a c s = Inr ?s'"
    using assms(2) nf x(1) c by (simp add: stream_put_def iostream_write_def upd_stream_def iostream_wake_def Let_def)
  moreover have "bytes_at ?m ?b xs"
  proof (rule bytes_at_cong [OF x(5)])
    show "?m y = kmem s y" if "y \<in> region ?b (length xs)" for y
      using that x(3, 4) assms(3) unat_offset [of ?b "length xs"] region_mono [of "length xs" ?n ?b] by (auto simp: region_def)
  qed (use x(3) assms(3) in simp)
  then have "stream_at ca ?s' a (xs @ [c])"
    using x(1, 3, 4) u assms(3) by (simp add: stream_at_def bytes_at_append bytes_at_Cons)
  ultimately show ?thesis using assms(2) by (auto simp: stream_cap_def)
qed

interpretation stream: channel "stream_at ca" stream_cap "stream_put h ca" "stream_get h f"
proof
  show "\<exists>s'. stream_get h f a s = (c, s') \<and> stream_at ca s' a zs \<and> stream_cap s' a = stream_cap s a"
    if "stream_at ca s a (c # zs)" for s :: "'a console_scheme" and a c zs
  proof -
    from that obtain x where x: "streams s a = Some x" by (auto simp: stream_at_def split: option.splits)
    from getch_head [OF that x, of h f] x show ?thesis by (auto simp: stream_get_def stream_cap_def simp del: iostream_getch.simps)
  qed
  show "\<exists>s'. stream_put h ca a c s = Inr s' \<and> stream_at ca s' a (xs @ [c]) \<and> stream_cap s' a = stream_cap s a"
    if "stream_at ca s a xs" "length xs < stream_cap s a" for s :: "'a console_scheme" and a xs c
  proof -
    from that obtain x where x: "streams s a = Some x" by (auto simp: stream_at_def split: option.splits)
    from put_last [OF that(1) x] that(2) x show ?thesis by (simp add: stream_cap_def)
  qed
qed


text \<open>\<^verbatim>\<open>iostream_read\<close> refuses every request for more than one byte, whatever the attributes of the stream: the test for the one-byte
  attribute is an or with the flag.\<close>

theorem iostream_read_one_byte_only:
  assumes "streams s a = Some x" "1 < count"
  shows "iostream_read h (Suc f) buffer count a s = Inr (Ret ERROR_FILE_FS_INTERNAL s)"
proof -
  have "bit (io_attributes x OR IOSTREAM_ATTR_ONE_BYTE) 3" by (simp add: IOSTREAM_ATTR_ONE_BYTE_def bit_simps)
  then have "(io_attributes x OR IOSTREAM_ATTR_ONE_BYTE) \<noteq> 0" by (metis bit_0_eq bot_apply bot_bool_def)
  with assms show ?thesis by simp
qed

subsection \<open>Reading a line\<close>

text \<open>The terminal \<open>t\<close> reads in canonical mode from the stream \<open>k\<close>; its input line is empty and outside the stream's buffer.\<close>

definition canon_tty :: "'a console_scheme \<Rightarrow> u32 \<Rightarrow> u32 \<Rightarrow> u8 list \<Rightarrow> bool" where
  "canon_tty s t k ys \<longleftrightarrow> (case (ttys s t, streams s k) of
     (Some x, Some y) \<Rightarrow> keyboard_stream x = k \<and> unat (canon_buffer_count x) = length ys \<and>
       unat (canon_buffer x) + unat (canon_buffer_size x) < 2 ^ 32 \<and>
       region (canon_buffer x) (unat (canon_buffer_size x)) \<inter> region (io_buffer y) (unat (io_buffer_size y)) = {} \<and>
       bytes_at (kmem s) (canon_buffer x) ys
   | _ \<Rightarrow> False)"

definition canon_room :: "'a console_scheme \<Rightarrow> u32 \<Rightarrow> nat" where
  "canon_room s t = (case ttys s t of None \<Rightarrow> 0 | Some x \<Rightarrow> unat (canon_buffer_size x))"

text \<open>What reading changes: the two buffers, the count of the stream and that of the input line.\<close>

definition reader_frame :: "'a console_scheme \<Rightarrow> u32 \<Rightarrow> u32 \<Rightarrow> 'a console_scheme \<Rightarrow> bool" where
  "reader_frame s t k s' \<longleftrightarrow> (\<exists>x y m n c. ttys s t = Some x \<and> streams s k = Some y \<and>
     s' = s\<lparr>kmem := m, streams := (streams s)(k \<mapsto> y\<lparr>io_count := n\<rparr>), ttys := (ttys s)(t \<mapsto> x\<lparr>canon_buffer_count := c\<rparr>)\<rparr> \<and>
     (\<forall>z. z \<notin> region (io_buffer y) (unat (io_buffer_size y)) \<union> region (canon_buffer x) (unat (canon_buffer_size x)) \<longrightarrow> m z = kmem s z))"

lemma reader_frame_trans: "reader_frame s t k s' \<Longrightarrow> reader_frame s' t k s'' \<Longrightarrow> reader_frame s t k s''"
proof -
  assume a: "reader_frame s t k s'" and b: "reader_frame s' t k s''"
  from a obtain x y m n c where 1: "ttys s t = Some x" "streams s k = Some y"
    "s' = s\<lparr>kmem := m, streams := (streams s)(k \<mapsto> y\<lparr>io_count := n\<rparr>), ttys := (ttys s)(t \<mapsto> x\<lparr>canon_buffer_count := c\<rparr>)\<rparr>"
    "\<forall>z. z \<notin> region (io_buffer y) (unat (io_buffer_size y)) \<union> region (canon_buffer x) (unat (canon_buffer_size x)) \<longrightarrow> m z = kmem s z"
    unfolding reader_frame_def by blast
  from b obtain m' n' c' where 2: "s'' = s\<lparr>kmem := m', streams := (streams s)(k \<mapsto> y\<lparr>io_count := n'\<rparr>), ttys := (ttys s)(t \<mapsto> x\<lparr>canon_buffer_count := c'\<rparr>)\<rparr>"
    "\<forall>z. z \<notin> region (io_buffer y) (unat (io_buffer_size y)) \<union> region (canon_buffer x) (unat (canon_buffer_size x)) \<longrightarrow> m' z = m z"
    unfolding reader_frame_def by (auto simp: 1(3))
  with 1 show "reader_frame s t k s''" unfolding reader_frame_def by (intro exI [of _ x] exI [of _ y] exI [of _ m'] exI [of _ n'] exI [of _ c']) auto
qed

lemma canon_step:
  assumes "stream_at ca s k (c # zs)" "canon_tty s t k ys" "length ys < canon_room s t"
  shows "\<exists>s'. canon_loop h (Suc f) (Suc n) t s = (if c = 10 then Inr (Ret n s') else canon_loop h (Suc f) n t s') \<and>
    stream_at ca s' k zs \<and> canon_tty s' t k (ys @ [c]) \<and> reader_frame s t k s'"
proof -
  from assms(2) obtain x y where xy: "ttys s t = Some x" "streams s k = Some y" "keyboard_stream x = k"
    "unat (canon_buffer_count x) = length ys" "unat (canon_buffer x) + unat (canon_buffer_size x) < 2 ^ 32"
    "region (canon_buffer x) (unat (canon_buffer_size x)) \<inter> region (io_buffer y) (unat (io_buffer_size y)) = {}"
    "bytes_at (kmem s) (canon_buffer x) ys"
    by (auto simp: canon_tty_def split: option.splits)
  let ?cb = "canon_buffer x" and ?R = "region (canon_buffer x) (unat (canon_buffer_size x))"
    and ?B = "region (io_buffer y) (unat (io_buffer_size y))"
  have room: "length ys < unat (canon_buffer_size x)" using assms(3) xy(1) by (simp add: canon_room_def)
  from getch_head [OF assms(1) xy(2), of h f] obtain m where
    g: "iostream_getch h (Suc f) k s = Inr (Ret c (s\<lparr>streams := (streams s)(k \<mapsto> y\<lparr>io_count := io_count y - 1\<rparr>), kmem := m\<rparr>))"
      "\<And>z. z \<notin> ?B \<Longrightarrow> m z = kmem s z"
      "stream_at ca (s\<lparr>streams := (streams s)(k \<mapsto> y\<lparr>io_count := io_count y - 1\<rparr>), kmem := m\<rparr>) k zs" by blast
  have cnt: "canon_buffer_count x = of_nat (length ys)" "\<not> canon_buffer_size x \<le> canon_buffer_count x"
    using xy(4) room unat_lt_32 [of "canon_buffer_count x"] by (auto simp: word_le_nat_alt unat_of_nat intro: word_unat_eqI)
  let ?a = "?cb + of_nat (length ys)"
  have a: "?a \<in> ?R" "unat ?a = unat ?cb + length ys" using xy(5) room in_region unat_offset by auto
  let ?m = "m(?a := c)"
  let ?s' = "s\<lparr>streams := (streams s)(k \<mapsto> y\<lparr>io_count := io_count y - 1\<rparr>), kmem := ?m, ttys := (ttys s)(t \<mapsto> x\<lparr>canon_buffer_count := canon_buffer_count x + 1\<rparr>)\<rparr>"
  have loop: "canon_loop h (Suc f) (Suc n) t s = (if c = 10 then Inr (Ret n ?s') else canon_loop h (Suc f) n t ?s')"
    using xy(1, 3) g(1) cnt by (simp add: upd_tty_def del: iostream_getch.simps)
  have "bytes_at ?m (io_buffer y) zs"
  proof -
    have k: "bytes_at m (io_buffer y) zs" "length zs \<le> unat (io_buffer_size y)" "unat (io_buffer y) + unat (io_buffer_size y) < 2 ^ 32"
      using g(3) by (simp_all add: stream_at_def)
    show ?thesis by (rule bytes_at_cong [OF k(1)]) (use k a xy(6) region_mono [OF k(2), of "io_buffer y"] in auto)
  qed
  then have st: "stream_at ca ?s' k zs" using g(3) by (simp add: stream_at_def)
  have "bytes_at ?m ?cb (ys @ [c])"
  proof -
    have "bytes_at ?m ?cb ys"
    proof (rule bytes_at_cong [OF xy(7)])
      fix z assume z: "z \<in> region ?cb (length ys)"
      then have "z \<in> ?R" "z \<noteq> ?a" using a room by (auto simp: region_def)
      then show "?m z = kmem s z" using g(2) xy(6) by auto
    qed (use xy(5) room in simp)
    then show ?thesis by (simp add: bytes_at_append bytes_at_Cons)
  qed
  moreover have "unat (canon_buffer_count x + 1) = length (ys @ [c])"
    using xy(4, 5) room unat_lt_32 [of "canon_buffer_size x"] by (subst unat_plus_small) auto
  ultimately have "canon_tty ?s' t k (ys @ [c])" using xy(3, 5, 6) by (simp add: canon_tty_def)
  moreover have "reader_frame s t k ?s'"
    unfolding reader_frame_def using xy(1, 2) a(1) g(2)
    by (intro exI [of _ x] exI [of _ y] exI [of _ ?m] exI [of _ "io_count y - 1"] exI [of _ "canon_buffer_count x + 1"]) auto
  ultimately show ?thesis using loop st by blast
qed

lemma reader_frame_room: "reader_frame s t k s' \<Longrightarrow> canon_room s' t = canon_room s t"
  unfolding reader_frame_def by (auto simp: canon_room_def)

text \<open>The characters one call takes: up to the first new line, or as many as asked for.\<close>

definition taken :: "nat \<Rightarrow> u8 list \<Rightarrow> bool" where
  "taken n zs \<longleftrightarrow> zs \<noteq> [] \<and> length zs \<le> n \<and> 10 \<notin> set (butlast zs) \<and> (last zs = 10 \<or> length zs = n)"

lemma canon_loop_taken:
  assumes "taken n zs" "stream_at ca s k (zs @ rest)" "canon_tty s t k ys" "length ys + length zs \<le> canon_room s t"
  shows "\<exists>s'. canon_loop h (Suc f) n t s = Inr (Ret (n - length zs) s') \<and>
    stream_at ca s' k rest \<and> canon_tty s' t k (ys @ zs) \<and> reader_frame s t k s'"
  using assms
proof (induction zs arbitrary: n s ys)
  case (Cons c zs)
  obtain j where n: "n = Suc j" using Cons.prems(1) by (cases n) (auto simp: taken_def)
  from canon_step [of ca s k c "zs @ rest" t ys h f j] Cons.prems(2, 3, 4) obtain s1 where
    s1: "canon_loop h (Suc f) n t s = (if c = 10 then Inr (Ret j s1) else canon_loop h (Suc f) j t s1)"
      "stream_at ca s1 k (zs @ rest)" "canon_tty s1 t k (ys @ [c])" "reader_frame s t k s1" unfolding n by auto
  show ?case
  proof (cases "zs = []")
    case True
    then have "c = 10 \<or> j = 0" using Cons.prems(1) n by (auto simp: taken_def)
    with s1 True n show ?thesis by (intro exI [of _ s1]) auto
  next
    case False
    then have c: "c \<noteq> 10" and tk: "taken j zs" using Cons.prems(1) n by (auto simp: taken_def)
    from Cons.IH [OF tk s1(2, 3)] Cons.prems(4) reader_frame_room [OF s1(4)] obtain s2 where
      s2: "canon_loop h (Suc f) j t s1 = Inr (Ret (j - length zs) s2)" "stream_at ca s2 k rest" "canon_tty s2 t k ((ys @ [c]) @ zs)"
        "reader_frame s1 t k s2" by auto
    with s1 c n show ?thesis by (intro exI [of _ s2]) (auto intro: reader_frame_trans)
  qed
qed (simp add: taken_def)

lemma memset_at: "memset m d c n x = (if unat (x - d) < n then c else m x)"
proof (induction n arbitrary: m d)
  case (Suc n)
  show ?case
  proof (cases "x = d")
    case False
    then have "unat (x - (d + 1)) = unat (x - d) - 1" "unat (x - d) \<noteq> 0"
      using unat_minus_one [of "x - d"] by (auto simp: diff_diff_eq unat_eq_0)
    then show ?thesis using False unfolding memset.simps Suc.IH by auto
  next
    case True
    then show ?thesis unfolding memset.simps Suc.IH by simp
  qed
qed simp

text \<open>What the reader copies out after the loop: the line, then zeros for what is left of the count less the line.\<close>

definition copied_out :: "u32 \<Rightarrow> nat \<Rightarrow> tty \<Rightarrow> mem \<Rightarrow> mem" where
  "copied_out buffer n x m =
     (memset (memcpy m buffer (canon_buffer x) (unat (canon_buffer_count x))) (buffer + canon_buffer_count x) 0
       (unat (of_nat n - canon_buffer_count x)))(canon_buffer x := 0)"

lemma tty_read_taken:
  assumes "procs s (current_process s) = Some p" "ttys s t = Some x" "p_group p = foreground_processes x"
    "c_lflag (termio x) AND ICANON \<noteq> 0" "taken (unat count) zs" "stream_at ca s k (zs @ rest)" "canon_tty s t k []"
    "length zs \<le> canon_room s t"
  shows "\<exists>s1 x1. tty_read h (Suc f) buffer count t s = Inr (Ret ERROR_NONE (s1\<lparr>kmem := copied_out buffer (unat count - length zs) x1 (kmem s1),
      ttys := (ttys s1)(t \<mapsto> x1\<lparr>canon_buffer_count := 0\<rparr>)\<rparr>)) \<and>
    ttys s1 t = Some x1 \<and> stream_at ca s1 k rest \<and> canon_tty s1 t k zs \<and> reader_frame s t k s1"
proof -
  from canon_loop_taken [OF assms(5, 6, 7)] assms(8) obtain s1 where
    s1: "canon_loop h (Suc f) (unat count) t s = Inr (Ret (unat count - length zs) s1)" "stream_at ca s1 k rest" "canon_tty s1 t k zs"
      "reader_frame s t k s1" by fastforce
  then obtain x1 where x1: "ttys s1 t = Some x1" by (auto simp: canon_tty_def split: option.splits)
  show ?thesis
    using assms(1, 2, 3, 4) s1 x1
    by (intro exI [of _ s1] exI [of _ x1]) (simp add: tty_read_def proc_def read_canon_def upd_tty_def copied_out_def Let_def)
qed

text \<open>When the count is at least twice the length of the line, only the reader's buffer and the first byte of the input line change.\<close>

lemma copied_out_fits:
  assumes "bytes_at m (canon_buffer x) zs" "unat (canon_buffer_count x) = length zs" "2 * length zs \<le> n" "0 < length zs"
    "unat buffer + n < 2 ^ 32" "unat (canon_buffer x) + length zs < 2 ^ 32"
    "region buffer n \<inter> region (canon_buffer x) (length zs) = {}"
  shows "bytes_at (copied_out buffer (n - length zs) x m) buffer (zs @ replicate (n - 2 * length zs) 0)"
    "z \<notin> region buffer n \<Longrightarrow> z \<noteq> canon_buffer x \<Longrightarrow> copied_out buffer (n - length zs) x m z = m z"
proof -
  let ?cb = "canon_buffer x" and ?k = "length zs" and ?m = "copied_out buffer (n - length zs) x m"
  have ck: "canon_buffer_count x = of_nat ?k" using assms(2) unat_lt_32 [of "canon_buffer_count x"] by (intro word_unat_eqI) (simp add: unat_of_nat)
  have k: "unat (of_nat (n - ?k) :: u32) = n - ?k" "unat (of_nat ?k :: u32) = ?k"
    by (subst unat_of_nat; use assms(3, 5) in simp)+
  then have left: "unat (of_nat (n - ?k) - of_nat ?k :: u32) = n - 2 * ?k"
    using assms(3) by (subst unat_sub) (simp_all add: word_le_nat_alt)
  have bk: "unat (buffer + of_nat ?k) = unat buffer + ?k" using assms(3, 5) by (intro unat_offset) simp
  have zero: "unat (z - (buffer + of_nat ?k)) < n - 2 * ?k \<longleftrightarrow> unat buffer + ?k \<le> unat z \<and> unat z < unat buffer + n - ?k" for z
    using assms(3, 5) unat_lt_32 [of z] by (auto simp: unat_sub_if' bk)
  have M: "?m z = (if z = ?cb then 0 else if unat buffer + ?k \<le> unat z \<and> unat z < unat buffer + n - ?k then 0 else memcpy m buffer ?cb ?k z)" for z
    by (simp add: copied_out_def memset_at ck left zero k(2))
  have nocb: "?cb \<notin> region buffer n" using assms(4, 7) by (auto simp: region_def)
  have "bytes_at (memcpy m buffer ?cb ?k) buffer zs"
  proof (rule memcpy_bytes [OF assms(1)])
    have "0 < n" using assms(3, 4) by linarith
    then have "buffer \<in> region buffer n" by (simp add: region_def)
    then have "buffer \<notin> region ?cb ?k" using assms(7) by auto
    then show "unat ?cb + ?k \<le> unat buffer \<or> unat buffer < unat ?cb" by (auto simp: region_def)
  qed (use assms(3, 5, 6) in simp_all)
  then have "bytes_at ?m buffer zs"
    by (rule bytes_at_cong) (use assms(3, 5) nocb in \<open>auto simp: M region_def\<close>)
  moreover have "bytes_at ?m (buffer + of_nat ?k) (replicate (n - 2 * ?k) 0)"
  proof -
    have "?m (buffer + of_nat ?k + of_nat i) = 0" if "i < n - 2 * ?k" for i
    proof -
      have "unat (buffer + of_nat ?k + of_nat i) = unat buffer + ?k + i" using that assms(5) bk by (subst unat_offset) simp_all
      moreover have "unat buffer + ?k + i < unat buffer + n - ?k" using that by linarith
      ultimately show ?thesis by (simp add: M)
    qed
    then show ?thesis by (simp add: bytes_at_def)
  qed
  ultimately show "bytes_at ?m buffer (zs @ replicate (n - 2 * ?k) 0)" by (simp add: bytes_at_append)
  show "?m z = m z" if z: "z \<notin> region buffer n" "z \<noteq> ?cb"
  proof -
    have "memcpy m buffer ?cb ?k z = m z"
      using z(1) assms(3, 5) region_mono [of ?k n buffer] by (intro memcpy_other) auto
    then show ?thesis using z by (auto simp: M region_def)
  qed
qed

text \<open>C26: A canonical read whose buffer is at least twice as long as the line typed returns the line, up to its new line or the count, followed by
  zeros; the rest of the typed text stays in the stream, and the input line is empty again.\<close>

theorem tty_read_returns_line:
  assumes "procs s (current_process s) = Some p" "ttys s t = Some x" "p_group p = foreground_processes x"
    "c_lflag (termio x) AND ICANON \<noteq> 0" "taken (unat count) zs" "stream_at ca s k (zs @ rest)" "canon_tty s t k []"
    "length zs \<le> canon_room s t" "2 * length zs \<le> unat count" "unat buffer + unat count < 2 ^ 32"
    "streams s k = Some y" "region buffer (unat count) \<inter> region (io_buffer y) (unat (io_buffer_size y)) = {}"
    "region buffer (unat count) \<inter> region (canon_buffer x) (unat (canon_buffer_size x)) = {}"
  shows "\<exists>s'. tty_read h (Suc f) buffer count t s = Inr (Ret ERROR_NONE s') \<and>
    bytes_at (kmem s') buffer (zs @ replicate (unat count - 2 * length zs) 0) \<and> stream_at ca s' k rest \<and> canon_tty s' t k []"
proof -
  from tty_read_taken [OF assms(1-8), of h f buffer] obtain s1 x1 where
    r: "tty_read h (Suc f) buffer count t s = Inr (Ret ERROR_NONE (s1\<lparr>kmem := copied_out buffer (unat count - length zs) x1 (kmem s1),
        ttys := (ttys s1)(t \<mapsto> x1\<lparr>canon_buffer_count := 0\<rparr>)\<rparr>))"
      "ttys s1 t = Some x1" "stream_at ca s1 k rest" "canon_tty s1 t k zs" "reader_frame s t k s1" by blast
  obtain y1 where y1: "streams s1 k = Some y1" "io_buffer y1 = io_buffer y" "io_buffer_size y1 = io_buffer_size y"
    "canon_buffer x1 = canon_buffer x" "canon_buffer_size x1 = canon_buffer_size x"
    using r(2, 5) assms(2, 11) unfolding reader_frame_def by auto
  let ?cb = "canon_buffer x1" and ?R = "region (canon_buffer x) (unat (canon_buffer_size x))" and ?B = "region (io_buffer y) (unat (io_buffer_size y))"
  let ?m = "copied_out buffer (unat count - length zs) x1 (kmem s1)"
  have c: "unat (canon_buffer_count x1) = length zs" "unat ?cb + unat (canon_buffer_size x) < 2 ^ 32" "bytes_at (kmem s1) ?cb zs"
    "?R \<inter> ?B = {}" "keyboard_stream x1 = k"
    using r(2, 4) y1 by (simp_all add: canon_tty_def)
  have room: "length zs \<le> unat (canon_buffer_size x)" "0 < length zs" using assms(2, 5, 8) by (simp_all add: canon_room_def taken_def)
  have R: "region ?cb (length zs) \<subseteq> ?R" "?cb \<in> ?R"
    using room y1(4) length_greater_0_conv [of zs] by (auto simp: region_def simp del: length_greater_0_conv)
  have dis: "region buffer (unat count) \<inter> region ?cb (length zs) = {}" using R(1) assms(13) by auto
  have fit: "bytes_at ?m buffer (zs @ replicate (unat count - 2 * length zs) 0)"
    "\<And>z. z \<notin> region buffer (unat count) \<Longrightarrow> z \<noteq> ?cb \<Longrightarrow> ?m z = kmem s1 z"
    using copied_out_fits [OF c(3, 1) assms(9) room(2) assms(10) _ dis] c(2) room(1) by auto
  have "bytes_at ?m (io_buffer y) rest"
  proof -
    have b: "bytes_at (kmem s1) (io_buffer y) rest" "length rest \<le> unat (io_buffer_size y)" "unat (io_buffer y) + unat (io_buffer_size y) < 2 ^ 32"
      using r(3) y1 by (simp_all add: stream_at_def)
    show ?thesis
      by (rule bytes_at_cong [OF b(1)]) (use b region_mono [OF b(2), of "io_buffer y"] fit(2) assms(12) c(4) R(2) in auto)
  qed
  then have "stream_at ca (s1\<lparr>kmem := ?m, ttys := (ttys s1)(t \<mapsto> x1\<lparr>canon_buffer_count := 0\<rparr>)\<rparr>) k rest"
    using r(3) y1 by (simp add: stream_at_def)
  moreover have "canon_tty (s1\<lparr>kmem := ?m, ttys := (ttys s1)(t \<mapsto> x1\<lparr>canon_buffer_count := 0\<rparr>)\<rparr>) t k []"
    using r(2, 4) y1 by (simp add: canon_tty_def)
  ultimately show ?thesis using r(1) fit(1) by (intro exI conjI) (assumption | simp)+
qed

text \<open>A canonical read of one character overwrites the whole of memory: the length of the area to clear is the rest of the count less the length of
  the line, and wraps around, so that after the call every byte but the character is zero.\<close>

theorem tty_read_one_wipes_memory:
  assumes "procs s (current_process s) = Some p" "ttys s t = Some x" "p_group p = foreground_processes x"
    "c_lflag (termio x) AND ICANON \<noteq> 0" "stream_at ca s k (c # rest)" "canon_tty s t k []" "0 < canon_room s t"
    "buffer \<noteq> canon_buffer x"
  shows "\<exists>s'. tty_read h (Suc f) buffer 1 t s = Inr (Ret ERROR_NONE s') \<and> kmem s' = (\<lambda>_. 0)(buffer := c)"
proof -
  have tk: "taken (unat (1 :: u32)) [c]" by (simp add: taken_def)
  from tty_read_taken [OF assms(1-4) tk _ assms(6), of ca rest h f buffer] assms(5, 7) obtain s1 x1 where
    r: "tty_read h (Suc f) buffer 1 t s = Inr (Ret ERROR_NONE (s1\<lparr>kmem := copied_out buffer 0 x1 (kmem s1),
        ttys := (ttys s1)(t \<mapsto> x1\<lparr>canon_buffer_count := 0\<rparr>)\<rparr>))"
      "ttys s1 t = Some x1" "canon_tty s1 t k [c]" "reader_frame s t k s1" by auto
  have cb: "canon_buffer x1 = canon_buffer x" using r(2, 4) assms(2) unfolding reader_frame_def by auto
  have x1: "unat (canon_buffer_count x1) = 1" "kmem s1 (canon_buffer x) = c"
    using r(2, 3) cb by (auto simp: canon_tty_def bytes_at_Cons split: option.splits)
  have c1: "canon_buffer_count x1 = 1" using x1(1) by (intro word_unat_eqI) simp
  have "copied_out buffer 0 x1 (kmem s1) z = (if z = buffer then c else 0)" for z
  proof (cases "z = buffer")
    case True
    then show ?thesis using assms(8) x1(2) by (simp add: copied_out_def memset_at c1 cb)
  next
    case False
    then have "z - buffer \<noteq> 0" by simp
    then have "unat (z - (buffer + 1)) < unat (- 1 :: u32)"
      using unat_minus_one [of "z - buffer"] unat_lt_32 [of "z - buffer"] by (simp add: diff_diff_eq unsigned_minus_1_eq_mask mask_eq_exp_minus_1)
    then show ?thesis using False by (simp add: copied_out_def memset_at c1)
  qed
  then have "copied_out buffer 0 x1 (kmem s1) = (\<lambda>_. 0)(buffer := c)" by auto
  with r(1) show ?thesis by auto
qed

subsection \<open>Escape sequences\<close>

lemma atoi_loop_stop:
  assumes "bytes_at m (a + i) (ds' @ [59])" "\<forall>c \<in> set ds'. isdigit c" "m a \<noteq> 45"
  shows "atoi_loop m a i v sg = Some (dval v ds', sg, i + of_nat (length ds'))"
  using assms(1, 2)
proof (induction ds' arbitrary: i v)
  case Nil
  then show ?case using assms(3) by (subst atoi_loop.simps) (simp add: bytes_at_Cons isdigit_def dval_def)
next
  case (Cons c ds')
  then have "bytes_at m (a + (i + 1)) (ds' @ [59])" "m (a + i) = c" by (simp_all add: bytes_at_Cons add.assoc)
  with Cons.IH [of "i + 1" "v * 10 + ucast c - 48"] Cons.prems(2) show ?case
    by (subst atoi_loop.simps) (auto simp: dval_def Let_def isdigit_nonzero add.assoc)
qed

lemma csi_prefix:
  assumes "bytes_at m p [0x1B, 0x5B, 0]" "bytes_at m b [0x1B, 0x5B]"
  shows "strcfirst m p b = Some 2"
proof -
  have "m p = 0x1B" "m (p + 1) = 0x5B" "m (p + 2) = 0" "m b = 0x1B" "m (b + 1) = 0x5B"
    using assms by (simp_all add: bytes_at_Cons add.assoc)
  then show ?thesis
    unfolding strcfirst_def by (subst strcfirst_from.simps, simp add: add.assoc, subst strcfirst_from.simps, simp add: add.assoc, subst strcfirst_from.simps, simp)
qed

text \<open>An escape sequence with two numbers, such as the one that moves the cursor, has no effect: after the semicolon the index restarts, the first digit is
  taken for the control character, and everything behind that digit is written to the terminal as text.\<close>

theorem csi_two_numbers_printed:
  assumes "procs s (current_process s) = Some p" "ttys s t = Some x" "p_group p = foreground_processes x"
    "bytes_at (kmem s) (lit s CSI) [0x1B, 0x5B, 0]" "bytes_at (kmem s) buffer ([0x1B, 0x5B, d] @ ds' @ [59])"
    "isdigit d" "\<forall>c \<in> set ds'. isdigit c" "count \<noteq> 3"
  shows "tty_write h (Suc f) buffer count t s = tty_write h f (buffer + 3) (count - 3) t s"
proof -
  let ?m = "kmem s"
  have b: "bytes_at ?m buffer [0x1B, 0x5B]" "bytes_at ?m (buffer + 2) ((d # ds') @ [59])"
    using assms(5) by (simp_all add: bytes_at_Cons add.assoc)
  have d: "?m (buffer + 2) = d" "d \<noteq> 45" "d \<noteq> 72" "d \<noteq> 74" using b(2) assms(6) by (auto simp: bytes_at_Cons isdigit_def)
  let ?i = "of_nat (length (d # ds')) :: u32"
  have "atoi_loop ?m (buffer + 2) 0 0 False = Some (dval 0 (d # ds'), False, 0 + ?i)"
    using b(2) assms(6, 7) d by (intro atoi_loop_stop) auto
  then have n: "atoiindex ?m (buffer + 2) = Some (dval 0 (d # ds'), ?i)" by (simp add: atoiindex_def)
  have "bytes_at ?m (buffer + 2 + ?i) [59]" using b(2) bytes_at_append [of ?m "buffer + 2" "d # ds'" "[59]"] by simp
  then have c: "?m (buffer + 2 + ?i) = 59" by (simp add: bytes_at_Cons)
  then have "atoi_loop ?m (buffer + 2 + ?i) 0 0 False = Some (0, False, 0)"
    using atoi_loop_stop [of ?m "buffer + 2 + ?i" 0 "[]" 0 False] by (simp add: bytes_at_Cons dval_def)
  then have "atoiindex ?m (buffer + 2 + ?i) = Some (0, 0)" by (simp add: atoiindex_def)
  with n c d(1) have "parse_csi ?m buffer = Inr (if dval 0 (d # ds') = 0 then 1 else dval 0 (d # ds'), 1, d, 0)"
    by (simp add: parse_csi_def the_res_def)
  with assms(1, 2, 3, 8) csi_prefix [OF assms(4) b(1)] d show ?thesis
    by (simp add: proc_def the_res_def do_csi_def)
qed

subsection \<open>The keyboard\<close>

text \<open>\<^verbatim>\<open>getchar\<close> reads inside its table for every key code but one: the code equal to the size of the table passes the test and is read one byte
  past its end.\<close>

theorem getchar_out_of_table: "getchar keycode s = Inl BadPtr \<longleftrightarrow> keycode = 87"
proof -
  have l: "length azer_kbd_map = 87" "length azer_maj_kbd_map = 87" "length azer_ctrl_kbd_map = 87"
    by (simp_all add: azer_kbd_map_def azer_maj_kbd_map_def azer_ctrl_kbd_map_def)
  have "unat keycode = 87 \<longleftrightarrow> keycode = 87" by (auto intro: word_unat_eqI)
  then show ?thesis unfolding getchar_def kbd_read_def l by auto
qed

end
