(* ===== verification/VK_SchedProps.thy ===== *)
theory VK_SchedProps
  imports VK_TaskProps
begin

section \<open>Properties of scheduling, sleeping, groups and signals\<close>

text \<open>
  The round robin of ready processes, what happens to sleepers and interrupt waiters, the search in the group table and
  the queue of signals, for the kernel's own heap.
\<close>

subsection \<open>Two queues in memory\<close>

definition queue_bytes :: "mem \<Rightarrow> u32 \<Rightarrow> u32 set" where
  "queue_bytes m q = {x. unat q \<le> unat x \<and> unat x < unat q + 12 \<or>
     unat (q_front m q) \<le> unat x \<and> unat x < unat (q_front m q) + 4 * unat (q_size m q)}"

lemma load32_bytes:
  assumes "unat a + 4 \<le> 2 ^ 32" "\<And>x. unat a \<le> unat x \<Longrightarrow> unat x < unat a + 4 \<Longrightarrow> m' x = m x"
  shows "load32 m' a = load32 m a"
proof (rule load32_cong)
  fix j :: nat assume "j < 4"
  then have "unat (a + of_nat j) = unat a + j" using assms(1) by (intro unat_add_small) auto
  then show "m' (a + of_nat j) = m (a + of_nat j)" using \<open>j < 4\<close> by (intro assms(2)) auto
qed

lemma queue_at_apart:
  assumes "queue_at m r xs" "queue_frame m q m'" "queue_bytes m q \<inter> queue_bytes m r = {}"
  shows "queue_at m' r xs"
proof -
  note r = assms(1) [unfolded queue_at_def]
  have same: "m' x = m x" if "x \<in> queue_bytes m r" for x
  proof (rule ccontr)
    assume "m' x \<noteq> m x"
    then have "x \<in> queue_bytes m q" using assms(2) by (auto simp: queue_frame_def queue_bytes_def)
    with that assms(3) show False by blast
  qed
  have rf: "unat (r + 4) = unat r + 4" "unat (r + 8) = unat r + 8" using r by (auto intro: queue_fields)
  have st: "load32 m' a = load32 m a" if "unat r \<le> unat a" "unat a + 4 \<le> unat r + 12" for a
    using that r by (intro load32_bytes same) (auto simp: queue_bytes_def)
  have fl: "q_front m' r = q_front m r" "q_rear m' r = q_rear m r" "q_size m' r = q_size m r"
    using rf by (auto simp: q_front_def q_rear_def q_size_def st)
  have cell: "load32 m' (q_front m r + 16 * of_nat i) = load32 m (q_front m r + 16 * of_nat i)" if "i < length xs" for i
  proof -
    have b: "4 * i + 1 \<le> unat (q_size m r)" using that r by auto
    have "unat (q_front m r + 16 * of_nat i) = unat (q_front m r) + 16 * i" by (rule queue_cell [OF assms(1) b])
    then show ?thesis using b r by (intro load32_bytes same) (auto simp: queue_bytes_def)
  qed
  show ?thesis unfolding queue_at_def fl using r cell by simp
qed

subsection \<open>Round robin\<close>

lemma schedule_switch_to:
  assumes "procs s p = Some x" "thrs s t = Some th"
  shows "\<exists>s'. schedule_switch t p s = Inr s' \<and> current_process s' = p \<and> kmem s' = kmem s \<and> p_ready_queue s' = p_ready_queue s
    \<and> thrs s' = thrs s \<and> (\<exists>y. procs s' = (procs s)(p \<mapsto> y) \<and> active_thread y = t) \<and> tss_esp0 s' = t_kesp th \<and>
    current_page_directory s' = page_directory x \<and> cpu s' = \<lparr>c_gregs = gregs th, c_sregs = sregs th, c_esp = t_esp th, c_ebp = t_ebp th, c_if = True\<rparr>"
  using assms by (auto simp: schedule_switch_def upd_proc_def proc_def thr_def)


subsection \<open>Sleepers\<close>

text \<open>A thread that is to sleep for less time than the first sleeper becomes the only entry of the sleep list: the code
  sets the successor of a new head to null, so all other sleepers are lost.\<close>

theorem insert_sleeper_drops_list:
  assumes "wnodes s (wait_list s) = Some n" "wait_list s \<noteq> 0" "ucast wt < w_time n" "wt \<noteq> 0"
    "insert_sleeper (kernel_heap (map_memory_d d g kpd ps) pds k) (Suc f) p t wt s = Inr (e, s')"
  shows "wait_list s' = e \<and> (\<exists>w. wnodes s' e = Some w \<and> w_next w = 0 \<and> w_thread w = t \<and> w_time w = ucast wt)"
proof -
  let ?h = "kernel_heap (map_memory_d d g kpd ps) pds k"
  have "(ucast wt :: u32) \<noteq> 0"
  proof
    assume "(ucast wt :: u32) = 0"
    then have "unat (ucast wt :: u32) = 0" by simp
    moreover have "unat wt < 2 ^ 16" using unsigned_less [of wt, where ?'a = nat] by simp
    ultimately have "unat wt = 0" by (simp add: unsigned_ucast_eq take_bit_eq_mod)
    with assms(4) show False by (simp add: word_unat_eq_iff)
  qed
  then have place: "wait_place (Suc f) (wait_list s) 0 (ucast wt) s = Inr (wait_list s, 0)"
    using assms(1-3) by (simp add: wnode_def)
  obtain s1 el s2 where s1: "malloc ?h 12 s = Inr (e, s1)" "malloc ?h 12 (s1\<lparr>wait_list := e\<rparr>) = Inr (el, s2)"
    "upd_thr t (\<lambda>th. th\<lparr>t_status := THREAD_STATUS_ASLEEP_TIME\<rparr>)
       (s2\<lparr>wnodes := (wnodes s2)(e \<mapsto> \<lparr>w_element = el, w_process = p, w_time = ucast wt, w_thread = t, w_next = 0, w_prev = 0\<rparr>)\<rparr>) = Inr s'"
    using assms(5) unfolding insert_sleeper_def place by (auto elim!: bindR_InrE)
  from more_fields [OF th.malloc_keeps [OF s1(2)]] s1(3) show ?thesis by (auto simp: upd_thr_Inr)
qed

context task_heap
begin

lemma wake_expired_effect:
  assumes "wake_expired h f ptr s = Inr s'"
  shows "wnodes s' ptr = None \<and> (\<forall>a. wnodes s' a = None \<or> wnodes s' a = wnodes s a) \<and> irq_list s' = irq_list s \<and>
    mutexes s' = mutexes s \<and> wait_mutex s' = wait_mutex s \<and> current_process s' = current_process s"
  using assms
proof (induction f arbitrary: ptr s)
  case (Suc f)
  from Suc.prems obtain w s1 s2 where w: "wnodes s ptr = Some w"
    and s1: "scheduler_add_thread h (w_process w) (w_thread w) s = Inr s1"
    and s2: "free h ptr (s1\<lparr>wait_list := w_next w, wnodes := (wnodes s1)(ptr := None)\<rparr>) = Inr s2"
    and c: "s' = s2 \<or> wake_expired h f (w_next w) s2 = Inr s'"
    by (auto simp: task_res split: if_splits)
  have l: "lists_same s s1" using add_thread_cases [OF s1] by auto
  note k = more_fields [OF free_keeps [OF s2]]
  from c show ?case
  proof
    assume "s' = s2"
    with l k show ?thesis by (auto simp: lists_same_def)
  next
    assume "wake_expired h f (w_next w) s2 = Inr s'"
    from Suc.IH [OF this] l k show ?thesis by (auto simp: lists_same_def) (metis fun_upd_apply)
  qed
qed simp

lemma acquire_free:
  assumes "mutexes s a = Some m" "mx_owner m = 0 \<or> mx_owner m = current_process s"
  shows "\<exists>m'. mutex_acquire h (Suc f) a s = Inr (Returned (s\<lparr>mutexes := (mutexes s)(a \<mapsto> m')\<rparr>)) \<and> mx_owner m' = current_process s"
proof -
  let ?m = "m\<lparr>mx_owner := current_process s\<rparr>"
  have "mutex_lock a s = Inr (ERROR_NONE, s\<lparr>mutexes := (mutexes s)(a \<mapsto> ?m)\<rparr>)"
  proof (cases "mx_owner m = current_process s")
    case True
    then have "?m = m" by (cases m) simp
    with True assms(1) show ?thesis by (simp add: mutex_lock_def mtx_def map_upd_triv)
  next
    case False
    with assms show ?thesis by (simp add: mutex_lock_def mtx_def upd_mtx_def)
  qed
  then show ?thesis by (intro exI [of _ ?m]) simp
qed

lemma sleep_update_wakes:
  assumes "scheduler_sleep_update h f s = Inr s'" "wnodes s (wait_list s) = Some n" "wait_list s \<noteq> 0" "w_time n \<le> 55"
    "mutexes s (wait_mutex s) = Some m" "mx_owner m = 0"
  shows "wnodes s' (wait_list s) = None \<and> irq_list s' = irq_list s \<and> wait_mutex s' = wait_mutex s \<and>
    current_process s' = current_process s \<and> (\<exists>m'. mutexes s' (wait_mutex s) = Some m' \<and> mx_owner m' = 0)"
proof -
  let ?s1 = "s\<lparr>mutexes := (mutexes s)(wait_mutex s \<mapsto> m\<lparr>mx_owner := current_process s\<rparr>)\<rparr>"
  have lock: "mutex_lock (wait_mutex s) s = Inr (ERROR_NONE, ?s1)"
    using assms(5,6) by (auto simp: mutex_lock_def mtx_def upd_mtx_def map_upd_triv)
  have "\<not> 55 < w_time n" using assms(4) by simp
  with assms(1-3) lock obtain s2 err where s2: "wake_expired h f (wait_list s) (?s1\<lparr>wait_list := 0\<rparr>) = Inr s2"
    "mutex_unlock h (wait_mutex s2) s2 = Inr (err, s')"
    unfolding scheduler_sleep_update_def by (auto simp: task_res)
  from wake_expired_effect [OF s2(1)] have e: "wnodes s2 (wait_list s) = None" "irq_list s2 = irq_list s" "wait_mutex s2 = wait_mutex s"
    "current_process s2 = current_process s" "mutexes s2 (wait_mutex s) = Some (m\<lparr>mx_owner := current_process s\<rparr>)" by auto
  have "\<exists>m'. mutexes s' (wait_mutex s) = Some m' \<and> mx_owner m' = 0"
    using mutex_unlock_effect [OF s2(2), of "m\<lparr>mx_owner := current_process s\<rparr>"] e by (auto split: if_splits)
  moreover have "wnodes s' = wnodes s2 \<and> irq_list s' = irq_list s2 \<and> wait_mutex s' = wait_mutex s2 \<and> current_process s' = current_process s2"
    using unlock_lists [OF s2(2)] by (auto simp: lists_same_def)
  ultimately show ?thesis using e by simp
qed

end

text \<open>a thread that waits for an interrupt with a time limit is woken when the limit passes, but stays on the interrupt's
  list with a pointer to its freed sleep entry: the next such interrupt uses the freed entry.\<close>

theorem irq_after_timeout_uses_freed_entry:
  assumes "scheduler_sleep_update (kernel_heap (map_memory_d d g kpd ps) pds k) f s = Inr s'"
    "wnodes s (wait_list s) = Some n" "wait_list s \<noteq> 0" "w_time n \<le> 55" "mutexes s (wait_mutex s) = Some m" "mx_owner m = 0"
    "irq < 21" "irq_list s (unat irq) = (e, el, p, wait_list s, t) # rest"
  shows "scheduler_irq_wakeup h (Suc f') irq s' = Inl BadPtr"
proof -
  from th.sleep_update_wakes [OF assms(1-6)] obtain m' where e: "wnodes s' (wait_list s) = None" "irq_list s' = irq_list s"
    "mutexes s' (wait_mutex s') = Some m'" "mx_owner m' = 0" by auto
  have ir: "\<not> 21 \<le> irq" using assms(7) by simp
  show ?thesis using e assms(3,8) ir
    by (simp add: scheduler_irq_wakeup_def mutex_lock_def mtx_def upd_mtx_def unlink_wait_entry_def wnode_def)
qed

subsection \<open>The group table\<close>

text \<open>The slots 0 to \<open>n\<close> of the table hold \<open>G\<close>, in strictly ascending order of their ids; the last one is the slot after the
  table, which the search looks at too.\<close>

definition group_table :: "'a tasking_scheme \<Rightarrow> nat \<Rightarrow> (nat \<Rightarrow> pgroup) \<Rightarrow> bool" where
  "group_table s n G \<longleftrightarrow> n < 2 ^ 30 \<and> (\<forall>i. i \<le> n \<longrightarrow> pgroups s (group_addr s (of_nat i)) = Some (G i)) \<and>
     (\<forall>i j. i < j \<and> j \<le> n \<longrightarrow> gid (G i) < gid (G j))"

lemma mid_of_nat:
  assumes "lo \<le> hi" "hi < 2 ^ 30"
  shows "(of_nat lo + of_nat hi :: u32) div 2 = of_nat ((lo + hi) div 2)"
proof (rule word_unat_eqI)
  have "unat (of_nat lo + of_nat hi :: u32) = lo + hi"
    using assms by (subst of_nat_add [symmetric]) (simp add: unat_of_nat del: of_nat_add)
  then show "unat ((of_nat lo + of_nat hi :: u32) div 2) = unat (of_nat ((lo + hi) div 2) :: u32)"
    using assms by (simp add: unat_div_distrib unat_of_nat del: of_nat_add)
qed

lemma group_table_slot:
  "group_table s n G \<Longrightarrow> i \<le> n \<Longrightarrow> grp (group_addr s (of_nat i)) s = Inr (G i)"
  by (simp add: group_table_def grp_def)

lemma get_group_from_finds:
  assumes "group_table s n G" "lo \<le> k" "k \<le> hi" "hi \<le> n" "hi - lo < f"
  shows "get_group_from f (gid (G k)) (of_nat lo) (of_nat hi) s = Inr (group_addr s (of_nat k))"
  using assms
proof (induction f arbitrary: lo hi)
  case (Suc f)
  have n: "n < 2 ^ 30" and mono: "\<And>i j. i < j \<Longrightarrow> j \<le> n \<Longrightarrow> gid (G i) < gid (G j)"
    using Suc.prems(1) by (auto simp: group_table_def)
  define off where "off = (lo + hi) div 2"
  have off: "lo \<le> off" "off \<le> hi" using Suc.prems by (auto simp: off_def)
  have mid: "(of_nat lo + of_nat hi :: u32) div 2 = of_nat off"
    using Suc.prems n unfolding off_def by (intro mid_of_nat) auto
  have le: "(of_nat lo :: u32) \<le> of_nat hi"
    using Suc.prems n by (simp add: word_le_nat_alt unat_of_nat)
  have slot: "grp (group_addr s (of_nat off)) s = Inr (G off)"
    using Suc.prems off by (intro group_table_slot [OF Suc.prems(1)]) auto
  consider "off = k" | "off < k" | "k < off" by linarith
  then show ?case
  proof cases
    case 1
    then show ?thesis using le slot by (simp add: mid Let_def)
  next
    case 2
    have "gid (G off) < gid (G k)" using mono [OF 2] Suc.prems by simp
    moreover have "get_group_from f (gid (G k)) (of_nat (Suc off)) (of_nat hi) s = Inr (group_addr s (of_nat k))"
      using Suc.prems 2 off by (intro Suc.IH) auto
    moreover have "of_nat off + 1 = (of_nat (Suc off) :: u32)" by simp
    ultimately show ?thesis using le slot by (simp add: mid Let_def del: of_nat_Suc)
  next
    case 3
    have "gid (G k) < gid (G off)" using mono [OF 3] Suc.prems off by simp
    moreover have "get_group_from f (gid (G k)) (of_nat lo) (of_nat (off - 1)) s = Inr (group_addr s (of_nat k))"
      using Suc.prems 3 off by (intro Suc.IH) auto
    moreover have "of_nat off - 1 = (of_nat (off - 1) :: u32)" using 3 by (simp add: of_nat_diff)
    ultimately show ?thesis using le slot by (simp add: mid Let_def)
  qed
qed simp

lemma get_group_from_below:
  assumes "group_table s n G" "g < gid (G 0)" "pgroups s (group_addr s 0x7FFFFFFF) = None" "hi \<le> n" "hi + 1 < f"
  shows "get_group_from f g 0 (of_nat hi) s = Inl BadPtr"
  using assms
proof (induction f arbitrary: hi)
  case (Suc f)
  have n: "n < 2 ^ 30" and mono: "\<And>i j. i < j \<Longrightarrow> j \<le> n \<Longrightarrow> gid (G i) < gid (G j)"
    using Suc.prems(1) by (auto simp: group_table_def)
  define off where "off = hi div 2"
  have off: "off \<le> hi" by (simp add: off_def)
  have mid: "(of_nat hi :: u32) div 2 = of_nat off"
    using mid_of_nat [of 0 hi] Suc.prems n by (simp add: off_def)
  have slot: "grp (group_addr s (of_nat off)) s = Inr (G off)"
    using Suc.prems off by (intro group_table_slot [OF Suc.prems(1)]) auto
  have gt: "g < gid (G off)"
    using mono [of 0 off] Suc.prems(2,4) off by (cases "off = 0") auto
  have step: "get_group_from (Suc f) g 0 (of_nat hi) s = get_group_from f g 0 (of_nat off - 1) s"
    using slot gt by (simp add: mid Let_def)
  show ?case
  proof (cases "off = 0")
    case False
    then have "of_nat off - 1 = (of_nat (off - 1) :: u32)" by (simp add: of_nat_diff)
    moreover have "get_group_from f g 0 (of_nat (off - 1)) s = Inl BadPtr"
      using Suc.prems off False by (intro Suc.IH) auto
    ultimately show ?thesis using step by simp
  next
    case True
    obtain f' where f': "f = Suc f'" using Suc.prems by (cases f) auto
    have "(- 1 :: u32) div 2 = 0x7FFFFFFF" by (simp add: word_unat_eq_iff unat_div_distrib)
    then have "get_group_from f g 0 (- 1) s = Inl BadPtr" using Suc.prems(3) by (simp add: f' Let_def grp_def)
    then show ?thesis using step True by simp
  qed
qed simp


text \<open>for an id below all of them the search does not return null: its upper bound wraps below zero and it reads outside the
  table.\<close>

theorem get_group_below_faults:
  assumes "group_table s (unat (groups_number s)) G" "g < gid (G 0)" "pgroups s (group_addr s 0x7FFFFFFF) = None"
    "unat (groups_number s) + 1 < f"
  shows "get_group f g s = Inl BadPtr"
  using get_group_from_below [OF assms(1-3) order.refl assms(4)] by (simp add: get_group_def)

subsection \<open>Signals\<close>

text \<open>Sending a valid signal to a live process while the list is not locked by another appends it at the end of the list of
  pending signals; an invalid number or a zombie leaves everything as it was.\<close>

theorem send_signal_appends:
  assumes "send_signal (kernel_heap (map_memory_d d g kpd ps) pds k) (Suc f) pd sig s = Inr (Returned s')"
    "procs s (processes_at pd s) = Some x" "mutexes s (signal_mutex s) = Some m" "mx_owner m = 0"
  shows "if p_status x = PROCESS_STATUS_ZOMBIE \<or> sig \<le> 0 \<or> NSIG \<le> sig then s' = s
    else \<exists>e element. signal_list s' = signal_list s @ [(e, element, processes_at pd s, sig)]"
proof (cases "p_status x = PROCESS_STATUS_ZOMBIE \<or> sig \<le> 0 \<or> NSIG \<le> sig")
  case True
  with assms(1,2) show ?thesis by (auto simp: send_signal_def proc_def simp del: mutex_acquire.simps split: if_splits)
next
  case False
  let ?h = "kernel_heap (map_memory_d d g kpd ps) pds k"
  obtain m' where acq: "mutex_acquire ?h (Suc f) (signal_mutex s) s = Inr (Returned (s\<lparr>mutexes := (mutexes s)(signal_mutex s \<mapsto> m')\<rparr>))"
    using th.acquire_free [OF assms(3)] assms(4) by blast
  from assms(1,2) False obtain e s1 el s2 err where s1: "malloc ?h 8 (s\<lparr>mutexes := (mutexes s)(signal_mutex s \<mapsto> m')\<rparr>) = Inr (e, s1)"
    "malloc ?h 8 s1 = Inr (el, s2)"
    "mutex_unlock ?h (signal_mutex s2) (s2\<lparr>signal_list := signal_list s2 @ [(e, el, processes_at pd s, sig)]\<rparr>) = Inr (err, s')"
    by (auto simp: send_signal_def proc_def acq simp del: mutex_acquire.simps elim!: bindR_InrE)
  have "signal_list s2 = signal_list s"
    using more_fields(12) [OF th.malloc_keeps [OF s1(1)]] more_fields(12) [OF th.malloc_keeps [OF s1(2)]] by simp
  with th.unlock_lists [OF s1(3)] False show ?thesis by (auto simp: lists_same_def)
qed

end
