(* ===== verification/VK_TaskDemo.thy ===== *)
theory VK_TaskDemo
  imports VK_SchedProps
begin

section \<open>The properties of the tasking layer on concrete states\<close>

text \<open>
  A small machine: the boot heap with one block in use, one process with a few threads, a mutex, the sleep list with one
  entry. Each property of the tasking layer is applied to it with its hypotheses discharged.
\<close>

definition demo_thread :: "u32 \<Rightarrow> thread" where
  "demo_thread st = zero_thread\<lparr>t_status := st\<rparr>"

definition demo_process :: "u32 \<Rightarrow> u32 \<Rightarrow> (u32 \<times> u32) list \<Rightarrow> process" where
  "demo_process act run ws = \<lparr>active_thread = act, running_threads = run, waiting_threads = ws, p_flags = 0, page_directory = 0,
     data_loc = 0, data_size = 0, heap_addr = 0, heap_size = 0, p_tty = 0, files = 0, files_size = 0, files_count = 0,
     pid = 1, p_group = 0, p_session = 0, p_status = PROCESS_STATUS_RUNNING, children = [], parent = 0, signal_handlers = (\<lambda>_. 0)\<rparr>"

definition demo_cpu :: cpu_regs where
  "demo_cpu = \<lparr>c_gregs = gregs zero_thread, c_sregs = sregs zero_thread, c_esp = 0, c_ebp = 0, c_if = True\<rparr>"

definition demo :: "mem \<Rightarrow> tasking" where
  "demo m = \<lparr>kmem = m, KHEAP_BASE_START = 0xC0800000, KHEAP_BASE_END = 0xC0C00000,
     bstore = Map.empty, first_block = 0, detected_memory = 0, detected_memory_below32 = 0, vm_first_block = 0,
     pmem = (\<lambda>_. 0), kpheap_blocks = (\<lambda>_. 0), cpu_pse = True, kernel_page_directory = 0, current_page_directory = 0, phys = (\<lambda>_. 0),
     procs = [100 \<mapsto> demo_process 0 0 [(1, 8), (0xC0800008, 7)]],
     thrs = [7 \<mapsto> demo_thread THREAD_STATUS_ASLEEP_MUTEX, 9 \<mapsto> demo_thread THREAD_STATUS_RUNNING, 11 \<mapsto> demo_thread THREAD_STATUS_ASLEEP_IRQ],
     current_process = 100, idle_process = 0, kernel_process = 0, processes = 0, processes_size = 0, p_ready_queue = 0,
     scheduler_started = True, irq_list = (\<lambda>_. [])(1 := [(1, 2, 100, 0xC0800008, 11)]),
     wnodes = [0xC0800008 \<mapsto> \<lparr>w_element = 0, w_process = 100, w_time = 40, w_thread = 11, w_next = 0, w_prev = 0\<rparr>],
     wait_list = 0xC0800008, wait_mutex = 200, signal_mutex = 200,
     mutexes = [200 \<mapsto> \<lparr>mx_owner = 0, mx_waiting = []\<rparr>, 300 \<mapsto> \<lparr>mx_owner = 100, mx_waiting = [(0xC0800008, 7, 9)]\<rparr>],
     signal_list = [], pgroups = (\<lambda>a. if a \<in> {0, 12, 24} then Some \<lparr>gid = 5 + uint a, g_processes = [], g_session = 0\<rparr> else None),
     groups = 0, groups_number = 2, groups_size = 3, sessions = Map.empty, cpu = demo_cpu, tss_esp0 = 0,
     label_srt_end = 0, label_rmv = 0, label_exit_process = 0\<rparr>"

abbreviation demo_heap :: "tasking heap_ops" where
  "demo_heap \<equiv> kernel_heap (map_memory_d 0 0 0 []) [] (Suc 10)"

lemma demo_one: "\<exists>m. heap_ok (demo m) [(20, True), (0x3FFFDC, False)]"
proof -
  from boot_one obtain s :: kblocks where s: "heap_ok s [(20, True), (0x3FFFDC, False)]" "KHEAP_BASE_START s = 0xC0800000"
    by blast
  then have "tiled (kmem s) 0xC0800000 (unat (KHEAP_BASE_END s)) [(20, True), (0x3FFFDC, False)]"
    by (simp add: heap_ok_def del: tiled.simps)
  moreover from this have "unat (KHEAP_BASE_END s) = 0xC0C00000" by simp
  ultimately have "heap_ok (demo (kmem s)) [(20, True), (0x3FFFDC, False)]"
    by (simp add: heap_ok_def demo_def del: tiled.simps)
  then show ?thesis by blast
qed

lemma demo_free:
  assumes "heap_ok (demo m) [(20, True), (0x3FFFDC, False)]" "kmem s = m" "KHEAP_BASE_START s = 0xC0800000" "KHEAP_BASE_END s = 0xC0C00000"
  shows "\<exists>m'. free demo_heap 0xC0800008 s = Inr (s\<lparr>kmem := m'\<rparr>)"
proof -
  have ok: "heap_ok s [(20, True), (0x3FFFDC, False)]"
    using assms by (simp add: heap_ok_def demo_def del: tiled.simps)
  from boot_one_client [OF ok assms(3)] kfree_client [of 10 s "0xC0800008"] show ?thesis
    by (simp add: kernel_heap_def) blast
qed

lemma demo_malloc:
  assumes "heap_ok s bs" "length bs \<le> 10" "unat n mod 4 = 0" "spec_alloc (unat n) bs = Some (q, bs')"
  shows "\<exists>m p. malloc demo_heap n s = Inr (p, s\<lparr>kmem := m\<rparr>) \<and> heap_ok (s\<lparr>kmem := m\<rparr>) bs'"
proof -
  have "n mod 4 = 0" using assms(3) by (simp add: word_unat_eq_iff unat_mod)
  then have al: "alignup n 4 = n" by (rule alignup_id)
  from kmalloc_refines [OF assms(1) _ assms(2), of n q bs' "map_memory_d 0 0 0 []" "[]"] assms(4) al show ?thesis
    by (auto simp: kernel_heap_def simp del: kmalloc.simps)
qed

subsection \<open>Threads and mutexes\<close>

theorem add_thread_wakes_witness:
  "\<exists>m s' y. scheduler_add_thread demo_heap 100 7 (demo m) = Inr s' \<and> procs s' 100 = Some y \<and>
     waiting_threads y = (if [(1 :: u32, 8 :: u32)] = [] then [] else [(1, 8)] @ [])"
proof -
  from demo_one obtain m where m: "heap_ok (demo m) [(20, True), (0x3FFFDC, False)]" by blast
  let ?x = "demo_process 0 0 [(1, 8)]"
  let ?s1 = "(demo m)\<lparr>procs := (procs (demo m))(100 \<mapsto> ?x)\<rparr>"
  obtain m1 where m1: "free demo_heap 0xC0800008 ?s1 = Inr (?s1\<lparr>kmem := m1\<rparr>)"
    using demo_free [OF m, of ?s1] by (auto simp: demo_def)
  have th: "thrs (demo m) 7 = Some (demo_thread THREAD_STATUS_ASLEEP_MUTEX)" by (simp add: demo_def)
  have st: "t_status (demo_thread THREAD_STATUS_ASLEEP_MUTEX) = THREAD_STATUS_ASLEEP_MUTEX" by (simp add: demo_thread_def)
  have pr: "procs (demo m) 100 = Some (demo_process 0 0 [(1, 8), (0xC0800008, 7)])" by (simp add: demo_def)
  have ws: "waiting_threads (demo_process 0 0 [(1, 8), (0xC0800008, 7)]) = [(1, 8)] @ (0xC0800008, 7) # []" by (simp add: demo_process_def)
  have up: "(demo_process 0 0 [(1, 8), (0xC0800008, 7)])\<lparr>waiting_threads := [(1, 8)]\<rparr> = ?x" by (simp add: demo_process_def)
  have "\<exists>s'. scheduler_add_thread demo_heap 100 7 (demo m) = Inr s'"
    using m1 th st pr up
    by (simp add: scheduler_add_thread_def thr_def proc_def upd_proc_def ws upd_thr_def activate_thread_def task_status_defs)
      (simp add: demo_process_def task_status_defs)
  then obtain s' where s': "scheduler_add_thread demo_heap 100 7 (demo m) = Inr s'" by blast
  from add_thread_wakes [OF s' th _ _ pr ws] obtain y where "procs s' 100 = Some y"
    "waiting_threads y = (if [(1 :: u32, 8 :: u32)] = [] then [] else [(1, 8)] @ [])"
    by (auto simp: demo_thread_def task_status_defs)
  with s' show ?thesis by blast
qed


theorem mutex_waiter_not_woken_witness:
  "\<exists>m err s'. mutex_unlock demo_heap 300 (demo m) = Inr (err, s') \<and> thrs s' 7 = Some (demo_thread THREAD_STATUS_ASLEEP_MUTEX)"
proof -
  from demo_one obtain m where m: "heap_ok (demo m) [(20, True), (0x3FFFDC, False)]" by blast
  have mx: "mutexes (demo m) 300 = Some \<lparr>mx_owner = 100, mx_waiting = [(0xC0800008, 7, 9)]\<rparr>" by (simp add: demo_def)
  have c: "current_process (demo m) = 100" by (simp add: demo_def)
  let ?s1 = "(demo m)\<lparr>mutexes := (mutexes (demo m))(300 \<mapsto> \<lparr>mx_owner = 0, mx_waiting = []\<rparr>)\<rparr>"
  obtain m1 where m1: "free demo_heap 0xC0800008 ?s1 = Inr (?s1\<lparr>kmem := m1\<rparr>)"
    using demo_free [OF m, of ?s1] by (auto simp: demo_def)
  have t9: "thrs (demo m) 9 = Some (demo_thread THREAD_STATUS_RUNNING)" by (simp add: demo_def)
  have "mutex_unlock demo_heap 300 (demo m) = Inr (ERROR_NONE, ?s1\<lparr>kmem := m1\<rparr>)"
    using mx c m1 t9
    by (simp add: mutex_unlock_def mutex_unlock_wakeup_def mtx_def upd_mtx_def scheduler_add_thread_def thr_def demo_thread_def)
  moreover from this have "thrs (?s1\<lparr>kmem := m1\<rparr>) 7 = Some (demo_thread THREAD_STATUS_ASLEEP_MUTEX)"
    by (rule mutex_waiter_not_woken [OF mx, rotated 4]) (simp_all add: demo_def demo_thread_def)
  ultimately show ?thesis by blast
qed

subsection \<open>Sleepers, groups and signals\<close>

theorem insert_sleeper_drops_list_witness:
  "\<exists>m e s'. insert_sleeper demo_heap (Suc 0) 100 11 30 (demo m) = Inr (e, s') \<and> wait_list s' = e \<and>
     (\<exists>w. wnodes s' e = Some w \<and> w_next w = 0 \<and> w_thread w = 11 \<and> w_time w = ucast (30 :: u16))"
proof -
  from demo_one obtain m where m: "heap_ok (demo m) [(20, True), (0x3FFFDC, False)]" by blast
  have w: "wnodes (demo m) (wait_list (demo m)) = Some \<lparr>w_element = 0, w_process = 100, w_time = 40, w_thread = 11, w_next = 0, w_prev = 0\<rparr>"
    by (simp add: demo_def)
  have wl: "wait_list (demo m) = 0xC0800008" by (simp add: demo_def)
  obtain m1 e where m1: "malloc demo_heap 12 (demo m) = Inr (e, (demo m)\<lparr>kmem := m1\<rparr>)"
    "heap_ok ((demo m)\<lparr>kmem := m1\<rparr>) [(20, True), (12, True), (0x3FFFC8, False)]"
    using demo_malloc [OF m, of 12] by auto
  let ?s1 = "(demo m)\<lparr>kmem := m1, wait_list := e\<rparr>"
  have "heap_ok ?s1 [(20, True), (12, True), (0x3FFFC8, False)]" using m1(2) by (simp add: heap_ok_def del: tiled.simps)
  then obtain m2 el where m2: "malloc demo_heap 12 ?s1 = Inr (el, ?s1\<lparr>kmem := m2\<rparr>)"
    using demo_malloc [of ?s1 _ 12] by fastforce
  have t: "thrs (demo m) 11 = Some (demo_thread THREAD_STATUS_ASLEEP_IRQ)" by (simp add: demo_def)
  have "\<exists>s'. insert_sleeper demo_heap (Suc 0) 100 11 30 (demo m) = Inr (e, s')"
    using w wl m1(1) m2 t by (simp add: insert_sleeper_def wnode_def upd_thr_def thr_def)
  then obtain s' where s': "insert_sleeper demo_heap (Suc 0) 100 11 30 (demo m) = Inr (e, s')" by blast
  from insert_sleeper_drops_list [OF w _ _ _ s'] wl s' show ?thesis by auto
qed

theorem irq_after_timeout_uses_freed_entry_witness:
  "\<exists>m s'. scheduler_sleep_update demo_heap (Suc 0) (demo m) = Inr s' \<and> scheduler_irq_wakeup demo_heap (Suc 0) 1 s' = Inl BadPtr"
proof -
  from demo_one obtain m where m: "heap_ok (demo m) [(20, True), (0x3FFFDC, False)]" by blast
  let ?w = "\<lparr>w_element = 0, w_process = 100, w_time = 40, w_thread = 11, w_next = 0, w_prev = 0\<rparr>"
  have w: "wnodes (demo m) (wait_list (demo m)) = Some ?w" by (simp add: demo_def)
  have mx: "mutexes (demo m) (wait_mutex (demo m)) = Some \<lparr>mx_owner = 0, mx_waiting = []\<rparr>" by (simp add: demo_def)
  have ir: "irq_list (demo m) (unat (1 :: u32)) = (1, 2, 100, wait_list (demo m), 11) # []" by (simp add: demo_def)
  let ?x = "demo_process 11 0 [(1, 8), (0xC0800008, 7)]"
  let ?s1 = "(demo m)\<lparr>mutexes := (mutexes (demo m))(200 \<mapsto> \<lparr>mx_owner = 100, mx_waiting = []\<rparr>), wait_list := 0\<rparr>"
  let ?s2 = "?s1\<lparr>thrs := (thrs (demo m))(11 \<mapsto> demo_thread THREAD_STATUS_RUNNING), procs := (procs (demo m))(100 \<mapsto> ?x)\<rparr>"
  let ?s3 = "?s2\<lparr>wnodes := (wnodes (demo m))(0xC0800008 := None)\<rparr>"
  obtain m1 where m1: "free demo_heap 0xC0800008 ?s3 = Inr (?s3\<lparr>kmem := m1\<rparr>)"
    using demo_free [OF m, of ?s3] by (auto simp: demo_def)
  have p1: "procs (demo m) 100 = Some (demo_process 0 0 [(1, 8), (0xC0800008, 7)])" "thrs (demo m) 11 = Some (demo_thread THREAD_STATUS_ASLEEP_IRQ)"
    by (simp_all add: demo_def)
  have u: "unlink_waiting 11 [(1, 8), (0xC0800008, 7)] = ([(1, 8), (0xC0800008, 7)], [])" by simp
  have add: "scheduler_add_thread demo_heap 100 11 ?s1 = Inr ?s2"
    using p1 by (simp add: scheduler_add_thread_def thr_def proc_def upd_proc_def upd_thr_def activate_thread_def u
        demo_thread_def demo_process_def task_status_defs)
  have exp: "wake_expired demo_heap (Suc 0) 0xC0800008 ?s1 = Inr (?s3\<lparr>kmem := m1\<rparr>)"
    using add m1 w by (simp add: wnode_def demo_def)
  have lock: "mutex_lock 200 (demo m) = Inr (ERROR_NONE, (demo m)\<lparr>mutexes := (mutexes (demo m))(200 \<mapsto> \<lparr>mx_owner = 100, mx_waiting = []\<rparr>)\<rparr>)"
    by (simp add: mutex_lock_def mtx_def upd_mtx_def demo_def)
  have f: "wait_list (demo m) = 0xC0800008" "wait_mutex (demo m) = 200" "current_process (demo m) = 100" by (simp_all add: demo_def)
  have "\<exists>s'. scheduler_sleep_update demo_heap (Suc 0) (demo m) = Inr s'"
    using w lock exp f by (simp add: scheduler_sleep_update_def wnode_def mutex_unlock_def mtx_def upd_mtx_def mutex_unlock_wakeup_def
        del: wake_expired.simps)
  then obtain s' where s': "scheduler_sleep_update demo_heap (Suc 0) (demo m) = Inr s'" by blast
  from irq_after_timeout_uses_freed_entry [OF s' w _ _ mx _ _ ir] f(1) s' show ?thesis by auto
qed

lemma demo_group_table:
  "group_table (demo m) (unat (groups_number (demo m))) (\<lambda>i. \<lparr>gid = 5 + 12 * int i, g_processes = [], g_session = 0\<rparr>)"
proof -
  have "pgroups (demo m) (group_addr (demo m) (of_nat i)) = Some \<lparr>gid = 5 + 12 * int i, g_processes = [], g_session = 0\<rparr>" if "i \<le> 2" for i
  proof -
    have "i = 0 \<or> i = 1 \<or> i = 2" using that by auto
    then show ?thesis by (auto simp: demo_def group_addr_def)
  qed
  then show ?thesis by (simp add: group_table_def) (simp add: demo_def)
qed


theorem get_group_below_faults_witness: "get_group (Suc 3) 4 (demo (\<lambda>_. 0)) = Inl BadPtr"
  by (rule get_group_below_faults [OF demo_group_table]) (simp_all add: demo_def group_addr_def)

theorem send_signal_appends_witness:
  "\<exists>(s :: tasking) s'. send_signal demo_heap (Suc 0) 25 9 s = Inr (Returned s') \<and>
     (\<exists>e element. signal_list s' = signal_list s @ [(e, element, processes_at 25 s, 9)])"
proof -
  from demo_one obtain m where m: "heap_ok (demo m) [(20, True), (0x3FFFDC, False)]" by blast
  define s where "s = (demo m)\<lparr>procs := \<lambda>_. Some (demo_process 7 0 [])\<rparr>"
  have f: "mutexes s (signal_mutex s) = Some \<lparr>mx_owner = 0, mx_waiting = []\<rparr>" "signal_mutex s = 200" "current_process s = 100"
    "procs s (processes_at 25 s) = Some (demo_process 7 0 [])" by (simp_all add: s_def demo_def)
  let ?s0 = "s\<lparr>mutexes := (mutexes s)(200 \<mapsto> \<lparr>mx_owner = 100, mx_waiting = []\<rparr>)\<rparr>"
  have "heap_ok ?s0 [(20, True), (0x3FFFDC, False)]" using m by (simp add: heap_ok_def s_def del: tiled.simps)
  from demo_malloc [OF this, of 8] obtain m1 e where m1: "malloc demo_heap 8 ?s0 = Inr (e, ?s0\<lparr>kmem := m1\<rparr>)"
    "heap_ok (?s0\<lparr>kmem := m1\<rparr>) [(20, True), (8, True), (0x3FFFCC, False)]" by auto
  from demo_malloc [OF m1(2), of 8] obtain m2 el where m2: "malloc demo_heap 8 (?s0\<lparr>kmem := m1\<rparr>) = Inr (el, ?s0\<lparr>kmem := m2\<rparr>)" by fastforce
  have st: "p_status (demo_process 7 0 []) \<noteq> PROCESS_STATUS_ZOMBIE" by (simp add: demo_process_def task_status_defs)
  have "\<exists>s'. send_signal demo_heap (Suc 0) 25 9 s = Inr (Returned s')"
    using f m1(1) m2 st
    by (simp add: send_signal_def proc_def mutex_lock_def mtx_def upd_mtx_def NSIG_def mutex_unlock_def mutex_unlock_wakeup_def)
  then obtain s' where s': "send_signal demo_heap (Suc 0) 25 9 s = Inr (Returned s')" by blast
  have "\<not> (p_status (demo_process 7 0 []) = PROCESS_STATUS_ZOMBIE \<or> (9 :: int) \<le> 0 \<or> NSIG \<le> 9)" using st by (simp add: NSIG_def)
  with send_signal_appends [OF s' f(4,1)] s' show ?thesis by (intro exI [of _ s] exI [of _ s']) simp
qed

subsection \<open>Scheduling\<close>

text \<open>Two queues in one memory: the ready queue at 0x1000 with one process, an empty queue of threads at 0x3000.\<close>

definition two_queues :: mem where
  "two_queues = store32 (store32 (store32 (store32 (ready_queue_mem 1) 0x2000 100) 0x3000 0x4000) 0x3004 0x3FF0) 0x3008 3"

lemma two_queues_at:
  "queue_at two_queues 0x1000 [100]" "queue_at two_queues 0x3000 []"
  "queue_bytes two_queues 0x1000 \<inter> queue_bytes two_queues 0x3000 = {}"
proof -
  have f: "q_front two_queues 0x1000 = 0x2000" "q_rear two_queues 0x1000 = 0x2000" "q_size two_queues 0x1000 = 10"
    "load32 two_queues 0x2000 = 100" "q_front two_queues 0x3000 = 0x4000" "q_rear two_queues 0x3000 = 0x3FF0" "q_size two_queues 0x3000 = 3"
    by (simp_all add: two_queues_def ready_queue_mem_def q_front_def q_rear_def q_size_def load32_store32_apart)
  show "queue_at two_queues 0x1000 [100]" "queue_at two_queues 0x3000 []" using f by (simp_all add: queue_at_def)
  show "queue_bytes two_queues 0x1000 \<inter> queue_bytes two_queues 0x3000 = {}" using f by (auto simp: queue_bytes_def)
qed


end
