(* ===== verification/VK_ConsoleDemo.thy ===== *)
theory VK_ConsoleDemo
  imports VK_ConsoleProps VK_TaskDemo
begin

section \<open>The properties of the console on concrete states\<close>

text \<open>
  The machine of \<open>VK_TaskDemo\<close> with a colour screen at its usual address, one terminal in canonical mode and its keyboard stream, which
  holds two characters. The memory holds an escape sequence and its literal.
\<close>

definition demo_tty :: tty where
  "demo_tty = \<lparr>tty_buffer = 0x5000, tty_count = 0, tty_buffer_size = 1024, canon_buffer = 0x3000, canon_buffer_count = 0,
     canon_buffer_size = 256, char_width = 80, char_height = 25, cursor_pos = 0, keyboard_stream = 500, tty_pointer = 0,
     termio = \<lparr>c_iflag = 2, c_oflag = 0, c_cflag = 0, c_lflag = 2, c_cc = (\<lambda>_. 0)\<rparr>, foreground_processes = 0, tty_session = 0\<rparr>"

definition demo_stream :: iostream where
  "demo_stream = \<lparr>io_buffer = 0x2000, io_count = 2, io_buffer_size = 100, io_attributes = 5, io_file = 0, io_waiting = []\<rparr>"

definition demo_mem :: mem where
  "demo_mem = (\<lambda>_. 0)(0x2000 := 97, 0x2001 := 10, 0x6000 := 0x1B, 0x6001 := 0x5B, 0x7000 := 0x1B, 0x7001 := 0x5B, 0x7002 := 53, 0x7003 := 59)"

definition cdemo :: "u8 \<Rightarrow> console" where
  "cdemo y = vga.extend
     (tasking.extend (demo demo_mem) (vga.fields VIDEO_MODE_VGA_TEXT VIDEO_TYPE_COLOR 0xC00B8000 0xC00B8FA0 3 y 200 [] (\<lambda>_. 0x6000)))
     (console.fields [500 \<mapsto> demo_stream] [600 \<mapsto> demo_tty] Map.empty Map.empty Map.empty 0 600 0 0 600 False False False 0)"

abbreviation console_heap :: "console heap_ops" where
  "console_heap \<equiv> kernel_heap (map_memory_d 0 0 0 []) [] (Suc 10)"

lemmas cdemo_defs = cdemo_def tasking.extend_def vga.extend_def vga.fields_def console.fields_def demo_def

lemma cdemo_simps [simp]:
  "kmem (cdemo y) = demo_mem" "VGA_MEM_START (cdemo y) = 0xC00B8000" "VGA_MEM_END (cdemo y) = 0xC00B8FA0"
  "VIDEO_TYPE (cdemo y) = VIDEO_TYPE_COLOR" "VIDEO_MODE (cdemo y) = VIDEO_MODE_VGA_TEXT" "TEXT_CURSOR_X (cdemo y) = 3" "TEXT_CURSOR_Y (cdemo y) = y"
  "mutexes (cdemo y) (screen_mutex (cdemo y)) = Some \<lparr>mx_owner = 0, mx_waiting = []\<rparr>"
  "streams (cdemo y) 500 = Some demo_stream" "ttys (cdemo y) 600 = Some demo_tty" "lit (cdemo y) l = 0x6000"
  "procs (cdemo y) (current_process (cdemo y)) = Some (demo_process 0 0 [(1, 8), (0xC0800008, 7)])"
  by (simp_all add: cdemo_defs)

lemma cdemo_screen:
  assumes "y < 25"
  shows "screen_ok (cdemo y)" "screen_free (cdemo y)" "displays (cdemo y) (grid_of demo_mem 0xC00B8000, 3, unat y)"
  using assms by (simp_all add: screen_ok_def screen_free_def displays_def vga_consts)

theorem vga_text_putc_refines_witness:
  "\<exists>s'. vga_text_putc console_heap (Suc 0) 65 7 (cdemo 24) = Inr (Returned s') \<and>
    displays s' (spec_scroll (spec_char True 65 7 (grid_of demo_mem 0xC00B8000, 3, unat (24 :: u8)))) \<and>
    off_screen 0xC00B8000 demo_mem (kmem s') \<and> screen_ok s' \<and> screen_free s'"
  using vga_text_putc_refines [OF cdemo_screen, of 24 console_heap 0 65 7] by simp

theorem vga_text_puts_prints_witness:
  "\<exists>s'. vga_text_puts console_heap 5 0x7000 7 (cdemo 24) = Inr (Returned s') \<and>
    displays s' (spec_puts True 7 [0x1B, 0x5B, 53, 59] (grid_of demo_mem 0xC00B8000, 3, unat (24 :: u8))) \<and>
    off_screen 0xC00B8000 demo_mem (kmem s') \<and> screen_ok s' \<and> screen_free s'"
proof -
  have "cstr (kmem (cdemo 24)) 0x7000 [0x1B, 0x5B, 53, 59]" by (simp add: demo_mem_def)
  moreover have "clear_of_screen (VGA_MEM_START (cdemo 24)) 0x7000 (length [0x1B :: u8, 0x5B, 53, 59] + 1)" by (simp add: clear_of_screen_def)
  ultimately show ?thesis using vga_text_puts_prints [OF _ _ _ cdemo_screen, of 24 "0x7000" "[0x1B, 0x5B, 53, 59]" 5 console_heap 7] by simp
qed

theorem nl_then_putc_leaves_page_witness:
  "\<exists>s'. vga_text_putc console_heap (Suc 0) 91 12 (vga_text_nl (cdemo 24)) = Inr (Returned s') \<and> kmem s' 0xC00B8FA0 = 91"
  using nl_then_putc_leaves_page [OF cdemo_screen(1, 2), of 24 91 console_heap 0 12] by simp

lemma cdemo_stream: "stream_at 0x100 (cdemo y) 500 [97, 10]" "stream_cap (cdemo y) 500 = 100"
  by (simp_all add: stream_at_def stream_cap_def demo_stream_def region_def bytes_at_Cons demo_mem_def)


theorem iostream_read_one_byte_only_witness:
  "iostream_read console_heap (Suc 0) 0x100 2 500 (cdemo 0) = Inr (Ret ERROR_FILE_FS_INTERNAL (cdemo 0))"
  using iostream_read_one_byte_only [of "cdemo 0" 500 demo_stream 2 console_heap 0 "0x100"] by (simp del: iostream_read.simps)

lemma cdemo_tty:
  "canon_tty (cdemo y) 600 500 []" "canon_room (cdemo y) 600 = 256" "p_group (demo_process 0 0 [(1, 8), (0xC0800008, 7)]) = foreground_processes demo_tty"
  "c_lflag (termio demo_tty) AND ICANON \<noteq> 0"
proof -
  have "region 0x3000 256 \<inter> region 0x2000 100 = {}" by (auto simp: region_def)
  then show "canon_tty (cdemo y) 600 500 []" by (simp add: canon_tty_def demo_tty_def demo_stream_def)
qed (simp_all add: canon_room_def demo_tty_def demo_process_def ICANON_def)

theorem tty_read_returns_line_witness:
  "\<exists>s'. tty_read console_heap (Suc 0) 0x8000 5 600 (cdemo 0) = Inr (Ret ERROR_NONE s') \<and>
    bytes_at (kmem s') 0x8000 ([97, 10] @ replicate (unat (5 :: u32) - 2 * length [97 :: u8, 10]) 0) \<and> stream_at 0x100 s' 500 [] \<and> canon_tty s' 600 500 []"
proof -
  have st: "stream_at 0x100 (cdemo 0) 500 ([97, 10] @ [])" using cdemo_stream by simp
  have tk: "taken (unat (5 :: u32)) [97, 10]" by (simp add: taken_def)
  have d: "region 0x8000 (unat (5 :: u32)) \<inter> region (io_buffer demo_stream) (unat (io_buffer_size demo_stream)) = {}"
    "region 0x8000 (unat (5 :: u32)) \<inter> region (canon_buffer demo_tty) (unat (canon_buffer_size demo_tty)) = {}"
    by (auto simp: region_def demo_stream_def demo_tty_def)
  show ?thesis
    by (rule tty_read_returns_line [OF cdemo_simps(12, 10) cdemo_tty(3, 4) tk st cdemo_tty(1) _ _ _ cdemo_simps(9) d]) (simp_all add: cdemo_tty(2))
qed

theorem tty_read_one_wipes_memory_witness:
  "\<exists>s'. tty_read console_heap (Suc 0) 0x8000 1 600 (cdemo 0) = Inr (Ret ERROR_NONE s') \<and> kmem s' = (\<lambda>_. 0)(0x8000 := 97)"
proof -
  have st: "stream_at 0x100 (cdemo 0) 500 (97 # [10])" using cdemo_stream by simp
  show ?thesis
    by (rule tty_read_one_wipes_memory [OF cdemo_simps(12, 10) cdemo_tty(3, 4) st cdemo_tty(1)]) (simp_all add: cdemo_tty(2) demo_tty_def)
qed

theorem csi_two_numbers_printed_witness:
  "tty_write console_heap (Suc 3) 0x7000 6 600 (cdemo 0) = tty_write console_heap 3 (0x7000 + 3) (6 - 3) 600 (cdemo 0)"
  by (rule csi_two_numbers_printed [OF cdemo_simps(12, 10) cdemo_tty(3), where d = 53 and ds' = "[]"])
    (simp_all add: bytes_at_Cons demo_mem_def isdigit_def)

end
