(* ===== verification/VK_Storage.thy ===== *)
theory VK_Storage
  imports VK_Tty VK_Sched VK_Kvm
begin

section \<open>Ports, the interrupt controller and the PCI bus (internal/), block devices\<close>

text \<open>
  The storage state extends the console with the hardware behind the ports and with the records of the PCI
  and block devices. What the hardware answers is a parameter: a record of port operations on a hardware state.
\<close>

subsection \<open>State\<close>

record 'hw ports =
  p_inb :: "u16 \<Rightarrow> 'hw \<Rightarrow> u8 \<times> 'hw"
  p_outb :: "u16 \<Rightarrow> u8 \<Rightarrow> 'hw \<Rightarrow> 'hw"
  p_inw :: "u16 \<Rightarrow> 'hw \<Rightarrow> u16 \<times> 'hw"
  p_outw :: "u16 \<Rightarrow> u16 \<Rightarrow> 'hw \<Rightarrow> 'hw"
  p_inl :: "u16 \<Rightarrow> 'hw \<Rightarrow> u32 \<times> 'hw"
  p_outl :: "u16 \<Rightarrow> u32 \<Rightarrow> 'hw \<Rightarrow> 'hw"

record pci_device =
  pci_next :: u32
  pci_base_port :: u32
  pci_interrupt :: u32
  vendor_id :: u16
  device_id :: u16
  pci_bus :: u8
  pci_dev :: u8
  pci_function :: u8
  class_id :: u8
  subclass_id :: u8
  interface_id :: u8
  pci_revision :: u8

record partition_descriptor =
  start_lba :: u32
  pd_length :: u32
  pd_bootable :: u8
  system_id :: u8

record block_device =
  bd_struct :: u32
  device_size :: u32
  bd_partitions :: "u32 list"
  bd_type :: u8
  device_class :: u8
  partition_count :: u8

record ata_device =
  controller :: u32
  prdt_phys :: u32
  prdt_virt :: u32
  base_port :: u16
  control_port :: u16
  bar4 :: u16
  sectors_per_block :: u16
  ata_irq :: u8
  ata_flags :: u8
  ata_mutex :: u32

record 'hw storage = console +
  hw :: 'hw
  pci_devs :: "u32 \<Rightarrow> pci_device option"
  pci_first :: u32
  pci_last :: u32
  pci_devices_count :: u8
  block_devs :: "u32 \<Rightarrow> block_device option"
  part_descs :: "u32 \<Rightarrow> partition_descriptor option"
  ata_devs :: "u32 \<Rightarrow> ata_device option"
  block_devices :: u32
  block_device_count :: u16

definition ATA_DEVICE :: u8 where "ATA_DEVICE = 1"
definition HARD_DISK_DRIVE :: u8 where "HARD_DISK_DRIVE = 1"
definition CD_DRIVE :: u8 where "CD_DRIVE = 2"

definition ERROR_DISK_UNREACHABLE :: u32 where "ERROR_DISK_UNREACHABLE = 2"
definition ERROR_DISK_OUT :: u32 where "ERROR_DISK_OUT = 3"
definition ERROR_DISK_BUSY :: u32 where "ERROR_DISK_BUSY = 4"
definition ERROR_DISK_INTERNAL :: u32 where "ERROR_DISK_INTERNAL = 5"

lemmas disk_errors = ERROR_DISK_UNREACHABLE_def ERROR_DISK_OUT_def ERROR_DISK_BUSY_def ERROR_DISK_INTERNAL_def

subsection \<open>Port accesses\<close>

definition port_inb :: "'hw ports \<Rightarrow> u16 \<Rightarrow> ('hw, 'a) storage_scheme \<Rightarrow> u8 \<times> ('hw, 'a) storage_scheme" where
  "port_inb io port s = (let (v, x) = p_inb io port (hw s) in (v, s\<lparr>hw := x\<rparr>))"

definition port_inw :: "'hw ports \<Rightarrow> u16 \<Rightarrow> ('hw, 'a) storage_scheme \<Rightarrow> u16 \<times> ('hw, 'a) storage_scheme" where
  "port_inw io port s = (let (v, x) = p_inw io port (hw s) in (v, s\<lparr>hw := x\<rparr>))"

definition port_inl :: "'hw ports \<Rightarrow> u16 \<Rightarrow> ('hw, 'a) storage_scheme \<Rightarrow> u32 \<times> ('hw, 'a) storage_scheme" where
  "port_inl io port s = (let (v, x) = p_inl io port (hw s) in (v, s\<lparr>hw := x\<rparr>))"

definition port_outb :: "'hw ports \<Rightarrow> u16 \<Rightarrow> u8 \<Rightarrow> ('hw, 'a) storage_scheme \<Rightarrow> ('hw, 'a) storage_scheme" where
  "port_outb io port v s = s\<lparr>hw := p_outb io port v (hw s)\<rparr>"

definition port_outw :: "'hw ports \<Rightarrow> u16 \<Rightarrow> u16 \<Rightarrow> ('hw, 'a) storage_scheme \<Rightarrow> ('hw, 'a) storage_scheme" where
  "port_outw io port v s = s\<lparr>hw := p_outw io port v (hw s)\<rparr>"

definition port_outl :: "'hw ports \<Rightarrow> u16 \<Rightarrow> u32 \<Rightarrow> ('hw, 'a) storage_scheme \<Rightarrow> ('hw, 'a) storage_scheme" where
  "port_outl io port v s = s\<lparr>hw := p_outl io port v (hw s)\<rparr>"

fun port_outbs :: "'hw ports \<Rightarrow> (u16 \<times> u8) list \<Rightarrow> ('hw, 'a) storage_scheme \<Rightarrow> ('hw, 'a) storage_scheme" where
  "port_outbs io [] s = s"
| "port_outbs io ((port, v) # xs) s = port_outbs io xs (port_outb io port v s)"

lemmas port_defs = port_inb_def port_inw_def port_inl_def port_outb_def port_outw_def port_outl_def

text \<open>What the operations below are given: the heap, the ports, the address of the buffer of \<^verbatim>\<open>kprintf\<close>,
  the clock's registers, and the address of the local arrays of the operation on the kernel stack.\<close>

record ('hw, 's) kenv =
  kh :: "'s heap_ops"
  kio :: "'hw ports"
  kbuf :: u32
  kreg :: "u8 \<Rightarrow> u8"
  kloc :: u32

type_synonym ('hw, 'a) st = "('hw, 'a) storage_scheme"
type_synonym ('hw, 'a) env = "('hw, ('hw, 'a) storage_scheme) kenv"

definition kp :: "('hw, 'a) env \<Rightarrow> nat \<Rightarrow> string \<Rightarrow> u32 list \<Rightarrow> ('hw, 'a) st \<Rightarrow> ('hw, 'a) st ctl res" where
  "kp K f msg args s = kprintf (kh K) f (kbuf K) (lit s msg) args s"

subsection \<open>The interrupt controller (internal/pic.c)\<close>

definition pic_install :: "('hw, 'a) storage_scheme heap_ops \<Rightarrow> 'hw ports \<Rightarrow> nat \<Rightarrow> u32 \<Rightarrow> ('hw, 'a) storage_scheme \<Rightarrow> ('hw, 'a) storage_scheme ctl res" where
  "pic_install h io f buf s =
     bindC (kprintf h f buf (lit s ''Installing PIC...'') [] s) (\<lambda>s.
     vga_text_okmsg h f (port_outbs io
       [(0x20, 0x11), (0xA0, 0x11), (0x21, 0x20), (0xA1, 0x28), (0x21, 0x04), (0xA1, 0x02), (0x21, 0x01), (0xA1, 0x01)] s))"

subsection \<open>The PCI bus (internal/pci.c)\<close>

definition PCI_DATA_PORT :: u16 where "PCI_DATA_PORT = 0xCFC"
definition PCI_COMMAND_PORT :: u16 where "PCI_COMMAND_PORT = 0xCF8"

definition pci_id :: "u8 \<Rightarrow> u8 \<Rightarrow> u8 \<Rightarrow> u32 \<Rightarrow> u32" where
  "pci_id bus dev fn reg = 0x80000000 OR push_bit 16 (ucast bus) OR push_bit 11 (ucast (dev AND 0x1F))
     OR push_bit 8 (ucast (fn AND 0x07)) OR (reg AND 0xFC)"

definition select_pci :: "'hw ports \<Rightarrow> u8 \<Rightarrow> u8 \<Rightarrow> u8 \<Rightarrow> u32 \<Rightarrow> ('hw, 'a) storage_scheme \<Rightarrow> ('hw, 'a) storage_scheme res" where
  "select_pci io bus dev fn reg s =
     (if 32 < dev \<or> 8 < fn then Inl (Fatal ''Trying to select invalid PCI address'')
      else Inr (port_outl io PCI_COMMAND_PORT (pci_id bus dev fn reg) s))"

definition pci_read :: "'hw ports \<Rightarrow> u8 \<Rightarrow> u8 \<Rightarrow> u8 \<Rightarrow> u32 \<Rightarrow> ('hw, 'a) storage_scheme \<Rightarrow> (u32 \<times> ('hw, 'a) storage_scheme) res" where
  "pci_read io bus dev fn reg s =
     bindR (select_pci io bus dev fn reg s) (\<lambda>s.
     let (result, s) = port_inl io PCI_DATA_PORT s in Inr (drop_bit (8 * unat (reg mod 4)) result, s))"

definition pci_write :: "'hw ports \<Rightarrow> u8 \<Rightarrow> u8 \<Rightarrow> u8 \<Rightarrow> u32 \<Rightarrow> u32 \<Rightarrow> ('hw, 'a) storage_scheme \<Rightarrow> ('hw, 'a) storage_scheme res" where
  "pci_write io bus dev fn reg v s =
     bindR (select_pci io bus dev fn reg s) (\<lambda>s. Inr (port_outl io PCI_DATA_PORT v s))"

definition pci_read_device :: "'hw ports \<Rightarrow> u32 \<Rightarrow> u32 \<Rightarrow> ('hw, 'a) storage_scheme \<Rightarrow> (u32 \<times> ('hw, 'a) storage_scheme) res" where
  "pci_read_device io dev reg s =
     bindR (the_obj (pci_devs s dev)) (\<lambda>d. pci_read io (pci_bus d) (pci_dev d) (pci_function d) reg s)"

definition pci_write_device :: "'hw ports \<Rightarrow> u32 \<Rightarrow> u32 \<Rightarrow> u32 \<Rightarrow> ('hw, 'a) storage_scheme \<Rightarrow> ('hw, 'a) storage_scheme res" where
  "pci_write_device io dev reg v s =
     bindR (the_obj (pci_devs s dev)) (\<lambda>d. pci_write io (pci_bus d) (pci_dev d) (pci_function d) reg v s)"

text \<open>The result of the test is a \<^verbatim>\<open>bool\<close>, an 8-bit integer, so that bit 7 of the word survives.\<close>

definition pci_has_functions :: "'hw ports \<Rightarrow> u8 \<Rightarrow> u8 \<Rightarrow> ('hw, 'a) storage_scheme \<Rightarrow> (bool \<times> ('hw, 'a) storage_scheme) res" where
  "pci_has_functions io bus dev s =
     bindR (pci_read io bus dev 0 0x0E s) (\<lambda>(v, s). Inr ((ucast (v AND 0x80) :: u8) \<noteq> 0, s))"

text \<open>The fields of a device that \<^verbatim>\<open>get_device_desc\<close> does not write keep their contents.\<close>

definition get_device_desc :: "'hw ports \<Rightarrow> u8 \<Rightarrow> u8 \<Rightarrow> u8 \<Rightarrow> u32 \<Rightarrow> ('hw, 'a) storage_scheme \<Rightarrow> ('hw, 'a) storage_scheme res" where
  "get_device_desc io bus dev fn tr s =
     bindR (the_obj (pci_devs s tr)) (\<lambda>d.
     bindR (pci_read io bus dev fn 0x00 s) (\<lambda>(vendor, s).
     let d = d\<lparr>pci_bus := bus, pci_dev := dev, pci_function := fn, vendor_id := ucast vendor\<rparr> in
     if vendor_id d = 0xFFFF then Inr (s\<lparr>pci_devs := (pci_devs s)(tr \<mapsto> d)\<rparr>)
     else
       bindR (pci_read io bus dev fn 0x02 s) (\<lambda>(did, s).
       bindR (pci_read io bus dev fn 0x0B s) (\<lambda>(cls, s).
       bindR (pci_read io bus dev fn 0x0A s) (\<lambda>(sub, s).
       bindR (pci_read io bus dev fn 0x09 s) (\<lambda>(itf, s).
       bindR (pci_read io bus dev fn 0x08 s) (\<lambda>(rev, s).
       bindR (pci_read io bus dev fn 0x3C s) (\<lambda>(irq, s).
       Inr (s\<lparr>pci_devs := (pci_devs s)(tr \<mapsto> d\<lparr>device_id := ucast did, class_id := ucast cls, subclass_id := ucast sub,
         interface_id := ucast itf, pci_revision := ucast rev, pci_interrupt := irq\<rparr>)\<rparr>)))))))))"

text \<open>A device record in fresh memory holds what the memory held: 24 bytes.\<close>

definition new_pci_device :: "('hw, 'a) storage_scheme heap_ops \<Rightarrow> ('hw, 'a) storage_scheme \<Rightarrow> (u32 \<times> ('hw, 'a) storage_scheme) res" where
  "new_pci_device h s =
     bindR (malloc h 24 s) (\<lambda>(p, s).
     let m = kmem s in
     Inr (p, s\<lparr>pci_devs := (pci_devs s)(p \<mapsto> \<lparr>pci_next = load32 m p, pci_base_port = load32 m (p + 4), pci_interrupt = load32 m (p + 8),
       vendor_id = load16 m (p + 12), device_id = load16 m (p + 14), pci_bus = m (p + 16), pci_dev = m (p + 17),
       pci_function = m (p + 18), class_id = m (p + 19), subclass_id = m (p + 20), interface_id = m (p + 21),
       pci_revision = m (p + 22)\<rparr>)\<rparr>))"

text \<open>
  The loops over the devices of a bus and the functions of a device; \<open>n\<close> devices and \<open>k\<close> functions are left.
  The fuel bounds the depth of the bridges.
\<close>

definition pci_bridge :: "(u32 \<Rightarrow> ('hw, 'a) storage_scheme \<Rightarrow> ('hw, 'a) storage_scheme res) \<Rightarrow> 'hw ports \<Rightarrow> u32 \<Rightarrow> u32 \<Rightarrow> u32
    \<Rightarrow> ('hw, 'a) storage_scheme \<Rightarrow> ('hw, 'a) storage_scheme res" where
  "pci_bridge check io bus dev fn s =
     bindR (the_obj (pci_devs s (pci_last s))) (\<lambda>d.
     if class_id d = 0x06 \<and> subclass_id d = 0x04 then
       bindR (pci_read io (ucast bus) (ucast dev) (ucast fn) 0x19 s) (\<lambda>(v, s). check (ucast (ucast v :: u8)) s)
     else Inr s)"

definition pci_check_function :: "('hw, 'a) storage_scheme heap_ops \<Rightarrow> (u32 \<Rightarrow> ('hw, 'a) storage_scheme \<Rightarrow> ('hw, 'a) storage_scheme res)
    \<Rightarrow> 'hw ports \<Rightarrow> u32 \<Rightarrow> u32 \<Rightarrow> u32 \<Rightarrow> ('hw, 'a) storage_scheme \<Rightarrow> ('hw, 'a) storage_scheme res" where
  "pci_check_function h check io bus dev fn s =
     bindR (if pci_first s = 0 then bindR (new_pci_device h s) (\<lambda>(p, s). Inr (s\<lparr>pci_first := p, pci_last := p\<rparr>)) else Inr s) (\<lambda>s.
     bindR (get_device_desc io (ucast bus) (ucast dev) (ucast fn) (pci_last s) s) (\<lambda>s.
     bindR (the_obj (pci_devs s (pci_last s))) (\<lambda>d.
     if vendor_id d = 0xFFFF then Inr s
     else
       bindR (pci_bridge check io bus dev fn s) (\<lambda>s.
       bindR (new_pci_device h (s\<lparr>pci_devices_count := pci_devices_count s + 1\<rparr>)) (\<lambda>(p, s).
       bindR (the_obj (pci_devs s (pci_last s))) (\<lambda>d.
       Inr (s\<lparr>pci_devs := (pci_devs s)(pci_last s \<mapsto> d\<lparr>pci_next := p\<rparr>), pci_last := p\<rparr>)))))))"

fun pci_check_functions :: "('hw, 'a) storage_scheme heap_ops \<Rightarrow> (u32 \<Rightarrow> ('hw, 'a) storage_scheme \<Rightarrow> ('hw, 'a) storage_scheme res)
    \<Rightarrow> 'hw ports \<Rightarrow> u32 \<Rightarrow> u32 \<Rightarrow> u32 \<Rightarrow> nat \<Rightarrow> ('hw, 'a) storage_scheme \<Rightarrow> ('hw, 'a) storage_scheme res" where
  "pci_check_functions h check io bus dev fn 0 s = Inr s"
| "pci_check_functions h check io bus dev fn (Suc k) s =
     bindR (pci_check_function h check io bus dev fn s) (pci_check_functions h check io bus dev (fn + 1) k)"

fun pci_check_devices :: "('hw, 'a) storage_scheme heap_ops \<Rightarrow> (u32 \<Rightarrow> ('hw, 'a) storage_scheme \<Rightarrow> ('hw, 'a) storage_scheme res)
    \<Rightarrow> 'hw ports \<Rightarrow> u32 \<Rightarrow> u32 \<Rightarrow> nat \<Rightarrow> ('hw, 'a) storage_scheme \<Rightarrow> ('hw, 'a) storage_scheme res" where
  "pci_check_devices h check io bus dev 0 s = Inr s"
| "pci_check_devices h check io bus dev (Suc n) s =
     bindR (pci_has_functions io (ucast bus) (ucast dev) s) (\<lambda>(several, s).
     bindR (pci_check_functions h check io bus dev 0 (if several then 8 else 1) s) (pci_check_devices h check io bus (dev + 1) n))"

fun pci_check_bus :: "('hw, 'a) storage_scheme heap_ops \<Rightarrow> nat \<Rightarrow> 'hw ports \<Rightarrow> u32 \<Rightarrow> ('hw, 'a) storage_scheme \<Rightarrow> ('hw, 'a) storage_scheme res" where
  "pci_check_bus h 0 io bus s = Inl NoFuel"
| "pci_check_bus h (Suc f) io bus s = pci_check_devices h (pci_check_bus h f io) io bus 0 32 s"

definition pci_install :: "('hw, 'a) storage_scheme heap_ops \<Rightarrow> 'hw ports \<Rightarrow> nat \<Rightarrow> u32 \<Rightarrow> ('hw, 'a) storage_scheme \<Rightarrow> ('hw, 'a) storage_scheme ctl res" where
  "pci_install h io f buf s =
     bindC (kprintf h f buf (lit s ''Installing PCI devices...'') [] s) (\<lambda>s.
     bindR (pci_check_bus h f io 0 s) (\<lambda>s.
     bindR (free h (pci_last s) (s\<lparr>pci_devs := (pci_devs s)(pci_last s := None)\<rparr>)) (\<lambda>s.
     vga_text_okmsg h f s)))"

end
