(* ===== verification/VK_Ata.thy ===== *)
theory VK_Ata
  imports VK_Storage
begin

section \<open>The ATA driver (storage/ata/) and block devices (storage/block\_devices.c)\<close>

text \<open>
  Every command is the sequence of port accesses of the source. The polling driver (PIO) transfers words through the
  data port; the DMA driver starts a transfer and sleeps until the disk's interrupt, so its calls end
  with a switch, and what they do after the interrupt is a definition of its own.
\<close>

definition ATA_FLAG_MASTER :: u8 where "ATA_FLAG_MASTER = 1"
definition ATA_FLAG_LBA48 :: u8 where "ATA_FLAG_LBA48 = 2"
definition ATA_FLAG_ATAPI :: u8 where "ATA_FLAG_ATAPI = 4"
definition BYTES_PER_SECTOR :: nat where "BYTES_PER_SECTOR = 512"
definition ATAPI_SECTOR_SIZE :: nat where "ATAPI_SECTOR_SIZE = 2048"

lemmas ata_consts = ATA_FLAG_MASTER_def ATA_FLAG_LBA48_def ATA_FLAG_ATAPI_def BYTES_PER_SECTOR_def ATAPI_SECTOR_SIZE_def

definition ATA_CMD_PIO_READ_MULTIPLE_28 :: u8 where "ATA_CMD_PIO_READ_MULTIPLE_28 = 0xC4"
definition ATA_CMD_PIO_READ_MULTIPLE_48 :: u8 where "ATA_CMD_PIO_READ_MULTIPLE_48 = 0x29"
definition ATA_CMD_DMA_READ_28 :: u8 where "ATA_CMD_DMA_READ_28 = 0xC8"
definition ATA_CMD_DMA_READ_48 :: u8 where "ATA_CMD_DMA_READ_48 = 0x25"
definition ATA_CMD_PIO_WRITE_MULTIPLE_28 :: u8 where "ATA_CMD_PIO_WRITE_MULTIPLE_28 = 0x30"
definition ATA_CMD_PIO_WRITE_MULTIPLE_48 :: u8 where "ATA_CMD_PIO_WRITE_MULTIPLE_48 = 0x34"
definition ATA_CMD_DMA_WRITE_28 :: u8 where "ATA_CMD_DMA_WRITE_28 = 0xCA"
definition ATA_CMD_DMA_WRITE_48 :: u8 where "ATA_CMD_DMA_WRITE_48 = 0x35"

definition flag_set :: "u8 \<Rightarrow> u8 \<Rightarrow> bool" where
  "flag_set flags flag \<longleftrightarrow> flags AND flag \<noteq> 0"

subsection \<open>Commands (ata\_common.c)\<close>

definition ata_io_wait :: "'hw ports \<Rightarrow> ata_device \<Rightarrow> ('hw, 'a) storage_scheme \<Rightarrow> ('hw, 'a) storage_scheme" where
  "ata_io_wait io d s =
     snd (port_inb io (control_port d) (snd (port_inb io (control_port d)
       (snd (port_inb io (control_port d) (snd (port_inb io (control_port d) s)))))))"

definition ata_cmd_28 :: "'hw ports \<Rightarrow> u32 \<Rightarrow> u32 \<Rightarrow> u8 \<Rightarrow> ata_device \<Rightarrow> ('hw, 'a) storage_scheme \<Rightarrow> ('hw, 'a) storage_scheme" where
  "ata_cmd_28 io sector scount cmd d s =
     (let b = base_port d;
          s = port_outb io (b + 6) ((if flag_set (ata_flags d) ATA_FLAG_MASTER then 0xE0 else 0xF0) OR ucast (drop_bit 24 (sector AND 0x0F000000))) s;
          s = ata_io_wait io d s
      in port_outbs io [(b + 1, 0), (b + 2, ucast scount), (b + 3, ucast (sector AND 0xFF)),
           (b + 4, ucast (drop_bit 8 (sector AND 0xFF00))), (b + 5, ucast (drop_bit 16 (sector AND 0xFF0000))), (b + 7, cmd)] s)"

definition ata_cmd_48 :: "'hw ports \<Rightarrow> u64 \<Rightarrow> u32 \<Rightarrow> u8 \<Rightarrow> ata_device \<Rightarrow> ('hw, 'a) storage_scheme \<Rightarrow> ('hw, 'a) storage_scheme" where
  "ata_cmd_48 io sector scount cmd d s =
     (let b = base_port d;
          addr = (\<lambda>i. ucast (drop_bit (8 * i) sector) :: u8);
          s = port_outb io (b + 6) (if flag_set (ata_flags d) ATA_FLAG_MASTER then 0x40 else 0x50) s;
          s = ata_io_wait io d s
      in port_outbs io [(b + 2, 0), (b + 3, addr 3), (b + 4, addr 4), (b + 5, addr 5),
           (b + 2, ucast scount), (b + 3, addr 0), (b + 4, addr 1), (b + 5, addr 2), (b + 7, cmd)] s)"

text \<open>The choice between the two that every transfer makes.\<close>

definition ata_cmd :: "'hw ports \<Rightarrow> u64 \<Rightarrow> u32 \<Rightarrow> u8 \<Rightarrow> u8 \<Rightarrow> ata_device \<Rightarrow> ('hw, 'a) storage_scheme \<Rightarrow> u32 \<times> ('hw, 'a) storage_scheme" where
  "ata_cmd io sector scount cmd28 cmd48 d s =
     (if U32_MAX < sector then
        if \<not> flag_set (ata_flags d) ATA_FLAG_LBA48 then (ERROR_DISK_OUT, s)
        else if sector AND 0xFFFF000000000000 \<noteq> 0 then (ERROR_DISK_OUT, s)
        else (ERROR_NONE, ata_cmd_48 io sector scount cmd48 d s)
      else if sector AND 0xF0000000 \<noteq> 0 then (ERROR_DISK_OUT, s)
      else (ERROR_NONE, ata_cmd_28 io (ucast sector) scount cmd28 d s))"

subsection \<open>Polling transfers (ata\_pio.c)\<close>

definition busy :: "u8 \<Rightarrow> bool" where
  "busy status \<longleftrightarrow> status AND 0x80 = 0x80 \<and> status AND 0x8 \<noteq> 0x8 \<and> status AND 0x01 \<noteq> 0x01 \<and> status AND 0x20 \<noteq> 0x20"

text \<open>\<open>n\<close> is what is left of the \<^verbatim>\<open>0xFFFFF\<close> attempts.\<close>

fun poll_loop :: "'hw ports \<Rightarrow> u16 \<Rightarrow> nat \<Rightarrow> u8 \<Rightarrow> ('hw, 'a) storage_scheme \<Rightarrow> nat \<times> u8 \<times> ('hw, 'a) storage_scheme" where
  "poll_loop io port n status s =
     (if busy status \<and> n \<noteq> 0 then let (status, s) = port_inb io port s in poll_loop io port (n - 1) status s
      else (n, status, s))"

declare poll_loop.simps [simp del]

definition ata_pio_poll_status :: "'hw ports \<Rightarrow> ata_device \<Rightarrow> ('hw, 'a) storage_scheme \<Rightarrow> u32 \<times> ('hw, 'a) storage_scheme" where
  "ata_pio_poll_status io d s =
     (let (status, s) = port_inb io (base_port d + 7) s;
          (left, status, s) = poll_loop io (base_port d + 7) 0xFFFFF status s in
      (if status AND 0x20 \<noteq> 0 then ERROR_DISK_UNREACHABLE
       else if left = 0 then ERROR_DISK_BUSY
       else if status AND 0x1 \<noteq> 0 then ERROR_DISK_UNREACHABLE
       else ERROR_NONE, s))"

text \<open>\<^verbatim>\<open>count / BYTES_PER_SECTOR\<close>, rounded up, without the offset.\<close>

definition sector_count :: "u64 \<Rightarrow> u32" where
  "sector_count count = (let n = ucast (count div 512) in if count mod 512 \<noteq> 0 then n + 1 else n)"

text \<open>
  The loop over the words of a read: skip those before the offset, store the bytes of the others, and poll the
  status after every two sectors.
\<close>

definition store_word :: "u32 \<Rightarrow> u32 \<Rightarrow> u32 \<Rightarrow> u64 \<Rightarrow> u16 \<Rightarrow> mem \<Rightarrow> mem" where
  "store_word i offset data count w m =
     (let m = (if offset \<le> i then m(data + (i - offset) := ucast w) else m)
      in if ucast (i + 1) < count + ucast offset then m(data + (i + 1 - offset) := ucast (drop_bit 8 w)) else m)"

fun pio_read_loop :: "'hw ports \<Rightarrow> nat \<Rightarrow> u32 \<Rightarrow> u32 \<Rightarrow> u32 \<Rightarrow> u64 \<Rightarrow> ata_device \<Rightarrow> u32 \<Rightarrow> ('hw, 'a) storage_scheme
    \<Rightarrow> (u32 \<times> u32 \<times> ('hw, 'a) storage_scheme) res" where
  "pio_read_loop io 0 i offset data count d data_read s = Inl NoFuel"
| "pio_read_loop io (Suc f) i offset data count d data_read s =
     (if ucast i < count + ucast offset then
        let (w, s) = port_inw io (base_port d) s;
            s = (if i + 1 < offset then s else s\<lparr>kmem := store_word i offset data count w (kmem s)\<rparr>);
            data_read = data_read + 2;
            (status, s) = (if data_read mod (512 * 2) = 0 then ata_pio_poll_status io d s else (ERROR_NONE, s))
        in if status \<noteq> ERROR_NONE then Inr (status, data_read, s)
           else pio_read_loop io f (i + 2) offset data count d data_read s
      else Inr (ERROR_NONE, data_read, s))"

text \<open>The rest of the last sector is read and dropped.\<close>

fun pio_drain :: "'hw ports \<Rightarrow> nat \<Rightarrow> ata_device \<Rightarrow> u32 \<Rightarrow> ('hw, 'a) storage_scheme \<Rightarrow> ('hw, 'a) storage_scheme res" where
  "pio_drain io 0 d data_read s = Inl NoFuel"
| "pio_drain io (Suc f) d data_read s =
     (if data_read mod 512 \<noteq> 0 then pio_drain io f d (data_read + 2) (snd (port_inw io (base_port d) s)) else Inr s)"

definition ata_pio_read_flexible :: "'hw ports \<Rightarrow> nat \<Rightarrow> u64 \<Rightarrow> u32 \<Rightarrow> u32 \<Rightarrow> u64 \<Rightarrow> u32 \<Rightarrow> ('hw, 'a) storage_scheme
    \<Rightarrow> (u32 \<times> ('hw, 'a) storage_scheme) res" where
  "ata_pio_read_flexible io f sector offset data count drive s =
     (if count = 0 then Inr (ERROR_NONE, s)
      else if 255 < sector_count count then Inr (ERROR_DISK_INTERNAL, s)
      else
        bindR (the_obj (ata_devs s drive)) (\<lambda>d.
        let (err, s) = ata_cmd io sector (sector_count count) ATA_CMD_PIO_READ_MULTIPLE_28 ATA_CMD_PIO_READ_MULTIPLE_48 d s in
        if err \<noteq> ERROR_NONE then Inr (err, s)
        else
          let (status, s) = ata_pio_poll_status io d s in
          if status \<noteq> ERROR_NONE then Inr (status, s)
          else
            bindR (pio_read_loop io f 0 offset data count d 0 s) (\<lambda>(status, data_read, s).
            if status \<noteq> ERROR_NONE then Inr (status, s)
            else bindR (pio_drain io f d data_read s) (\<lambda>s. Inr (ERROR_NONE, s)))))"

text \<open>
  Writing: the first and the last sector are read into buffers when the write does not cover them
  (\<^verbatim>\<open>last_sector\<close> counts bytes as sectors); the words come from the first buffer before the offset, then from the
  data, and are filled up to full sectors from one of the buffers.
\<close>

definition pio_cache_sector :: "('hw, 'a) storage_scheme heap_ops \<Rightarrow> 'hw ports \<Rightarrow> nat \<Rightarrow> bool \<Rightarrow> u64 \<Rightarrow> u32 \<Rightarrow> ('hw, 'a) storage_scheme
    \<Rightarrow> (u32 \<times> ('hw, 'a) storage_scheme) res" where
  "pio_cache_sector h io f needed sector drive s =
     (if needed then
        bindR (malloc h 512 s) (\<lambda>(p, s).
        bindR (ata_pio_read_flexible io f sector 0 p 512 drive s) (\<lambda>(err, s). Inr (p, s)))
      else Inr (0, s))"

definition word_of :: "u8 \<Rightarrow> u8 \<Rightarrow> u16" where
  "word_of lo hi = ucast lo OR push_bit 8 (ucast hi)"

definition write_word :: "u64 \<Rightarrow> u32 \<Rightarrow> u32 \<Rightarrow> u64 \<Rightarrow> u32 \<Rightarrow> mem \<Rightarrow> u16" where
  "write_word i offset data count cached_f m =
     (let j = ucast i :: u32 in
      if i + 1 < ucast offset then word_of (m (cached_f + j)) (m (cached_f + j + 1))
      else
        word_of (if ucast offset \<le> i then m (data + (j - offset)) else m (cached_f + j))
          (if i + 1 < count + ucast offset then m (data + (j + 1 - offset)) else 0))"

fun pio_write_loop :: "'hw ports \<Rightarrow> nat \<Rightarrow> u64 \<Rightarrow> u32 \<Rightarrow> u32 \<Rightarrow> u64 \<Rightarrow> u32 \<Rightarrow> ata_device \<Rightarrow> ('hw, 'a) storage_scheme
    \<Rightarrow> ('hw, 'a) storage_scheme res" where
  "pio_write_loop io 0 i offset data count cached_f d s = Inl NoFuel"
| "pio_write_loop io (Suc f) i offset data count cached_f d s =
     (if i < count + ucast offset then
        pio_write_loop io f (i + 2) offset data count cached_f d
          (port_outw io (base_port d) (write_word i offset data count cached_f (kmem s)) s)
      else Inr s)"

fun pio_fill_loop :: "'hw ports \<Rightarrow> nat \<Rightarrow> u64 \<Rightarrow> u64 \<Rightarrow> u32 \<Rightarrow> ata_device \<Rightarrow> ('hw, 'a) storage_scheme \<Rightarrow> ('hw, 'a) storage_scheme res" where
  "pio_fill_loop io 0 i lim cache d s = Inl NoFuel"
| "pio_fill_loop io (Suc f) i lim cache d s =
     (if i < lim then
        pio_fill_loop io f (i + 2) lim cache d
          (port_outw io (base_port d) (word_of (kmem s (cache + ucast i)) (kmem s (cache + ucast i + 1))) s)
      else Inr s)"

definition ata_pio_write_flexible :: "('hw, 'a) storage_scheme heap_ops \<Rightarrow> 'hw ports \<Rightarrow> nat \<Rightarrow> u64 \<Rightarrow> u32 \<Rightarrow> u32 \<Rightarrow> u64 \<Rightarrow> u32
    \<Rightarrow> ('hw, 'a) storage_scheme \<Rightarrow> (u32 \<times> ('hw, 'a) storage_scheme) res" where
  "ata_pio_write_flexible h io f sector offset data count drive s =
     (let scount = sector_count count;
          last_sector = sector + (count div 512) * 512;
          cut = (last_sector \<noteq> sector \<and> count mod 512 \<noteq> 0) in
      bindR (pio_cache_sector h io f ((ucast offset OR count mod 512) \<noteq> 0) sector drive s) (\<lambda>(cached_f, s).
      bindR (pio_cache_sector h io f cut last_sector drive s) (\<lambda>(cached_l, s).
      bindR (the_obj (ata_devs s drive)) (\<lambda>d.
      let (err, s) = ata_cmd io sector scount ATA_CMD_PIO_WRITE_MULTIPLE_28 ATA_CMD_PIO_WRITE_MULTIPLE_48 d s in
      if err \<noteq> ERROR_NONE then Inr (err, s)
      else
        bindR (pio_write_loop io f 0 offset data count cached_f d s) (\<lambda>s.
        let total = count + ucast offset in
        bindR (pio_fill_loop io f (total + total mod 2) (ucast (512 * scount))
          (if last_sector = sector then cached_f else cached_l) d s) (\<lambda>s.
        bindR (if offset \<noteq> 0 then free h cached_f s else Inr s) (\<lambda>s.
        bindR (if cut then free h cached_l s else Inr s) (\<lambda>s.
        Inr (ata_pio_poll_status io d (port_outb io (base_port d + 7) 0xE7 s))))))))))"

text \<open>The partition table: 16-byte entries from byte 446 of the first sector on.\<close>

definition mbr_partition :: "u32 \<Rightarrow> nat \<Rightarrow> u32" where
  "mbr_partition mbr i = mbr + 446 + 16 * of_nat i"

fun read_partitions :: "('hw, 'a) st heap_ops \<Rightarrow> u32 \<Rightarrow> u32 \<Rightarrow> nat \<Rightarrow> nat \<Rightarrow> ('hw, 'a) st \<Rightarrow> ('hw, 'a) st res" where
  "read_partitions h drive mbr i 0 s = Inr s"
| "read_partitions h drive mbr i (Suc n) s =
     bindR (malloc h 12 s) (\<lambda>(p, s).
     bindR (the_obj (block_devs s drive)) (\<lambda>b.
     let m = kmem s;
         e = mbr_partition mbr i;
         b = b\<lparr>bd_partitions := (bd_partitions b)[i := p]\<rparr>;
         s = (if m (e + 4) \<noteq> 0 then
                s\<lparr>part_descs := (part_descs s)(p \<mapsto> \<lparr>start_lba = load32 m (e + 8), pd_length = load32 m (e + 12),
                    pd_bootable = m e, system_id = m (e + 4)\<rparr>),
                  block_devs := (block_devs s)(drive \<mapsto> b\<lparr>partition_count := partition_count b + 1\<rparr>)\<rparr>
              else
                s\<lparr>part_descs := (part_descs s)(p \<mapsto> \<lparr>start_lba = load32 m p, pd_length = load32 m (p + 4),
                    pd_bootable = m (p + 8), system_id = 0\<rparr>),
                  block_devs := (block_devs s)(drive \<mapsto> b)\<rparr>)
     in read_partitions h drive mbr (Suc i) n s))"

definition ata_read_partitions :: "('hw, 'a) env \<Rightarrow> nat \<Rightarrow> u32 \<Rightarrow> ('hw, 'a) st \<Rightarrow> ('hw, 'a) st res" where
  "ata_read_partitions K f drive s =
     bindR (the_obj (block_devs s drive)) (\<lambda>b.
     if bd_type b \<noteq> ATA_DEVICE then Inr s
     else
       let s = s\<lparr>block_devs := (block_devs s)(drive \<mapsto> b\<lparr>bd_partitions := [0, 0, 0, 0]\<rparr>)\<rparr> in
       bindR (malloc (kh K) 512 s) (\<lambda>(mbr, s).
       bindR (ata_pio_read_flexible (kio K) f 0 0 mbr 512 (bd_struct b) s) (\<lambda>(err, s).
       if err \<noteq> ERROR_NONE \<or> load16 (kmem s) (mbr + 510) \<noteq> 0xAA55 then free (kh K) mbr s
       else bindR (read_partitions (kh K) drive mbr 0 4 s) (free (kh K) mbr))))"

subsection \<open>DMA transfers (ata\_dma.c, atapi.c)\<close>

fun port_outws :: "'hw ports \<Rightarrow> u16 \<Rightarrow> u16 list \<Rightarrow> ('hw, 'a) st \<Rightarrow> ('hw, 'a) st" where
  "port_outws io port [] s = s"
| "port_outws io port (w # ws) s = port_outws io port ws (port_outw io port w s)"

text \<open>\<^verbatim>\<open>outb(port, inb(port) op ...)\<close>\<close>

definition port_modify :: "'hw ports \<Rightarrow> u16 \<Rightarrow> (u8 \<Rightarrow> u8) \<Rightarrow> ('hw, 'a) st \<Rightarrow> ('hw, 'a) st" where
  "port_modify io port g s = (let (v, s) = port_inb io port s in port_outb io port (g v) s)"

definition atapi_cmd_dma_read_28 :: "'hw ports \<Rightarrow> u32 \<Rightarrow> u32 \<Rightarrow> ata_device \<Rightarrow> ('hw, 'a) st \<Rightarrow> u32 \<times> ('hw, 'a) st" where
  "atapi_cmd_dma_read_28 io sector scount d s =
     (let b = base_port d;
          s = port_outb io (b + 6) (if flag_set (ata_flags d) ATA_FLAG_MASTER then 0xA0 else 0xB0) s;
          s = ata_io_wait io d s;
          s = port_outbs io [(b + 1, 1), (b + 4, 0), (b + 5, 0), (b + 7, 0xA0)] s;
          (status, s) = ata_pio_poll_status io d s in
      if status \<noteq> ERROR_NONE then (status, s)
      else
        let byte = (\<lambda>i. ucast (drop_bit i sector) :: u8) in
        (ERROR_NONE, port_outws io b [word_of 0xA8 0, word_of (byte 24 AND 0x0F) (byte 16), word_of (byte 8) (byte 0),
           word_of 0 0, word_of 0 (ucast scount), word_of 0 0] s))"

definition sectors_of :: "u32 \<Rightarrow> u32 \<Rightarrow> u32" where
  "sectors_of count bps = (if count mod bps \<noteq> 0 then count div bps + 1 else count div bps)"

definition dma_unlock :: "('hw, 'a) env \<Rightarrow> ata_device \<Rightarrow> u32 \<Rightarrow> ('hw, 'a) st \<Rightarrow> (u32, ('hw, 'a) st) call res" where
  "dma_unlock K d err s = bindR (mutex_unlock (kh K) (ata_mutex d) s) (\<lambda>(_, s). Inr (Ret err s))"

text \<open>After the interrupt: stop the controller, copy the data out of the transfer area, release the drive, judge the status.\<close>

definition ata_dma_read_end :: "('hw, 'a) env \<Rightarrow> nat \<Rightarrow> u32 \<Rightarrow> u32 \<Rightarrow> u32 \<Rightarrow> ata_device \<Rightarrow> ('hw, 'a) st \<Rightarrow> (u32, ('hw, 'a) st) call res" where
  "ata_dma_read_end K f offset data count d s =
     (let io = kio K;
          s = port_modify io (bar4 d) (\<lambda>v. v AND NOT 1) s;
          (end_status, s) = port_inb io (bar4 d + 2) s;
          (end_disk_status, s) = port_inb io (base_port d + 7) s;
          s = s\<lparr>kmem := memcpy (kmem s) data (prdt_virt d + 8 + offset) (unat count)\<rparr> in
      bindV (dma_unlock K d ERROR_NONE s) (\<lambda>_ s.
      let reset = (\<lambda>s. Inr (Ret ERROR_DISK_INTERNAL (port_outb io (control_port d) 0x4 s))) in
      if end_status AND 5 = 0 then
        after (kp K f (''%lATA_DMA_READ : status = 0x%X'' @ newline) [3, ucast end_status] s) reset
      else if end_status AND 2 \<noteq> 0 then
        bindR (pci_read_device io (controller d) 0x06 s) (\<lambda>(pci_status, s).
        after (kp K f (''%lATA_DMA_READ: ends, status = 0x%X, pci status = 0x%X'' @ newline) [3, ucast end_status, pci_status] s) reset)
      else if end_disk_status AND 1 \<noteq> 0 then reset s
      else Inr (Ret ERROR_NONE s)))"

text \<open>The start of a transfer, then the sleep until the drive's interrupt, for five seconds at most.\<close>

definition dma_wait :: "('hw, 'a) env \<Rightarrow> nat \<Rightarrow> ata_device \<Rightarrow> ('hw, 'a) st \<Rightarrow> ('hw, 'a) st ctl res" where
  "dma_wait K f d s =
     (let s = port_modify (kio K) (bar4 d) (\<lambda>v. v OR 1) s in
      bindR (proc (current_process s) s) (\<lambda>p.
      scheduler_wait_thread (kh K) f (current_process s) (active_thread p) SLEEP_WAIT_IRQ (ucast (ata_irq d)) 5000 s))"

definition ata_dma_read_flexible :: "('hw, 'a) env \<Rightarrow> nat \<Rightarrow> u64 \<Rightarrow> u32 \<Rightarrow> u32 \<Rightarrow> u32 \<Rightarrow> u32 \<Rightarrow> ('hw, 'a) st \<Rightarrow> (u32, ('hw, 'a) st) call res" where
  "ata_dma_read_flexible K f sector offset data count drive s =
     (if count = 0 then Inr (Ret ERROR_NONE s)
      else
        bindR (the_obj (ata_devs s drive)) (\<lambda>d.
        bindR (mutex_lock (ata_mutex d) s) (\<lambda>(err, s).
        if err \<noteq> ERROR_NONE then Inr (Ret ERROR_MUTEX_ALREADY_LOCKED s)
        else
          let io = kio K;
              atapi = flag_set (ata_flags d) ATA_FLAG_ATAPI;
              scount = sectors_of count (if atapi then 2048 else 512) in
          if 127 < scount \<or> 31 < scount \<and> atapi then dma_unlock K d ERROR_DISK_INTERNAL s
          else
            let s = port_modify io (bar4 d) (\<lambda>v. v OR 8) s;
                s = port_modify io (bar4 d + 2) (\<lambda>v. v OR 0x04 OR 0x02) s;
                (err, s) =
                  (if atapi then
                     if sector AND 0xF0000000 \<noteq> 0 then (ERROR_DISK_OUT, s)
                     else let (err, s) = atapi_cmd_dma_read_28 io (ucast sector) scount d s
                       in (if err \<noteq> ERROR_NONE then ERROR_DISK_BUSY else ERROR_NONE, s)
                   else ata_cmd io sector scount ATA_CMD_DMA_READ_28 ATA_CMD_DMA_READ_48 d s) in
            if err \<noteq> ERROR_NONE then dma_unlock K d err s
            else after (dma_wait K f d s) (ata_dma_read_end K f offset data count d))))"

definition ata_dma_write_end :: "('hw, 'a) env \<Rightarrow> ata_device \<Rightarrow> ('hw, 'a) st \<Rightarrow> (u32, ('hw, 'a) st) call res" where
  "ata_dma_write_end K d s =
     (let io = kio K;
          s = port_modify io (bar4 d) (\<lambda>v. v AND NOT 1) s;
          (end_status, s) = port_inb io (bar4 d + 2) s;
          (end_disk_status, s) = port_inb io (base_port d + 7) s in
      dma_unlock K d (if end_status AND 5 = 0 \<or> end_status AND 2 \<noteq> 0 \<or> end_disk_status AND 1 \<noteq> 0 then ERROR_DISK_INTERNAL else ERROR_NONE) s)"

text \<open>The buffers of the first and last sector are filled, never used and never freed; filling one also releases the drive's mutex.\<close>

definition dma_cache_sector :: "('hw, 'a) env \<Rightarrow> nat \<Rightarrow> bool \<Rightarrow> u64 \<Rightarrow> u32 \<Rightarrow> ('hw, 'a) st \<Rightarrow> (u32, ('hw, 'a) st) call res" where
  "dma_cache_sector K f needed sector drive s =
     (if needed then
        bindR (malloc (kh K) 512 s) (\<lambda>(p, s).
        bindV (ata_dma_read_flexible K f sector 0 p 512 drive s) (\<lambda>_ s. Inr (Ret p s)))
      else Inr (Ret 0 s))"

definition ata_dma_write_flexible :: "('hw, 'a) env \<Rightarrow> nat \<Rightarrow> u64 \<Rightarrow> u32 \<Rightarrow> u32 \<Rightarrow> u32 \<Rightarrow> u32 \<Rightarrow> ('hw, 'a) st \<Rightarrow> (u32, ('hw, 'a) st) call res" where
  "ata_dma_write_flexible K f sector offset data count drive s =
     (if count = 0 then Inr (Ret ERROR_NONE s)
      else
        bindR (the_obj (ata_devs s drive)) (\<lambda>d.
        bindR (mutex_lock (ata_mutex d) s) (\<lambda>(err, s).
        if err \<noteq> ERROR_NONE then Inr (Ret ERROR_MUTEX_ALREADY_LOCKED s)
        else
          let io = kio K;
              scount = sectors_of count 512;
              last_sector = sector + ucast ((count div 512) * 512) in
          bindV (dma_cache_sector K f ((offset OR count mod 512) \<noteq> 0) sector drive s) (\<lambda>cached_f s.
          bindV (dma_cache_sector K f (last_sector \<noteq> sector \<and> count mod 512 \<noteq> 0) last_sector drive s) (\<lambda>cached_l s.
          let s = s\<lparr>kmem := memcpy (kmem s) (prdt_virt d + 8 + offset) data (unat count)\<rparr>;
              s = port_modify io (bar4 d) (\<lambda>v. v AND NOT 8) s;
              s = port_outb io (bar4 d + 2) (0x04 OR 0x02) s;
              (err, s) = ata_cmd io sector scount ATA_CMD_DMA_WRITE_28 ATA_CMD_DMA_WRITE_48 d s in
          if err \<noteq> ERROR_NONE then dma_unlock K d err s
          else after (dma_wait K f d s) (ata_dma_write_end K d))))))"

subsection \<open>Requests of any length (ata\_common.c)\<close>

text \<open>A request that failed is tried again, twice; the last chunk of a polling read is tried again with another length.\<close>

definition tried_again :: "('s \<Rightarrow> (u32, 's) call res) \<Rightarrow> ('s \<Rightarrow> (u32, 's) call res) \<Rightarrow> 's \<Rightarrow> (u32, 's) call res" where
  "tried_again first again s =
     bindV (first s) (\<lambda>err s. if err = ERROR_NONE then Inr (Ret err s)
     else bindV (again s) (\<lambda>err s. if err = ERROR_NONE then Inr (Ret err s) else again s))"

definition plain :: "(u32 \<times> 's) res \<Rightarrow> (u32, 's) call res" where
  "plain r = bindR r (\<lambda>(err, s). Inr (Ret err s))"

lemma plain_simps [simp, res_simps]: "plain (Inl e) = Inl e" "plain (Inr (err, s)) = Inr (Ret err s)"
  by (simp_all add: plain_def)

text \<open>
  The loop over the chunks of \<open>n\<close> sectors of \<open>bps\<close> bytes: \<open>op\<close> gets the sector to add, the offset, the bytes to add to the
  data pointer and the length. An error ends it. The result has what is left for the last request.
\<close>

fun chunk_loop :: "nat \<Rightarrow> u32 \<Rightarrow> u32 \<Rightarrow> (u32 \<Rightarrow> u32 \<Rightarrow> u32 \<Rightarrow> u32 \<Rightarrow> 's \<Rightarrow> (u32, 's) call res) \<Rightarrow> u64 \<Rightarrow> u32 \<Rightarrow> u32 \<Rightarrow> u32 \<Rightarrow> 's
    \<Rightarrow> (u32 \<times> u64 \<times> u32 \<times> u32 \<times> u32, 's) call res" where
  "chunk_loop 0 n bps op count a sc offset s = Inl NoFuel"
| "chunk_loop (Suc f) n bps op count a sc offset s =
     (if ucast (n * bps) < count then
        bindV (op sc offset a (n * bps) s) (\<lambda>err s.
        if err \<noteq> ERROR_NONE then Inr (Ret (err, count, a, sc, offset) s)
        else chunk_loop f n bps op (count - ucast (n * bps)) (a + n * bps) (sc + n) 0 s)
      else Inr (Ret (ERROR_NONE, count, a, sc, offset) s))"

definition chunked :: "nat \<Rightarrow> u32 \<Rightarrow> u32 \<Rightarrow> (u32 \<Rightarrow> u32 \<Rightarrow> u32 \<Rightarrow> u32 \<Rightarrow> 's \<Rightarrow> (u32, 's) call res)
    \<Rightarrow> (u32 \<Rightarrow> u32 \<Rightarrow> u32 \<Rightarrow> u64 \<Rightarrow> 's \<Rightarrow> (u32, 's) call res) \<Rightarrow> u64 \<Rightarrow> u32 \<Rightarrow> 's \<Rightarrow> (u32, 's) call res" where
  "chunked f n bps op fin count offset s =
     bindV (chunk_loop f n bps op count 0 0 offset s) (\<lambda>(err, count, a, sc, offset) s.
     if err \<noteq> ERROR_NONE then Inr (Ret err s) else fin sc offset a count s)"

definition ata_read_flexible :: "('hw, 'a) env \<Rightarrow> nat \<Rightarrow> u64 \<Rightarrow> u32 \<Rightarrow> u32 \<Rightarrow> u64 \<Rightarrow> u32 \<Rightarrow> ('hw, 'a) st \<Rightarrow> (u32, ('hw, 'a) st) call res" where
  "ata_read_flexible K f sector offset data count drive s =
     bindR (the_obj (ata_devs s drive)) (\<lambda>d.
     let dma = (\<lambda>sector sc offset a count. ata_dma_read_flexible K f (ucast (ucast sector + sc :: u32)) offset (data + a) count drive);
         pio = (\<lambda>sector sc offset a count s. plain (ata_pio_read_flexible (kio K) f (sector + ucast sc) offset (data + a) count drive s)) in
     if flag_set (ata_flags d) ATA_FLAG_ATAPI then
       let sector = sector + ucast (offset div 2048) in
       chunked f 31 2048 (\<lambda>sc offset a n. tried_again (dma sector sc offset a n) (dma sector sc offset a n))
         (\<lambda>sc offset a count. tried_again (dma sector sc offset a (ucast count)) (dma sector sc offset a (31 * 2048)))
         count (offset mod 2048) s
     else
       let sector = sector + ucast (offset div 512) in
       if \<not> scheduler_started s \<or> count \<le> 1024 then
         chunked f 255 512 (\<lambda>sc offset a n. tried_again (pio sector sc offset a (ucast n)) (pio sector sc offset a (ucast n)))
           (\<lambda>sc offset a count. tried_again (pio sector sc offset a count) (pio sector sc offset a (255 * 512)))
           count (offset mod 512) s
       else
         chunked f 127 512 (\<lambda>sc offset a n. tried_again (dma sector sc offset a n) (dma sector sc offset a n))
           (\<lambda>sc offset a count. tried_again (dma sector sc offset a (ucast count)) (dma sector sc offset a (ucast count)))
           count (offset mod 512) s)"

text \<open>\<^verbatim>\<open>while(offset>BYTES_PER_SECTOR) {offset-=BYTES_PER_SECTOR; sector++;}\<close>\<close>

function split_offset :: "u64 \<Rightarrow> u32 \<Rightarrow> u64 \<times> u32" where
  "split_offset sector offset = (if 512 < offset then split_offset (sector + 1) (offset - 512) else (sector, offset))"
  by pat_completeness auto
termination
proof (relation "measure (\<lambda>(sector, offset). unat (offset :: u32))", goal_cases)
  case (2 sector offset)
  then have "unat (offset - 512) = unat offset - 512" "512 < unat offset"
    by (auto simp: unat_sub word_less_nat_alt word_le_nat_alt)
  then show ?case by simp
qed simp

declare split_offset.simps [simp del]

definition ata_write_flexible :: "('hw, 'a) env \<Rightarrow> nat \<Rightarrow> u64 \<Rightarrow> u32 \<Rightarrow> u32 \<Rightarrow> u64 \<Rightarrow> u32 \<Rightarrow> ('hw, 'a) st \<Rightarrow> (u32, ('hw, 'a) st) call res" where
  "ata_write_flexible K f sector offset data count drive s =
     bindR (the_obj (ata_devs s drive)) (\<lambda>d.
     if flag_set (ata_flags d) ATA_FLAG_ATAPI then Inr (Ret ERROR_DISK_INTERNAL s)
     else
       let (sector, offset) = split_offset sector offset;
           pio = (\<lambda>sc offset a count s. plain (ata_pio_write_flexible (kh K) (kio K) f (sector + ucast sc) offset (data + a) count drive s));
           dma = (\<lambda>sc offset a count. ata_dma_write_flexible K f (ucast (ucast sector + sc :: u32)) offset (data + a) count drive) in
       if \<not> scheduler_started s then chunked f 255 512 (\<lambda>sc offset a n. pio sc offset a (ucast n)) pio count offset s
       else chunked f 127 512 dma (\<lambda>sc offset a count. dma sc offset a (ucast count)) count offset s)"

subsection \<open>Identification (ata\_common.c)\<close>

fun read_words :: "'hw ports \<Rightarrow> u16 \<Rightarrow> nat \<Rightarrow> ('hw, 'a) st \<Rightarrow> u16 list \<times> ('hw, 'a) st" where
  "read_words io port 0 s = ([], s)"
| "read_words io port (Suc n) s =
     (let (w, s) = port_inw io port s; (ws, s) = read_words io port n s in (w # ws, s))"

text \<open>
  The fields of \<^verbatim>\<open>ata_identify_data_t\<close> in the 256 words, at the places the compiler gives them: the structure is not
  packed, so that \<^verbatim>\<open>command_set_active0\<close> is aligned and the fields from there on to \<^verbatim>\<open>max_48bit_lba\<close> are one word late.
\<close>

definition id_maximum_block_transfer :: "u16 list \<Rightarrow> u8" where "id_maximum_block_transfer idw = ucast (idw ! 47)"
definition id_capabilities :: "u16 list \<Rightarrow> u32" where "id_capabilities idw = ucast (idw ! 48) OR push_bit 16 (ucast (idw ! 49))"
definition id_user_adressable_sectors :: "u16 list \<Rightarrow> u32" where
  "id_user_adressable_sectors idw = ucast (idw ! 60) OR push_bit 16 (ucast (idw ! 61))"
definition id_multiword_dma_support :: "u16 list \<Rightarrow> u8" where "id_multiword_dma_support idw = ucast (idw ! 63)"
definition id_multiword_dma_active :: "u16 list \<Rightarrow> u8" where "id_multiword_dma_active idw = ucast (drop_bit 8 (idw ! 63))"
definition id_ultra_dma_support :: "u16 list \<Rightarrow> u8" where "id_ultra_dma_support idw = ucast (idw ! 89)"
definition id_ultra_dma_active :: "u16 list \<Rightarrow> u8" where "id_ultra_dma_active idw = ucast (drop_bit 8 (idw ! 89))"
definition id_user_adressable_sectors_ext :: "u16 list \<Rightarrow> u64" where
  "id_user_adressable_sectors_ext idw = ucast (idw ! 230) OR push_bit 16 (ucast (idw ! 231)) OR push_bit 32 (ucast (idw ! 232))
     OR push_bit 48 (ucast (idw ! 233))"

definition ata_set_mode :: "'hw ports \<Rightarrow> bool \<Rightarrow> u8 \<Rightarrow> ata_device \<Rightarrow> ('hw, 'a) st \<Rightarrow> u32 \<times> ('hw, 'a) st" where
  "ata_set_mode io master mode d s =
     (let b = base_port d;
          s = ata_io_wait io d (port_outb io (b + 6) (if master then 0xA0 else 0xB0) s);
          s = port_outbs io [(b + 3, 0), (b + 4, 0), (b + 5, 0), (b + 2, mode), (b + 1, 0x3), (b + 7, 0xEF)] s
      in ata_pio_poll_status io d s)"

text \<open>The detection up to the answer of the IDENTIFY command: is there a drive, and is it a packet device?\<close>

definition ata_detect :: "('hw, 'a) env \<Rightarrow> nat \<Rightarrow> bool \<Rightarrow> ata_device \<Rightarrow> ('hw, 'a) st \<Rightarrow> (bool option, ('hw, 'a) st) call res" where
  "ata_detect K f master d s =
     (let io = kio K; b = base_port d;
          s = port_outb io (b + 6) 0xA0 s;
          (status, s) = port_inb io (b + 7) s in
      if status = 0xFF then Inr (Ret None s)
      else
        let s = ata_io_wait io d (port_outb io (b + 6) (if master then 0xA0 else 0xB0) s);
            s = port_outbs io [(control_port d, 0), (b + 2, 0), (b + 3, 0), (b + 4, 0), (b + 5, 0), (b + 7, 0xEC)] s;
            (status, s) = port_inb io (b + 7) s in
        if status = 0 then Inr (Ret None s)
        else
          let (err, s) = ata_pio_poll_status io d s in
          if err = ERROR_NONE then Inr (Ret (Some False) s)
          else
            let s = ata_io_wait io d s;
                (t0, s) = port_inb io (b + 4) s;
                (t1, s) = port_inb io (b + 5) s;
                s = ata_io_wait io d s in
            if t0 = 0x14 \<and> t1 = 0xEB then
              let (err, s) = ata_pio_poll_status io d (port_outb io (b + 7) 0xA1 (ata_io_wait io d s)) in
              if err \<noteq> ERROR_NONE then
                after (kp K f (''%lATAPI BUSY = %u ; adding drive anyway.'' @ newline) [3, err] s) (\<lambda>s. Inr (Ret (Some True) s))
              else Inr (Ret (Some True) s)
            else Inr (Ret None s))"

text \<open>The transfer modes; the numbers of the messages are the ones the drive supports and uses.\<close>

definition ata_modes :: "('hw, 'a) env \<Rightarrow> nat \<Rightarrow> bool \<Rightarrow> u16 list \<Rightarrow> ata_device \<Rightarrow> ('hw, 'a) st \<Rightarrow> ('hw, 'a) st ctl res" where
  "ata_modes K f master idw d s =
     (let mw = id_multiword_dma_support idw; mwa = id_multiword_dma_active idw;
          ud = id_ultra_dma_support idw; uda = id_ultra_dma_active idw in
      bindC (if mwa < mw then
               bindC (kp K f (''%lMultiword DMA : supported = %u, active = %u'' @ newline) [3, ucast mw, ucast mwa] s) (\<lambda>s.
               let (err, s) = ata_set_mode (kio K) master (0b100000 OR mw) d s in
               if err \<noteq> ERROR_NONE then kp K f (''%lError on setting Multiword DMA mode...'' @ newline) [2] s else Inr (Returned s))
             else Inr (Returned s)) (\<lambda>s.
      if uda < ud \<and> 2 \<le> ud \<and> uda < 2 then
        bindC (kp K f (''%lUDMA : supported = %u, active = %u'' @ newline) [3, ucast ud, ucast uda] s) (\<lambda>s.
        let (err, s) = ata_set_mode (kio K) master (0b1000000 OR 2) d s in
        if err \<noteq> ERROR_NONE then kp K f (''%lError on setting UDMA mode...'' @ newline) [2] s else Inr (Returned s))
      else Inr (Returned s)))"

definition upd_ata :: "u32 \<Rightarrow> (ata_device \<Rightarrow> ata_device) \<Rightarrow> ('hw, 'a) st \<Rightarrow> ('hw, 'a) st res" where
  "upd_ata a g s = bindR (the_obj (ata_devs s a)) (\<lambda>d. Inr (s\<lparr>ata_devs := (ata_devs s)(a \<mapsto> g d)\<rparr>))"

text \<open>The controller, its transfer area and the drive's mutex.\<close>

definition ata_setup_dma :: "('hw, 'a) env \<Rightarrow> nat \<Rightarrow> u32 \<Rightarrow> ata_device \<Rightarrow> ('hw, 'a) st \<Rightarrow> ('hw, 'a) st res" where
  "ata_setup_dma K f drive d s =
     (let io = kio K in
      bindR (pci_read_device io (controller d) 0x04 s) (\<lambda>(v, s).
      bindR (pci_write_device io (controller d) 0x04 (v OR 7) s) (\<lambda>s.
      bindR (pci_write_device io (controller d) 0x48 0xF s) (\<lambda>s.
      bindR (reserve_block (malloc (kh K)) f 65535 PHYS_KERNEL_BLOCK_TYPE s) (\<lambda>(ph, s).
      bindR (kvm_reserve_block (malloc (kh K)) f 65535 s) (\<lambda>(virt, s).
      bindR (map_flexible 65535 ph virt (kernel_page_directory s) s) (\<lambda>s.
      let m = store32 (kmem s) virt (ph + 8);
          m = store16 m (virt + 6) 0x8000;
          m = store16 m (virt + 4) (65535 - 8);
          s = port_outl io (bar4 d + 4) ph (s\<lparr>kmem := m\<rparr>) in
      bindR (malloc (kh K) 8 s) (\<lambda>(mx, s).
      upd_ata drive (\<lambda>d. d\<lparr>prdt_phys := ph, prdt_virt := virt, ata_mutex := mx\<rparr>)
        (s\<lparr>mutexes := (mutexes s)(mx \<mapsto> \<lparr>mx_owner = 0, mx_waiting = []\<rparr>)\<rparr>)))))))))"

text \<open>The flags of a new drive and the partition count start with what the allocated memory holds.\<close>

definition ata_identify_drive :: "('hw, 'a) env \<Rightarrow> nat \<Rightarrow> u16 \<Rightarrow> u16 \<Rightarrow> u16 \<Rightarrow> bool \<Rightarrow> u8 \<Rightarrow> u32 \<Rightarrow> ('hw, 'a) st \<Rightarrow> (u32, ('hw, 'a) st) call res" where
  "ata_identify_drive K f bport cport br4 master irq ctrl s =
     bindR (malloc (kh K) 28 s) (\<lambda>(current, s).
     bindR (malloc (kh K) 28 s) (\<lambda>(current_top, s).
     let m = kmem s;
         d = \<lparr>controller = ctrl, prdt_phys = load32 m (current + 4), prdt_virt = load32 m (current + 8), base_port = bport, control_port = cport,
              bar4 = br4, sectors_per_block = load16 m (current + 18), ata_irq = irq,
              ata_flags = m (current + 21) OR (if master then ATA_FLAG_MASTER else 0), ata_mutex = load32 m (current + 24)\<rparr> in
     bindV (ata_detect K f master d s) (\<lambda>r s.
     case r of None \<Rightarrow> bindR (free (kh K) current s) (\<lambda>s. bindR (free (kh K) current_top s) (\<lambda>s. Inr (Ret 0 s)))
     | Some packet \<Rightarrow>
         let (idw, s) = read_words (kio K) bport 256 s;
             fl = ata_flags d OR (if packet then ATA_FLAG_ATAPI else 0);
             fl = fl OR (if push_bit 15 (drop_bit 9 (id_capabilities idw)) \<noteq> 0 then ATA_FLAG_LBA48 else 0);
             d = d\<lparr>ata_flags := fl, sectors_per_block := ucast (id_maximum_block_transfer idw)\<rparr>;
             atapi = flag_set fl ATA_FLAG_ATAPI;
             b = \<lparr>bd_struct = current,
                  device_size = (if 0 < id_user_adressable_sectors_ext idw \<and> flag_set fl ATA_FLAG_LBA48
                    then ucast (id_user_adressable_sectors_ext idw) else id_user_adressable_sectors idw),
                  bd_partitions = map (\<lambda>i. load32 m (current_top + 8 + 4 * of_nat i)) [0..<4], bd_type = ATA_DEVICE,
                  device_class = (if atapi then CD_DRIVE else HARD_DISK_DRIVE), partition_count = m (current_top + 26)\<rparr>;
             s = s\<lparr>ata_devs := (ata_devs s)(current \<mapsto> d), block_devs := (block_devs s)(current_top \<mapsto> b)\<rparr> in
         bindR (if \<not> atapi then ata_read_partitions K f current_top s else Inr s) (\<lambda>s.
         after (ata_modes K f master idw d s) (\<lambda>s.
         bindR (ata_setup_dma K f current d s) (\<lambda>s. Inr (Ret current_top s)))))))"

definition ata_add_drive :: "('hw, 'a) env \<Rightarrow> nat \<Rightarrow> u16 \<Rightarrow> u16 \<Rightarrow> u16 \<Rightarrow> bool \<Rightarrow> u8 \<Rightarrow> u32 \<Rightarrow> ('hw, 'a) st \<Rightarrow> ('hw, 'a) st ctl res" where
  "ata_add_drive K f port cport br4 master irq ctrl s =
     dropped (bindV (ata_identify_drive K f port cport br4 master irq ctrl s) (\<lambda>drive s.
       Inr (Ret drive (if drive \<noteq> 0 then
         s\<lparr>kmem := store32 (kmem s) (block_devices s + 4 * ucast (block_device_count s)) drive,
           block_device_count := block_device_count s + 1\<rparr> else s))))"

text \<open>A base address register of the controller, or the fixed port of the standard when it is empty.\<close>

definition bar_port :: "u32 \<Rightarrow> u16 \<Rightarrow> u16 \<Rightarrow> u16" where
  "bar_port v add deflt = (let p = ucast (v AND 0xFFFC) + add in if p = add \<or> p = add + 1 then deflt else p)"

fun ata_install_from :: "('hw, 'a) env \<Rightarrow> nat \<Rightarrow> u32 \<Rightarrow> ('hw, 'a) st \<Rightarrow> ('hw, 'a) st ctl res" where
  "ata_install_from K 0 c s = Inl NoFuel"
| "ata_install_from K (Suc f) c s =
     (if c = pci_last s then Inr (Returned s)
      else
        bindR (the_obj (pci_devs s c)) (\<lambda>d.
        bindC (if class_id d = 0x01 then
                 bindR (pci_read_device (kio K) c 0x10 s) (\<lambda>(b0, s).
                 bindR (pci_read_device (kio K) c 0x14 s) (\<lambda>(b1, s).
                 bindR (pci_read_device (kio K) c 0x18 s) (\<lambda>(b2, s).
                 bindR (pci_read_device (kio K) c 0x1C s) (\<lambda>(b3, s).
                 bindR (pci_read_device (kio K) c 0x20 s) (\<lambda>(b4, s).
                 let port = bar_port b0 0 0x1F0; cport = bar_port b1 2 0x3F6; port_s = bar_port b2 0 0x170; cport_s = bar_port b3 2 0x376;
                     br4 = ucast (b4 AND 0xFFFC) in
                 if subclass_id d = 0x01 then
                   bindC (ata_add_drive K (Suc f) port cport br4 True 14 c s) (\<lambda>s.
                   bindC (ata_add_drive K (Suc f) port cport br4 False 14 c s) (\<lambda>s.
                   bindC (ata_add_drive K (Suc f) port_s cport_s (br4 + 8) True 15 c s) (\<lambda>s.
                   ata_add_drive K (Suc f) port_s cport_s (br4 + 8) False 15 c s)))
                 else Inr (Returned s))))))
               else Inr (Returned s)) (ata_install_from K f (pci_next d))))"

definition ata_install :: "('hw, 'a) env \<Rightarrow> nat \<Rightarrow> ('hw, 'a) st \<Rightarrow> ('hw, 'a) st ctl res" where
  "ata_install K f s = ata_install_from K f (pci_first s) s"

subsection \<open>Block devices (block\_devices.c)\<close>

definition install_block_devices :: "('hw, 'a) env \<Rightarrow> nat \<Rightarrow> ('hw, 'a) st \<Rightarrow> ('hw, 'a) st ctl res" where
  "install_block_devices K f s =
     bindC (kp K f ''Installing block devices...'' [] s) (\<lambda>s.
     bindR (malloc (kh K) 40 s) (\<lambda>(p, s).
     bindC (ata_install K f (s\<lparr>block_devices := p\<rparr>)) (vga_text_okmsg (kh K) f)))"

definition block_read_flexible :: "('hw, 'a) env \<Rightarrow> nat \<Rightarrow> u64 \<Rightarrow> u32 \<Rightarrow> u32 \<Rightarrow> u64 \<Rightarrow> u32 \<Rightarrow> ('hw, 'a) st \<Rightarrow> (u32, ('hw, 'a) st) call res" where
  "block_read_flexible K f sector offset data count drive s =
     bindR (the_obj (block_devs s drive)) (\<lambda>b.
     if bd_type b = ATA_DEVICE then ata_read_flexible K f sector offset data count (bd_struct b) s
     else Inr (Ret ERROR_DISK_INTERNAL s))"

definition block_write_flexible :: "('hw, 'a) env \<Rightarrow> nat \<Rightarrow> u64 \<Rightarrow> u32 \<Rightarrow> u32 \<Rightarrow> u64 \<Rightarrow> u32 \<Rightarrow> ('hw, 'a) st \<Rightarrow> (u32, ('hw, 'a) st) call res" where
  "block_write_flexible K f sector offset data count drive s =
     bindR (the_obj (block_devs s drive)) (\<lambda>b.
     if bd_type b = ATA_DEVICE then ata_write_flexible K f sector offset data count (bd_struct b) s
     else Inr (Ret ERROR_DISK_INTERNAL s))"

end
