(* ===== verification/VK_Fat.thy ===== *)
theory VK_Fat
  imports VK_Ata
begin

section \<open>The FAT32 file system (filesystem/fat32.c)\<close>

text \<open>
  The boot record, the cached allocation table, the directory entries and the linked lists are in byte memory at the offsets of the C
  structures; the records of file systems, nodes and open files are typed stores. Pointer arithmetic is that of the source: a pointer
  to directory entries that is advanced by \<open>n\<close> moves by \<open>32 * n\<close> bytes. Calls that read or write the disk, or print, may switch.
\<close>

subsection \<open>State\<close>

record fd =
  fd_file :: u32
  fd_offset :: u64
  fd_instances :: u32
  fd_path :: u32

record mount_point =
  mp_path :: u32
  mp_fs :: u32
  mp_next :: u32

record fat32fs_specific =
  ff_bpb :: u32
  ff_bpb_offset :: u32
  ff_fat_table :: u32

record fat32_node_specific =
  fat_cluster :: u32
  fat_dir_cluster :: u32

record 'hw files = "'hw storage" +
  fds :: "u32 \<Rightarrow> fd option"
  mount_points :: "u32 \<Rightarrow> mount_point option"
  root_point :: u32
  current_mount_points :: u16
  fatfss :: "u32 \<Rightarrow> fat32fs_specific option"
  fatnodes :: "u32 \<Rightarrow> fat32_node_specific option"

type_synonym ('hw, 'a) fst = "('hw, 'a) files_scheme"
type_synonym ('hw, 'a) fenv = "('hw, ('hw, 'a) files_scheme) kenv"

definition FS_TYPE_FAT32 :: u8 where "FS_TYPE_FAT32 = 2"
definition FS_TYPE_EXT2 :: u8 where "FS_TYPE_EXT2 = 3"
definition FS_TYPE_ISO9660 :: u8 where "FS_TYPE_ISO9660 = 4"
definition FS_TYPE_DEVFS :: u8 where "FS_TYPE_DEVFS = 5"
definition FILE_ATTR_DIR :: u8 where "FILE_ATTR_DIR = 1"
definition FILE_ATTR_HIDDEN :: u8 where "FILE_ATTR_HIDDEN = 2"
definition FS_FLAG_CASE_INSENSITIVE :: u8 where "FS_FLAG_CASE_INSENSITIVE = 1"
definition FAT_ATTR_HIDDEN :: u8 where "FAT_ATTR_HIDDEN = 0x02"
definition FAT_ATTR_DIRECTORY :: u8 where "FAT_ATTR_DIRECTORY = 0x10"
definition FAT_ATTR_LFN :: u8 where "FAT_ATTR_LFN = 0x0F"
definition FAT_NAME_MAX :: u32 where "FAT_NAME_MAX = 13"

definition ERROR_FILE_NOT_FOUND :: u32 where "ERROR_FILE_NOT_FOUND = 10"
definition ERROR_FILE_IS_DIRECTORY :: u32 where "ERROR_FILE_IS_DIRECTORY = 12"
definition ERROR_FILE_IS_NOT_DIRECTORY :: u32 where "ERROR_FILE_IS_NOT_DIRECTORY = 13"
definition ERROR_FILE_NAME_ALREADY_EXISTS :: u32 where "ERROR_FILE_NAME_ALREADY_EXISTS = 14"
definition ERROR_FILE_UNSUPPORTED_FILE_SYSTEM :: u32 where "ERROR_FILE_UNSUPPORTED_FILE_SYSTEM = 15"

text \<open>The fields of the boot record.\<close>

definition bpb_bytes_per_sector :: "mem \<Rightarrow> u32 \<Rightarrow> u16" where "bpb_bytes_per_sector m p = load16 m (p + 11)"
definition bpb_sectors_per_cluster :: "mem \<Rightarrow> u32 \<Rightarrow> u8" where "bpb_sectors_per_cluster m p = m (p + 13)"
definition bpb_reserved_sectors :: "mem \<Rightarrow> u32 \<Rightarrow> u16" where "bpb_reserved_sectors m p = load16 m (p + 14)"
definition bpb_fats_number :: "mem \<Rightarrow> u32 \<Rightarrow> u8" where "bpb_fats_number m p = m (p + 16)"
definition bpb_fat_size :: "mem \<Rightarrow> u32 \<Rightarrow> u32" where "bpb_fat_size m p = load32 m (p + 36)"
definition bpb_root_directory_cluster :: "mem \<Rightarrow> u32 \<Rightarrow> u32" where "bpb_root_directory_cluster m p = load32 m (p + 44)"
definition bpb_system_id :: "u32 \<Rightarrow> u32" where "bpb_system_id p = p + 82"

text \<open>The fields of a directory entry.\<close>

definition de_name :: "u32 \<Rightarrow> u32" where "de_name e = e"
definition de_extension :: "u32 \<Rightarrow> u32" where "de_extension e = e + 8"
definition de_attributes :: "mem \<Rightarrow> u32 \<Rightarrow> u8" where "de_attributes m e = m (e + 11)"
definition de_file_size :: "mem \<Rightarrow> u32 \<Rightarrow> u32" where "de_file_size m e = load32 m (e + 28)"

definition de_cluster :: "mem \<Rightarrow> u32 \<Rightarrow> u32" where
  "de_cluster m e = (push_bit 16 (ucast (load16 m (e + 20))) OR ucast (load16 m (e + 26))) AND 0x0FFFFFFF"

lemmas fat_fields = bpb_bytes_per_sector_def bpb_sectors_per_cluster_def bpb_reserved_sectors_def bpb_fats_number_def bpb_fat_size_def
  bpb_root_directory_cluster_def bpb_system_id_def de_name_def de_extension_def de_attributes_def de_file_size_def de_cluster_def

text \<open>What an operation on a node looks up first: the file system of the node and its FAT part.\<close>

definition fat_of :: "u32 \<Rightarrow> ('hw, 'a) fst \<Rightarrow> (file_system \<times> fat32fs_specific) res" where
  "fat_of fsa s =
     bindR (the_obj (fsystems s fsa)) (\<lambda>y.
     bindR (the_obj (fatfss s (fs_specific y))) (\<lambda>spe. Inr (y, spe)))"

definition cluster_bytes :: "fat32fs_specific \<Rightarrow> ('hw, 'a) fst \<Rightarrow> u64" where
  "cluster_bytes spe s = ucast (bpb_sectors_per_cluster (kmem s) (ff_bpb spe)) * 512"

subsection \<open>The allocation table\<close>

definition fat_entry :: "mem \<Rightarrow> u32 \<Rightarrow> u32 \<Rightarrow> u32" where
  "fat_entry m table cluster = load32 m (table + 4 * cluster) AND 0x0FFFFFFF"

definition set_fat_entry :: "mem \<Rightarrow> u32 \<Rightarrow> u32 \<Rightarrow> u32 \<Rightarrow> mem" where
  "set_fat_entry m table cluster v = store32 m (table + 4 * cluster) v"

text \<open>The sum is one of 32-bit words; only the last subtraction is one of 64 bits.\<close>

definition fat32fs_cluster_to_lba :: "fat32fs_specific \<Rightarrow> u32 \<Rightarrow> mem \<Rightarrow> u64" where
  "fat32fs_cluster_to_lba spe cluster m =
     (let bpb = ff_bpb spe; spc = bpb_sectors_per_cluster m bpb in
      ucast (ff_bpb_offset spe + ucast (bpb_reserved_sectors m bpb) + ucast (bpb_fats_number m bpb) * bpb_fat_size m bpb + cluster * ucast spc)
      - 2 * ucast spc)"

definition chain_end :: "u32 \<Rightarrow> bool" where
  "chain_end cchain \<longleftrightarrow> cchain = 0 \<or> 0x0FFFFFF8 \<le> cchain"

definition fat_warning :: "('hw, 'a) fenv \<Rightarrow> nat \<Rightarrow> u32 \<Rightarrow> ('hw, 'a) fst \<Rightarrow> ('hw, 'a) fst ctl res" where
  "fat_warning K f cchain s =
     (if cchain = 0 then kp K f (''%v[WARNING] [SEVERE] FAT32 Filesystem might be corrupted (->0) !'' @ newline) [0b00000110] s
      else if cchain = 1 then kp K f (''%v[WARNING] [SEVERE] FAT32 Filesystem might be corrupted (reserved cluster)'' @ newline) [0b00000110] s
      else if cchain = 0x0FFFFFF7 then kp K f (''%v[WARNING] [SEVERE] FAT32 Filesystem might be corrupted (bad cluster)'' @ newline) [0b00000110] s
      else Inr (Returned s))"

text \<open>The chain becomes a linked list whose elements are allocated cluster numbers; the result has the spare last entry and the length.\<close>

fun chain_loop :: "('hw, 'a) fenv \<Rightarrow> nat \<Rightarrow> u32 \<Rightarrow> u32 \<Rightarrow> u32 \<Rightarrow> u32 \<Rightarrow> ('hw, 'a) fst \<Rightarrow> (u32 \<times> u32, ('hw, 'a) fst) call res" where
  "chain_loop K 0 table cluster lbuf n s = Inl NoFuel"
| "chain_loop K (Suc f) table cluster lbuf n s =
     (let cchain = fat_entry (kmem s) table cluster in
      bindR (malloc (kh K) 4 s) (\<lambda>(cl, s).
      let s = s\<lparr>kmem := store32 (store32 (kmem s) cl cluster) lbuf cl\<rparr> in
      bindR (malloc (kh K) 8 s) (\<lambda>(nx, s).
      let s = s\<lparr>kmem := store32 (kmem s) (lbuf + 4) nx\<rparr> in
      after (fat_warning K (Suc f) cchain s) (\<lambda>s.
      if chain_end cchain then Inr (Ret (nx, n + 1) s) else chain_loop K f table cchain nx (n + 1) s))))"

definition fat32fs_get_cluster_chain :: "('hw, 'a) fenv \<Rightarrow> nat \<Rightarrow> u32 \<Rightarrow> u32 \<Rightarrow> ('hw, 'a) fst \<Rightarrow> (u32 \<times> u32, ('hw, 'a) fst) call res" where
  "fat32fs_get_cluster_chain K f fcluster fsa s =
     bindR (fat_of fsa s) (\<lambda>(_, spe).
     bindR (malloc (kh K) 8 s) (\<lambda>(tr, s).
     bindV (chain_loop K f (ff_fat_table spe) fcluster tr 0 s) (\<lambda>(lbuf, n) s.
     bindR (free (kh K) lbuf s) (\<lambda>s. Inr (Ret (tr, n) s)))))"

definition fat32fs_read_fat :: "('hw, 'a) fenv \<Rightarrow> nat \<Rightarrow> u32 \<Rightarrow> ('hw, 'a) fst \<Rightarrow> (u32, ('hw, 'a) fst) call res" where
  "fat32fs_read_fat K f fsa s =
     bindR (fat_of fsa s) (\<lambda>(y, spe).
     let m = kmem s; bpb = ff_bpb spe;
         fat_size = bpb_fat_size m bpb * ucast (bpb_bytes_per_sector m bpb);
         fat_sector = ff_bpb_offset spe + ucast (bpb_reserved_sectors m bpb) in
     tried_again (block_read_flexible K f (ucast fat_sector) 0 (ff_fat_table spe) (ucast fat_size) (fs_drive y))
       (block_read_flexible K f (ucast fat_sector) 0 (ff_fat_table spe) (ucast fat_size) (fs_drive y)) s)"

definition fat32fs_write_fat :: "('hw, 'a) fenv \<Rightarrow> nat \<Rightarrow> u32 \<Rightarrow> ('hw, 'a) fst \<Rightarrow> (u32, ('hw, 'a) fst) call res" where
  "fat32fs_write_fat K f fsa s =
     bindR (fat_of fsa s) (\<lambda>(y, spe).
     let m = kmem s; bpb = ff_bpb spe;
         fat_size = bpb_fat_size m bpb * ucast (bpb_bytes_per_sector m bpb);
         fat_sector = ff_bpb_offset spe + ucast (bpb_reserved_sectors m bpb) in
     block_write_flexible K f (ucast fat_sector) 0 (ff_fat_table spe) (ucast fat_size) (fs_drive y) s)"

text \<open>Freeing a chain also clears the entry that the end mark of the chain would be the number of.\<close>

fun free_chain_loop :: "('hw, 'a) fenv \<Rightarrow> nat \<Rightarrow> u32 \<Rightarrow> u32 \<Rightarrow> ('hw, 'a) fst \<Rightarrow> (u32, ('hw, 'a) fst) call res" where
  "free_chain_loop K 0 table cluster s = Inl NoFuel"
| "free_chain_loop K (Suc f) table cluster s =
     (let cchain = fat_entry (kmem s) table cluster;
          s = s\<lparr>kmem := set_fat_entry (kmem s) table cluster 0\<rparr> in
      after (fat_warning K (Suc f) cchain s) (\<lambda>s.
      if chain_end cchain then Inr (Ret cchain s) else free_chain_loop K f table cchain s))"

definition fat32fs_free_cluster_chain :: "('hw, 'a) fenv \<Rightarrow> nat \<Rightarrow> u32 \<Rightarrow> u32 \<Rightarrow> ('hw, 'a) fst \<Rightarrow> (u32, ('hw, 'a) fst) call res" where
  "fat32fs_free_cluster_chain K f fcluster fsa s =
     bindR (fat_of fsa s) (\<lambda>(_, spe).
     bindV (free_chain_loop K f (ff_fat_table spe) fcluster s) (\<lambda>cluster s.
     fat32fs_write_fat K f fsa (s\<lparr>kmem := set_fat_entry (kmem s) (ff_fat_table spe) cluster 0\<rparr>)))"

text \<open>The search for a free cluster has no end of the table to stop at.\<close>

fun next_free :: "nat \<Rightarrow> mem \<Rightarrow> u32 \<Rightarrow> u32 \<Rightarrow> u32 res" where
  "next_free 0 m table c = Inl NoFuel"
| "next_free (Suc f) m table c = (if fat_entry m table c \<noteq> 0 then next_free f m table (c + 1) else Inr c)"

fun gm_loop :: "nat \<Rightarrow> u32 \<Rightarrow> nat \<Rightarrow> u32 \<Rightarrow> u32 \<Rightarrow> mem \<Rightarrow> (u32 \<times> mem) res" where
  "gm_loop f table 0 active last_free m = Inr (last_free, m)"
| "gm_loop f table (Suc n) active last_free m =
     bindR (next_free f m table active) (\<lambda>c.
     gm_loop f table n (c + 1) c (set_fat_entry m table c (if last_free = 0 then 0x0FFFFFFF else last_free)))"

definition fat32fs_gm_free_clusters :: "nat \<Rightarrow> u32 \<Rightarrow> u32 \<Rightarrow> ('hw, 'a) fst \<Rightarrow> (u32 \<times> ('hw, 'a) fst) res" where
  "fat32fs_gm_free_clusters f nbr fsa s =
     bindR (fat_of fsa s) (\<lambda>(_, spe).
     bindR (gm_loop f (ff_fat_table spe) (unat nbr) 0 0 (kmem s)) (\<lambda>(c, m). Inr (c, s\<lparr>kmem := m\<rparr>)))"

subsection \<open>Directory entries in memory\<close>

text \<open>The time stamps of an entry: hours, minutes and seconds, or year since 1980, month and day, packed into 16 bits.\<close>

definition fat_time :: "u8 \<Rightarrow> u8 \<Rightarrow> u8 \<Rightarrow> u16" where
  "fat_time secs mins hours = push_bit 11 (ucast hours) OR push_bit 5 (ucast mins) OR ucast (secs div 2)"

definition fat_date :: "u8 \<Rightarrow> u8 \<Rightarrow> u8 \<Rightarrow> u16" where
  "fat_date days months years = push_bit 9 (ucast years - 80) OR push_bit 5 (ucast months) OR ucast days"

definition time_fields :: "u16 \<Rightarrow> u8 \<times> u8 \<times> u8" where
  "time_fields t = (ucast ((t AND 0x1F) * 2), ucast (drop_bit 5 (t AND 0x7FF)), ucast (drop_bit 11 t))"

definition date_fields :: "u16 \<Rightarrow> u8 \<times> u8 \<times> u8" where
  "date_fields d = (ucast (d AND 0x1F), ucast (drop_bit 5 (d AND 0x1FF)), ucast (drop_bit 9 d + 80))"

definition std_time :: "u16 \<Rightarrow> u16 \<Rightarrow> int" where
  "std_time t d = (case time_fields t of (secs, mins, hour) \<Rightarrow> case date_fields d of (day, month, year) \<Rightarrow>
     convert_to_std_time secs mins hour day month year)"

text \<open>Writing the three stamps of an entry.\<close>

definition store_times :: "u32 \<Rightarrow> int \<Rightarrow> int \<Rightarrow> int \<Rightarrow> mem \<Rightarrow> mem res" where
  "store_times e created modified accessed m =
     bindR (the_res (convert_to_readable_time created)) (\<lambda>(secs, mins, hours, days, months, years).
     let m = store16 (store16 m (e + 14) (fat_time secs mins hours)) (e + 16) (fat_date days months years) in
     bindR (the_res (convert_to_readable_time modified)) (\<lambda>(secs, mins, hours, days, months, years).
     let m = store16 (store16 m (e + 22) (fat_time secs mins hours)) (e + 24) (fat_date days months years) in
     bindR (the_res (convert_to_readable_time accessed)) (\<lambda>(secs, mins, hours, days, months, years).
     Inr (store16 m (e + 18) (fat_date days months years)))))"

text \<open>The low bytes of \<open>n\<close> 16-bit characters.\<close>

fun copy_low :: "mem \<Rightarrow> u32 \<Rightarrow> u32 \<Rightarrow> nat \<Rightarrow> mem" where
  "copy_low m dest src 0 = m"
| "copy_low m dest src (Suc n) = copy_low (m(dest := m src)) (dest + 1) (src + 2) n"

fun copy_wide :: "mem \<Rightarrow> u32 \<Rightarrow> u32 \<Rightarrow> nat \<Rightarrow> mem" where
  "copy_wide m dest src 0 = m"
| "copy_wide m dest src (Suc n) = copy_wide (store16 m dest (ucast (m src))) (dest + 2) (src + 1) n"

definition lfn_number :: "u8 \<Rightarrow> u16" where
  "lfn_number order = ucast (if order AND 0x40 = 0x40 then order XOR 0x40 else order)"

text \<open>
  A long name entry: its 13 characters go to their place in the name's buffer, which the first such entry allocates by its own number.
\<close>

definition lfn_collect :: "('hw, 'a) fenv \<Rightarrow> u32 \<Rightarrow> u32 \<Rightarrow> ('hw, 'a) fst \<Rightarrow> (u32 \<times> ('hw, 'a) fst) res" where
  "lfn_collect K e lfn_name s =
     (let lfn_nbr = lfn_number (kmem s e) in
      bindR (if lfn_name = 0 then
               bindR (malloc (kh K) (13 * ucast lfn_nbr + 1) s) (\<lambda>(p, s).
               Inr (p, s\<lparr>kmem := (kmem s)(p + 13 * ucast lfn_nbr := 0)\<rparr>))
             else Inr (lfn_name, s)) (\<lambda>(lfn_name, s).
      let dest = lfn_name + 13 * (ucast lfn_nbr - 1);
          m = copy_low (kmem s) dest (e + 1) 5;
          m = copy_low m (dest + 5) (e + 14) 6;
          m = copy_low m (dest + 11) (e + 28) 2
      in Inr (lfn_name, s\<lparr>kmem := m\<rparr>)))"

text \<open>
  The clusters of a directory, read one after the other. The buffer pointer is one to entries, so that it moves 32 times the size of a
  cluster. The results of the reads are ignored.
\<close>

fun read_dir_clusters :: "('hw, 'a) fenv \<Rightarrow> nat \<Rightarrow> fat32fs_specific \<Rightarrow> u32 \<Rightarrow> nat \<Rightarrow> u32 \<Rightarrow> u32 \<Rightarrow> ('hw, 'a) fst \<Rightarrow> ('hw, 'a) fst ctl res" where
  "read_dir_clusters K f spe drive 0 clusbuffer buffer s = Inr (Returned s)"
| "read_dir_clusters K f spe drive (Suc n) clusbuffer buffer s =
     (let pos = fat32fs_cluster_to_lba spe (load32 (kmem s) (le_element (kmem s) clusbuffer)) (kmem s) in
      bindC (dropped (block_read_flexible K f pos 0 buffer (cluster_bytes spe s) drive s)) (\<lambda>s.
      read_dir_clusters K f spe drive n (le_next (kmem s) clusbuffer) (buffer + 32 * ucast (cluster_bytes spe s)) s))"

fun write_dir_clusters :: "('hw, 'a) fenv \<Rightarrow> nat \<Rightarrow> fat32fs_specific \<Rightarrow> u32 \<Rightarrow> nat \<Rightarrow> u32 \<Rightarrow> u32 \<Rightarrow> ('hw, 'a) fst \<Rightarrow> ('hw, 'a) fst ctl res" where
  "write_dir_clusters K f spe drive 0 clusbuffer buffer s = Inr (Returned s)"
| "write_dir_clusters K f spe drive (Suc n) clusbuffer buffer s =
     (let pos = fat32fs_cluster_to_lba spe (load32 (kmem s) (le_element (kmem s) clusbuffer)) (kmem s) in
      bindC (dropped (block_write_flexible K f pos 0 buffer (cluster_bytes spe s) drive s)) (\<lambda>s.
      write_dir_clusters K f spe drive n (le_next (kmem s) clusbuffer) (buffer + 32 * ucast (cluster_bytes spe s)) s))"

text \<open>The common start of every operation on a directory: its chain, a buffer for it, its contents.\<close>

definition load_dir :: "('hw, 'a) fenv \<Rightarrow> nat \<Rightarrow> u32 \<Rightarrow> u32 \<Rightarrow> ('hw, 'a) fst \<Rightarrow> (u32 \<times> u32 \<times> u64 \<times> u32, ('hw, 'a) fst) call res" where
  "load_dir K f cluster fsa s =
     bindR (fat_of fsa s) (\<lambda>(y, spe).
     bindV (fat32fs_get_cluster_chain K f cluster fsa s) (\<lambda>(cluslist, cluss) s.
     let dir_size = ucast cluss * cluster_bytes spe s in
     bindR (malloc (kh K) (ucast dir_size) s) (\<lambda>(dirents, s).
     after (read_dir_clusters K f spe (fs_drive y) (unat cluss) cluslist dirents s) (\<lambda>s.
     Inr (Ret (cluslist, cluss, dir_size, dirents) s)))))"

subsection \<open>Nodes\<close>

text \<open>The cache of nodes is a linked list that may be longer than its size says; the search ends at either end.\<close>

fun cache_find :: "nat \<Rightarrow> u32 \<Rightarrow> u32 \<Rightarrow> ('hw, 'a) fst \<Rightarrow> u32 res" where
  "cache_find 0 iptr cluster s = Inr 0"
| "cache_find (Suc n) iptr cluster s =
     (if iptr = 0 then Inr 0
      else
        let element = le_element (kmem s) iptr in
        bindR (the_obj (fsnodes s element)) (\<lambda>d.
        bindR (the_obj (fatnodes s (fn_specific d))) (\<lambda>espe.
        if fat_cluster espe = cluster then Inr element else cache_find n (le_next (kmem s) iptr) cluster s)))"

fun cache_last :: "nat \<Rightarrow> u32 \<Rightarrow> u32 \<Rightarrow> mem \<Rightarrow> u32" where
  "cache_last 0 ptr lst m = lst"
| "cache_last (Suc n) ptr lst m = (if ptr = 0 then lst else cache_last n (le_next m ptr) ptr m)"

definition upd_fs :: "u32 \<Rightarrow> (file_system \<Rightarrow> file_system) \<Rightarrow> ('hw, 'a) fst \<Rightarrow> ('hw, 'a) fst res" where
  "upd_fs a g s = bindR (the_obj (fsystems s a)) (\<lambda>y. Inr (s\<lparr>fsystems := (fsystems s)(a \<mapsto> g y)\<rparr>))"

text \<open>Appending a node to the cache; with a non-empty list of size 0 the code stores through a null pointer.\<close>

definition cache_add :: "('hw, 'a) fenv \<Rightarrow> u32 \<Rightarrow> u32 \<Rightarrow> ('hw, 'a) fst \<Rightarrow> ('hw, 'a) fst res" where
  "cache_add K fsa node s =
     bindR (the_obj (fsystems s fsa)) (\<lambda>y.
     if fs_inode_cache y = 0 then
       bindR (malloc (kh K) 8 s) (\<lambda>(p, s).
       upd_fs fsa (\<lambda>y. y\<lparr>fs_inode_cache := p, fs_inode_cache_size := fs_inode_cache_size y + 1\<rparr>) (s\<lparr>kmem := store32 (kmem s) p node\<rparr>))
     else
       let lst = cache_last (unat (fs_inode_cache_size y)) (fs_inode_cache y) 0 (kmem s) in
       bindR (malloc (kh K) 8 s) (\<lambda>(p, s).
       if lst = 0 then Inl BadPtr
       else upd_fs fsa (\<lambda>y. y\<lparr>fs_inode_cache_size := fs_inode_cache_size y + 1\<rparr>)
         (s\<lparr>kmem := store32 (store32 (kmem s) p node) (lst + 4) p\<rparr>)))"

definition node_attributes :: "u8 \<Rightarrow> u8" where
  "node_attributes a = (if a AND FAT_ATTR_DIRECTORY \<noteq> 0 then FILE_ATTR_DIR else 0) OR (if a AND FAT_ATTR_HIDDEN \<noteq> 0 then FILE_ATTR_HIDDEN else 0)"

definition fat32_dirent_normalize_cache :: "('hw, 'a) fenv \<Rightarrow> u32 \<Rightarrow> u32 \<Rightarrow> u32 \<Rightarrow> ('hw, 'a) fst \<Rightarrow> (u32 \<times> ('hw, 'a) fst) res" where
  "fat32_dirent_normalize_cache K dirent dir_cluster fsa s =
     (let cluster = de_cluster (kmem s) dirent in
      bindR (the_obj (fsystems s fsa)) (\<lambda>y.
      bindR (cache_find (unat (fs_inode_cache_size y)) (fs_inode_cache y) cluster s) (\<lambda>found.
      if found \<noteq> 0 then Inr (found, s)
      else
        bindR (malloc (kh K) 36 s) (\<lambda>(node, s).
        let m = kmem s;
            created = std_time (load16 m (dirent + 14)) (load16 m (dirent + 16));
            accessed = (case date_fields (load16 m (dirent + 18)) of (day, month, year) \<Rightarrow> convert_to_std_time 0 0 0 day month year);
            modified = std_time (load16 m (dirent + 22)) (load16 m (dirent + 24)) in
        bindR (malloc (kh K) 8 s) (\<lambda>(spe, s).
        let s = s\<lparr>fsnodes := (fsnodes s)(node \<mapsto> \<lparr>fn_file_system = fsa, fn_length = ucast (de_file_size m dirent),
                    fn_attributes = node_attributes (de_attributes m dirent), fn_hard_links = 1, fn_creation_time = created,
                    fn_last_access_time = accessed, fn_last_modification_time = modified, fn_specific = spe\<rparr>),
                  fatnodes := (fatnodes s)(spe \<mapsto> \<lparr>fat_cluster = cluster, fat_dir_cluster = dir_cluster\<rparr>)\<rparr> in
        bindR (cache_add K fsa node s) (\<lambda>s. Inr (node, s)))))))"

subsection \<open>Mounting\<close>

text \<open>\<^verbatim>\<open>root_dirent\<close> is a local structure of which only the two cluster fields are set.\<close>

definition fat32fs_init :: "('hw, 'a) fenv \<Rightarrow> nat \<Rightarrow> u32 \<Rightarrow> u8 \<Rightarrow> ('hw, 'a) fst \<Rightarrow> (u32, ('hw, 'a) fst) call res" where
  "fat32fs_init K f drive part s =
     bindR (malloc (kh K) 90 s) (\<lambda>(bpb, s).
     bindR (if part \<noteq> 0 then
              bindR (the_obj (block_devs s drive)) (\<lambda>b.
              if unat part \<le> length (bd_partitions b) then
                bindR (the_obj (part_descs s (bd_partitions b ! (unat part - 1)))) (\<lambda>d. Inr (start_lba d))
              else Inl BadPtr)
            else Inr 0) (\<lambda>offset.
     let rd = block_read_flexible K f (ucast offset) 0 bpb 90 drive in
     bindV (tried_again rd rd s) (\<lambda>err s.
     let sid = bpb_system_id bpb; m = kmem s in
     if err \<noteq> ERROR_NONE \<or> m sid \<noteq> 70 \<or> m (sid + 1) \<noteq> 65 \<or> m (sid + 2) \<noteq> 84 \<or> m (sid + 3) \<noteq> 51 \<or> m (sid + 4) \<noteq> 50 then
       bindR (free (kh K) bpb s) (\<lambda>s. Inr (Ret 0 s))
     else
       bindR (malloc (kh K) 32 s) (\<lambda>(tr, s).
       bindR (malloc (kh K) 12 s) (\<lambda>(spe, s).
       bindR (malloc (kh K) (bpb_fat_size (kmem s) bpb * ucast (bpb_bytes_per_sector (kmem s) bpb)) s) (\<lambda>(table, s).
       let s = s\<lparr>fsystems := (fsystems s)(tr \<mapsto> \<lparr>fs_drive = drive, fs_partition = part, fs_type = FS_TYPE_FAT32,
                   fs_flags = FS_FLAG_CASE_INSENSITIVE, fs_root_dir = load32 (kmem s) (tr + 8), fs_inode_cache = 0,
                   fs_cache_mutex = load32 (kmem s) (tr + 16), fs_inode_cache_size = 0, fs_specific = spe\<rparr>),
                 fatfss := (fatfss s)(spe \<mapsto> \<lparr>ff_bpb = bpb, ff_bpb_offset = offset, ff_fat_table = table\<rparr>)\<rparr> in
       bindV (fat32fs_read_fat K f tr s) (\<lambda>err s.
       if err \<noteq> ERROR_NONE then
         bindR (free (kh K) bpb s) (\<lambda>s. bindR (free (kh K) table s) (\<lambda>s.
         bindR (free (kh K) tr (s\<lparr>fsystems := (fsystems s)(tr := None)\<rparr>)) (\<lambda>s. Inr (Ret 0 s))))
       else
         let root = bpb_root_directory_cluster (kmem s) bpb;
             m = store16 (kmem s) (kloc K + 26) (ucast (root AND 0xFFFF));
             m = store16 m (kloc K + 20) (ucast (drop_bit 16 root)) in
         bindR (fat32_dirent_normalize_cache K (kloc K) 0 tr (s\<lparr>kmem := m\<rparr>)) (\<lambda>(node, s).
         bindR (upd_fs tr (\<lambda>y. y\<lparr>fs_root_dir := node\<rparr>) s) (\<lambda>s. Inr (Ret tr s))))))))))"

subsection \<open>Looking up and listing\<close>

definition in_dir :: "u32 \<Rightarrow> u64 \<Rightarrow> bool" where
  "in_dir i dir_size \<longleftrightarrow> ucast i < dir_size div 32"

text \<open>The 8.3 name of an entry in the local array: the name, trimmed, and the extension behind a dot.\<close>

definition short_name :: "u32 \<Rightarrow> u32 \<Rightarrow> u32 \<Rightarrow> mem \<Rightarrow> mem res" where
  "short_name dest e dot m =
     bindR (the_res (strtrim (strncpy m dest (de_name e) 8) dest)) (\<lambda>m.
     if m (de_extension e) \<noteq> 32 \<and> m (de_extension e) \<noteq> 0 then
       bindR (the_res (strncat m dest dot 1)) (\<lambda>m. the_res (strncat m dest (de_extension e) 3))
     else Inr m)"

text \<open>The search through the entries. The long name that was read last stays in force for all entries that follow it.\<close>

fun open_loop :: "('hw, 'a) fenv \<Rightarrow> nat \<Rightarrow> u32 \<Rightarrow> u64 \<Rightarrow> u32 \<Rightarrow> u32 \<Rightarrow> u32 \<Rightarrow> ('hw, 'a) fst \<Rightarrow> (u32 \<times> ('hw, 'a) fst) res" where
  "open_loop K 0 dirents dir_size name i lfn_name s = Inl NoFuel"
| "open_loop K (Suc f) dirents dir_size name i lfn_name s =
     (let e = dirents + 32 * i in
      if \<not> in_dir i dir_size \<or> kmem s e = 0 then Inr (0, s)
      else if kmem s e = 0xE5 then open_loop K f dirents dir_size name (i + 1) lfn_name s
      else if de_attributes (kmem s) e = FAT_ATTR_LFN then
        bindR (lfn_collect K e lfn_name s) (\<lambda>(lfn_name, s). open_loop K f dirents dir_size name (i + 1) lfn_name s)
      else if lfn_name \<noteq> 0 then
        bindR (the_res (strcmpnc (kmem s) lfn_name name)) (\<lambda>c.
        if c = 0 then Inr (e, s) else open_loop K f dirents dir_size name (i + 1) lfn_name s)
      else
        bindR (short_name (kloc K) e (lit s ''.'') (memset (kmem s) (kloc K) 0 13)) (\<lambda>m.
        let s = s\<lparr>kmem := m\<rparr> in
        bindR (the_res (strcmpnc m (kloc K) name)) (\<lambda>c.
        if c = 0 then Inr (e, s) else open_loop K f dirents dir_size name (i + 1) lfn_name s)))"

definition fat32_open :: "('hw, 'a) fenv \<Rightarrow> nat \<Rightarrow> u32 \<Rightarrow> u32 \<Rightarrow> ('hw, 'a) fst \<Rightarrow> (u32, ('hw, 'a) fst) call res" where
  "fat32_open K f dir name s =
     bindR (the_obj (fsnodes s dir)) (\<lambda>d.
     bindR (the_obj (fatnodes s (fn_specific d))) (\<lambda>nd.
     bindV (load_dir K f (fat_cluster nd) (fn_file_system d) s) (\<lambda>(cluslist, cluss, dir_size, dirents) s.
     bindR (list_free (free (kh K)) cluslist cluss s) (\<lambda>s.
     bindR (open_loop K f dirents dir_size name 0 0 s) (\<lambda>(e, s).
     if e \<noteq> 0 then
       bindR (fat32_dirent_normalize_cache K e (fat_cluster nd) (fn_file_system d) s) (\<lambda>(tr, s).
       bindR (free (kh K) dirents s) (\<lambda>s. Inr (Ret tr s)))
     else bindR (free (kh K) dirents s) (\<lambda>s. Inr (Ret 0 s)))))))"

text \<open>
  Listing: a record for every entry is allocated and filled, but never made the element of the list's entry. The result is the spare last
  entry of the list, the index where the loop ended and the number of entries that are not files.
\<close>

fun list_loop :: "('hw, 'a) fenv \<Rightarrow> nat \<Rightarrow> u32 \<Rightarrow> u64 \<Rightarrow> u32 \<Rightarrow> u32 \<Rightarrow> u32 \<Rightarrow> u32 \<Rightarrow> ('hw, 'a) fst \<Rightarrow> (u32 \<times> u32 \<times> u32 \<times> ('hw, 'a) fst) res" where
  "list_loop K 0 dirents dir_size i falses lfn_name lbuf s = Inl NoFuel"
| "list_loop K (Suc f) dirents dir_size i falses lfn_name lbuf s =
     (let e = dirents + 32 * i in
      if \<not> in_dir i dir_size then Inr (lbuf, i, falses, s)
      else if kmem s e = 0 then Inr (lbuf, i, falses + 1, s)
      else if kmem s e = 0xE5 then list_loop K f dirents dir_size (i + 1) (falses + 1) lfn_name lbuf s
      else if de_attributes (kmem s) e = FAT_ATTR_LFN then
        bindR (lfn_collect K e lfn_name s) (\<lambda>(lfn_name, s). list_loop K f dirents dir_size (i + 1) (falses + 1) lfn_name lbuf s)
      else
        bindR (if lfn_name \<noteq> 0 then
                 bindR (the_res (strlen (kmem s) lfn_name)) (\<lambda>len.
                 bindR (malloc (kh K) (8 + len) s) (\<lambda>(tf, s).
                 bindR (the_res (strcpy (store32 (kmem s) (tf + 4) len) (tf + 8) lfn_name)) (\<lambda>m. Inr (tf, s\<lparr>kmem := m\<rparr>))))
               else
                 bindR (malloc (kh K) (8 + FAT_NAME_MAX) s) (\<lambda>(tf, s).
                 bindR (short_name (tf + 8) e (lit s ''.'') (store32 (kmem s) (tf + 4) FAT_NAME_MAX)) (\<lambda>m. Inr (tf, s\<lparr>kmem := m\<rparr>)))) (\<lambda>(tf, s).
        let s = s\<lparr>kmem := store32 (kmem s) tf (de_cluster (kmem s) e)\<rparr> in
        bindR (malloc (kh K) 8 s) (\<lambda>(p, s).
        list_loop K f dirents dir_size (i + 1) falses 0 p (s\<lparr>kmem := store32 (kmem s) (lbuf + 4) p\<rparr>))))"

definition fat32_list_dir :: "('hw, 'a) fenv \<Rightarrow> nat \<Rightarrow> u32 \<Rightarrow> u32 \<Rightarrow> u32 \<Rightarrow> ('hw, 'a) fst \<Rightarrow> (u32 \<times> u32, ('hw, 'a) fst) call res" where
  "fat32_list_dir K f tr dir sz s =
     bindR (the_obj (fsnodes s dir)) (\<lambda>d.
     if fn_attributes d AND FILE_ATTR_DIR \<noteq> FILE_ATTR_DIR then Inr (Ret (ERROR_FILE_IS_NOT_DIRECTORY, sz) s)
     else
       bindR (the_obj (fatnodes s (fn_specific d))) (\<lambda>nd.
       bindV (load_dir K f (fat_cluster nd) (fn_file_system d) s) (\<lambda>(cluslist, cluss, dir_size, dirents) s.
       bindR (list_free (free (kh K)) cluslist cluss s) (\<lambda>s.
       bindR (list_loop K f dirents dir_size 0 0 0 tr s) (\<lambda>(lbuf, i, falses, s).
       bindR (free (kh K) lbuf s) (\<lambda>s.
       bindR (free (kh K) dirents s) (\<lambda>s. Inr (Ret (ERROR_NONE, i - falses + 1) s))))))))"

subsection \<open>Reading and writing\<close>

text \<open>\<^verbatim>\<open>while(offset >= cluster)\<close>: the entry of the chain and the offset in it.\<close>

fun skip_clusters :: "nat \<Rightarrow> u64 \<Rightarrow> u64 \<Rightarrow> u32 \<Rightarrow> mem \<Rightarrow> (u64 \<times> u32) res" where
  "skip_clusters 0 cb offset clusbuffer m = Inl NoFuel"
| "skip_clusters (Suc f) cb offset clusbuffer m =
     (if cb \<le> offset then skip_clusters f cb (offset - cb) (le_next m clusbuffer) m else Inr (offset, clusbuffer))"

fun read_file_loop :: "('hw, 'a) fenv \<Rightarrow> nat \<Rightarrow> fat32fs_specific \<Rightarrow> u32 \<Rightarrow> nat \<Rightarrow> u64 \<Rightarrow> u64 \<Rightarrow> u32 \<Rightarrow> u32 \<Rightarrow> ('hw, 'a) fst \<Rightarrow> (u32, ('hw, 'a) fst) call res" where
  "read_file_loop K f spe drive 0 offset count clusbuffer buffer s = Inr (Ret ERROR_NONE s)"
| "read_file_loop K f spe drive (Suc n) offset count clusbuffer buffer s =
     (if count = 0 then Inr (Ret ERROR_NONE s)
      else
        let cb = cluster_bytes spe s;
            pos = fat32fs_cluster_to_lba spe (load32 (kmem s) (le_element (kmem s) clusbuffer)) (kmem s) in
        if cb \<le> count then
          bindV (block_read_flexible K f pos (ucast offset) buffer cb drive s) (\<lambda>err s.
          if err \<noteq> ERROR_NONE then Inr (Ret err s)
          else read_file_loop K f spe drive n 0 (ucast (ucast (count - cb) :: u32)) (le_next (kmem s) clusbuffer) (buffer + ucast cb) s)
        else block_read_flexible K f pos (ucast offset) buffer count drive s)"

definition fat32_read_file :: "('hw, 'a) fenv \<Rightarrow> nat \<Rightarrow> u32 \<Rightarrow> u32 \<Rightarrow> u64 \<Rightarrow> ('hw, 'a) fst \<Rightarrow> (u32, ('hw, 'a) fst) call res" where
  "fat32_read_file K f fda buffer count s =
     bindR (the_obj (fds s fda)) (\<lambda>x.
     bindR (the_obj (fsnodes s (fd_file x))) (\<lambda>file.
     bindR (the_obj (fatnodes s (fn_specific file))) (\<lambda>fspe.
     bindR (fat_of (fn_file_system file) s) (\<lambda>(y, spe).
     if count + fd_offset x < cluster_bytes spe s then
       block_read_flexible K f (fat32fs_cluster_to_lba spe (fat_cluster fspe) (kmem s)) (ucast (fd_offset x)) buffer count (fs_drive y) s
     else
       bindV (fat32fs_get_cluster_chain K f (fat_cluster fspe) (fn_file_system file) s) (\<lambda>(cluslist, cluss) s.
       bindR (skip_clusters f (cluster_bytes spe s) (fd_offset x) cluslist (kmem s)) (\<lambda>(offset, clusbuffer).
       bindV (read_file_loop K f spe (fs_drive y) (unat cluss) offset count clusbuffer buffer s) (\<lambda>err s.
       bindR (list_free (free (kh K)) cluslist cluss s) (\<lambda>s. Inr (Ret err s)))))))))"

text \<open>\<^verbatim>\<open>while(x > cluster) {x -= cluster; n++;}\<close>, for the offset and for the count.\<close>

fun count_clusters :: "nat \<Rightarrow> u64 \<Rightarrow> u64 \<Rightarrow> u32 \<Rightarrow> (u64 \<times> u32) res" where
  "count_clusters 0 cb x n = Inl NoFuel"
| "count_clusters (Suc f) cb x n = (if cb < x then count_clusters f cb (x - cb) (n + 1) else Inr (x, n))"

fun nth_entry :: "mem \<Rightarrow> u32 \<Rightarrow> nat \<Rightarrow> u32" where
  "nth_entry m e 0 = e"
| "nth_entry m e (Suc n) = nth_entry m (le_next m e) n"

text \<open>Putting a new cluster behind the last one, in the list and in the table.\<close>

definition append_cluster :: "('hw, 'a) fenv \<Rightarrow> fat32fs_specific \<Rightarrow> u32 \<Rightarrow> u32 \<Rightarrow> u32 \<Rightarrow> ('hw, 'a) fst \<Rightarrow> ('hw, 'a) fst res" where
  "append_cluster K spe cluslist cluss fnc s =
     (let lst = nth_entry (kmem s) cluslist (unat (cluss - 1)) in
      bindR (malloc (kh K) 4 s) (\<lambda>(nclv, s).
      let s = s\<lparr>kmem := store32 (kmem s) nclv fnc\<rparr> in
      bindR (malloc (kh K) 8 s) (\<lambda>(p, s).
      let m = store32 (store32 (kmem s) (lst + 4) p) p nclv
      in Inr (s\<lparr>kmem := set_fat_entry m (ff_fat_table spe) (load32 m (le_element m lst)) fnc\<rparr>))))"

text \<open>
  The clusters from \<open>i\<close> to the last one, \<open>n\<close> after it. Every cluster is written from the start of the buffer; the results are ignored.
\<close>

fun write_file_loop :: "('hw, 'a) fenv \<Rightarrow> nat \<Rightarrow> fat32fs_specific \<Rightarrow> u32 \<Rightarrow> nat \<Rightarrow> u64 \<Rightarrow> u64 \<Rightarrow> u32 \<Rightarrow> u32 \<Rightarrow> ('hw, 'a) fst \<Rightarrow> ('hw, 'a) fst ctl res" where
  "write_file_loop K f spe drive n offset count clusbuffer buffer s =
     (let pos = fat32fs_cluster_to_lba spe (load32 (kmem s) (le_element (kmem s) clusbuffer)) (kmem s) in
      bindC (dropped (block_write_flexible K f pos (ucast offset) buffer (if n = 0 then count else cluster_bytes spe s) drive s)) (\<lambda>s.
      if n = 0 then Inr (Returned s)
      else write_file_loop K f spe drive (n - 1) 0 count (le_next (kmem s) clusbuffer) buffer s))"

declare write_file_loop.simps [simp del]

subsection \<open>Short names\<close>

definition isalnum :: "u8 \<Rightarrow> bool" where
  "isalnum c \<longleftrightarrow> isdigit c \<or> islower c \<or> isupper c"

fun lfn_sum :: "mem \<Rightarrow> u32 \<Rightarrow> nat \<Rightarrow> u8 \<Rightarrow> u8" where
  "lfn_sum m p 0 acc = acc"
| "lfn_sum m p (Suc n) acc = lfn_sum m (p + 1) n ((if acc AND 1 \<noteq> 0 then 0x80 else 0) + drop_bit 1 acc + m p)"

definition fat32fs_lfn_checksum :: "mem \<Rightarrow> u32 \<Rightarrow> u8" where
  "fat32fs_lfn_checksum m pFcbName = lfn_sum m pFcbName 11 0"

text \<open>
  The first eight characters, in capitals, go to the local array \<^verbatim>\<open>temp\<close> at \<open>kloc + 16\<close>. The tests of a character are made on the byte
  behind the one just stored.
\<close>

fun old_name_loop :: "('hw, 'a) fenv \<Rightarrow> nat \<Rightarrow> u32 \<Rightarrow> u32 \<Rightarrow> u32 \<Rightarrow> bool \<Rightarrow> ('hw, 'a) fst \<Rightarrow> (u32 \<times> bool, ('hw, 'a) fst) call res" where
  "old_name_loop K 0 i dest namebuffer tail s = Inl NoFuel"
| "old_name_loop K (Suc f) i dest namebuffer tail s =
     (if i < 8 then
        let c = toUpper (kmem s namebuffer);
            s = s\<lparr>kmem := (kmem s)(dest := c)\<rparr>;
            dest = dest + 1; namebuffer = namebuffer + 1 in
        if c = 0 then Inr (Ret (dest, tail) s)
        else
          let d = kmem s dest; bad = (d \<noteq> 0 \<and> \<not> isalnum d \<and> d < 127) in
          after (if bad then bindC (kp K (Suc f) (''gtail : no127 (%c) (%u)'' @ newline) [ucast d, ucast d] s) (\<lambda>s. Inr (Returned (s\<lparr>kmem := (kmem s)(dest := 95)\<rparr>)))
                 else Inr (Returned s)) (\<lambda>s.
          if kmem s dest = 32 then after (kp K (Suc f) (''gtail : spaces'' @ newline) [] s) (old_name_loop K f i (dest - 1) namebuffer True)
          else old_name_loop K f (i + 1) dest namebuffer (tail \<or> bad) s)
      else Inr (Ret (dest, tail) s))"

fun old_copy_loop :: "('hw, 'a) fenv \<Rightarrow> nat \<Rightarrow> u32 \<Rightarrow> u32 \<Rightarrow> u32 \<Rightarrow> bool \<Rightarrow> ('hw, 'a) fst \<Rightarrow> (bool, ('hw, 'a) fst) call res" where
  "old_copy_loop K 0 temp oldname i tail s = Inl NoFuel"
| "old_copy_loop K (Suc f) temp oldname i tail s =
     (let c = kmem s (temp + i) in
      if c \<noteq> 0 \<and> c \<noteq> 46 \<and> i < 8 then
        let s = s\<lparr>kmem := (kmem s)(oldname + i := c)\<rparr>; i = i + 1 in
        if i = 8 \<and> kmem s (temp + i) \<noteq> 0 then
          after (kp K (Suc f) (''gtail : name too big'' @ newline) [] s) (old_copy_loop K f temp oldname i True)
        else old_copy_loop K f temp oldname i tail s
      else Inr (Ret tail s))"

text \<open>The tail of number \<open>n\<close>, built in the local array at \<open>kloc + 32\<close>, is copied to before the end of the extension.\<close>

definition old_tail :: "u32 \<Rightarrow> u32 \<Rightarrow> u32 \<Rightarrow> mem \<Rightarrow> mem res" where
  "old_tail toCopy oldext n m =
     (let m = (memset m toCopy 0 7)(toCopy := 126) in
      bindR (the_res (utoa m n (toCopy + 1))) (\<lambda>m.
      bindR (the_res (strlen m toCopy)) (\<lambda>len. Inr (strncpy m (oldext + 7 - len) toCopy len))))"

fun old_tail_loop :: "('hw, 'a) fenv \<Rightarrow> u32 \<Rightarrow> u32 \<Rightarrow> nat \<Rightarrow> u32 \<Rightarrow> u32 \<Rightarrow> ('hw, 'a) fst \<Rightarrow> ('hw, 'a) fst res" where
  "old_tail_loop K oldname oldext 0 dirnames n s = Inr s"
| "old_tail_loop K oldname oldext (Suc k) dirnames n s =
     bindR (the_res (strcmpnc (kmem s) oldname (le_element (kmem s) dirnames))) (\<lambda>c.
     bindR (if c = 0 then bindR (old_tail (kloc K + 32) oldext (n + 1) (kmem s)) (\<lambda>m. Inr (n + 1, s\<lparr>kmem := m\<rparr>)) else Inr (n, s)) (\<lambda>(n, s).
     let next = le_next (kmem s) dirnames in
     bindR (free (kh K) dirnames s) (old_tail_loop K oldname oldext k next n)))"

fun skip_dots :: "nat \<Rightarrow> mem \<Rightarrow> u32 \<Rightarrow> u32 res" where
  "skip_dots 0 m name = Inl NoFuel"
| "skip_dots (Suc f) m name = (if m name = 46 then skip_dots f m (name + 1) else Inr name)"

text \<open>A name without a dot makes \<^verbatim>\<open>ext\<close> a null pointer, which is then read through: the test is one of the name.\<close>

definition fat32fs_get_old_name :: "('hw, 'a) fenv \<Rightarrow> nat \<Rightarrow> u32 \<Rightarrow> u32 \<Rightarrow> u32 \<Rightarrow> u32 \<Rightarrow> u32 \<Rightarrow> ('hw, 'a) fst \<Rightarrow> ('hw, 'a) fst ctl res" where
  "fat32fs_get_old_name K f oldname oldext name dirnames dirsize s =
     (let temp = kloc K + 16 in
      bindR (skip_dots f (kmem s) name) (\<lambda>dotless.
      dropped (bindV (old_name_loop K f 0 temp name False (s\<lparr>kmem := memset (kmem s) temp 0 9\<rparr>)) (\<lambda>(dest, tail) s.
      bindV (old_copy_loop K f temp oldname 0 tail (s\<lparr>kmem := (kmem s)(dest := 0)\<rparr>)) (\<lambda>tail s.
      bindR (the_res (strrchr (kmem s) dotless 46)) (\<lambda>ext.
      bindR (if dotless \<noteq> 0 then
               if ext = 0 then Inl BadPtr
               else
                 let m = kmem s;
                     m = m(oldext := toUpper (m (ext + 1)));
                     m = m(oldext + 1 := toUpper (m (ext + 2)));
                     m = m(oldext + 2 := toUpper (m (ext + 3)))
                 in Inr (s\<lparr>kmem := m\<rparr>)
             else Inr s) (\<lambda>s.
      after (if tail then
               bindC (kp K f (''%lgenerating tail...'' @ newline) [3] s) (\<lambda>s.
               bindR (old_tail (kloc K + 32) oldext 1 (kmem s)) (\<lambda>m.
               returned (old_tail_loop K oldname oldext (unat dirsize) dirnames 1 (s\<lparr>kmem := m\<rparr>))))
             else Inr (Returned s)) (\<lambda>s.
      after (kp K f (''%lname = %s'' @ newline) [3, dotless] s) (\<lambda>s.
      after (kp K f (''%lreturning old name : %s , old ext : %s'' @ newline) [3, oldname, oldext] s) (\<lambda>s. Inr (Ret () s)))))))))))"

subsection \<open>Creating, updating and deleting entries\<close>

text \<open>
  The scan before an entry is created: names that are taken end it (\<open>True\<close>). The 8.3 names are not trimmed before they are compared. The
  result has the index of the end, the spare entry of the list of names and its length.
\<close>

fun scan_loop :: "('hw, 'a) fenv \<Rightarrow> nat \<Rightarrow> u32 \<Rightarrow> u64 \<Rightarrow> u32 \<Rightarrow> u32 \<Rightarrow> u32 \<Rightarrow> u32 \<Rightarrow> u32 \<Rightarrow> u32 \<Rightarrow> ('hw, 'a) fst
    \<Rightarrow> (bool \<times> u32 \<times> u32 \<times> u32, ('hw, 'a) fst) call res" where
  "scan_loop K 0 dirents dir_size name i namesb namess lfn_name unused s = Inl NoFuel"
| "scan_loop K (Suc f) dirents dir_size name i namesb namess lfn_name unused s =
     (let e = dirents + 32 * i in
      if \<not> in_dir i dir_size \<or> kmem s e = 0 then Inr (Ret (False, i, namesb, namess) s)
      else if kmem s e = 0xE5 then scan_loop K f dirents dir_size name (i + 1) namesb namess lfn_name (unused + 1) s
      else if de_attributes (kmem s) e = FAT_ATTR_LFN then
        bindR (lfn_collect K e lfn_name s) (\<lambda>(lfn_name, s). scan_loop K f dirents dir_size name (i + 1) namesb namess lfn_name unused s)
      else
        bindR (if lfn_name \<noteq> 0 then
                 bindR (the_res (strcmpnc (kmem s) lfn_name name)) (\<lambda>c.
                 bindR (free (kh K) lfn_name s) (\<lambda>s. Inr (c = 0, s)))
               else Inr (False, s)) (\<lambda>(same, s).
        if same then Inr (Ret (True, i, namesb, namess) s)
        else
          after (if unused \<noteq> 0 then kp K (Suc f) (''unused_entries that were there: %d'' @ newline) [unused] s else Inr (Returned s)) (\<lambda>s.
          let tc = kloc K; m = strncpy (memset (kmem s) tc 0 13) tc (de_name e) 8 in
          bindR (the_res (strncat m tc (lit s ''.'') 1)) (\<lambda>m.
          bindR (the_res (strncat m tc (de_extension e) 3)) (\<lambda>m.
          bindR (the_res (strcmpnc m tc name)) (\<lambda>c.
          if c = 0 then Inr (Ret (True, i, namesb, namess) (s\<lparr>kmem := m\<rparr>))
          else
            bindR (malloc (kh K) 8 (s\<lparr>kmem := store32 m namesb (de_name e)\<rparr>)) (\<lambda>(p, s).
            scan_loop K f dirents dir_size name (i + 1) p (namess + 1) 0 0 (s\<lparr>kmem := store32 (kmem s) (namesb + 4) p\<rparr>))))))))"

text \<open>The long name entries of a new file: the last part of the name comes first.\<close>

fun store_lfns :: "u32 \<Rightarrow> u32 \<Rightarrow> u8 \<Rightarrow> u32 \<Rightarrow> u32 \<Rightarrow> nat \<Rightarrow> mem \<Rightarrow> mem" where
  "store_lfns base name checksum needed j 0 m = m"
| "store_lfns base name checksum needed j (Suc n) m =
     (let e = base + 32 * j;
          off = (needed - j - 1) * 13;
          m = m(e := ucast (if j \<noteq> 0 then needed - j else needed OR 0x40), e + 11 := FAT_ATTR_LFN);
          m = (store16 m (e + 26) 0)(e + 13 := checksum);
          m = copy_wide m (e + 1) (name + off) 5;
          m = copy_wide m (e + 14) (name + off + 5) 6;
          m = copy_wide m (e + 28) (name + off + 11) 2
      in store_lfns base name checksum needed (j + 1) n m)"

definition upd_node :: "u32 \<Rightarrow> (fsnode \<Rightarrow> fsnode) \<Rightarrow> ('hw, 'a) fst \<Rightarrow> ('hw, 'a) fst res" where
  "upd_node a g s = bindR (the_obj (fsnodes s a)) (\<lambda>d. Inr (s\<lparr>fsnodes := (fsnodes s)(a \<mapsto> g d)\<rparr>))"

definition now_utc :: "('hw, 'a) fenv \<Rightarrow> ('hw, 'a) fst \<Rightarrow> (int \<times> ('hw, 'a) fst) res" where
  "now_utc K s = bindR (get_current_time_utc (malloc (kh K)) (kreg K) (cmos_flags s) s) (\<lambda>(now, fl, s). Inr (now, s\<lparr>cmos_flags := fl\<rparr>))"

definition dirent_attributes :: "u8 \<Rightarrow> u8" where
  "dirent_attributes a = (if a AND FILE_ATTR_HIDDEN \<noteq> 0 then FAT_ATTR_HIDDEN else 0) OR (if a AND FILE_ATTR_DIR \<noteq> 0 then FAT_ATTR_DIRECTORY else 0)"

text \<open>The 8.3 entry of a new file.\<close>

definition store_dirent :: "('hw, 'a) fenv \<Rightarrow> nat \<Rightarrow> u32 \<Rightarrow> u32 \<Rightarrow> u32 \<Rightarrow> u32 \<Rightarrow> u32 \<Rightarrow> ('hw, 'a) fst \<Rightarrow> ('hw, 'a) fst ctl res" where
  "store_dirent K f e file name names namess s =
     bindR (the_obj (fsnodes s file)) (\<lambda>x.
     bindR (the_obj (fatnodes s (fn_specific x))) (\<lambda>fspe.
     bindC (fat32fs_get_old_name K f (de_name e) (de_extension e) name names namess
       (s\<lparr>kmem := (kmem s)(e + 11 := dirent_attributes (fn_attributes x))\<rparr>)) (\<lambda>s.
     let m = store32 (kmem s) (e + 28) (ucast (fn_length x));
         m = store16 m (e + 26) (ucast (fat_cluster fspe));
         m = store16 m (e + 20) (ucast (drop_bit 16 (fat_cluster fspe))) in
     bindR (now_utc K (s\<lparr>kmem := m\<rparr>)) (\<lambda>(now, s).
     bindR (upd_node file (\<lambda>x. x\<lparr>fn_creation_time := now, fn_last_modification_time := now, fn_last_access_time := now\<rparr>) s) (\<lambda>s.
     bindR (store_times e now now now (kmem s)) (\<lambda>m. Inr (Returned (s\<lparr>kmem := m\<rparr>))))))))"

text \<open>Room behind the last entry: in the clusters there are, or in a new one.\<close>

definition make_room :: "('hw, 'a) fenv \<Rightarrow> nat \<Rightarrow> u32 \<Rightarrow> fat32fs_specific \<Rightarrow> u32 \<Rightarrow> u32 \<Rightarrow> u64 \<Rightarrow> u32 \<Rightarrow> u32 \<Rightarrow> ('hw, 'a) fst
    \<Rightarrow> (u32 \<times> u32 \<times> ('hw, 'a) fst) res" where
  "make_room K f fsa spe cluslist cluss dir_size dirents i s =
     (if in_dir i dir_size then Inr (cluss, dirents, s\<lparr>kmem := (kmem s)(dirents + 32 * (i + 1) := 0)\<rparr>)
      else
        bindR (fat32fs_gm_free_clusters f 1 fsa s) (\<lambda>(new_cluster, s).
        bindR (append_cluster K spe cluslist cluss new_cluster s) (\<lambda>s.
        bindR (realloc (kh K) dirents (ucast (dir_size + cluster_bytes spe s)) s) (\<lambda>(dirents, s).
        Inr (cluss + 1, dirents, s\<lparr>kmem := (kmem s)(dirents + 32 * (i + 1) := 0)\<rparr>)))))"

definition fat32fs_create_dirent :: "('hw, 'a) fenv \<Rightarrow> nat \<Rightarrow> u32 \<Rightarrow> u32 \<Rightarrow> u32 \<Rightarrow> ('hw, 'a) fst \<Rightarrow> (u32, ('hw, 'a) fst) call res" where
  "fat32fs_create_dirent K f file name dir s =
     bindR (the_obj (fsnodes s file)) (\<lambda>x.
     if fn_hard_links x \<noteq> 0 then Inr (Ret ERROR_FILE_FS_INTERNAL s)
     else
       bindR (the_obj (fsnodes s dir)) (\<lambda>d.
       let fsa = fn_file_system d in
       bindR (fat_of fsa s) (\<lambda>(y, spe).
       bindR (the_obj (fatnodes s (fn_specific d))) (\<lambda>dirspe.
       bindV (load_dir K f (fat_cluster dirspe) fsa s) (\<lambda>(cluslist, cluss, dir_size, dirents) s.
       bindR (malloc (kh K) 8 s) (\<lambda>(names, s).
       bindR (the_res (strlen (kmem s) name)) (\<lambda>name_len.
       let needed = (if name_len mod 13 \<noteq> 0 then name_len div 13 + 1 else name_len div 13) in
       bindV (scan_loop K f dirents dir_size name 0 names 0 0 0 s) (\<lambda>(taken, i, namesb, namess) s.
       if taken then
         bindR (free (kh K) dirents s) (\<lambda>s.
         bindR (list_free_eonly (free (kh K)) names namess s) (\<lambda>s.
         bindR (free (kh K) namesb s) (\<lambda>s.
         bindR (list_free (free (kh K)) cluslist cluss s) (\<lambda>s. Inr (Ret ERROR_FILE_NAME_ALREADY_EXISTS s)))))
       else
         bindR (free (kh K) namesb s) (\<lambda>s.
         bindR (make_room K f fsa spe cluslist cluss dir_size dirents (i + needed) s) (\<lambda>(cluss, dirents, s).
         let e = dirents + 32 * (i + needed) in
         after (store_dirent K f e file name names namess s) (\<lambda>s.
         bindR (list_free_eonly (free (kh K)) names namess s) (\<lambda>s.
         let s = s\<lparr>kmem := store_lfns (dirents + 32 * i) name (fat32fs_lfn_checksum (kmem s) e) needed 0 (unat needed) (kmem s)\<rparr> in
         after (write_dir_clusters K f spe (fs_drive y) (unat cluss) cluslist dirents s) (\<lambda>s.
         bindR (list_free (free (kh K)) cluslist cluss s) (\<lambda>s.
         bindR (free (kh K) dirents s) (\<lambda>s.
         bindV (fat32fs_write_fat K f fsa s) (\<lambda>_ s.
         bindR (upd_node file (\<lambda>x. x\<lparr>fn_hard_links := fn_hard_links x + 1\<rparr>) s) (\<lambda>s. Inr (Ret ERROR_NONE s))))))))))))))))))"

text \<open>
  The search for the entry of a file by its first cluster: only entries behind a long name are looked at. A match is returned together with
  the long name, which the caller frees.
\<close>

fun entry_loop :: "('hw, 'a) fenv \<Rightarrow> nat \<Rightarrow> u32 \<Rightarrow> u64 \<Rightarrow> u32 \<Rightarrow> u32 \<Rightarrow> u32 \<Rightarrow> ('hw, 'a) fst \<Rightarrow> (u32 \<times> u32 \<times> ('hw, 'a) fst) res" where
  "entry_loop K 0 dirents dir_size cluster i lfn_name s = Inl NoFuel"
| "entry_loop K (Suc f) dirents dir_size cluster i lfn_name s =
     (let e = dirents + 32 * i in
      if \<not> in_dir i dir_size \<or> kmem s e = 0 then Inr (0, lfn_name, s)
      else if kmem s e = 0xE5 then entry_loop K f dirents dir_size cluster (i + 1) lfn_name s
      else if de_attributes (kmem s) e = FAT_ATTR_LFN then
        bindR (lfn_collect K e lfn_name s) (\<lambda>(lfn_name, s). entry_loop K f dirents dir_size cluster (i + 1) lfn_name s)
      else if lfn_name \<noteq> 0 then
        if de_cluster (kmem s) e = cluster then Inr (e, lfn_name, s)
        else bindR (free (kh K) lfn_name s) (entry_loop K f dirents dir_size cluster (i + 1) 0)
      else entry_loop K f dirents dir_size cluster (i + 1) 0 s)"

definition set_flag :: "bool \<Rightarrow> u8 \<Rightarrow> u8 \<Rightarrow> u8" where
  "set_flag b flag a = (if b then a OR flag else a AND NOT flag)"

text \<open>The common frame of both changes: find the entry, change it, write the directory back.\<close>

definition change_dirent :: "('hw, 'a) fenv \<Rightarrow> nat \<Rightarrow> u32 \<Rightarrow> u32 \<Rightarrow> u32 \<Rightarrow> (u32 \<Rightarrow> u32 \<Rightarrow> ('hw, 'a) fst \<Rightarrow> ('hw, 'a) fst res) \<Rightarrow> ('hw, 'a) fst
    \<Rightarrow> (u32, ('hw, 'a) fst) call res" where
  "change_dirent K f fsa dir_cluster cluster change s =
     bindR (fat_of fsa s) (\<lambda>(y, spe).
     bindV (load_dir K f dir_cluster fsa s) (\<lambda>(cluslist, cluss, dir_size, dirents) s.
     bindR (entry_loop K f dirents dir_size cluster 0 0 s) (\<lambda>(e, lfn_name, s).
     if e = 0 then
       bindR (list_free (free (kh K)) cluslist cluss s) (\<lambda>s.
       bindR (free (kh K) dirents s) (\<lambda>s. Inr (Ret ERROR_FILE_NOT_FOUND s)))
     else
       bindR (change e lfn_name s) (\<lambda>s.
       bindR (free (kh K) lfn_name s) (\<lambda>s.
       after (write_dir_clusters K f spe (fs_drive y) (unat cluss) cluslist dirents s) (\<lambda>s.
       bindR (list_free (free (kh K)) cluslist cluss s) (\<lambda>s.
       bindR (free (kh K) dirents s) (\<lambda>s. Inr (Ret ERROR_NONE s)))))))))"

definition fat32fs_update_dirent :: "('hw, 'a) fenv \<Rightarrow> nat \<Rightarrow> u32 \<Rightarrow> ('hw, 'a) fst \<Rightarrow> (u32, ('hw, 'a) fst) call res" where
  "fat32fs_update_dirent K f file s =
     bindR (the_obj (fsnodes s file)) (\<lambda>x.
     bindR (the_obj (fatnodes s (fn_specific x))) (\<lambda>fspe.
     change_dirent K f (fn_file_system x) (fat_dir_cluster fspe) (fat_cluster fspe) (\<lambda>e lfn_name s.
       let m = store32 (kmem s) (e + 28) (ucast (fn_length x));
           m = m(e + 11 := set_flag (fn_attributes x AND FILE_ATTR_HIDDEN \<noteq> 0) FAT_ATTR_HIDDEN
                  (set_flag (fn_attributes x AND FILE_ATTR_DIR \<noteq> 0) FAT_ATTR_DIRECTORY (m (e + 11)))) in
       bindR (now_utc K (s\<lparr>kmem := m\<rparr>)) (\<lambda>(now, s).
       bindR (upd_node file (\<lambda>x. x\<lparr>fn_last_modification_time := now, fn_last_access_time := now\<rparr>) s) (\<lambda>s.
       bindR (store_times e (fn_creation_time x) now now (kmem s)) (\<lambda>m. Inr (s\<lparr>kmem := m\<rparr>))))) s))"

text \<open>The loop that should mark the long name entries marks the 8.3 entry again, once per 13 characters.\<close>

fun mark_loop :: "nat \<Rightarrow> u32 \<Rightarrow> u32 \<Rightarrow> mem \<Rightarrow> mem res" where
  "mark_loop 0 e nlen m = Inl NoFuel"
| "mark_loop (Suc f) e nlen m = (if nlen \<noteq> 0 then mark_loop f e (nlen - 13) (m(e := 0xE5)) else Inr m)"

definition fat32fs_delete_dirent :: "('hw, 'a) fenv \<Rightarrow> nat \<Rightarrow> u32 \<Rightarrow> u32 \<Rightarrow> ('hw, 'a) fst \<Rightarrow> (u32, ('hw, 'a) fst) call res" where
  "fat32fs_delete_dirent K f file dir s =
     bindR (the_obj (fsnodes s file)) (\<lambda>x.
     bindR (the_obj (fsnodes s dir)) (\<lambda>d.
     bindR (the_obj (fatnodes s (fn_specific d))) (\<lambda>dirspe.
     bindR (the_obj (fatnodes s (fn_specific x))) (\<lambda>fspe.
     change_dirent K f (fn_file_system x) (fat_cluster dirspe) (fat_cluster fspe) (\<lambda>e lfn_name s.
       let m = (kmem s)(e := 0xE5) in
       bindR (the_res (strlen m lfn_name)) (\<lambda>nlen.
       bindR (mark_loop f e (alignup nlen 13) m) (\<lambda>m. Inr (s\<lparr>kmem := m\<rparr>)))) s))))"

subsection \<open>Operations on files\<close>

definition fat32_write_file :: "('hw, 'a) fenv \<Rightarrow> nat \<Rightarrow> u32 \<Rightarrow> u32 \<Rightarrow> u64 \<Rightarrow> ('hw, 'a) fst \<Rightarrow> (u32, ('hw, 'a) fst) call res" where
  "fat32_write_file K f fda buffer count s =
     bindR (the_obj (fds s fda)) (\<lambda>x.
     bindR (the_obj (fsnodes s (fd_file x))) (\<lambda>file.
     bindR (the_obj (fatnodes s (fn_specific file))) (\<lambda>fspe.
     let fsa = fn_file_system file in
     bindR (fat_of fsa s) (\<lambda>(y, spe).
     bindV (fat32fs_get_cluster_chain K f (fat_cluster fspe) fsa s) (\<lambda>(cluslist, cluss) s.
     bindR (count_clusters f (cluster_bytes spe s) (fd_offset x) 0) (\<lambda>(offset, fclus_tw).
     bindR (count_clusters f (cluster_bytes spe s) count fclus_tw) (\<lambda>(rest, lclus_tw).
     bindV (if cluss < lclus_tw then
              let needed = (if lclus_tw - fclus_tw = 0 then 1 else lclus_tw - fclus_tw) in
              bindR (fat32fs_gm_free_clusters f needed fsa s) (\<lambda>(fnc, s).
              bindR (append_cluster K spe cluslist cluss fnc s) (\<lambda>s.
              bindV (fat32fs_write_fat K f fsa s) (\<lambda>_ s. Inr (Ret (cluss + 1) s))))
            else Inr (Ret cluss s)) (\<lambda>cluss s.
     after (write_file_loop K f spe (fs_drive y) (unat (lclus_tw - fclus_tw)) offset rest (nth_entry (kmem s) cluslist (unat fclus_tw)) buffer s) (\<lambda>s.
     bindR (list_free (free (kh K)) cluslist cluss s) (\<lambda>s.
     if fn_length file < count + fd_offset x then
       bindR (upd_node (fd_file x) (\<lambda>file. file\<lparr>fn_length := count + fd_offset x\<rparr>) s) (\<lambda>s.
       bindV (fat32fs_update_dirent K f (fd_file x) s) (\<lambda>_ s. Inr (Ret ERROR_NONE s)))
     else Inr (Ret ERROR_NONE s)))))))))))"

text \<open>The file and the directory are exchanged in both calls that create the new entry.\<close>

definition fat32_rename :: "('hw, 'a) fenv \<Rightarrow> nat \<Rightarrow> u32 \<Rightarrow> u32 \<Rightarrow> u32 \<Rightarrow> u32 \<Rightarrow> ('hw, 'a) fst \<Rightarrow> (u32, ('hw, 'a) fst) call res" where
  "fat32_rename K f src_file src_file_name new_file_name dir s =
     bindV (fat32fs_delete_dirent K f src_file dir s) (\<lambda>old_dirent s.
     if old_dirent \<noteq> ERROR_NONE then Inr (Ret old_dirent s)
     else
       bindV (fat32fs_create_dirent K f dir new_file_name src_file s) (\<lambda>new_dirent s.
       if new_dirent \<noteq> ERROR_NONE then
         bindV (fat32fs_create_dirent K f dir src_file_name src_file s) (\<lambda>_ s. Inr (Ret new_dirent s))
       else Inr (Ret ERROR_NONE s)))"

text \<open>
  Taking the nodes with the file's cluster out of the cache. The file's own record is among the ones freed, and is read again for the
  entries that follow.
\<close>

fun uncache_loop :: "('hw, 'a) fenv \<Rightarrow> nat \<Rightarrow> u32 \<Rightarrow> u32 \<Rightarrow> u32 \<Rightarrow> ('hw, 'a) fst \<Rightarrow> ('hw, 'a) fst res" where
  "uncache_loop K 0 fspe lst iptr s = Inr s"
| "uncache_loop K (Suc n) fspe lst iptr s =
     (if iptr = 0 then Inr s
      else
        let element = le_element (kmem s) iptr in
        bindR (the_obj (fsnodes s element)) (\<lambda>x.
        bindR (the_obj (fatnodes s (fn_specific x))) (\<lambda>spe.
        bindR (the_obj (fatnodes s fspe)) (\<lambda>g.
        bindR (if fat_cluster spe = fat_cluster g then
                 if lst = 0 then Inl BadPtr
                 else
                   bindR (free (kh K) (fn_specific x) (s\<lparr>kmem := store32 (kmem s) (lst + 4) (le_next (kmem s) iptr),
                     fatnodes := (fatnodes s)(fn_specific x := None)\<rparr>)) (\<lambda>s.
                   bindR (free (kh K) element (s\<lparr>fsnodes := (fsnodes s)(element := None)\<rparr>)) (free (kh K) iptr))
               else Inr s) (\<lambda>s.
        uncache_loop K n fspe iptr (le_next (kmem s) iptr) s)))))"

definition fat32_unlink :: "('hw, 'a) fenv \<Rightarrow> nat \<Rightarrow> u32 \<Rightarrow> u32 \<Rightarrow> ('hw, 'a) fst \<Rightarrow> (u32, ('hw, 'a) fst) call res" where
  "fat32_unlink K f file_name dir s =
     bindV (fat32_open K f dir file_name s) (\<lambda>file s.
     bindR (the_obj (fsnodes s file)) (\<lambda>x.
     bindV (fat32fs_delete_dirent K f file dir s) (\<lambda>err s.
     if err \<noteq> ERROR_NONE then Inr (Ret err s)
     else
       bindR (the_obj (fatnodes s (fn_specific x))) (\<lambda>fspe.
       bindV (fat32fs_free_cluster_chain K f (fat_cluster fspe) (fn_file_system x) s) (\<lambda>_ s.
       bindR (the_obj (fsystems s (fn_file_system x))) (\<lambda>y.
       bindR (uncache_loop K (unat (fs_inode_cache_size y)) (fn_specific x) 0 (fs_inode_cache y) s) (\<lambda>s. Inr (Ret ERROR_NONE s))))))))"

text \<open>The result of creating the entry is ignored; the times and the directory's cluster of the new node are what the memory held.\<close>

definition fat32_create_file :: "('hw, 'a) fenv \<Rightarrow> nat \<Rightarrow> u32 \<Rightarrow> u32 \<Rightarrow> u8 \<Rightarrow> ('hw, 'a) fst \<Rightarrow> (u32, ('hw, 'a) fst) call res" where
  "fat32_create_file K f dir name attributes s =
     bindR (the_obj (fsnodes s dir)) (\<lambda>d.
     let fsa = fn_file_system d in
     bindR (malloc (kh K) 36 s) (\<lambda>(file, s).
     let word = (\<lambda>k. sint (load32 (kmem s) (file + k))) in
     bindR (cache_add K fsa file s) (\<lambda>s.
     bindR (malloc (kh K) 8 s) (\<lambda>(specific, s).
     bindR (fat32fs_gm_free_clusters f 1 fsa s) (\<lambda>(cluster, s).
     let s = s\<lparr>fsnodes := (fsnodes s)(file \<mapsto> \<lparr>fn_file_system = fsa, fn_length = 0, fn_attributes = attributes, fn_hard_links = 0,
                 fn_creation_time = word 20, fn_last_access_time = word 24, fn_last_modification_time = word 28, fn_specific = specific\<rparr>),
               fatnodes := (fatnodes s)(specific \<mapsto> \<lparr>fat_cluster = cluster, fat_dir_cluster = load32 (kmem s) (specific + 4)\<rparr>)\<rparr> in
     bindV (fat32fs_create_dirent K f file name dir s) (\<lambda>_ s. Inr (Ret file s)))))))"

end
