(* ===== verification/VK_Iso.thy ===== *)
theory VK_Iso
  imports VK_Fat
begin

section \<open>The ISO 9660 file system (filesystem/iso\_9660.c)\<close>

text \<open>
  The read-only format of optical disks: a volume descriptor in sector 16, directories as runs of records of variable length, files as runs
  of sectors. The part of a node that belongs to this format is one word in byte memory, the first sector of the file.
\<close>

subsection \<open>Records\<close>

definition ISO9660_FLAG_HIDDEN :: u8 where "ISO9660_FLAG_HIDDEN = 1"
definition ISO9660_FLAG_DIR :: u8 where "ISO9660_FLAG_DIR = 2"
definition FS_FLAG_READ_ONLY :: u8 where "FS_FLAG_READ_ONLY = 2"

definition iso_length :: "mem \<Rightarrow> u32 \<Rightarrow> u8" where "iso_length m e = m e"
definition iso_extent_start :: "mem \<Rightarrow> u32 \<Rightarrow> u32" where "iso_extent_start m e = load32 m (e + 2)"
definition iso_extent_size :: "mem \<Rightarrow> u32 \<Rightarrow> u32" where "iso_extent_size m e = load32 m (e + 10)"
definition iso_flags :: "mem \<Rightarrow> u32 \<Rightarrow> u8" where "iso_flags m e = m (e + 25)"
definition iso_name_len :: "mem \<Rightarrow> u32 \<Rightarrow> u8" where "iso_name_len m e = m (e + 32)"
definition iso_name :: "u32 \<Rightarrow> u32" where "iso_name e = e + 33"

definition iso_record_time :: "mem \<Rightarrow> u32 \<Rightarrow> int" where
  "iso_record_time m e = convert_to_std_time (m (e + 23)) (m (e + 22)) (m (e + 21)) (m (e + 20)) (m (e + 19)) (m (e + 18))"

definition pvd_root_directory :: "u32 \<Rightarrow> u32" where "pvd_root_directory pvd = pvd + 156"

subsection \<open>Nodes\<close>

text \<open>The node in the cache whose part of the format begins with the word \<open>key\<close>.\<close>

fun node_find :: "nat \<Rightarrow> u32 \<Rightarrow> u32 \<Rightarrow> ('hw, 'a) fst \<Rightarrow> u32 res" where
  "node_find 0 iptr key s = Inr 0"
| "node_find (Suc n) iptr key s =
     (if iptr = 0 then Inr 0
      else
        let element = le_element (kmem s) iptr in
        bindR (the_obj (fsnodes s element)) (\<lambda>d.
        if load32 (kmem s) (fn_specific d) = key then Inr element else node_find n (le_next (kmem s) iptr) key s))"

definition iso9660_dirent_normalize_cache :: "('hw, 'a) fenv \<Rightarrow> u32 \<Rightarrow> u32 \<Rightarrow> ('hw, 'a) fst \<Rightarrow> (u32 \<times> ('hw, 'a) fst) res" where
  "iso9660_dirent_normalize_cache K dirent fsa s =
     bindR (the_obj (fsystems s fsa)) (\<lambda>y.
     bindR (node_find (unat (fs_inode_cache_size y)) (fs_inode_cache y) (iso_extent_start (kmem s) dirent) s) (\<lambda>found.
     if found \<noteq> 0 then Inr (found, s)
     else
       bindR (malloc (kh K) 36 s) (\<lambda>(node, s).
       let m = kmem s; created = iso_record_time m dirent;
           attributes = (if iso_flags m dirent AND ISO9660_FLAG_HIDDEN \<noteq> 0 then FILE_ATTR_HIDDEN else 0)
             OR (if iso_flags m dirent AND ISO9660_FLAG_DIR \<noteq> 0 then FILE_ATTR_DIR else 0) in
       bindR (malloc (kh K) 4 s) (\<lambda>(spe, s).
       let s = s\<lparr>kmem := store32 (kmem s) spe (iso_extent_start (kmem s) dirent),
                 fsnodes := (fsnodes s)(node \<mapsto> \<lparr>fn_file_system = fsa, fn_length = ucast (iso_extent_size m dirent), fn_attributes = attributes,
                   fn_hard_links = 1, fn_creation_time = created, fn_last_access_time = 0, fn_last_modification_time = created, fn_specific = spe\<rparr>)\<rparr> in
       bindR (cache_add K fsa node s) (\<lambda>s. Inr (node, s))))))"

subsection \<open>Mounting\<close>

text \<open>The result of the read is not looked at, nor is the descriptor's identifier; the partition of the new file system is what the memory held.\<close>

definition iso9660fs_init :: "('hw, 'a) fenv \<Rightarrow> nat \<Rightarrow> u32 \<Rightarrow> ('hw, 'a) fst \<Rightarrow> (u32, ('hw, 'a) fst) call res" where
  "iso9660fs_init K f drive s =
     bindR (malloc (kh K) 32 s) (\<lambda>(tr, s).
     let s = s\<lparr>fsystems := (fsystems s)(tr \<mapsto> \<lparr>fs_drive = drive, fs_partition = kmem s (tr + 4), fs_type = FS_TYPE_ISO9660,
                 fs_flags = FS_FLAG_CASE_INSENSITIVE OR FS_FLAG_READ_ONLY, fs_root_dir = load32 (kmem s) (tr + 8), fs_inode_cache = 0,
                 fs_cache_mutex = load32 (kmem s) (tr + 16), fs_inode_cache_size = 0, fs_specific = load32 (kmem s) (tr + 24)\<rparr>)\<rparr> in
     bindV (block_read_flexible K f 0x10 0 (kloc K) 2048 drive s) (\<lambda>_ s.
     bindR (iso9660_dirent_normalize_cache K (pvd_root_directory (kloc K)) tr s) (\<lambda>(node, s).
     bindR (upd_fs tr (\<lambda>y. y\<lparr>fs_root_dir := node\<rparr>) s) (\<lambda>s. Inr (Ret tr s)))))"

subsection \<open>Looking up, listing and reading\<close>

text \<open>The name of a record in a buffer of its own, without the version (\<open>;1\<close>) and without a dot at its end.\<close>

definition iso_plain_name :: "('hw, 'a) fenv \<Rightarrow> u32 \<Rightarrow> ('hw, 'a) fst \<Rightarrow> (u32 \<times> ('hw, 'a) fst) res" where
  "iso_plain_name K e s =
     (let n = iso_name_len (kmem s) e in
      bindR (malloc (kh K) (ucast n + 1) s) (\<lambda>(dname, s).
      let m = strncpy (kmem s) dname (iso_name e) (ucast n);
          m = (if 2 < n \<and> m (dname + ucast n - 2) = 59 then m(dname + ucast n - 2 := 0) else m) in
      if 1 < n then
        bindR (the_res (strlen m dname)) (\<lambda>len.
        Inr (dname, s\<lparr>kmem := if m (dname + len - 1) = 46 then m(dname + len - 1 := 0) else m\<rparr>))
      else Inr (dname, s\<lparr>kmem := m\<rparr>)))"

fun iso_open_loop :: "('hw, 'a) fenv \<Rightarrow> nat \<Rightarrow> u32 \<Rightarrow> u32 \<Rightarrow> u32 \<Rightarrow> ('hw, 'a) fst \<Rightarrow> (u32 \<times> ('hw, 'a) fst) res" where
  "iso_open_loop K 0 name offset len s = Inl NoFuel"
| "iso_open_loop K (Suc f) name offset len s =
     (if len = 0 then Inr (0, s)
      else if iso_length (kmem s) offset = 0 then iso_open_loop K f name (offset + 1) (len - 1) s
      else
        bindR (iso_plain_name K offset s) (\<lambda>(dname, s).
        bindR (the_res (strcmpnc (kmem s) dname name)) (\<lambda>c.
        if c = 0 then Inr (offset, s)
        else iso_open_loop K f name (offset + ucast (iso_length (kmem s) offset)) (len - ucast (iso_length (kmem s) offset)) s)))"

definition iso9660_open :: "('hw, 'a) fenv \<Rightarrow> nat \<Rightarrow> u32 \<Rightarrow> u32 \<Rightarrow> ('hw, 'a) fst \<Rightarrow> (u32, ('hw, 'a) fst) call res" where
  "iso9660_open K f dir name s =
     bindR (the_obj (fsnodes s dir)) (\<lambda>d.
     bindR (the_obj (fsystems s (fn_file_system d))) (\<lambda>y.
     let len = ucast (fn_length d) in
     bindR (malloc (kh K) len s) (\<lambda>(dirent_data, s).
     bindV (block_read_flexible K f (ucast (load32 (kmem s) (fn_specific d))) 0 dirent_data (ucast len) (fs_drive y) s) (\<lambda>err s.
     if err \<noteq> ERROR_NONE then Inr (Ret 0 s)
     else
       bindR (iso_open_loop K f name dirent_data len s) (\<lambda>(e, s).
       if e \<noteq> 0 then
         bindR (iso9660_dirent_normalize_cache K e (fn_file_system d) s) (\<lambda>(tr, s).
         bindR (free (kh K) dirent_data s) (\<lambda>s. Inr (Ret tr s)))
       else bindR (free (kh K) dirent_data s) (\<lambda>s. Inr (Ret 0 s)))))))"

text \<open>The record of the list for a directory record; the first two have no names of their own.\<close>

definition iso_dirent :: "('hw, 'a) fenv \<Rightarrow> u32 \<Rightarrow> u32 \<Rightarrow> ('hw, 'a) fst \<Rightarrow> (u32 \<times> ('hw, 'a) fst) res" where
  "iso_dirent K index e s =
     (let n = (if index = 0 then 1 else if index = 1 then 2 else ucast (iso_name_len (kmem s) e)) in
      bindR (malloc (kh K) (8 + n + 1) s) (\<lambda>(fd, s).
      bindR (if index = 0 then the_res (strcpy (kmem s) (fd + 8) (lit s ''.''))
             else if index = 1 then the_res (strcpy (kmem s) (fd + 8) (lit s ''..''))
             else Inr (strncpy (kmem s) (fd + 8) (iso_name e) n)) (\<lambda>m.
      let m = m(fd + 8 + n := 0);
          m = store32 m (fd + 4) n
      in Inr (fd, s\<lparr>kmem := store32 m fd (iso_extent_start m e)\<rparr>))))"

fun iso_list_loop :: "('hw, 'a) fenv \<Rightarrow> nat \<Rightarrow> u32 \<Rightarrow> u32 \<Rightarrow> u32 \<Rightarrow> u32 \<Rightarrow> ('hw, 'a) fst \<Rightarrow> (u32 \<times> u32 \<times> ('hw, 'a) fst) res" where
  "iso_list_loop K 0 offset len index ptr s = Inl NoFuel"
| "iso_list_loop K (Suc f) offset len index ptr s =
     (if len = 0 then Inr (ptr, index, s)
      else if iso_length (kmem s) offset = 0 then iso_list_loop K f (offset + 1) (len - 1) index ptr s
      else
        bindR (iso_dirent K index offset s) (\<lambda>(fd, s).
        bindR (malloc (kh K) 8 (s\<lparr>kmem := store32 (kmem s) ptr fd\<rparr>)) (\<lambda>(p, s).
        let s = s\<lparr>kmem := store32 (kmem s) (ptr + 4) p\<rparr>; n = ucast (iso_length (kmem s) offset) in
        iso_list_loop K f (offset + n) (len - n) (index + 1) p s)))"

definition iso9660_list_dir :: "('hw, 'a) fenv \<Rightarrow> nat \<Rightarrow> u32 \<Rightarrow> u32 \<Rightarrow> u32 \<Rightarrow> ('hw, 'a) fst \<Rightarrow> (u32 \<times> u32, ('hw, 'a) fst) call res" where
  "iso9660_list_dir K f dest dir sz s =
     bindR (the_obj (fsnodes s dir)) (\<lambda>d.
     bindR (the_obj (fsystems s (fn_file_system d))) (\<lambda>y.
     let len = ucast (fn_length d); lba = load32 (kmem s) (fn_specific d) in
     bindR (malloc (kh K) len s) (\<lambda>(dirent_data, s).
     bindV (block_read_flexible K f (ucast lba) 0 dirent_data (ucast len) (fs_drive y) s) (\<lambda>err s.
     if err \<noteq> ERROR_NONE then bindR (free (kh K) dirent_data s) (\<lambda>s. Inr (Ret (err, sz) s))
     else
       bindR (iso_list_loop K f dirent_data len 0 dest s) (\<lambda>(ptr, n, s).
       bindR (free (kh K) ptr s) (\<lambda>s.
       bindR (free (kh K) dirent_data s) (\<lambda>s. Inr (Ret (ERROR_NONE, n) s))))))))"

definition iso9660_read_file :: "('hw, 'a) fenv \<Rightarrow> nat \<Rightarrow> u32 \<Rightarrow> u32 \<Rightarrow> u64 \<Rightarrow> ('hw, 'a) fst \<Rightarrow> (u32, ('hw, 'a) fst) call res" where
  "iso9660_read_file K f fda buffer count s =
     bindR (the_obj (fds s fda)) (\<lambda>x.
     bindR (the_obj (fsnodes s (fd_file x))) (\<lambda>d.
     bindR (the_obj (fsystems s (fn_file_system d))) (\<lambda>y.
     block_read_flexible K f (ucast (load32 (kmem s) (fn_specific d))) (ucast (fd_offset x)) buffer count (fs_drive y) s)))"

end
