(* ===== verification/VK_Ext2.thy ===== *)
theory VK_Ext2
  imports VK_Iso
begin

section \<open>The ext2 file system (filesystem/ext2.c)\<close>

text \<open>
  The superblock, the block group descriptors, the inodes and the parts of nodes that belong to this format are in byte memory at the
  offsets of the C structures. Local structures live at fixed places behind \<open>kloc\<close>, disjoint for functions that call one another:
  descriptors of the allocation functions at 0, of the inode functions at 32, inodes at 64, those of a new file at 192 and 320, a new
  directory record at 352.
\<close>

subsection \<open>Structures\<close>

definition EXT2_ROFEATURE_SIZE_64 :: u32 where "EXT2_ROFEATURE_SIZE_64 = 0x2"
definition ERROR_FILE_SYSTEM_READ_ONLY :: u32 where "ERROR_FILE_SYSTEM_READ_ONLY = 11"
definition ERROR_FILE_CORRUPTED_FS :: u32 where "ERROR_FILE_CORRUPTED_FS = 18"

definition sb_blocks :: "mem \<Rightarrow> u32 \<Rightarrow> u32" where "sb_blocks m p = load32 m (p + 4)"
definition sb_superblock_number :: "mem \<Rightarrow> u32 \<Rightarrow> u32" where "sb_superblock_number m p = load32 m (p + 20)"
definition sb_block_size :: "mem \<Rightarrow> u32 \<Rightarrow> u32" where "sb_block_size m p = load32 m (p + 24)"
definition sb_blocks_per_blockgroup :: "mem \<Rightarrow> u32 \<Rightarrow> u32" where "sb_blocks_per_blockgroup m p = load32 m (p + 32)"
definition sb_inodes_per_blockgroup :: "mem \<Rightarrow> u32 \<Rightarrow> u32" where "sb_inodes_per_blockgroup m p = load32 m (p + 40)"
definition sb_signature :: "mem \<Rightarrow> u32 \<Rightarrow> u16" where "sb_signature m p = load16 m (p + 56)"
definition sb_version_major :: "mem \<Rightarrow> u32 \<Rightarrow> u32" where "sb_version_major m p = load32 m (p + 76)"
definition sb_inode_struct_size :: "mem \<Rightarrow> u32 \<Rightarrow> u16" where "sb_inode_struct_size m p = load16 m (p + 88)"
definition sb_required_features :: "mem \<Rightarrow> u32 \<Rightarrow> u32" where "sb_required_features m p = load32 m (p + 96)"
definition sb_read_only_features :: "mem \<Rightarrow> u32 \<Rightarrow> u32" where "sb_read_only_features m p = load32 m (p + 100)"

definition e2_superblock :: "mem \<Rightarrow> u32 \<Rightarrow> u32" where "e2_superblock m e = load32 m e"
definition e2_superblock_offset :: "mem \<Rightarrow> u32 \<Rightarrow> u32" where "e2_superblock_offset m e = load32 m (e + 4)"
definition e2_block_size :: "mem \<Rightarrow> u32 \<Rightarrow> u32" where "e2_block_size m e = load32 m (e + 8)"
definition e2_blockgroup_count :: "mem \<Rightarrow> u32 \<Rightarrow> u32" where "e2_blockgroup_count m e = load32 m (e + 12)"

definition bg_block_usage :: "mem \<Rightarrow> u32 \<Rightarrow> u32" where "bg_block_usage m p = load32 m p"
definition bg_inode_usage :: "mem \<Rightarrow> u32 \<Rightarrow> u32" where "bg_inode_usage m p = load32 m (p + 4)"
definition bg_starting_block :: "mem \<Rightarrow> u32 \<Rightarrow> u32" where "bg_starting_block m p = load32 m (p + 8)"

definition d2_inode :: "mem \<Rightarrow> u32 \<Rightarrow> u32" where "d2_inode m e = load32 m e"
definition d2_name_len :: "mem \<Rightarrow> u32 \<Rightarrow> u8" where "d2_name_len m e = m (e + 6)"
definition d2_name :: "u32 \<Rightarrow> u32" where "d2_name e = e + 8"

text \<open>The part of a node that belongs to ext2: its number and the fifteen block pointers.\<close>

definition n2_inode_nbr :: "mem \<Rightarrow> u32 \<Rightarrow> u32" where "n2_inode_nbr m p = load32 m p"
definition n2_pointers :: "u32 \<Rightarrow> u32" where "n2_pointers p = p + 4"
definition n2_singly :: "u32 \<Rightarrow> u32" where "n2_singly p = p + 52"
definition n2_doubly :: "u32 \<Rightarrow> u32" where "n2_doubly p = p + 56"
definition n2_triply :: "u32 \<Rightarrow> u32" where "n2_triply p = p + 60"

text \<open>The sector of a block, the sector of the descriptor table, and the room a directory record takes.\<close>

definition block_sector :: "mem \<Rightarrow> u32 \<Rightarrow> u32 \<Rightarrow> u64" where
  "block_sector m e block = ucast (e2_superblock_offset m e + block * (e2_block_size m e div 512))"

definition bgd_sector :: "mem \<Rightarrow> u32 \<Rightarrow> u64" where
  "bgd_sector m e = block_sector m e (if e2_block_size m e = 1024 then 2 else 1)"

definition record_room :: "mem \<Rightarrow> u32 \<Rightarrow> u32" where
  "record_room m d = 8 + alignup (ucast (d2_name_len m d)) 4"

definition ext2_of :: "u32 \<Rightarrow> ('hw, 'a) fst \<Rightarrow> (file_system \<times> u32) res" where
  "ext2_of fsa s = bindR (the_obj (fsystems s fsa)) (\<lambda>y. Inr (y, fs_specific y))"

text \<open>One block of the disk from or to memory, the result ignored.\<close>

definition read_block :: "('hw, 'a) fenv \<Rightarrow> nat \<Rightarrow> u32 \<Rightarrow> u32 \<Rightarrow> u32 \<Rightarrow> u32 \<Rightarrow> ('hw, 'a) fst \<Rightarrow> (u32, ('hw, 'a) fst) call res" where
  "read_block K f e drive block buffer s =
     block_read_flexible K f (block_sector (kmem s) e block) 0 buffer (ucast (e2_block_size (kmem s) e)) drive s"

definition write_block :: "('hw, 'a) fenv \<Rightarrow> nat \<Rightarrow> u32 \<Rightarrow> u32 \<Rightarrow> u32 \<Rightarrow> u32 \<Rightarrow> ('hw, 'a) fst \<Rightarrow> (u32, ('hw, 'a) fst) call res" where
  "write_block K f e drive block buffer s =
     block_write_flexible K f (block_sector (kmem s) e block) 0 buffer (ucast (e2_block_size (kmem s) e)) drive s"

subsection \<open>Bitmaps\<close>

fun zero_bit :: "u8 \<Rightarrow> u8 \<Rightarrow> nat \<Rightarrow> u8 option" where
  "zero_bit b j 0 = None"
| "zero_bit b j (Suc n) = (if b AND push_bit (unat j) 1 = 0 then Some j else zero_bit b (j + 1) n)"

fun mark_first_from :: "mem \<Rightarrow> u32 \<Rightarrow> u32 \<Rightarrow> nat \<Rightarrow> u32 \<times> mem" where
  "mark_first_from m bitmap i 0 = (- 1, m)"
| "mark_first_from m bitmap i (Suc n) =
     (case zero_bit (m (bitmap + i)) 0 8 of
        Some j \<Rightarrow> (i * 8 + ucast j, m(bitmap + i := m (bitmap + i) OR push_bit (unat j) 1))
      | None \<Rightarrow> mark_first_from m bitmap (i + 1) n)"

definition ext2_bitmap_mark_first_zero_bit :: "mem \<Rightarrow> u32 \<Rightarrow> u32 \<Rightarrow> u32 \<times> mem" where
  "ext2_bitmap_mark_first_zero_bit m bitmap len = mark_first_from m bitmap 0 (unat len)"

text \<open>\<^verbatim>\<open>&= (0 << inbit)\<close>: the whole byte becomes 0.\<close>

definition ext2_bitmap_mark_bit_free :: "mem \<Rightarrow> u32 \<Rightarrow> u32 \<Rightarrow> mem" where
  "ext2_bitmap_mark_bit_free m bitmap b =
     (let byte = b div 8; inbit = b mod 8 in m(bitmap + byte := m (bitmap + byte) AND push_bit (unat inbit) 0))"

subsection \<open>Allocation\<close>

text \<open>
  A block or an inode: the first zero bit in the bitmap of the first group that has one. The two functions differ in the bitmap
  (at \<open>usage\<close> in the descriptor), in the number that is returned and in the counters (at \<open>free_bg\<close> in the descriptor, at \<open>free_sb\<close> in the
  superblock) that go down. The bitmap's buffer is not freed on success.
\<close>

fun alloc_loop :: "('hw, 'a) fenv \<Rightarrow> nat \<Rightarrow> u32 \<Rightarrow> u32 \<Rightarrow> u32 \<Rightarrow> (u32 \<Rightarrow> u32 \<Rightarrow> mem \<Rightarrow> u32) \<Rightarrow> u32 \<Rightarrow> u32 \<Rightarrow> u32 \<Rightarrow> nat \<Rightarrow> ('hw, 'a) fst
    \<Rightarrow> (u32, ('hw, 'a) fst) call res" where
  "alloc_loop K f e drive usage number free_bg free_sb i 0 s = Inr (Ret 0 s)"
| "alloc_loop K f e drive usage number free_bg free_sb i (Suc n) s =
     bindV (block_read_flexible K f (bgd_sector (kmem s) e) (i * 32) (kloc K) 32 drive s) (\<lambda>_ s.
     bindR (malloc (kh K) (e2_block_size (kmem s) e) s) (\<lambda>(bitmap, s).
     bindV (read_block K f e drive (load32 (kmem s) (kloc K + usage)) bitmap s) (\<lambda>_ s.
     let (b, m) = ext2_bitmap_mark_first_zero_bit (kmem s) bitmap (e2_block_size (kmem s) e); s = s\<lparr>kmem := m\<rparr> in
     if b = - 1 then bindR (free (kh K) bitmap s) (alloc_loop K f e drive usage number free_bg free_sb (i + 1) n)
     else
       bindV (write_block K f e drive (load32 (kmem s) (kloc K + usage)) bitmap s) (\<lambda>_ s.
       let tr = number i b (kmem s);
           s = s\<lparr>kmem := store16 (kmem s) (kloc K + free_bg) (load16 (kmem s) (kloc K + free_bg) - 1)\<rparr> in
       bindV (block_write_flexible K f (bgd_sector (kmem s) e) (i * 32) (kloc K) 32 drive s) (\<lambda>_ s.
       let sb = e2_superblock (kmem s) e;
           s = s\<lparr>kmem := store32 (kmem s) (sb + free_sb) (load32 (kmem s) (sb + free_sb) - 1)\<rparr> in
       bindV (block_write_flexible K f (ucast (e2_superblock_offset (kmem s) e + 2)) 0 sb 236 drive s) (\<lambda>_ s. Inr (Ret tr s)))))))"

definition ext2_block_alloc :: "('hw, 'a) fenv \<Rightarrow> nat \<Rightarrow> u32 \<Rightarrow> ('hw, 'a) fst \<Rightarrow> (u32, ('hw, 'a) fst) call res" where
  "ext2_block_alloc K f fsa s =
     bindR (ext2_of fsa s) (\<lambda>(y, e).
     alloc_loop K f e (fs_drive y) 0
       (\<lambda>i b m. i * sb_blocks_per_blockgroup m (e2_superblock m e) + bg_starting_block m (kloc K) + b) 12 12 0
       (unat (e2_blockgroup_count (kmem s) e)) s)"

definition ext2_inode_alloc :: "('hw, 'a) fenv \<Rightarrow> nat \<Rightarrow> u32 \<Rightarrow> ('hw, 'a) fst \<Rightarrow> (u32, ('hw, 'a) fst) call res" where
  "ext2_inode_alloc K f fsa s =
     bindR (ext2_of fsa s) (\<lambda>(y, e).
     alloc_loop K f e (fs_drive y) 4
       (\<lambda>i b m. i * sb_inodes_per_blockgroup m (e2_superblock m e) + b + 1) 14 16 0
       (unat (e2_blockgroup_count (kmem s) e)) s)"

text \<open>Clearing the bit of a block or inode; a division by zero is a fault of the processor. The buffer is not freed.\<close>

definition clear_usage :: "('hw, 'a) fenv \<Rightarrow> nat \<Rightarrow> u32 \<Rightarrow> u32 \<Rightarrow> u32 \<Rightarrow> u32 \<Rightarrow> u32 \<Rightarrow> ('hw, 'a) fst \<Rightarrow> ('hw, 'a) fst ctl res" where
  "clear_usage K f e drive usage grp_nbr b s =
     dropped (bindV (block_read_flexible K f (bgd_sector (kmem s) e) (grp_nbr * 32) (kloc K) 32 drive s) (\<lambda>_ s.
     bindR (malloc (kh K) (e2_block_size (kmem s) e) s) (\<lambda>(bitmap, s).
     bindV (read_block K f e drive (load32 (kmem s) (kloc K + usage)) bitmap s) (\<lambda>_ s.
     write_block K f e drive (load32 (kmem s) (kloc K + usage)) bitmap (s\<lparr>kmem := ext2_bitmap_mark_bit_free (kmem s) bitmap b\<rparr>)))))"

definition ext2_block_free :: "('hw, 'a) fenv \<Rightarrow> nat \<Rightarrow> u32 \<Rightarrow> u32 \<Rightarrow> ('hw, 'a) fst \<Rightarrow> ('hw, 'a) fst ctl res" where
  "ext2_block_free K f block fsa s =
     bindR (ext2_of fsa s) (\<lambda>(y, e).
     let per = sb_blocks_per_blockgroup (kmem s) (e2_superblock (kmem s) e) in
     if per = 0 then Inl (Fatal ''division by zero'')
     else clear_usage K f e (fs_drive y) 0 (block div per) (block - block div per * per) s)"

subsection \<open>Inodes\<close>

definition inode_size :: "mem \<Rightarrow> u32 \<Rightarrow> u32" where
  "inode_size m e = (let sb = e2_superblock m e in if 1 \<le> sb_version_major m sb then ucast (sb_inode_struct_size m sb) else 128)"

text \<open>The descriptor of the inode's group to \<open>at\<close>, then what follows with the index of the inode in its table.\<close>

definition with_inode_group :: "('hw, 'a) fenv \<Rightarrow> nat \<Rightarrow> u32 \<Rightarrow> u32 \<Rightarrow> u32 \<Rightarrow> u32 \<Rightarrow> ('hw, 'a) fst \<Rightarrow> (u32 \<times> u32, ('hw, 'a) fst) call res" where
  "with_inode_group K f e drive dest inode s =
     (let per = sb_inodes_per_blockgroup (kmem s) (e2_superblock (kmem s) e); idx = (inode - 1) mod per * inode_size (kmem s) e in
      if per = 0 then Inl (Fatal ''division by zero'')
      else bindV (block_read_flexible K f (bgd_sector (kmem s) e) ((inode - 1) div per * 32) dest 32 drive s) (\<lambda>err s. Inr (Ret (err, idx) s)))"

text \<open>Whether the upper half of a file's length is kept.\<close>

definition long_sizes :: "mem \<Rightarrow> u32 \<Rightarrow> u8 \<Rightarrow> bool" where
  "long_sizes m e attributes \<longleftrightarrow> attributes AND FILE_ATTR_DIR = 0 \<and> 1 \<le> sb_version_major m (e2_superblock m e) \<and>
     sb_read_only_features m (e2_superblock m e) AND EXT2_ROFEATURE_SIZE_64 \<noteq> 0"

text \<open>The node of an inode that has been read to \<open>p\<close>.\<close>

definition inode_node :: "mem \<Rightarrow> u32 \<Rightarrow> u32 \<Rightarrow> u32 \<Rightarrow> u32 \<Rightarrow> fsnode" where
  "inode_node m e p fsa specific =
     (let attributes = (if drop_bit 12 (load16 m p) = 4 then FILE_ATTR_DIR else 0);
          low = ucast (load32 m (p + 4));
          len = (if long_sizes m e attributes then low OR push_bit 32 (ucast (load32 m (p + 108))) else low)
      in \<lparr>fn_file_system = fsa, fn_length = len, fn_attributes = attributes, fn_hard_links = ucast (load16 m (p + 26)),
           fn_creation_time = sint (load32 m (p + 12)), fn_last_access_time = sint (load32 m (p + 8)),
           fn_last_modification_time = sint (load32 m (p + 16)), fn_specific = specific\<rparr>)"

text \<open>The node goes to the end of the cache; the first entry's link is cleared.\<close>

definition ext2_cache_add :: "('hw, 'a) fenv \<Rightarrow> u32 \<Rightarrow> u32 \<Rightarrow> ('hw, 'a) fst \<Rightarrow> ('hw, 'a) fst res" where
  "ext2_cache_add K fsa node s =
     bindR (the_obj (fsystems s fsa)) (\<lambda>y.
     bindR (mutex_lock (fs_cache_mutex y) s) (\<lambda>(_, s).
     bindR (cache_add K fsa node s) (\<lambda>s.
     bindR (if fs_inode_cache y = 0 then
              bindR (the_obj (fsystems s fsa)) (\<lambda>y. Inr (s\<lparr>kmem := store32 (kmem s) (fs_inode_cache y + 4) 0\<rparr>))
            else Inr s) (\<lambda>s.
     bindR (mutex_unlock (kh K) (fs_cache_mutex y) s) (\<lambda>(_, s). Inr s)))))"

definition ext2_std_inode_read :: "('hw, 'a) fenv \<Rightarrow> nat \<Rightarrow> u32 \<Rightarrow> u32 \<Rightarrow> ('hw, 'a) fst \<Rightarrow> (u32, ('hw, 'a) fst) call res" where
  "ext2_std_inode_read K f inode fsa s =
     bindR (ext2_of fsa s) (\<lambda>(y, e).
     bindR (mtx (fs_cache_mutex y) s) (\<lambda>mx.
     after (if mx_owner mx \<noteq> 0 then mutex_wait (kh K) (fs_cache_mutex y) s else Inr (Returned s)) (\<lambda>s.
     bindR (the_obj (fsystems s fsa)) (\<lambda>y.
     bindR (node_find (unat (fs_inode_cache_size y)) (fs_inode_cache y) inode s) (\<lambda>found.
     if found \<noteq> 0 then Inr (Ret found s)
     else
       bindV (with_inode_group K f e (fs_drive y) (kloc K + 32) inode s) (\<lambda>(err, idx) s.
       if err \<noteq> ERROR_NONE then Inr (Ret 0 s)
       else
         bindV (block_read_flexible K f (block_sector (kmem s) e (bg_starting_block (kmem s) (kloc K + 32))) idx (kloc K + 64) 128 (fs_drive y) s) (\<lambda>err s.
         if err \<noteq> ERROR_NONE then Inr (Ret 0 s)
         else
           bindR (malloc (kh K) 36 s) (\<lambda>(node, s).
           bindR (malloc (kh K) 64 s) (\<lambda>(specific, s).
           let x = inode_node (kmem s) e (kloc K + 64) fsa specific;
               s = s\<lparr>kmem := memcpy (store32 (kmem s) specific inode) (n2_pointers specific) (kloc K + 104) 60,
                     fsnodes := (fsnodes s)(node \<mapsto> x)\<rparr> in
           bindR (ext2_cache_add K fsa node s) (\<lambda>s. Inr (Ret node s)))))))))))"

definition ext2_std_inode_write :: "('hw, 'a) fenv \<Rightarrow> nat \<Rightarrow> u32 \<Rightarrow> ('hw, 'a) fst \<Rightarrow> (u32, ('hw, 'a) fst) call res" where
  "ext2_std_inode_write K f node s =
     bindR (the_obj (fsnodes s node)) (\<lambda>x.
     bindR (ext2_of (fn_file_system x) s) (\<lambda>(y, e).
     let p = kloc K + 64 in
     bindV (with_inode_group K f e (fs_drive y) (kloc K + 32) (n2_inode_nbr (kmem s) (fn_specific x)) s) (\<lambda>(err, idx) s.
     if err \<noteq> ERROR_NONE then Inr (Ret err s)
     else
       bindV (block_read_flexible K f (block_sector (kmem s) e (bg_starting_block (kmem s) (kloc K + 32))) idx p 128 (fs_drive y) s) (\<lambda>err s.
       if err \<noteq> ERROR_NONE then Inr (Ret err s)
       else
         let m = store16 (kmem s) p (if fn_attributes x AND FILE_ATTR_DIR \<noteq> 0 then 0x4000 else 0);
             m = store32 m (p + 4) (ucast (fn_length x));
             m = (if long_sizes m e (fn_attributes x) then store32 m (p + 108) (ucast (drop_bit 32 (fn_length x))) else m);
             m = store32 m (p + 12) (word_of_int (fn_creation_time x));
             m = store32 m (p + 8) (word_of_int (fn_last_access_time x));
             m = store32 m (p + 16) (word_of_int (fn_last_modification_time x));
             m = memcpy m (p + 40) (n2_pointers (fn_specific x)) 60 in
         block_write_flexible K f (block_sector m e (bg_starting_block m (kloc K + 32))) idx p 128 (fs_drive y) (s\<lparr>kmem := m\<rparr>)))))"

subsection \<open>Reading the contents of an inode\<close>

text \<open>The array of requests: 16 bytes each, the first free one has sector 0. A block that continues a request lengthens it.\<close>

fun queue_read_from :: "nat \<Rightarrow> u32 \<Rightarrow> u32 \<Rightarrow> u32 \<Rightarrow> u32 \<Rightarrow> u32 \<Rightarrow> mem \<Rightarrow> mem res" where
  "queue_read_from 0 r sector count offset buffer m = Inl NoFuel"
| "queue_read_from (Suc f) r sector count offset buffer m =
     (if load32 m r \<noteq> 0 then
        if load32 m r = sector - load32 m (r + 4) div 512 \<and> load32 m (r + 12) = buffer - load32 m (r + 4)
        then Inr (store32 m (r + 4) (load32 m (r + 4) + count))
        else queue_read_from f (r + 16) sector count offset buffer m
      else Inr (store32 (store32 (store32 (store32 m r sector) (r + 4) count) (r + 8) offset) (r + 12) buffer))"

definition ext2_queue_read :: "nat \<Rightarrow> u32 \<Rightarrow> u32 \<Rightarrow> u32 \<Rightarrow> u32 \<Rightarrow> u32 \<Rightarrow> mem \<Rightarrow> mem res" where
  "ext2_queue_read f requests sector count offset buffer m = queue_read_from f requests sector count offset buffer m"

fun send_requests :: "('hw, 'a) fenv \<Rightarrow> nat \<Rightarrow> u32 \<Rightarrow> nat \<Rightarrow> u32 \<Rightarrow> ('hw, 'a) fst \<Rightarrow> (u32, ('hw, 'a) fst) call res" where
  "send_requests K f drive 0 r s = Inr (Ret ERROR_NONE s)"
| "send_requests K f drive (Suc n) r s =
     (if load32 (kmem s) r = 0 then Inr (Ret ERROR_NONE s)
      else
        let rd = (\<lambda>s. block_read_flexible K f (ucast (load32 (kmem s) r)) (load32 (kmem s) (r + 8)) (load32 (kmem s) (r + 12))
                   (ucast (load32 (kmem s) (r + 4))) drive s) in
        bindV (rd s) (\<lambda>err s.
        bindV (if err \<noteq> ERROR_NONE then rd s else Inr (Ret err s)) (\<lambda>err s.
        if err \<noteq> ERROR_NONE then Inr (Ret err s) else send_requests K f drive n (r + 16) s)))"

text \<open>How a run over a table of block pointers ends: with the request finished, failed, or with blocks left for the next table.\<close>

datatype run = Finished | Failed | Rest u32 u32 u32 u32

text \<open>
  The run over the pointers from index \<open>i\<close> of the table \<open>tab\<close>, \<open>n\<close> of them. The block is the pointer of the same index in \<open>src\<close>, which is the
  table itself but for the last level.
\<close>

fun read_run :: "('hw, 'a) fenv \<Rightarrow> nat \<Rightarrow> u32 \<Rightarrow> string \<Rightarrow> (u32 \<Rightarrow> u32 list) \<Rightarrow> u32 \<Rightarrow> u32 \<Rightarrow> u32 \<Rightarrow> u32 \<Rightarrow> nat \<Rightarrow> u32 \<Rightarrow> u32 \<Rightarrow> u32 \<Rightarrow> u32
    \<Rightarrow> ('hw, 'a) fst \<Rightarrow> (run, ('hw, 'a) fst) call res" where
  "read_run K f e msg args requests tab src i 0 offset sz loc buffer s = Inr (Ret (Rest i offset sz loc) s)"
| "read_run K f e msg args requests tab src i (Suc n) offset sz loc buffer s =
     (if load32 (kmem s) (tab + 4 * i) = 0 then after (kp K f (msg @ newline) (args i) s) (\<lambda>s. Inr (Ret Failed s))
      else
        let bs = e2_block_size (kmem s) e; sector = ucast (block_sector (kmem s) e (load32 (kmem s) (src + 4 * i))) in
        bindR (ext2_queue_read f requests sector (if bs \<le> sz then bs else sz) offset (buffer + loc) (kmem s)) (\<lambda>m.
        let s = s\<lparr>kmem := m\<rparr>; sz = (if bs \<le> sz then sz - bs else 0) in
        if sz = 0 then Inr (Ret Finished s)
        else read_run K f e msg args requests tab src (i + 1) n 0 sz (loc + bs) buffer s))"

text \<open>What all levels share: the file system's part, the drive, the array of requests with its length and the buffer.\<close>

record read_req =
  rr_ext2 :: u32
  rr_drive :: u32
  rr_requests :: u32
  rr_count :: u32
  rr_buffer :: u32

definition give_up :: "('hw, 'a) fenv \<Rightarrow> u32 list \<Rightarrow> u32 \<Rightarrow> ('hw, 'a) fst \<Rightarrow> (u32, ('hw, 'a) fst) call res" where
  "give_up K ps err s = bindR (free_all (kh K) ps s) (\<lambda>s. Inr (Ret err s))"

definition finish_read :: "('hw, 'a) fenv \<Rightarrow> nat \<Rightarrow> read_req \<Rightarrow> u32 list \<Rightarrow> ('hw, 'a) fst \<Rightarrow> (u32, ('hw, 'a) fst) call res" where
  "finish_read K f R ps s =
     bindR (free_all (kh K) ps s) (\<lambda>s.
     bindV (send_requests K f (rr_drive R) (unat (rr_count R)) (rr_requests R) s) (\<lambda>err s.
     bindR (free (kh K) (rr_requests R) s) (\<lambda>s. Inr (Ret err s))))"

text \<open>
  The block of pointers whose number is at \<open>pa\<close>, in a buffer of its own. A missing block and a failed read end the operation; the memory given up
  in either case is listed in the order of the code.
\<close>

definition with_table :: "('hw, 'a) fenv \<Rightarrow> nat \<Rightarrow> read_req \<Rightarrow> u32 \<Rightarrow> string \<Rightarrow> u32 list \<Rightarrow> (u32 \<Rightarrow> u32 list) \<Rightarrow>
    (u32 \<Rightarrow> ('hw, 'a) fst \<Rightarrow> (u32, ('hw, 'a) fst) call res) \<Rightarrow> ('hw, 'a) fst \<Rightarrow> (u32, ('hw, 'a) fst) call res" where
  "with_table K f R pa msg missing unread next s =
     (if load32 (kmem s) pa = 0 then after (kp K f (msg @ newline) [0b00000110] s) (give_up K missing ERROR_FILE_CORRUPTED_FS)
      else
        bindR (malloc (kh K) (e2_block_size (kmem s) (rr_ext2 R)) s) (\<lambda>(blk, s).
        bindV (read_block K f (rr_ext2 R) (rr_drive R) (load32 (kmem s) pa) blk s) (\<lambda>err s.
        if err \<noteq> ERROR_NONE then give_up K (unread blk) err s else next blk s)))"

definition ptrs_per_block :: "read_req \<Rightarrow> ('hw, 'a) fst \<Rightarrow> u32" where
  "ptrs_per_block R s = e2_block_size (kmem s) (rr_ext2 R) div 4"

text \<open>The run over a block of pointers, then one of the three ways on.\<close>

definition run_table :: "('hw, 'a) fenv \<Rightarrow> nat \<Rightarrow> read_req \<Rightarrow> string \<Rightarrow> u32 \<Rightarrow> u32 \<Rightarrow> u32 list \<Rightarrow> u32 list \<Rightarrow> u32 list \<Rightarrow>
    (u32 \<Rightarrow> u32 \<Rightarrow> u32 \<Rightarrow> u32 \<Rightarrow> ('hw, 'a) fst \<Rightarrow> (u32, ('hw, 'a) fst) call res) \<Rightarrow> u32 \<Rightarrow> u32 \<Rightarrow> u32 \<Rightarrow> u32
    \<Rightarrow> ('hw, 'a) fst \<Rightarrow> (u32, ('hw, 'a) fst) call res" where
  "run_table K f R msg tab src finished failed left next i offset sz loc s =
     bindV (read_run K f (rr_ext2 R) msg (\<lambda>_. [0b00000110]) (rr_requests R) tab src i (unat (ptrs_per_block R s) - unat i) offset sz loc (rr_buffer R) s) (\<lambda>r s.
     case r of
       Finished \<Rightarrow> finish_read K f R finished s
     | Failed \<Rightarrow> give_up K failed ERROR_FILE_CORRUPTED_FS s
     | Rest i offset sz loc \<Rightarrow> bindR (free_all (kh K) left s) (\<lambda>s. next (i - ptrs_per_block R s) offset sz loc s))"

text \<open>
  The last level. Its blocks of pointers are looked up with the index \<^verbatim>\<open>j\<close> that the loops before and inside leave at the number of pointers per
  block, behind the end of the table, and the data is read from the blocks of the first level, in a buffer that has been freed.
\<close>

fun triply_inner :: "('hw, 'a) fenv \<Rightarrow> nat \<Rightarrow> read_req \<Rightarrow> u32 \<Rightarrow> u32 \<Rightarrow> u32 \<Rightarrow>
    (u32 \<Rightarrow> u32 \<Rightarrow> u32 \<Rightarrow> u32 \<Rightarrow> ('hw, 'a) fst \<Rightarrow> (u32, ('hw, 'a) fst) call res) \<Rightarrow> u32 \<Rightarrow> nat \<Rightarrow> u32 \<Rightarrow> u32 \<Rightarrow> u32 \<Rightarrow> u32
    \<Rightarrow> ('hw, 'a) fst \<Rightarrow> (u32, ('hw, 'a) fst) call res" where
  "triply_inner K f R singly tib dib next j 0 i offset sz loc s = next i offset sz loc s"
| "triply_inner K f R singly tib dib next j (Suc n) i offset sz loc s =
     with_table K f R (dib + 4 * j) ''%v[WARNING] [SEVERE] EXT2 Filesystem might be corrupted (tip->dip->sip->0)''
       [tib, dib, rr_requests R] (\<lambda>sib. [tib, dib, sib, rr_requests R])
       (\<lambda>sib. run_table K f R ''%v[WARNING] [SEVERE] EXT2 Filesystem might be corrupted (tip->dip->sip->direct->0)'' sib singly
          [sib, dib, tib] [sib, dib, tib, rr_requests R] [sib]
          (triply_inner K f R singly tib dib next (j + 1) n) i offset sz loc) s"

fun triply_outer :: "('hw, 'a) fenv \<Rightarrow> nat \<Rightarrow> read_req \<Rightarrow> u32 \<Rightarrow> u32 \<Rightarrow> nat \<Rightarrow> u32 \<Rightarrow> u32 \<Rightarrow> u32 \<Rightarrow> u32 \<Rightarrow> ('hw, 'a) fst \<Rightarrow> (u32, ('hw, 'a) fst) call res" where
  "triply_outer K f R singly tib 0 i offset sz loc s = finish_read K f R [tib] s"
| "triply_outer K f R singly tib (Suc n) i offset sz loc s =
     with_table K f R (tib + 4 * ptrs_per_block R s)
       ''%v[WARNING] [SEVERE] EXT2 Filesystem might be corrupted (triply indirect pointer->doubly indirect pointer->0)''
       [tib, rr_requests R] (\<lambda>dib. [tib, dib, rr_requests R])
       (\<lambda>dib s. triply_inner K f R singly tib dib
          (\<lambda>i offset sz loc s. bindR (free (kh K) dib s) (triply_outer K f R singly tib n i offset sz loc))
          0 (unat (ptrs_per_block R s)) i offset sz loc s) s"

fun doubly_loop :: "('hw, 'a) fenv \<Rightarrow> nat \<Rightarrow> read_req \<Rightarrow> u32 \<Rightarrow>
    (u32 \<Rightarrow> u32 \<Rightarrow> u32 \<Rightarrow> u32 \<Rightarrow> ('hw, 'a) fst \<Rightarrow> (u32, ('hw, 'a) fst) call res) \<Rightarrow> u32 \<Rightarrow> nat \<Rightarrow> u32 \<Rightarrow> u32 \<Rightarrow> u32 \<Rightarrow> u32
    \<Rightarrow> ('hw, 'a) fst \<Rightarrow> (u32, ('hw, 'a) fst) call res" where
  "doubly_loop K f R dib next j 0 i offset sz loc s = bindR (free (kh K) dib s) (next i offset sz loc)"
| "doubly_loop K f R dib next j (Suc n) i offset sz loc s =
     with_table K f R (dib + 4 * j) ''%v[WARNING] [SEVERE] EXT2 Filesystem might be corrupted (doubly indirect pointer->singly indirect pointer->0)''
       [dib, rr_requests R] (\<lambda>sib. [sib, dib, rr_requests R])
       (\<lambda>sib. run_table K f R ''%v[WARNING] [SEVERE] EXT2 Filesystem might be corrupted (doubly->singly->direct->0)'' sib sib
          [sib, dib] [sib, dib, rr_requests R] [sib] (doubly_loop K f R dib next (j + 1) n) i offset sz loc) s"

text \<open>\<^verbatim>\<open>while(offset >= block_size)\<close>: the first block and the offset in it.\<close>

fun skip_blocks :: "nat \<Rightarrow> u32 \<Rightarrow> u32 \<Rightarrow> u32 \<Rightarrow> (u32 \<times> u32) res" where
  "skip_blocks 0 bs offset n = Inl NoFuel"
| "skip_blocks (Suc f) bs offset n = (if bs \<le> offset then skip_blocks f bs (offset - bs) (n + 1) else Inr (offset, n))"

definition read_indirect :: "('hw, 'a) fenv \<Rightarrow> nat \<Rightarrow> read_req \<Rightarrow> u32 \<Rightarrow> u32 \<Rightarrow> u32 \<Rightarrow> u32 \<Rightarrow> u32 \<Rightarrow> ('hw, 'a) fst \<Rightarrow> (u32, ('hw, 'a) fst) call res" where
  "read_indirect K f R inode i offset sz loc s =
     with_table K f R (n2_singly inode) ''%v[WARNING] [SEVERE] EXT2 Filesystem might be corrupted (singly indirect pointer->0)''
       [rr_requests R] (\<lambda>singly. [singly, rr_requests R])
       (\<lambda>singly. run_table K f R ''%v[WARNING] [SEVERE] EXT2 Filesystem might be corrupted (singly indirect pointer->direct block pointer->0)''
          singly singly [singly] [singly, rr_requests R] [singly]
          (\<lambda>i offset sz loc. with_table K f R (n2_doubly inode) ''%v[WARNING] [SEVERE] EXT2 Filesystem might be corrupted (doubly indirect pointer->0)''
             [rr_requests R] (\<lambda>dib. [dib, rr_requests R])
             (\<lambda>dib s. doubly_loop K f R dib
                (\<lambda>i offset sz loc. with_table K f R (n2_triply inode) ''%v[WARNING] [SEVERE] EXT2 Filesystem might be corrupted (triply indirect pointer->0)''
                   [rr_requests R] (\<lambda>tib. [tib, rr_requests R])
                   (\<lambda>tib s. triply_outer K f R singly tib (unat (ptrs_per_block R s)) i offset sz loc s))
                0 (unat (ptrs_per_block R s)) i offset sz loc s))
          i offset sz loc) s"

definition ext2_inode_read_content :: "('hw, 'a) fenv \<Rightarrow> nat \<Rightarrow> u32 \<Rightarrow> u32 \<Rightarrow> u32 \<Rightarrow> u32 \<Rightarrow> ('hw, 'a) fst \<Rightarrow> (u32, ('hw, 'a) fst) call res" where
  "ext2_inode_read_content K f node offset sz buffer s =
     bindR (the_obj (fsnodes s node)) (\<lambda>x.
     bindR (ext2_of (fn_file_system x) s) (\<lambda>(y, e).
     let inode = fn_specific x; bs = e2_block_size (kmem s) e in
     if fn_length x < ucast (sz + offset) then Inr (Ret ERROR_FILE_OUT s)
     else
       bindR (skip_blocks f bs offset 0) (\<lambda>(offset, first_block).
       let count = (sz + (if sz mod bs \<noteq> 0 then bs else 0)) div bs in
       bindR (malloc (kh K) (16 * count) s) (\<lambda>(requests, s).
       let s = s\<lparr>kmem := memset (kmem s) requests 0 (unat (16 * count))\<rparr>;
           R = \<lparr>rr_ext2 = e, rr_drive = fs_drive y, rr_requests = requests, rr_count = count, rr_buffer = buffer\<rparr> in
       bindV (read_run K f e ''%v[WARNING] [SEVERE] EXT2 Filesystem might be corrupted (direct block pointer %u ->0)'' (\<lambda>i. [0b00000110, i]) requests
         (n2_pointers inode) (n2_pointers inode) first_block (12 - unat first_block) offset sz 0 buffer s) (\<lambda>r s.
       case r of
         Finished \<Rightarrow> finish_read K f R [] s
       | Failed \<Rightarrow> give_up K [requests] ERROR_FILE_CORRUPTED_FS s
       | Rest i offset sz loc \<Rightarrow> read_indirect K f R inode (i - 12) offset sz loc s)))))"

subsection \<open>Writing the contents of an inode\<close>

record write_req =
  wr_ext2 :: u32
  wr_drive :: u32
  wr_fs :: u32
  wr_node :: u32
  wr_buffer :: u32

text \<open>A block for the pointer at \<open>pa\<close> when there is none: its number is stored at \<open>sa\<close>. The result is whether the disk had one.\<close>

definition provide_block :: "('hw, 'a) fenv \<Rightarrow> nat \<Rightarrow> write_req \<Rightarrow> u32 \<Rightarrow> u32 \<Rightarrow> ('hw, 'a) fst \<Rightarrow> (bool, ('hw, 'a) fst) call res" where
  "provide_block K f W pa sa s =
     (if load32 (kmem s) pa = 0 then
        bindV (ext2_block_alloc K f (wr_fs W) s) (\<lambda>block s.
        if block = 0 then Inr (Ret False s) else Inr (Ret True (s\<lparr>kmem := store32 (kmem s) sa block\<rparr>)))
      else Inr (Ret True s))"

text \<open>The run over a table; \<open>idx\<close> is the index at which a new block is stored (at the last level it is not that of the pointer).\<close>

fun write_run :: "('hw, 'a) fenv \<Rightarrow> nat \<Rightarrow> write_req \<Rightarrow> u32 \<Rightarrow> (u32 \<Rightarrow> u32) \<Rightarrow> u32 \<Rightarrow> nat \<Rightarrow> u32 \<Rightarrow> u32 \<Rightarrow> u32 \<Rightarrow> ('hw, 'a) fst \<Rightarrow> (run, ('hw, 'a) fst) call res" where
  "write_run K f W tab idx i 0 offset sz loc s = Inr (Ret (Rest i offset sz loc) s)"
| "write_run K f W tab idx i (Suc n) offset sz loc s =
     bindV (provide_block K f W (tab + 4 * i) (tab + 4 * idx i) s) (\<lambda>ok s.
     if \<not> ok then Inr (Ret Failed s)
     else
       let bs = e2_block_size (kmem s) (wr_ext2 W) in
       bindV (block_write_flexible K f (block_sector (kmem s) (wr_ext2 W) (load32 (kmem s) (tab + 4 * i))) offset (wr_buffer W + loc)
         (ucast (if bs \<le> sz then bs else sz)) (wr_drive W) s) (\<lambda>_ s.
       let sz = (if bs \<le> sz then sz - bs else 0) in
       if sz = 0 then Inr (Ret Finished s) else write_run K f W tab idx (i + 1) n 0 sz (loc + bs) s))"

text \<open>Writing tables back: pairs of the address of a block's number and the buffer.\<close>

fun flush_tables :: "('hw, 'a) fenv \<Rightarrow> nat \<Rightarrow> write_req \<Rightarrow> (u32 \<times> u32) list \<Rightarrow> ('hw, 'a) fst \<Rightarrow> ('hw, 'a) fst ctl res" where
  "flush_tables K f W [] s = Inr (Returned s)"
| "flush_tables K f W ((pa, buf) # ts) s =
     bindC (dropped (write_block K f (wr_ext2 W) (wr_drive W) (load32 (kmem s) pa) buf s)) (flush_tables K f W ts)"

definition finish_write :: "('hw, 'a) fenv \<Rightarrow> nat \<Rightarrow> write_req \<Rightarrow> (u32 \<times> u32) list \<Rightarrow> u32 list \<Rightarrow> ('hw, 'a) fst \<Rightarrow> (u32, ('hw, 'a) fst) call res" where
  "finish_write K f W ts ps s =
     after (flush_tables K f W ts s) (\<lambda>s. bindR (free_all (kh K) ps s) (ext2_std_inode_write K f (wr_node W)))"

definition ptrs_per_block_w :: "write_req \<Rightarrow> ('hw, 'a) fst \<Rightarrow> u32" where
  "ptrs_per_block_w W s = e2_block_size (kmem s) (wr_ext2 W) div 4"

text \<open>The buffer for a table of pointers: zeroed when its block is new, read from the disk otherwise. Without a free block the result is 1.\<close>

definition with_wtable :: "('hw, 'a) fenv \<Rightarrow> nat \<Rightarrow> write_req \<Rightarrow> u32 \<Rightarrow> u32 \<Rightarrow> u32 list \<Rightarrow> (u32 \<Rightarrow> ('hw, 'a) fst \<Rightarrow> (u32, ('hw, 'a) fst) call res)
    \<Rightarrow> ('hw, 'a) fst \<Rightarrow> (u32, ('hw, 'a) fst) call res" where
  "with_wtable K f W pa sa full next s =
     bindR (malloc (kh K) (e2_block_size (kmem s) (wr_ext2 W)) s) (\<lambda>(blk, s).
     if load32 (kmem s) pa = 0 then
       bindV (provide_block K f W pa sa s) (\<lambda>ok s.
       if \<not> ok then give_up K full 1 s
       else next blk (s\<lparr>kmem := memset (kmem s) blk 0 (unat (e2_block_size (kmem s) (wr_ext2 W)))\<rparr>))
     else bindV (read_block K f (wr_ext2 W) (wr_drive W) (load32 (kmem s) pa) blk s) (\<lambda>_ s. next blk s))"

definition run_wtable :: "('hw, 'a) fenv \<Rightarrow> nat \<Rightarrow> write_req \<Rightarrow> u32 \<Rightarrow> (u32 \<Rightarrow> u32) \<Rightarrow> (u32 \<times> u32) list \<Rightarrow> u32 list \<Rightarrow> u32 list \<Rightarrow> (u32 \<times> u32) list \<Rightarrow> u32 list \<Rightarrow>
    (u32 \<Rightarrow> u32 \<Rightarrow> u32 \<Rightarrow> u32 \<Rightarrow> ('hw, 'a) fst \<Rightarrow> (u32, ('hw, 'a) fst) call res) \<Rightarrow> u32 \<Rightarrow> u32 \<Rightarrow> u32 \<Rightarrow> u32
    \<Rightarrow> ('hw, 'a) fst \<Rightarrow> (u32, ('hw, 'a) fst) call res" where
  "run_wtable K f W tab idx done_ts done_ps full rest_ts rest_ps next i offset sz loc s =
     bindV (write_run K f W tab idx i (unat (ptrs_per_block_w W s) - unat i) offset sz loc s) (\<lambda>r s.
     case r of
       Finished \<Rightarrow> finish_write K f W done_ts done_ps s
     | Failed \<Rightarrow> give_up K full 1 s
     | Rest i offset sz loc \<Rightarrow>
         after (flush_tables K f W rest_ts s) (\<lambda>s.
         bindR (free_all (kh K) rest_ps s) (\<lambda>s. next (i - ptrs_per_block_w W s) offset sz loc s)))"

fun wtriply_inner :: "('hw, 'a) fenv \<Rightarrow> nat \<Rightarrow> write_req \<Rightarrow> u32 \<Rightarrow> u32 \<Rightarrow> u32 \<Rightarrow>
    (u32 \<Rightarrow> u32 \<Rightarrow> u32 \<Rightarrow> u32 \<Rightarrow> ('hw, 'a) fst \<Rightarrow> (u32, ('hw, 'a) fst) call res) \<Rightarrow> u32 \<Rightarrow> nat \<Rightarrow> u32 \<Rightarrow> u32 \<Rightarrow> u32 \<Rightarrow> u32
    \<Rightarrow> ('hw, 'a) fst \<Rightarrow> (u32, ('hw, 'a) fst) call res" where
  "wtriply_inner K f W inode tib dib next j 0 i offset sz loc s = next i offset sz loc s"
| "wtriply_inner K f W inode tib dib next j (Suc n) i offset sz loc s =
     with_wtable K f W (dib + 4 * j) (dib + 4 * j) []
       (\<lambda>sib. run_wtable K f W sib (\<lambda>_. j) [(dib + 4 * j, sib), (tib + 4 * j, dib), (n2_triply inode, tib)] [sib, dib, tib] [sib, dib, tib]
          [(dib + 4 * j, sib)] [sib] (wtriply_inner K f W inode tib dib next (j + 1) n) i offset sz loc) s"

fun wtriply_outer :: "('hw, 'a) fenv \<Rightarrow> nat \<Rightarrow> write_req \<Rightarrow> u32 \<Rightarrow> u32 \<Rightarrow> nat \<Rightarrow> u32 \<Rightarrow> u32 \<Rightarrow> u32 \<Rightarrow> u32 \<Rightarrow> ('hw, 'a) fst \<Rightarrow> (u32, ('hw, 'a) fst) call res" where
  "wtriply_outer K f W inode tib 0 i offset sz loc s = finish_write K f W [(n2_triply inode, tib)] [tib] s"
| "wtriply_outer K f W inode tib (Suc n) i offset sz loc s =
     (let pa = tib + 4 * ptrs_per_block_w W s in
      with_wtable K f W pa (n2_triply inode) []
        (\<lambda>dib s. wtriply_inner K f W inode tib dib
           (\<lambda>i offset sz loc s. after (flush_tables K f W [(pa, dib)] s) (\<lambda>s.
              bindR (free (kh K) dib s) (wtriply_outer K f W inode tib n i offset sz loc)))
           0 (unat (ptrs_per_block_w W s)) i offset sz loc s) s)"

fun wdoubly_loop :: "('hw, 'a) fenv \<Rightarrow> nat \<Rightarrow> write_req \<Rightarrow> u32 \<Rightarrow> u32 \<Rightarrow>
    (u32 \<Rightarrow> u32 \<Rightarrow> u32 \<Rightarrow> u32 \<Rightarrow> ('hw, 'a) fst \<Rightarrow> (u32, ('hw, 'a) fst) call res) \<Rightarrow> u32 \<Rightarrow> nat \<Rightarrow> u32 \<Rightarrow> u32 \<Rightarrow> u32 \<Rightarrow> u32
    \<Rightarrow> ('hw, 'a) fst \<Rightarrow> (u32, ('hw, 'a) fst) call res" where
  "wdoubly_loop K f W inode dib next j 0 i offset sz loc s =
     after (flush_tables K f W [(n2_doubly inode, dib)] s) (\<lambda>s. bindR (free (kh K) dib s) (next i offset sz loc))"
| "wdoubly_loop K f W inode dib next j (Suc n) i offset sz loc s =
     with_wtable K f W (dib + 4 * j) (dib + 4 * j) [dib]
       (\<lambda>sib. run_wtable K f W sib (\<lambda>i. i) [(dib + 4 * j, sib), (n2_doubly inode, dib)] [sib, dib] [dib, sib]
          [(dib + 4 * j, sib)] [sib] (wdoubly_loop K f W inode dib next (j + 1) n) i offset sz loc) s"

definition write_indirect :: "('hw, 'a) fenv \<Rightarrow> nat \<Rightarrow> write_req \<Rightarrow> u32 \<Rightarrow> u32 \<Rightarrow> u32 \<Rightarrow> u32 \<Rightarrow> u32 \<Rightarrow> ('hw, 'a) fst \<Rightarrow> (u32, ('hw, 'a) fst) call res" where
  "write_indirect K f W inode i offset sz loc s =
     with_wtable K f W (n2_singly inode) (n2_singly inode) []
       (\<lambda>singly. run_wtable K f W singly (\<lambda>i. i) [(n2_singly inode, singly)] [singly] [] [(n2_singly inode, singly)] [singly]
          (\<lambda>i offset sz loc. with_wtable K f W (n2_doubly inode) (n2_doubly inode) []
             (\<lambda>dib s. wdoubly_loop K f W inode dib
                (\<lambda>i offset sz loc. with_wtable K f W (n2_triply inode) (n2_triply inode) []
                   (\<lambda>tib s. wtriply_outer K f W inode tib (unat (ptrs_per_block_w W s)) i offset sz loc s))
                0 (unat (ptrs_per_block_w W s)) i offset sz loc s))
          i offset sz loc) s"

text \<open>The length grows before the test of the offset, which can therefore only fail for a write of nothing or one whose end wraps.\<close>

definition ext2_inode_write_content :: "('hw, 'a) fenv \<Rightarrow> nat \<Rightarrow> u32 \<Rightarrow> u32 \<Rightarrow> u32 \<Rightarrow> u32 \<Rightarrow> ('hw, 'a) fst \<Rightarrow> (u32, ('hw, 'a) fst) call res" where
  "ext2_inode_write_content K f node offset sz buffer s =
     bindR (the_obj (fsnodes s node)) (\<lambda>x.
     bindR (ext2_of (fn_file_system x) s) (\<lambda>(y, e).
     if fs_flags y AND FS_FLAG_READ_ONLY \<noteq> 0 then Inr (Ret ERROR_FILE_SYSTEM_READ_ONLY s)
     else
       let inode = fn_specific x;
           len = (if fn_length x < ucast (sz + offset) then ucast (sz + offset) else fn_length x);
           s = s\<lparr>fsnodes := (fsnodes s)(node \<mapsto> x\<lparr>fn_length := len\<rparr>)\<rparr>;
           W = \<lparr>wr_ext2 = e, wr_drive = fs_drive y, wr_fs = fn_file_system x, wr_node = node, wr_buffer = buffer\<rparr> in
       if len < ucast offset then Inr (Ret ERROR_FILE_OUT s)
       else
         bindR (skip_blocks f (e2_block_size (kmem s) e) offset 0) (\<lambda>(offset, first_block).
         bindV (write_run K f W (n2_pointers inode) (\<lambda>i. i) first_block (12 - unat first_block) offset sz 0 s) (\<lambda>r s.
         case r of
           Finished \<Rightarrow> ext2_std_inode_write K f node s
         | Failed \<Rightarrow> Inr (Ret 1 s)
         | Rest i offset sz loc \<Rightarrow> write_indirect K f W inode (i - 12) offset sz loc s))))"

subsection \<open>Directories\<close>

text \<open>
  The searches through the records. Each reads the whole directory first; the step from record to record is computed from the length of the name,
  not from the record's own size. In \<^verbatim>\<open>ext2_remove_dirent\<close> and \<^verbatim>\<open>ext2_create_dirent\<close> the length left over may wrap.
\<close>

fun ext2_list_loop :: "('hw, 'a) fenv \<Rightarrow> nat \<Rightarrow> u32 \<Rightarrow> u64 \<Rightarrow> u32 \<Rightarrow> u32 \<Rightarrow> ('hw, 'a) fst \<Rightarrow> (u32 \<times> u32 \<times> ('hw, 'a) fst) res" where
  "ext2_list_loop K 0 d len ptr n s = Inl NoFuel"
| "ext2_list_loop K (Suc f) d len ptr n s =
     (if len = 0 \<or> d2_inode (kmem s) d = 0 then Inr (ptr, n, s)
      else
        let name_len = ucast (d2_name_len (kmem s) d) in
        bindR (malloc (kh K) (8 + name_len + 1) s) (\<lambda>(fd, s).
        let m = strncpy (store32 (kmem s) (fd + 4) name_len) (fd + 8) (d2_name d) name_len;
            m = m(fd + 8 + name_len := 0);
            m = store32 (store32 m fd (d2_inode m d)) ptr fd in
        bindR (malloc (kh K) 8 (s\<lparr>kmem := m\<rparr>)) (\<lambda>(p, s).
        let s = s\<lparr>kmem := store32 (kmem s) (ptr + 4) p\<rparr>; room = record_room (kmem s) d in
        if len \<le> ucast room then Inr (p, n + 1, s)
        else ext2_list_loop K f (d + room) (len - ucast room) p (n + 1) s)))"

definition ext2_list_dir :: "('hw, 'a) fenv \<Rightarrow> nat \<Rightarrow> u32 \<Rightarrow> u32 \<Rightarrow> u32 \<Rightarrow> ('hw, 'a) fst \<Rightarrow> (u32 \<times> u32, ('hw, 'a) fst) call res" where
  "ext2_list_dir K f dest dir sz s =
     bindR (the_obj (fsnodes s dir)) (\<lambda>d.
     bindR (malloc (kh K) (ucast (fn_length d)) s) (\<lambda>(buffer, s).
     bindV (ext2_inode_read_content K f dir 0 (ucast (fn_length d)) buffer s) (\<lambda>err s.
     if err \<noteq> ERROR_NONE then Inr (Ret (err, sz) s)
     else
       bindR (ext2_list_loop K f buffer (fn_length d) dest 0 s) (\<lambda>(ptr, n, s).
       bindR (free (kh K) ptr s) (\<lambda>s.
       bindR (free (kh K) buffer s) (\<lambda>s. Inr (Ret (ERROR_NONE, n) s)))))))"

definition ext2_read_file :: "('hw, 'a) fenv \<Rightarrow> nat \<Rightarrow> u32 \<Rightarrow> u32 \<Rightarrow> u64 \<Rightarrow> ('hw, 'a) fst \<Rightarrow> (u32, ('hw, 'a) fst) call res" where
  "ext2_read_file K f fda buffer count s =
     (if 0xFFFFFFFF < count then Inr (Ret ERROR_FILE_OUT s)
      else bindR (the_obj (fds s fda)) (\<lambda>x. ext2_inode_read_content K f (fd_file x) (ucast (fd_offset x)) (ucast count) buffer s))"

definition ext2_write_file :: "('hw, 'a) fenv \<Rightarrow> nat \<Rightarrow> u32 \<Rightarrow> u32 \<Rightarrow> u64 \<Rightarrow> ('hw, 'a) fst \<Rightarrow> (u32, ('hw, 'a) fst) call res" where
  "ext2_write_file K f fda buffer count s =
     (if 0xFFFFFFFF < count then Inr (Ret ERROR_FILE_OUT s)
      else bindR (the_obj (fds s fda)) (\<lambda>x. ext2_inode_write_content K f (fd_file x) (ucast (fd_offset x)) (ucast count) buffer s))"

text \<open>A record matches when the wanted name is as long as the characters it has in common with the record's, which is not terminated.\<close>

fun ext2_find :: "nat \<Rightarrow> u32 \<Rightarrow> u32 \<Rightarrow> u32 \<Rightarrow> u64 \<Rightarrow> mem \<Rightarrow> u32 res" where
  "ext2_find 0 name name_len d len m = Inl NoFuel"
| "ext2_find (Suc f) name name_len d len m =
     (if len = 0 then Inr 0
      else
        bindR (if d2_inode m d \<noteq> 0 then the_res (strcfirst m (d2_name d) name) else Inr 0) (\<lambda>c.
        if d2_inode m d \<noteq> 0 \<and> ucast c = name_len then Inr d
        else if len < ucast (record_room m d) then Inr 0
        else ext2_find f name name_len (d + record_room m d) (len - ucast (record_room m d)) m))"

definition ext2_open :: "('hw, 'a) fenv \<Rightarrow> nat \<Rightarrow> u32 \<Rightarrow> u32 \<Rightarrow> ('hw, 'a) fst \<Rightarrow> (u32, ('hw, 'a) fst) call res" where
  "ext2_open K f dir name s =
     bindR (the_obj (fsnodes s dir)) (\<lambda>d.
     bindR (the_res (strlen (kmem s) name)) (\<lambda>name_len.
     bindR (malloc (kh K) (ucast (fn_length d)) s) (\<lambda>(buffer, s).
     let rd = ext2_inode_read_content K f dir 0 (ucast (fn_length d)) buffer in
     bindV (tried_again rd rd s) (\<lambda>err s.
     if err \<noteq> ERROR_NONE then Inr (Ret 0 s)
     else
       bindR (ext2_find f name name_len buffer (fn_length d) (kmem s)) (\<lambda>e.
       if e \<noteq> 0 then
         bindV (ext2_std_inode_read K f (d2_inode (kmem s) e) (fn_file_system d) s) (\<lambda>tr s.
         bindR (free (kh K) buffer s) (\<lambda>s. Inr (Ret tr s)))
       else bindR (free (kh K) buffer s) (\<lambda>s. Inr (Ret 0 s)))))))"

fun ext2_remove_find :: "nat \<Rightarrow> u32 \<Rightarrow> u32 \<Rightarrow> u64 \<Rightarrow> mem \<Rightarrow> (bool \<times> mem) res" where
  "ext2_remove_find 0 name d len m = Inl NoFuel"
| "ext2_remove_find (Suc f) name d len m =
     (if len = 0 then Inr (True, m)
      else if d2_inode m d = 0 then Inr (False, m)
      else
        let room = record_room m d in
        bindR (the_res (strcfirst m name (d2_name d))) (\<lambda>c.
        bindR (the_res (strlen m name)) (\<lambda>n.
        if ucast c = n then Inr (True, memcpy m d (d + room) (unat (ucast len - room)))
        else ext2_remove_find f name (d + room) (len - ucast room) m)))"

definition ext2_remove_dirent :: "('hw, 'a) fenv \<Rightarrow> nat \<Rightarrow> u32 \<Rightarrow> u32 \<Rightarrow> ('hw, 'a) fst \<Rightarrow> (u32, ('hw, 'a) fst) call res" where
  "ext2_remove_dirent K f name dir s =
     bindR (the_obj (fsnodes s dir)) (\<lambda>d.
     bindR (malloc (kh K) (ucast (fn_length d)) s) (\<lambda>(buffer, s).
     bindV (ext2_inode_read_content K f dir 0 (ucast (fn_length d)) buffer s) (\<lambda>err s.
     if err \<noteq> ERROR_NONE then bindR (free (kh K) buffer s) (\<lambda>s. Inr (Ret err s))
     else
       bindR (ext2_remove_find f name buffer (fn_length d) (kmem s)) (\<lambda>(found, m).
       let s = s\<lparr>kmem := m\<rparr> in
       if \<not> found then bindR (free (kh K) buffer s) (\<lambda>s. Inr (Ret ERROR_FILE_NOT_FOUND s))
       else
         bindV (ext2_inode_write_content K f dir 0 (ucast (fn_length d)) buffer s) (\<lambda>err s.
         bindR (free (kh K) buffer s) (\<lambda>s. Inr (Ret err s)))))))"

fun ext2_end_of_dir :: "nat \<Rightarrow> u32 \<Rightarrow> u32 \<Rightarrow> u64 \<Rightarrow> mem \<Rightarrow> u32 res" where
  "ext2_end_of_dir 0 buffer offset len m = Inl NoFuel"
| "ext2_end_of_dir (Suc f) buffer offset len m =
     (if len = 0 \<or> d2_inode m (buffer + offset) = 0 then Inr offset
      else
        let room = record_room m (buffer + offset)
        in ext2_end_of_dir f buffer (offset + room) (len - ucast room) m)"

text \<open>The local record has no room for the name: it is copied over what follows on the stack.\<close>

definition ext2_create_dirent :: "('hw, 'a) fenv \<Rightarrow> nat \<Rightarrow> u32 \<Rightarrow> u32 \<Rightarrow> u32 \<Rightarrow> ('hw, 'a) fst \<Rightarrow> (u32, ('hw, 'a) fst) call res" where
  "ext2_create_dirent K f inode name dir s =
     bindR (the_res (strlen (kmem s) name)) (\<lambda>n.
     let w = kloc K + 352; name_len = (ucast n :: u8); m = store32 (kmem s) w inode; m = m(w + 6 := name_len, w + 7 := 0) in
     bindR (the_res (strcpy m (d2_name w) name)) (\<lambda>m.
     let sz = alignup (8 + ucast name_len) 4; s = s\<lparr>kmem := store16 m (w + 4) (ucast sz)\<rparr> in
     bindR (the_obj (fsnodes s dir)) (\<lambda>d.
     bindR (malloc (kh K) (ucast (fn_length d)) s) (\<lambda>(buffer, s).
     bindV (ext2_inode_read_content K f dir 0 (ucast (fn_length d)) buffer s) (\<lambda>err s.
     if err \<noteq> ERROR_NONE then bindR (free (kh K) buffer s) (\<lambda>s. Inr (Ret err s))
     else
       bindR (ext2_end_of_dir f buffer 0 (fn_length d) (kmem s)) (\<lambda>offset.
       bindR (free (kh K) buffer s) (\<lambda>s.
       ext2_inode_write_content K f dir offset (ucast (load16 (kmem s) (w + 4))) w s)))))))"

subsection \<open>Freeing an inode\<close>

text \<open>The blocks whose numbers are at the given addresses.\<close>

fun free_blocks :: "('hw, 'a) fenv \<Rightarrow> nat \<Rightarrow> u32 \<Rightarrow> u32 list \<Rightarrow> ('hw, 'a) fst \<Rightarrow> ('hw, 'a) fst ctl res" where
  "free_blocks K f fsa [] s = Inr (Returned s)"
| "free_blocks K f fsa (pa # ps) s = bindC (ext2_block_free K f (load32 (kmem s) pa) fsa s) (free_blocks K f fsa ps)"

definition less_block :: "mem \<Rightarrow> u32 \<Rightarrow> u64 \<Rightarrow> u64" where
  "less_block m e sz = (let bs = ucast (e2_block_size m e) in if bs \<le> sz then sz - bs else 0)"

datatype free_run = Freed | Broken | Left u64

text \<open>
  The run over a table: at the first three levels the length left over is tested before a block is freed (\<open>early\<close>), at the last one after it.
\<close>

fun free_table :: "('hw, 'a) fenv \<Rightarrow> nat \<Rightarrow> u32 \<Rightarrow> u32 \<Rightarrow> bool \<Rightarrow> string \<Rightarrow> (u32 \<Rightarrow> u32 list) \<Rightarrow> u32 \<Rightarrow> u32 \<Rightarrow> nat \<Rightarrow> u64 \<Rightarrow> ('hw, 'a) fst
    \<Rightarrow> (free_run, ('hw, 'a) fst) call res" where
  "free_table K f fsa e early msg args tab i 0 sz s = Inr (Ret (Left sz) s)"
| "free_table K f fsa e early msg args tab i (Suc n) sz s =
     (if early \<and> sz = 0 then Inr (Ret Freed s)
      else if load32 (kmem s) (tab + 4 * i) = 0 then after (kp K f (msg @ newline) (args i) s) (\<lambda>s. Inr (Ret Broken s))
      else
        after (ext2_block_free K f (load32 (kmem s) (tab + 4 * i)) fsa s) (\<lambda>s.
        let sz = less_block (kmem s) e sz in
        if \<not> early \<and> sz = 0 then Inr (Ret Freed s) else free_table K f fsa e early msg args tab (i + 1) n sz s))"

text \<open>What the levels share: the file system, its part of ext2, the drive, and what follows when all blocks are freed.\<close>

record 's free_req =
  fr_fs :: u32
  fr_ext2 :: u32
  fr_drive :: u32
  fr_last :: "'s \<Rightarrow> 's ctl res"

definition with_ftable :: "('hw, 'a) fenv \<Rightarrow> nat \<Rightarrow> ('hw, 'a) fst free_req \<Rightarrow> u32 \<Rightarrow> string \<Rightarrow> u32 list \<Rightarrow> (u32 \<Rightarrow> ('hw, 'a) fst \<Rightarrow> ('hw, 'a) fst ctl res)
    \<Rightarrow> ('hw, 'a) fst \<Rightarrow> ('hw, 'a) fst ctl res" where
  "with_ftable K f F pa msg missing next s =
     (if load32 (kmem s) pa = 0 then bindC (kp K f (msg @ newline) [0b00000110] s) (\<lambda>s. returned (free_all (kh K) missing s))
      else
        bindR (malloc (kh K) (e2_block_size (kmem s) (fr_ext2 F)) s) (\<lambda>(blk, s).
        bindC (dropped (read_block K f (fr_ext2 F) (fr_drive F) (load32 (kmem s) pa) blk s)) (next blk)))"

text \<open>The run over a table; \<open>freed_ps\<close> and \<open>freed_bs\<close> are the buffers and then the blocks given back when nothing is left.\<close>

definition run_ftable :: "('hw, 'a) fenv \<Rightarrow> nat \<Rightarrow> ('hw, 'a) fst free_req \<Rightarrow> bool \<Rightarrow> string \<Rightarrow> u32 \<Rightarrow> u32 list \<Rightarrow> u32 list \<Rightarrow> u32 list \<Rightarrow>
    (u64 \<Rightarrow> ('hw, 'a) fst \<Rightarrow> ('hw, 'a) fst ctl res) \<Rightarrow> u64 \<Rightarrow> ('hw, 'a) fst \<Rightarrow> ('hw, 'a) fst ctl res" where
  "run_ftable K f F early msg tab freed_ps freed_bs broken next sz s =
     bindR (free_table K f (fr_fs F) (fr_ext2 F) early msg (\<lambda>_. [0b00000110]) tab 0 (unat (e2_block_size (kmem s) (fr_ext2 F) div 4)) sz s) (\<lambda>c.
     case c of Yield s \<Rightarrow> Inr (Switched s)
     | Ret r s \<Rightarrow>
         (case r of
            Freed \<Rightarrow> bindR (free_all (kh K) freed_ps s) (\<lambda>s. bindC (free_blocks K f (fr_fs F) freed_bs s) (fr_last F))
          | Broken \<Rightarrow> returned (free_all (kh K) broken s)
          | Left sz \<Rightarrow> next sz s))"

fun ftriply_inner :: "('hw, 'a) fenv \<Rightarrow> nat \<Rightarrow> ('hw, 'a) fst free_req \<Rightarrow> u32 \<Rightarrow> u32 \<Rightarrow> u32 \<Rightarrow> u32 \<Rightarrow> (u64 \<Rightarrow> ('hw, 'a) fst \<Rightarrow> ('hw, 'a) fst ctl res) \<Rightarrow> u32 \<Rightarrow> nat \<Rightarrow> u64
    \<Rightarrow> ('hw, 'a) fst \<Rightarrow> ('hw, 'a) fst ctl res" where
  "ftriply_inner K f F inode tib k dib next j 0 sz s = next sz s"
| "ftriply_inner K f F inode tib k dib next j (Suc n) sz s =
     with_ftable K f F (dib + 4 * j) ''%v[WARNING] [SEVERE] EXT2 Filesystem might be corrupted (tip->dip->sip->0)'' [tib, dib]
       (\<lambda>sib. run_ftable K f F False ''%v[WARNING] [SEVERE] EXT2 Filesystem might be corrupted (tip->dip->sip->direct->0)'' sib
          [sib, dib, tib] [dib + 4 * j, tib + 4 * k, n2_triply inode] [sib, dib, tib]
          (\<lambda>sz s. bindR (free (kh K) sib s) (\<lambda>s. bindC (free_blocks K f (fr_fs F) [dib + 4 * j] s) (ftriply_inner K f F inode tib k dib next (j + 1) n sz))) sz) s"

fun ftriply_outer :: "('hw, 'a) fenv \<Rightarrow> nat \<Rightarrow> ('hw, 'a) fst free_req \<Rightarrow> u32 \<Rightarrow> u32 \<Rightarrow> u32 \<Rightarrow> nat \<Rightarrow> u64 \<Rightarrow> ('hw, 'a) fst \<Rightarrow> ('hw, 'a) fst ctl res" where
  "ftriply_outer K f F inode tib k 0 sz s =
     bindR (free (kh K) tib s) (\<lambda>s. bindC (free_blocks K f (fr_fs F) [n2_triply inode] s) (fr_last F))"
| "ftriply_outer K f F inode tib k (Suc n) sz s =
     with_ftable K f F (tib + 4 * (e2_block_size (kmem s) (fr_ext2 F) div 4))
       ''%v[WARNING] [SEVERE] EXT2 Filesystem might be corrupted (triply indirect pointer->doubly indirect pointer->0)'' [tib]
       (\<lambda>dib s. ftriply_inner K f F inode tib k dib
          (\<lambda>sz s. bindR (free (kh K) dib s) (\<lambda>s. bindC (free_blocks K f (fr_fs F) [tib + 4 * k] s) (ftriply_outer K f F inode tib (k + 1) n sz)))
          0 (unat (e2_block_size (kmem s) (fr_ext2 F) div 4)) sz s) s"

fun fdoubly_loop :: "('hw, 'a) fenv \<Rightarrow> nat \<Rightarrow> ('hw, 'a) fst free_req \<Rightarrow> u32 \<Rightarrow> u32 \<Rightarrow> (u64 \<Rightarrow> ('hw, 'a) fst \<Rightarrow> ('hw, 'a) fst ctl res) \<Rightarrow> u32 \<Rightarrow> nat \<Rightarrow> u64
    \<Rightarrow> ('hw, 'a) fst \<Rightarrow> ('hw, 'a) fst ctl res" where
  "fdoubly_loop K f F inode dib next j 0 sz s =
     bindR (free (kh K) dib s) (\<lambda>s. bindC (free_blocks K f (fr_fs F) [n2_doubly inode] s) (next sz))"
| "fdoubly_loop K f F inode dib next j (Suc n) sz s =
     with_ftable K f F (dib + 4 * j) ''%v[WARNING] [SEVERE] EXT2 Filesystem might be corrupted (doubly indirect pointer->singly indirect pointer->0)'' [dib]
       (\<lambda>sib. run_ftable K f F True ''%v[WARNING] [SEVERE] EXT2 Filesystem might be corrupted (doubly->singly->direct->0)'' sib
          [sib, dib] [dib + 4 * j, n2_doubly inode] [sib, dib]
          (\<lambda>sz s. bindR (free (kh K) sib s) (\<lambda>s. bindC (free_blocks K f (fr_fs F) [dib + 4 * j] s) (fdoubly_loop K f F inode dib next (j + 1) n sz))) sz) s"

text \<open>
  After the second level the length left over is not tested: a file that ends exactly there is taken to go on at the third level.
\<close>

definition free_indirect :: "('hw, 'a) fenv \<Rightarrow> nat \<Rightarrow> ('hw, 'a) fst free_req \<Rightarrow> u32 \<Rightarrow> u64 \<Rightarrow> ('hw, 'a) fst \<Rightarrow> ('hw, 'a) fst ctl res" where
  "free_indirect K f F inode sz s =
     with_ftable K f F (n2_singly inode) ''%v[WARNING] [SEVERE] EXT2 Filesystem might be corrupted (singly indirect pointer->0)'' []
       (\<lambda>singly. run_ftable K f F True ''%v[WARNING] [SEVERE] EXT2 Filesystem might be corrupted (singly indirect pointer->direct block pointer->0)'' singly
          [singly] [n2_singly inode] [singly]
          (\<lambda>sz s. bindR (free (kh K) singly s) (\<lambda>s. bindC (free_blocks K f (fr_fs F) [n2_singly inode] s) (\<lambda>s.
             if sz = 0 then fr_last F s
             else
               with_ftable K f F (n2_doubly inode) ''%v[WARNING] [SEVERE] EXT2 Filesystem might be corrupted (doubly indirect pointer->0)'' []
                 (\<lambda>dib s. fdoubly_loop K f F inode dib
                    (\<lambda>sz. with_ftable K f F (n2_triply inode) ''%v[WARNING] [SEVERE] EXT2 Filesystem might be corrupted (triply indirect pointer->0)'' []
                       (\<lambda>tib s. ftriply_outer K f F inode tib 0 (unat (e2_block_size (kmem s) (fr_ext2 F) div 4)) sz s))
                    0 (unat (e2_block_size (kmem s) (fr_ext2 F) div 4)) sz s) s))) sz) s"

text \<open>Taking the node out of the cache; the first entry has no predecessor to change.\<close>

fun ext2_uncache :: "('hw, 'a) fenv \<Rightarrow> nat \<Rightarrow> u32 \<Rightarrow> u32 \<Rightarrow> u32 \<Rightarrow> u32 \<Rightarrow> ('hw, 'a) fst \<Rightarrow> ('hw, 'a) fst res" where
  "ext2_uncache K 0 fsa nbr lst iptr s = Inr s"
| "ext2_uncache K (Suc n) fsa nbr lst iptr s =
     (if iptr = 0 then Inr s
      else
        let element = le_element (kmem s) iptr in
        bindR (the_obj (fsnodes s element)) (\<lambda>x.
        if n2_inode_nbr (kmem s) (fn_specific x) = nbr then
          if lst = 0 then Inl BadPtr
          else
            bindR (free (kh K) (fn_specific x) (s\<lparr>kmem := store32 (kmem s) (lst + 4) (le_next (kmem s) iptr)\<rparr>)) (\<lambda>s.
            bindR (free (kh K) element (s\<lparr>fsnodes := (fsnodes s)(element := None)\<rparr>)) (\<lambda>s.
            bindR (free (kh K) iptr s) (upd_fs fsa (\<lambda>y. y\<lparr>fs_inode_cache_size := fs_inode_cache_size y - 1\<rparr>))))
        else ext2_uncache K n fsa nbr iptr (le_next (kmem s) iptr) s))"

definition free_inode :: "('hw, 'a) fenv \<Rightarrow> nat \<Rightarrow> u32 \<Rightarrow> u32 \<Rightarrow> u32 \<Rightarrow> u32 \<Rightarrow> ('hw, 'a) fst \<Rightarrow> ('hw, 'a) fst ctl res" where
  "free_inode K f fsa e drive nbr s =
     (let per = sb_inodes_per_blockgroup (kmem s) (e2_superblock (kmem s) e); grp_nbr = (nbr - 1) div per in
      if per = 0 then Inl (Fatal ''division by zero'')
      else
        bindC (clear_usage K f e drive 4 grp_nbr (nbr - 1 - grp_nbr * per) s) (\<lambda>s.
        bindR (the_obj (fsystems s fsa)) (\<lambda>y.
        bindR (mutex_lock (fs_cache_mutex y) s) (\<lambda>(_, s).
        bindR (ext2_uncache K (unat (fs_inode_cache_size y)) fsa nbr 0 (fs_inode_cache y) s) (\<lambda>s.
        bindR (mutex_unlock (kh K) (fs_cache_mutex y) s) (\<lambda>(_, s). Inr (Returned s)))))))"

definition ext2_inode_free :: "('hw, 'a) fenv \<Rightarrow> nat \<Rightarrow> u32 \<Rightarrow> ('hw, 'a) fst \<Rightarrow> ('hw, 'a) fst ctl res" where
  "ext2_inode_free K f node s =
     bindR (the_obj (fsnodes s node)) (\<lambda>x.
     let fsa = fn_file_system x; inode = fn_specific x in
     bindR (ext2_of fsa s) (\<lambda>(y, e).
     let F = \<lparr>fr_fs = fsa, fr_ext2 = e, fr_drive = fs_drive y, fr_last = free_inode K f fsa e (fs_drive y) (n2_inode_nbr (kmem s) inode)\<rparr> in
     bindR (free_table K f fsa e True ''%v[WARNING] [SEVERE] EXT2 Filesystem might be corrupted (direct block pointer %u ->0)'' (\<lambda>i. [0b00000110, i])
       (n2_pointers inode) 0 12 (fn_length x) s) (\<lambda>c.
     case c of Yield s \<Rightarrow> Inr (Switched s)
     | Ret r s \<Rightarrow>
         (case r of
            Freed \<Rightarrow> fr_last F s
          | Broken \<Rightarrow> Inr (Returned s)
          | Left sz \<Rightarrow> if sz = 0 then fr_last F s else free_indirect K f F inode sz s))))"

subsection \<open>Operations on files\<close>

definition ext2_unlink :: "('hw, 'a) fenv \<Rightarrow> nat \<Rightarrow> u32 \<Rightarrow> u32 \<Rightarrow> ('hw, 'a) fst \<Rightarrow> (u32, ('hw, 'a) fst) call res" where
  "ext2_unlink K f file_name dir s =
     bindV (ext2_open K f dir file_name s) (\<lambda>file s.
     if file = 0 then Inr (Ret ERROR_FILE_NOT_FOUND s)
     else
       bindV (ext2_remove_dirent K f file_name dir s) (\<lambda>err s.
       if err \<noteq> ERROR_NONE then Inr (Ret err s)
       else
         bindR (upd_node file (\<lambda>x. x\<lparr>fn_hard_links := fn_hard_links x - 1\<rparr>) s) (\<lambda>s.
         bindR (the_obj (fsnodes s file)) (\<lambda>x.
         after (if fn_hard_links x = 0 then ext2_inode_free K f file s else dropped (ext2_std_inode_write K f file s)) (\<lambda>s. Inr (Ret ERROR_NONE s))))))"

definition ext2_link :: "('hw, 'a) fenv \<Rightarrow> nat \<Rightarrow> u32 \<Rightarrow> u32 \<Rightarrow> u32 \<Rightarrow> ('hw, 'a) fst \<Rightarrow> (u32, ('hw, 'a) fst) call res" where
  "ext2_link K f src_file file_name dir s =
     bindR (the_obj (fsnodes s src_file)) (\<lambda>x.
     bindV (ext2_create_dirent K f (n2_inode_nbr (kmem s) (fn_specific x)) file_name dir s) (\<lambda>err s.
     if err \<noteq> ERROR_NONE then Inr (Ret err s)
     else
       bindR (upd_node src_file (\<lambda>x. x\<lparr>fn_hard_links := fn_hard_links x + 1\<rparr>) s) (\<lambda>s.
       bindV (ext2_std_inode_write K f src_file s) (\<lambda>_ s. Inr (Ret ERROR_NONE s)))))"

text \<open>The inode of a new file with its first block; the time of the last modification is not set.\<close>

definition new_inode :: "u32 \<Rightarrow> u8 \<Rightarrow> int \<Rightarrow> u32 \<Rightarrow> mem \<Rightarrow> mem" where
  "new_inode p attributes now block m =
     (let m = store16 m p (if attributes AND FILE_ATTR_DIR \<noteq> 0 then 0x4000 else 0x8000);
          m = store16 (store16 m (p + 2) 0) (p + 24) 0;
          m = store32 (store32 m (p + 8) (word_of_int now)) (p + 12) (word_of_int now);
          m = store32 (store32 m (p + 20) 0) (p + 4) 0;
          m = store16 m (p + 26) 1;
          m = store32 (store32 (store32 m (p + 28) 0) (p + 32) 0) (p + 36) 0
      in memset (store32 m (p + 40) block) (p + 44) 0 84)"

definition ext2_create_file :: "('hw, 'a) fenv \<Rightarrow> nat \<Rightarrow> u32 \<Rightarrow> u32 \<Rightarrow> u8 \<Rightarrow> ('hw, 'a) fst \<Rightarrow> (u32, ('hw, 'a) fst) call res" where
  "ext2_create_file K f dir name attributes s =
     bindR (the_obj (fsnodes s dir)) (\<lambda>d.
     let fsa = fn_file_system d; p = kloc K + 192 in
     bindR (ext2_of fsa s) (\<lambda>(y, e).
     if fs_flags y AND FS_FLAG_READ_ONLY \<noteq> 0 then Inr (Ret 0 s)
     else
       bindV (ext2_inode_alloc K f fsa s) (\<lambda>nbr s.
       if nbr = 0 then Inr (Ret 0 s)
       else
         bindR (now_utc K s) (\<lambda>(now, s).
         bindV (ext2_block_alloc K f fsa s) (\<lambda>block s.
         if block = 0 then Inr (Ret 0 s)
         else
           bindV (with_inode_group K f e (fs_drive y) (kloc K + 320) nbr (s\<lparr>kmem := new_inode p attributes now block (kmem s)\<rparr>)) (\<lambda>(err, idx) s.
           if err \<noteq> ERROR_NONE then Inr (Ret 0 s)
           else
             bindV (block_write_flexible K f (block_sector (kmem s) e (bg_starting_block (kmem s) (kloc K + 320))) idx p 128 (fs_drive y) s) (\<lambda>err s.
             if err \<noteq> ERROR_NONE then Inr (Ret 0 s)
             else
               bindV (ext2_create_dirent K f nbr name dir s) (\<lambda>err s.
               if err \<noteq> ERROR_NONE then Inr (Ret 0 s)
               else
                 bindV (ext2_std_inode_read K f nbr fsa s) (\<lambda>tr s.
                 if attributes AND FILE_ATTR_DIR \<noteq> 0 then
                   bindV (ext2_create_dirent K f nbr (lit s ''.'') tr s) (\<lambda>_ s.
                   bindV (ext2_create_dirent K f (n2_inode_nbr (kmem s) (fn_specific d)) (lit s ''..'') tr s) (\<lambda>_ s. Inr (Ret tr s)))
                 else Inr (Ret tr s))))))))))"

text \<open>\<^verbatim>\<open>(version_major >= 1) & required_features\<close> keeps the lowest bit of the features only.\<close>

definition ext2_init :: "('hw, 'a) fenv \<Rightarrow> nat \<Rightarrow> u32 \<Rightarrow> u8 \<Rightarrow> ('hw, 'a) fst \<Rightarrow> (u32, ('hw, 'a) fst) call res" where
  "ext2_init K f drive part s =
     bindR (if part \<noteq> 0 then
              bindR (the_obj (block_devs s drive)) (\<lambda>b.
              if unat part \<le> length (bd_partitions b) then
                bindR (the_obj (part_descs s (bd_partitions b ! (unat part - 1)))) (\<lambda>d. Inr (start_lba d))
              else Inl BadPtr)
            else Inr 0) (\<lambda>start_offset.
     bindR (malloc (kh K) 236 s) (\<lambda>(sb, s).
     bindV (block_read_flexible K f (ucast (start_offset + 2)) 0 sb 236 drive s) (\<lambda>_ s.
     if sb_signature (kmem s) sb \<noteq> 0xef53 \<or> 1 \<le> sb_version_major (kmem s) sb \<and> sb_required_features (kmem s) sb AND 1 \<noteq> 0 then
       bindR (free (kh K) sb s) (\<lambda>s. Inr (Ret 0 s))
     else
       bindR (malloc (kh K) 32 s) (\<lambda>(tr, s).
       bindR (malloc (kh K) 8 s) (\<lambda>(mx, s).
       bindR (malloc (kh K) 16 s) (\<lambda>(spe, s).
       let m = kmem s; per = sb_blocks_per_blockgroup m sb; n = sb_blocks m sb - sb_superblock_number m sb;
           m = store32 (store32 (store32 m spe sb) (spe + 4) start_offset) (spe + 8) (push_bit (unat (sb_block_size m sb)) 1024);
           m = store32 m (spe + 12) (n div per + (if n mod per \<noteq> 0 then 1 else 0)) in
       if per = 0 then Inl (Fatal ''division by zero'')
       else
         let s = s\<lparr>kmem := m, mutexes := (mutexes s)(mx \<mapsto> \<lparr>mx_owner = 0, mx_waiting = []\<rparr>),
                   fsystems := (fsystems s)(tr \<mapsto> \<lparr>fs_drive = drive, fs_partition = part, fs_type = FS_TYPE_EXT2,
                     fs_flags = (if sb_read_only_features (kmem s) sb AND 4 \<noteq> 0 then FS_FLAG_READ_ONLY else 0), fs_root_dir = load32 (kmem s) (tr + 8),
                     fs_inode_cache = 0, fs_cache_mutex = mx, fs_inode_cache_size = 0, fs_specific = spe\<rparr>)\<rparr> in
         bindV (ext2_std_inode_read K f 2 tr s) (\<lambda>root s.
         bindR (upd_fs tr (\<lambda>y. y\<lparr>fs_root_dir := root\<rparr>) s) (\<lambda>s. Inr (Ret tr s)))))))))"

end
