(* ===== verification/VK_Vfs.thy ===== *)
theory VK_Vfs
  imports VK_Ext2
begin

section \<open>The virtual file system (filesystem/vfs.c) and the rest of the device file system\<close>

text \<open>
  Mount points, opening by path, and the dispatch of every operation on a file to the driver of its file system. Opening for writing may
  create the file, and creating a file opens its directory for reading: the common part of both is \<open>open_with\<close>, which is given the function
  that creates a file; in the mode for reading that function is not called (\<open>open_with_reading\<close>).
\<close>

definition OPEN_MODE_R :: u8 where "OPEN_MODE_R = 0"
definition OPEN_MODE_W :: u8 where "OPEN_MODE_W = 1"
definition OPEN_MODE_A :: u8 where "OPEN_MODE_A = 2"
definition OPEN_MODE_RP :: u8 where "OPEN_MODE_RP = 3"
definition OPEN_MODE_WP :: u8 where "OPEN_MODE_WP = 4"
definition OPEN_MODE_AP :: u8 where "OPEN_MODE_AP = 5"
definition DIR_ATTR_MOUNTPOINT :: u8 where "DIR_ATTR_MOUNTPOINT = 3"

lemmas open_modes = OPEN_MODE_R_def OPEN_MODE_W_def OPEN_MODE_A_def OPEN_MODE_RP_def OPEN_MODE_WP_def OPEN_MODE_AP_def

subsection \<open>Detecting the format of a volume\<close>

definition part_at :: "u32 \<Rightarrow> nat \<Rightarrow> ('hw, 'a) fst \<Rightarrow> partition_descriptor res" where
  "part_at drive i s =
     bindR (the_obj (block_devs s drive)) (\<lambda>b.
     if i < length (bd_partitions b) then the_obj (part_descs s (bd_partitions b ! i)) else Inl BadPtr)"

definition starts_with :: "string \<Rightarrow> u32 \<Rightarrow> ('hw, 'a) fst \<Rightarrow> bool res" where
  "starts_with str p s = bindR (the_res (strcfirst (kmem s) (lit s str) p)) (\<lambda>c. Inr (c = of_nat (length str)))"

definition read_or_warn :: "('hw, 'a) fenv \<Rightarrow> nat \<Rightarrow> u64 \<Rightarrow> u32 \<Rightarrow> u64 \<Rightarrow> u32 \<Rightarrow> ('hw, 'a) fst \<Rightarrow> ('hw, 'a) fst ctl res" where
  "read_or_warn K f sector buffer count drive s =
     bindR (block_read_flexible K f sector 0 buffer count drive s) (\<lambda>c.
     case c of Yield s \<Rightarrow> Inr (Switched s)
     | Ret err s \<Rightarrow>
         if err \<noteq> ERROR_NONE then kp K f (''%lDisk failure during attempt to detect fs type...'' @ newline) [2] s else Inr (Returned s))"

definition detect_fs_type :: "('hw, 'a) fenv \<Rightarrow> nat \<Rightarrow> u32 \<Rightarrow> u8 \<Rightarrow> ('hw, 'a) fst \<Rightarrow> (u8, ('hw, 'a) fst) call res" where
  "detect_fs_type K f drive part s =
     (if drive = 0 then Inr (Ret 0 s)
      else
        bindR (if part \<noteq> 0 then bindR (part_at drive (unat part - 1) s) (\<lambda>d. Inr (if system_id d = 0 then None else Some (start_lba d)))
               else Inr (Some 0)) (\<lambda>start.
        case start of None \<Rightarrow> Inr (Ret 0 s)
        | Some offset \<Rightarrow>
            bindR (malloc (kh K) 2048 s) (\<lambda>(buff, s).
            bindR (malloc (kh K) 512 s) (\<lambda>(buff2, s).
            after (read_or_warn K f (ucast offset) buff 2048 drive s) (\<lambda>s.
            after (read_or_warn K f (ucast (offset + 0x10)) buff2 512 drive s) (\<lambda>s.
            bindR (if kmem s (buff + 66) = 0x28 \<or> kmem s (buff + 66) = 0x29 then starts_with ''FAT32'' (buff + 82) s else Inr False) (\<lambda>fat.
            bindR (if fat then Inr False else starts_with ''CD001'' (buff2 + 1) s) (\<lambda>iso.
            let ext = (kmem s (buff + 1080) = 0x53 \<and> kmem s (buff + 1081) = 0xef);
                t = (if fat then FS_TYPE_FAT32 else if iso then FS_TYPE_ISO9660 else if ext then FS_TYPE_EXT2 else 0) in
            after (if t = 0 then kp K f (''%lUnknown file system type.'' @ newline) [3] s else Inr (Returned s)) (\<lambda>s.
            bindR (free (kh K) buff s) (\<lambda>s.
            bindR (free (kh K) buff2 s) (\<lambda>s. Inr (Ret t s))))))))))))"

subsection \<open>Reading and writing\<close>

definition devfs_read_file :: "('hw, 'a) fenv \<Rightarrow> nat \<Rightarrow> u32 \<Rightarrow> u32 \<Rightarrow> u64 \<Rightarrow> ('hw, 'a) fst \<Rightarrow> (u32, ('hw, 'a) fst) call res" where
  "devfs_read_file K f fda buffer count s =
     bindR (the_obj (fds s fda)) (\<lambda>x.
     bindR (the_obj (fsnodes s (fd_file x))) (\<lambda>file.
     bindR (the_obj (devspecs s (fn_specific file))) (\<lambda>spe.
     let dev = device_struct spe in
     if device_type spe = DEVFS_TYPE_BLOCKDEV then block_read_flexible K f 0 (ucast (fd_offset x)) buffer count dev s
     else if device_type spe = DEVFS_TYPE_BLOCKDEV_PART then
       bindR (part_at dev (unat (device_info spe)) s) (\<lambda>d.
       block_read_flexible K f (ucast (start_lba d)) (ucast (fd_offset x)) buffer count dev s)
     else if device_type spe = DEVFS_TYPE_TTY then tty_read (kh K) f buffer (ucast count) dev s
     else if device_type spe = DEVFS_TYPE_IOSTREAM then iostream_read (kh K) f buffer (ucast count) dev s
     else Inr (Ret ERROR_FILE_FS_INTERNAL s))))"

definition devfs_write_file :: "('hw, 'a) fenv \<Rightarrow> nat \<Rightarrow> u32 \<Rightarrow> u32 \<Rightarrow> u64 \<Rightarrow> ('hw, 'a) fst \<Rightarrow> (u32, ('hw, 'a) fst) call res" where
  "devfs_write_file K f fda buffer count s =
     bindR (the_obj (fds s fda)) (\<lambda>x.
     bindR (the_obj (fsnodes s (fd_file x))) (\<lambda>file.
     bindR (the_obj (devspecs s (fn_specific file))) (\<lambda>spe.
     let dev = device_struct spe in
     if device_type spe = DEVFS_TYPE_BLOCKDEV then block_write_flexible K f 0 (ucast (fd_offset x)) buffer count dev s
     else if device_type spe = DEVFS_TYPE_BLOCKDEV_PART then
       bindR (part_at dev (unat (device_info spe)) s) (\<lambda>d.
       block_write_flexible K f (ucast (start_lba d)) (ucast (fd_offset x)) buffer count dev s)
     else if device_type spe = DEVFS_TYPE_TTY then tty_write (kh K) f buffer (ucast count) dev s
     else if device_type spe = DEVFS_TYPE_IOSTREAM then bindR (iostream_write (kh K) buffer (ucast count) dev s) (\<lambda>(err, s). Inr (Ret err s))
     else Inr (Ret ERROR_FILE_FS_INTERNAL s))))"

definition advance_fd :: "u32 \<Rightarrow> u64 \<Rightarrow> u32 \<Rightarrow> ('hw, 'a) fst \<Rightarrow> (u32, ('hw, 'a) fst) call res" where
  "advance_fd fda count err s =
     (if err = ERROR_NONE then
        bindR (the_obj (fds s fda)) (\<lambda>x. Inr (Ret err (s\<lparr>fds := (fds s)(fda \<mapsto> x\<lparr>fd_offset := fd_offset x + count\<rparr>)\<rparr>)))
      else Inr (Ret err s))"

definition driver_read :: "('hw, 'a) fenv \<Rightarrow> nat \<Rightarrow> u8 \<Rightarrow> u32 \<Rightarrow> u32 \<Rightarrow> u64 \<Rightarrow> ('hw, 'a) fst \<Rightarrow> (u32, ('hw, 'a) fst) call res" where
  "driver_read K f t fda buffer count s =
     (if t = FS_TYPE_FAT32 then fat32_read_file K f fda buffer count s
      else if t = FS_TYPE_ISO9660 then iso9660_read_file K f fda buffer count s
      else if t = FS_TYPE_EXT2 then ext2_read_file K f fda buffer count s
      else if t = FS_TYPE_DEVFS then devfs_read_file K f fda buffer count s
      else Inr (Ret ERROR_FILE_UNSUPPORTED_FILE_SYSTEM s))"

text \<open>A file of length 0 is a device, whose length is not known.\<close>

definition read_file :: "('hw, 'a) fenv \<Rightarrow> nat \<Rightarrow> u32 \<Rightarrow> u32 \<Rightarrow> u64 \<Rightarrow> ('hw, 'a) fst \<Rightarrow> (u32, ('hw, 'a) fst) call res" where
  "read_file K f fda buffer count s =
     bindR (the_obj (fds s fda)) (\<lambda>x.
     bindR (the_obj (fsnodes s (fd_file x))) (\<lambda>inode.
     let len = fn_length inode in
     if fn_attributes inode AND FILE_ATTR_DIR = FILE_ATTR_DIR then Inr (Ret ERROR_FILE_IS_DIRECTORY s)
     else if len \<noteq> 0 \<and> len \<le> fd_offset x then Inr (Ret ERROR_EOF (s\<lparr>kmem := (kmem s)(buffer := 0)\<rparr>))
     else
       let count = (if len \<noteq> 0 \<and> len < count + fd_offset x then len - fd_offset x else count) in
       if count = 0 then Inr (Ret ERROR_NONE (s\<lparr>kmem := (kmem s)(buffer := 0)\<rparr>))
       else
         bindR (the_obj (fsystems s (fn_file_system inode))) (\<lambda>y.
         bindV (driver_read K f (fs_type y) fda buffer count s) (advance_fd fda count))))"

definition write_file :: "('hw, 'a) fenv \<Rightarrow> nat \<Rightarrow> u32 \<Rightarrow> u32 \<Rightarrow> u64 \<Rightarrow> ('hw, 'a) fst \<Rightarrow> (u32, ('hw, 'a) fst) call res" where
  "write_file K f fda buffer count s =
     bindR (the_obj (fds s fda)) (\<lambda>x.
     bindR (the_obj (fsnodes s (fd_file x))) (\<lambda>inode.
     if fn_attributes inode AND FILE_ATTR_DIR = FILE_ATTR_DIR then Inr (Ret ERROR_FILE_IS_DIRECTORY s)
     else if count = 0 then Inr (Ret 0 s)
     else
       bindR (the_obj (fsystems s (fn_file_system inode))) (\<lambda>y.
       bindV (if fs_type y = FS_TYPE_FAT32 then fat32_write_file K f fda buffer count s
              else if fs_type y = FS_TYPE_DEVFS then devfs_write_file K f fda buffer count s
              else if fs_type y = FS_TYPE_EXT2 then ext2_write_file K f fda buffer count s
              else Inr (Ret ERROR_FILE_UNSUPPORTED_FILE_SYSTEM s)) (advance_fd fda count))))"

subsection \<open>Opening\<close>

definition driver_open :: "('hw, 'a) fenv \<Rightarrow> nat \<Rightarrow> u8 \<Rightarrow> u32 \<Rightarrow> u32 \<Rightarrow> ('hw, 'a) fst \<Rightarrow> (u32, ('hw, 'a) fst) call res" where
  "driver_open K f t node name s =
     (if t = FS_TYPE_FAT32 then fat32_open K f node name s
      else if t = FS_TYPE_EXT2 then ext2_open K f node name s
      else if t = FS_TYPE_ISO9660 then iso9660_open K f node name s
      else if t = FS_TYPE_DEVFS then bindR (devfs_open f node name s) (\<lambda>n. Inr (Ret n s))
      else Inr (Ret node s))"

text \<open>The walk along the pieces of a path.\<close>

fun walk_path :: "('hw, 'a) fenv \<Rightarrow> nat \<Rightarrow> u8 \<Rightarrow> nat \<Rightarrow> u32 \<Rightarrow> u32 \<Rightarrow> ('hw, 'a) fst \<Rightarrow> (u32, ('hw, 'a) fst) call res" where
  "walk_path K f t 0 spath node s = Inr (Ret 0 s)"
| "walk_path K f t (Suc n) spath node s =
     bindV (driver_open K f t node (load32 (kmem s) spath) s) (\<lambda>node s.
     if node = 0 then Inr (Ret 0 s)
     else if n = 0 then Inr (Ret node s)
     else
       bindR (the_obj (fsnodes s node)) (\<lambda>x.
       if fn_attributes x AND FILE_ATTR_DIR = 0 then Inr (Ret 0 s) else walk_path K f t n (spath + 4) node s))"

definition do_open_fs :: "('hw, 'a) fenv \<Rightarrow> nat \<Rightarrow> u32 \<Rightarrow> u32 \<Rightarrow> ('hw, 'a) fst \<Rightarrow> (u32, ('hw, 'a) fst) call res" where
  "do_open_fs K f path mp s =
     (let path = (if kmem s path = 47 then path + 1 else path) in
      bindR (strsplit (malloc (kh K)) f path 47 s) (\<lambda>(spath, split_size, s).
      bindR (the_obj (mount_points s mp)) (\<lambda>p.
      bindR (the_obj (fsystems s (mp_fs p))) (\<lambda>y.
      walk_path K f (fs_type y) (unat split_size) spath (fs_root_dir y) s))))"

text \<open>The mount point that has the most characters in common with the path, whether it is a prefix of it or not.\<close>

fun best_mount :: "nat \<Rightarrow> u32 \<Rightarrow> u32 \<Rightarrow> u16 \<Rightarrow> u32 \<Rightarrow> ('hw, 'a) fst \<Rightarrow> u32 res" where
  "best_mount 0 path best chars current s = Inr best"
| "best_mount (Suc n) path best chars current s =
     bindR (the_obj (mount_points s current)) (\<lambda>p.
     bindR (the_res (strcfirst (kmem s) (mp_path p) path)) (\<lambda>cc.
     if chars < cc then best_mount n path current cc (mp_next p) s else best_mount n path best chars (mp_next p) s))"

definition new_fd :: "('hw, 'a) fenv \<Rightarrow> u32 \<Rightarrow> ('hw, 'a) fst \<Rightarrow> (u32 \<times> ('hw, 'a) fst) res" where
  "new_fd K node s =
     bindR (malloc (kh K) 20 s) (\<lambda>(tr, s).
     Inr (tr, s\<lparr>fds := (fds s)(tr \<mapsto> \<lparr>fd_file = node, fd_offset = 0, fd_instances = 1, fd_path = load32 (kmem s) (tr + 16)\<rparr>)\<rparr>))"

definition upd_fd :: "u32 \<Rightarrow> (fd \<Rightarrow> fd) \<Rightarrow> ('hw, 'a) fst \<Rightarrow> ('hw, 'a) fst res" where
  "upd_fd a g s = bindR (the_obj (fds s a)) (\<lambda>x. Inr (s\<lparr>fds := (fds s)(a \<mapsto> g x)\<rparr>))"

definition flength :: "u32 \<Rightarrow> ('hw, 'a) fst \<Rightarrow> u64 res" where
  "flength fda s = bindR (the_obj (fds s fda)) (\<lambda>x. bindR (the_obj (fsnodes s (fd_file x))) (\<lambda>d. Inr (fn_length d)))"

text \<open>What the mode asks for once the descriptor is there: truncating by writing zeros, or moving to the end.\<close>

definition open_truncated :: "('hw, 'a) fenv \<Rightarrow> nat \<Rightarrow> u8 \<Rightarrow> u32 \<Rightarrow> ('hw, 'a) fst \<Rightarrow> (u32, ('hw, 'a) fst) call res" where
  "open_truncated K f mode tr s =
     bindR (flength tr s) (\<lambda>len.
     if mode = OPEN_MODE_W \<or> mode = OPEN_MODE_WP then
       bindR (malloc (kh K) (ucast len) s) (\<lambda>(zero, s).
       bindV (write_file K f tr zero len (s\<lparr>kmem := memset (kmem s) zero 0 (unat (ucast len :: u32))\<rparr>)) (\<lambda>_ s.
       bindR (the_obj (fds s tr)) (\<lambda>x.
       bindR (upd_node (fd_file x) (\<lambda>d. d\<lparr>fn_length := 0\<rparr>) s) (\<lambda>s. Inr (Ret tr s)))))
     else if mode = OPEN_MODE_A \<or> mode = OPEN_MODE_AP then
       bindR (upd_fd tr (\<lambda>x. x\<lparr>fd_offset := len\<rparr>) s) (\<lambda>s. Inr (Ret tr s))
     else Inr (Ret tr s))"

definition open_with :: "('hw, 'a) fenv \<Rightarrow> nat \<Rightarrow> (u32 \<Rightarrow> u8 \<Rightarrow> ('hw, 'a) fst \<Rightarrow> (u32, ('hw, 'a) fst) call res) \<Rightarrow> u32 \<Rightarrow> u8 \<Rightarrow> ('hw, 'a) fst
    \<Rightarrow> (u32, ('hw, 'a) fst) call res" where
  "open_with K f create path mode s =
     bindR (the_res (strlen (kmem s) path)) (\<lambda>path_len.
     let at_root = (\<lambda>mp s. bindR (the_obj (mount_points s mp)) (\<lambda>p. bindR (the_obj (fsystems s (mp_fs p))) (\<lambda>y.
           bindR (new_fd K (fs_root_dir y) s) (\<lambda>(tr, s). Inr (Ret tr s)))));
         reading = (mode = OPEN_MODE_R \<or> mode = OPEN_MODE_RP) in
     if kmem s path = 47 \<and> path_len = 1 then at_root (root_point s) s
     else
       bindR (best_mount (unat (current_mount_points s)) path (root_point s) 0 (root_point s) s) (\<lambda>best.
       bindR (the_obj (mount_points s best)) (\<lambda>b.
       bindR (the_res (strcmp (kmem s) path (mp_path b))) (\<lambda>c.
       if c = 0 then at_root best s
       else
         bindR (the_res (strlen (kmem s) (mp_path b))) (\<lambda>n.
         bindV (do_open_fs K f (path + n) best s) (\<lambda>node s.
         if node = 0 \<and> reading then Inr (Ret 0 s)
         else
           bindR (new_fd K node s) (\<lambda>(tr, s).
           bindR (malloc (kh K) (path_len + 1) s) (\<lambda>(p, s).
           bindR (upd_fd tr (\<lambda>x. x\<lparr>fd_path := p\<rparr>) (s\<lparr>kmem := (strncpy (kmem s) p path path_len)(p + path_len := 0)\<rparr>)) (\<lambda>s.
           if reading then Inr (Ret tr s)
           else
             bindV (if node = 0 then create path 0 s else Inr (Ret node s)) (\<lambda>file s.
             if file = 0 then bindR (free (kh K) tr (s\<lparr>fds := (fds s)(tr := None)\<rparr>)) (\<lambda>s. Inr (Ret 0 s))
             else bindR (upd_fd tr (\<lambda>x. x\<lparr>fd_file := file\<rparr>) s) (open_truncated K f mode tr)))))))))))"

definition close_file :: "('hw, 'a) fenv \<Rightarrow> u32 \<Rightarrow> ('hw, 'a) fst \<Rightarrow> ('hw, 'a) fst res" where
  "close_file K fda s =
     bindR (the_obj (fds s fda)) (\<lambda>x.
     if fd_instances x = 1 then free (kh K) fda (s\<lparr>fds := (fds s)(fda := None)\<rparr>)
     else Inr (s\<lparr>fds := (fds s)(fda \<mapsto> x\<lparr>fd_instances := fd_instances x - 1\<rparr>)\<rparr>))"

definition open_reading :: "('hw, 'a) fenv \<Rightarrow> nat \<Rightarrow> u32 \<Rightarrow> ('hw, 'a) fst \<Rightarrow> (u32, ('hw, 'a) fst) call res" where
  "open_reading K f path s = open_with K f (\<lambda>_ _ s. Inr (Ret 0 s)) path OPEN_MODE_R s"

text \<open>The directory of a path, opened: the name's place in the path, a copy of what is before it, the descriptor.\<close>

definition open_parent :: "('hw, 'a) fenv \<Rightarrow> nat \<Rightarrow> u32 \<Rightarrow> u32 \<Rightarrow> ('hw, 'a) fst \<Rightarrow> (u32, ('hw, 'a) fst) call res" where
  "open_parent K f path name s =
     (let dirlen = name - path in
      bindR (malloc (kh K) (dirlen + 1) s) (\<lambda>(dir, s).
      bindV (open_reading K f dir (s\<lparr>kmem := (strncpy (kmem s) dir path dirlen)(dir + dirlen := 0)\<rparr>)) (\<lambda>directory s.
      bindR (free (kh K) dir s) (\<lambda>s. Inr (Ret directory s)))))"

definition is_directory :: "u32 \<Rightarrow> ('hw, 'a) fst \<Rightarrow> (bool \<times> u32 \<times> fsnode) res" where
  "is_directory fda s =
     bindR (the_obj (fds s fda)) (\<lambda>x. bindR (the_obj (fsnodes s (fd_file x))) (\<lambda>d. Inr (fn_attributes d AND FILE_ATTR_DIR \<noteq> 0, fd_file x, d)))"

definition create_file :: "('hw, 'a) fenv \<Rightarrow> nat \<Rightarrow> u32 \<Rightarrow> u8 \<Rightarrow> ('hw, 'a) fst \<Rightarrow> (u32, ('hw, 'a) fst) call res" where
  "create_file K f path attributes s =
     bindR (the_res (strrchr (kmem s) path 47)) (\<lambda>slash.
     if slash = 0 then Inr (Ret 0 s)
     else
       bindV (open_parent K f path (slash + 1) s) (\<lambda>directory s.
       if directory = 0 then Inr (Ret 0 s)
       else
         bindR (is_directory directory s) (\<lambda>(isdir, dir, d).
         if \<not> isdir then bindR (close_file K directory s) (\<lambda>s. Inr (Ret 0 s))
         else
           bindR (the_obj (fsystems s (fn_file_system d))) (\<lambda>y.
           bindV (if fs_type y = FS_TYPE_EXT2 then ext2_create_file K f dir (slash + 1) attributes s
                  else if fs_type y = FS_TYPE_FAT32 then fat32_create_file K f dir (slash + 1) attributes s
                  else Inr (Ret 0 s)) (\<lambda>tr s.
           bindR (close_file K directory s) (\<lambda>s. Inr (Ret tr s)))))))"

definition open_file :: "('hw, 'a) fenv \<Rightarrow> nat \<Rightarrow> u32 \<Rightarrow> u8 \<Rightarrow> ('hw, 'a) fst \<Rightarrow> (u32, ('hw, 'a) fst) call res" where
  "open_file K f path mode s = open_with K f (create_file K f) path mode s"

subsection \<open>Directories and names\<close>

definition read_directory :: "('hw, 'a) fenv \<Rightarrow> nat \<Rightarrow> u32 \<Rightarrow> u32 \<Rightarrow> ('hw, 'a) fst \<Rightarrow> (u32 \<times> u32, ('hw, 'a) fst) call res" where
  "read_directory K f directory dest s =
     bindR (is_directory directory s) (\<lambda>(isdir, dir, d).
     if \<not> isdir then Inr (Ret (ERROR_FILE_IS_NOT_DIRECTORY, 0) s)
     else
       bindR (the_obj (fsystems s (fn_file_system d))) (\<lambda>y.
       if fs_type y = FS_TYPE_FAT32 then fat32_list_dir K f dest dir 0 s
       else if fs_type y = FS_TYPE_EXT2 then ext2_list_dir K f dest dir 0 s
       else if fs_type y = FS_TYPE_ISO9660 then iso9660_list_dir K f dest dir 0 s
       else if fs_type y = FS_TYPE_DEVFS then bindR (devfs_list_dir (kh K) f dest dir 0 s) (\<lambda>(err, n, s). Inr (Ret (err, n) s))
       else Inr (Ret (ERROR_FILE_UNSUPPORTED_FILE_SYSTEM, 0) s)))"

definition list_directory :: "('hw, 'a) fenv \<Rightarrow> nat \<Rightarrow> u32 \<Rightarrow> u32 \<Rightarrow> u32 \<Rightarrow> ('hw, 'a) fst \<Rightarrow> (u32 \<times> u32, ('hw, 'a) fst) call res" where
  "list_directory K f path dest sz s =
     bindV (open_file K f path OPEN_MODE_R s) (\<lambda>dir s.
     if dir = 0 then Inr (Ret (ERROR_FILE_NOT_FOUND, sz) s)
     else
       bindV (read_directory K f dir dest s) (\<lambda>r s.
       bindR (close_file K dir s) (\<lambda>s. Inr (Ret r s))))"

definition unlink :: "('hw, 'a) fenv \<Rightarrow> nat \<Rightarrow> u32 \<Rightarrow> ('hw, 'a) fst \<Rightarrow> (u32, ('hw, 'a) fst) call res" where
  "unlink K f path s =
     bindR (the_res (strrchr (kmem s) path 47)) (\<lambda>slash.
     if slash = 0 then Inr (Ret ERROR_FILE_NOT_FOUND s)
     else
       bindV (open_parent K f path (slash + 1) s) (\<lambda>directory s.
       if directory = 0 then Inr (Ret ERROR_FILE_NOT_FOUND s)
       else
         bindR (is_directory directory s) (\<lambda>(isdir, dir, d).
         if \<not> isdir then bindR (close_file K directory s) (\<lambda>s. Inr (Ret ERROR_FILE_IS_NOT_DIRECTORY s))
         else
           bindR (the_obj (fsystems s (fn_file_system d))) (\<lambda>y.
           bindV (if fs_type y = FS_TYPE_EXT2 then ext2_unlink K f (slash + 1) dir s
                  else if fs_type y = FS_TYPE_FAT32 then fat32_unlink K f (slash + 1) dir s
                  else Inr (Ret ERROR_FILE_UNSUPPORTED_FILE_SYSTEM s)) (\<lambda>err s.
           bindR (close_file K directory s) (\<lambda>s. Inr (Ret err s)))))))"

text \<open>
  What \<^verbatim>\<open>link\<close> and \<^verbatim>\<open>rename\<close> share: the directory of the second path and the file of the first are opened, \<open>act\<close> is called with them, both are
  closed. A path without a slash is not tested for.
\<close>

definition with_dir_and_file :: "('hw, 'a) fenv \<Rightarrow> nat \<Rightarrow> u32 \<Rightarrow> u32 \<Rightarrow> (u32 \<Rightarrow> u32 \<Rightarrow> u32 \<Rightarrow> ('hw, 'a) fst \<Rightarrow> (u32, ('hw, 'a) fst) call res)
    \<Rightarrow> ('hw, 'a) fst \<Rightarrow> (u32, ('hw, 'a) fst) call res" where
  "with_dir_and_file K f file_path dir_path act s =
     bindR (the_res (strrchr (kmem s) dir_path 47)) (\<lambda>slash.
     bindV (open_parent K f dir_path (slash + 1) s) (\<lambda>directory s.
     if directory = 0 then Inr (Ret ERROR_FILE_NOT_FOUND s)
     else
       bindR (is_directory directory s) (\<lambda>(isdir, dir, d).
       if \<not> isdir then bindR (close_file K directory s) (\<lambda>s. Inr (Ret ERROR_FILE_IS_NOT_DIRECTORY s))
       else
         bindV (open_file K f file_path OPEN_MODE_R s) (\<lambda>source s.
         if source = 0 then bindR (close_file K directory s) (\<lambda>s. Inr (Ret ERROR_FILE_NOT_FOUND s))
         else
           bindR (the_obj (fds s source)) (\<lambda>x.
           bindV (act (fd_file x) (slash + 1) dir s) (\<lambda>err s.
           bindR (close_file K directory s) (\<lambda>s.
           bindR (close_file K source s) (\<lambda>s. Inr (Ret err s)))))))))"

definition fs_type_of :: "u32 \<Rightarrow> ('hw, 'a) fst \<Rightarrow> (u32 \<times> u8) res" where
  "fs_type_of node s =
     bindR (the_obj (fsnodes s node)) (\<lambda>d. bindR (the_obj (fsystems s (fn_file_system d))) (\<lambda>y. Inr (fn_file_system d, fs_type y)))"

definition link :: "('hw, 'a) fenv \<Rightarrow> nat \<Rightarrow> u32 \<Rightarrow> u32 \<Rightarrow> ('hw, 'a) fst \<Rightarrow> (u32, ('hw, 'a) fst) call res" where
  "link K f src_path dest_path s =
     with_dir_and_file K f src_path dest_path (\<lambda>file name dir s.
       bindR (fs_type_of dir s) (\<lambda>(fsa, t).
       bindR (the_obj (fsnodes s file)) (\<lambda>x.
       if fsa \<noteq> fn_file_system x then Inr (Ret ERROR_FILE_UNSUPPORTED_FILE_SYSTEM s)
       else if t = FS_TYPE_EXT2 then ext2_link K f file name dir s
       else Inr (Ret ERROR_FILE_UNSUPPORTED_FILE_SYSTEM s)))) s"

definition rename :: "('hw, 'a) fenv \<Rightarrow> nat \<Rightarrow> u32 \<Rightarrow> u32 \<Rightarrow> ('hw, 'a) fst \<Rightarrow> (u32, ('hw, 'a) fst) call res" where
  "rename K f src_path dest_name s =
     with_dir_and_file K f src_path src_path (\<lambda>file name dir s.
       bindR (fs_type_of dir s) (\<lambda>(_, t).
       if t = FS_TYPE_FAT32 then fat32_rename K f file name dest_name dir s
       else Inr (Ret ERROR_FILE_UNSUPPORTED_FILE_SYSTEM s))) s"

subsection \<open>Mounting\<close>

fun last_mount :: "nat \<Rightarrow> u32 \<Rightarrow> ('hw, 'a) fst \<Rightarrow> (u32 \<times> mount_point) res" where
  "last_mount 0 a s = Inl NoFuel"
| "last_mount (Suc f) a s = bindR (the_obj (mount_points s a)) (\<lambda>p. if mp_next p \<noteq> 0 then last_mount f (mp_next p) s else Inr (a, p))"

text \<open>The path is not copied, the descriptor of the directory is not closed.\<close>

definition mount :: "('hw, 'a) fenv \<Rightarrow> nat \<Rightarrow> u32 \<Rightarrow> u32 \<Rightarrow> ('hw, 'a) fst \<Rightarrow> ('hw, 'a) fst ctl res" where
  "mount K f path fsa s =
     bindR (the_obj (fsystems s fsa)) (\<lambda>y.
     bindR (the_res (strlen (kmem s) path)) (\<lambda>n.
     if fs_type y = 0 then Inl (Fatal ''Unknown file system type'')
     else if kmem s path \<noteq> 47 then Inl (Fatal ''Path must be absolute for mounting'')
     else if root_point s = 0 \<and> 1 < n then Inl (Fatal ''Root point not mounted, cannot mount anything else'')
     else if root_point s = 0 then
       bindR (malloc (kh K) 12 s) (\<lambda>(p, s).
       Inr (Returned (s\<lparr>root_point := p, mount_points := (mount_points s)(p \<mapsto> \<lparr>mp_path = path, mp_fs = fsa, mp_next = 0\<rparr>),
         current_mount_points := current_mount_points s + 1\<rparr>)))
     else
       dropped (bindV (open_file K f path OPEN_MODE_R s) (\<lambda>mf s.
       if mf = 0 then Inl (Fatal ''Cannot find mount point'')
       else
         bindR (is_directory mf s) (\<lambda>(isdir, dir, d).
         if \<not> isdir then Inl (Fatal ''Trying to mount to a file ?!'')
         else
           bindR (upd_node dir (\<lambda>d. d\<lparr>fn_attributes := fn_attributes d OR DIR_ATTR_MOUNTPOINT\<rparr>) s) (\<lambda>s.
           bindR (malloc (kh K) 12 s) (\<lambda>(p, s).
           let s = s\<lparr>mount_points := (mount_points s)(p \<mapsto> \<lparr>mp_path = path, mp_fs = fsa, mp_next = 0\<rparr>)\<rparr> in
           bindR (last_mount f (root_point s) s) (\<lambda>(a, x).
           Inr (Ret () (s\<lparr>mount_points := (mount_points s)(a \<mapsto> x\<lparr>mp_next := p\<rparr>), current_mount_points := current_mount_points s + 1\<rparr>))))))))))"

definition mount_volume :: "('hw, 'a) fenv \<Rightarrow> nat \<Rightarrow> u32 \<Rightarrow> u32 \<Rightarrow> u8 \<Rightarrow> ('hw, 'a) fst \<Rightarrow> (u8, ('hw, 'a) fst) call res" where
  "mount_volume K f path drive part s =
     bindV (detect_fs_type K f drive part s) (\<lambda>t s.
     if t = 0 then Inr (Ret 0 s)
     else
       bindV (if t = FS_TYPE_FAT32 then fat32fs_init K f drive part s
              else if t = FS_TYPE_ISO9660 then iso9660fs_init K f drive s
              else if t = FS_TYPE_EXT2 then ext2_init K f drive part s
              else Inr (Ret 0 s)) (\<lambda>fsa s.
       if fsa = 0 then Inr (Ret 0 s) else after (mount K f path fsa s) (\<lambda>s. Inr (Ret t s))))"

definition DEVFS_DIR_SIZE_DEFAULT :: u32 where "DEVFS_DIR_SIZE_DEFAULT = 80"

definition devfs_init :: "('hw, 'a) fenv \<Rightarrow> nat \<Rightarrow> ('hw, 'a) fst \<Rightarrow> ('hw, 'a) fst ctl res" where
  "devfs_init K f s =
     bindC (kp K f ''Mounting /dev filesystem...'' [] s) (\<lambda>s.
     bindR (malloc (kh K) 32 s) (\<lambda>(dv, s).
     let m = kmem s in
     bindR (malloc (kh K) 36 s) (\<lambda>(root, s).
     bindR (now_utc K s) (\<lambda>(now, s).
     bindR (malloc (kh K) 12 s) (\<lambda>(spe, s).
     bindR (malloc (kh K) DEVFS_DIR_SIZE_DEFAULT s) (\<lambda>(table, s).
     let s = s\<lparr>kmem := memset (kmem s) table 0 (unat DEVFS_DIR_SIZE_DEFAULT), devfs := dv,
               devspecs := (devspecs s)(spe \<mapsto> \<lparr>device_struct = table, device_type = DEVFS_TYPE_DIRECTORY, device_info = 0\<rparr>),
               fsnodes := (fsnodes s)(root \<mapsto> \<lparr>fn_file_system = dv, fn_length = ucast DEVFS_DIR_SIZE_DEFAULT, fn_attributes = FILE_ATTR_DIR,
                 fn_hard_links = load32 (kmem s) (root + 16), fn_creation_time = now, fn_last_access_time = now,
                 fn_last_modification_time = now, fn_specific = spe\<rparr>),
               fsystems := (fsystems s)(dv \<mapsto> \<lparr>fs_drive = 0, fs_partition = 0, fs_type = FS_TYPE_DEVFS, fs_flags = 0, fs_root_dir = root,
                 fs_inode_cache = load32 m (dv + 12), fs_cache_mutex = load32 m (dv + 16), fs_inode_cache_size = load32 m (dv + 20),
                 fs_specific = load32 m (dv + 24)\<rparr>)\<rparr> in
     bindC (mount K f (lit s ''/dev'') dv s) (vga_text_okmsg (kh K) f)))))))"

subsection \<open>Opening for reading\<close>

lemma open_with_reading:
  assumes "mode = OPEN_MODE_R \<or> mode = OPEN_MODE_RP"
  shows "open_with K f create path mode s = open_with K f create' path mode s"
proof -
  have r: "(mode = OPEN_MODE_R \<or> mode = OPEN_MODE_RP) = True" using assms by simp
  show ?thesis unfolding open_with_def Let_def r if_True ..
qed

text \<open>\<^verbatim>\<open>create_file\<close> opens the directory by the function that stands for \<^verbatim>\<open>open_file\<close> in the mode for reading.\<close>

lemma open_reading_open_file: "open_reading K f path s = open_file K f path OPEN_MODE_R s"
  unfolding open_reading_def open_file_def by (rule open_with_reading) simp

end
