(* ===== verification/VK_Space.thy ===== *)
theory VK_Space
  imports VK_Task
begin

section \<open>Address spaces (memory/paging.c)\<close>

text \<open>
  What is in the user part of an address space: a virtual address below \<^verbatim>\<open>KERNEL_VIRTUAL_BASE\<close> is translated through the page
  directory the processor has loaded, and the byte is in physical memory (\<open>phys\<close>). An address without a present page is a fault of
  the processor, here \<open>BadPtr\<close>. Kernel memory (\<open>kmem\<close>) is the same in all address spaces.
\<close>

subsection \<open>User memory\<close>

text \<open>The translation the processor does.\<close>

definition user_addr :: "u32 \<Rightarrow> u32 \<Rightarrow> 'a paging_scheme \<Rightarrow> u32 option" where
  "user_addr pd va s =
     (let e = pd_entry pd va s in
      if e AND 1 = 0 then None
      else if is_large e then Some ((e AND 0xFFC00000) + va mod 0x400000)
      else
        let page = pmem s (pte_addr e va) in
        if page AND 1 = 0 then None else Some (push_bit 12 (drop_bit 12 page) + va mod 4096))"

definition user_byte :: "u32 \<Rightarrow> u32 \<Rightarrow> 'a paging_scheme \<Rightarrow> u8 res" where
  "user_byte pd va s = (case user_addr pd va s of None \<Rightarrow> Inl BadPtr | Some p \<Rightarrow> Inr (phys s p))"

definition set_user_byte :: "u32 \<Rightarrow> u32 \<Rightarrow> u8 \<Rightarrow> 'a paging_scheme \<Rightarrow> 'a paging_scheme res" where
  "set_user_byte pd va b s = (case user_addr pd va s of None \<Rightarrow> Inl BadPtr | Some p \<Rightarrow> Inr (s\<lparr>phys := (phys s)(p := b)\<rparr>))"

text \<open>\<^verbatim>\<open>memcpy\<close> and \<^verbatim>\<open>memset\<close> with one side in the user part of the address space that is loaded.\<close>

fun copy_to_user :: "u32 \<Rightarrow> u32 \<Rightarrow> nat \<Rightarrow> 'a paging_scheme \<Rightarrow> 'a paging_scheme res" where
  "copy_to_user dest src 0 s = Inr s"
| "copy_to_user dest src (Suc n) s =
     bindR (set_user_byte (current_page_directory s) dest (kmem s src) s) (copy_to_user (dest + 1) (src + 1) n)"

fun copy_from_user :: "u32 \<Rightarrow> u32 \<Rightarrow> nat \<Rightarrow> 'a paging_scheme \<Rightarrow> 'a paging_scheme res" where
  "copy_from_user dest src 0 s = Inr s"
| "copy_from_user dest src (Suc n) s =
     bindR (user_byte (current_page_directory s) src s) (\<lambda>b. copy_from_user (dest + 1) (src + 1) n (s\<lparr>kmem := (kmem s)(dest := b)\<rparr>))"

fun set_user :: "u32 \<Rightarrow> u8 \<Rightarrow> nat \<Rightarrow> 'a paging_scheme \<Rightarrow> 'a paging_scheme res" where
  "set_user dest c 0 s = Inr s"
| "set_user dest c (Suc n) s = bindR (set_user_byte (current_page_directory s) dest c s) (set_user (dest + 1) c n)"

text \<open>A word in user memory, lowest byte first.\<close>

definition store_user :: "u32 \<Rightarrow> u32 \<Rightarrow> 'a paging_scheme \<Rightarrow> 'a paging_scheme res" where
  "store_user va w s =
     (let pd = current_page_directory s in
      bindR (set_user_byte pd va (ucast w) s) (\<lambda>s.
      bindR (set_user_byte pd (va + 1) (ucast (drop_bit 8 w)) s) (\<lambda>s.
      bindR (set_user_byte pd (va + 2) (ucast (drop_bit 16 w)) s) (\<lambda>s.
      set_user_byte pd (va + 3) (ucast (drop_bit 24 w)) s))))"

subsection \<open>New address spaces\<close>

fun clone_entries :: "u32 \<Rightarrow> u32 \<Rightarrow> nat \<Rightarrow> 'a paging_scheme \<Rightarrow> 'a paging_scheme" where
  "clone_entries tr i 0 s = s"
| "clone_entries tr i (Suc n) s = clone_entries tr (i + 1) n (set_word (tr + 4 * i) (pmem s (kernel_page_directory s + 4 * i)) s)"

definition get_kernel_pd_clone :: "'a paging_scheme \<Rightarrow> (u32 \<times> 'a paging_scheme) res" where
  "get_kernel_pd_clone s = bindR (pt_alloc s) (\<lambda>(tr, s). Inr (tr, clone_entries tr (drop_bit 22 KERNEL_VIRTUAL_BASE) 256 s))"

text \<open>The contents of \<open>n\<close> bytes at the address \<open>va\<close> of \<open>pd\<close>, through a buffer, to the same address of \<open>tr\<close>.\<close>

definition copy_between :: "u32 \<Rightarrow> u32 \<Rightarrow> u32 \<Rightarrow> u32 \<Rightarrow> nat \<Rightarrow> u32 \<Rightarrow> 'a paging_scheme \<Rightarrow> 'a paging_scheme res" where
  "copy_between pd tr va kbuffer n cpd s =
     bindR (copy_from_user kbuffer va n (pd_switch pd s)) (\<lambda>s.
     bindR (copy_to_user va kbuffer n (pd_switch tr s)) (\<lambda>s. Inr (pd_switch cpd s)))"

fun copy_pages :: "'a tasking_scheme heap_ops \<Rightarrow> nat \<Rightarrow> u32 \<Rightarrow> u32 \<Rightarrow> u32 \<Rightarrow> u32 \<Rightarrow> u32 \<Rightarrow> u32 \<Rightarrow> nat \<Rightarrow> 'a tasking_scheme \<Rightarrow> 'a tasking_scheme res" where
  "copy_pages h f pd tr cpd i pt j 0 s = Inr s"
| "copy_pages h f pd tr cpd i pt j (Suc n) s =
     (if pmem s (pt + 4 * j) = 0 then copy_pages h f pd tr cpd i pt (j + 1) n s
      else
        let va = push_bit 22 i + push_bit 12 j in
        bindR (map_memory (malloc h) f 4096 va tr s) (\<lambda>s.
        bindR (malloc h 4096 s) (\<lambda>(kbuffer, s).
        bindR (copy_between pd tr va kbuffer 4096 cpd s) (\<lambda>s.
        bindR (free h kbuffer s) (copy_pages h f pd tr cpd i pt (j + 1) n)))))"

text \<open>The buffer for a 4 MiB page is not freed.\<close>

fun copy_tables :: "'a tasking_scheme heap_ops \<Rightarrow> nat \<Rightarrow> u32 \<Rightarrow> u32 \<Rightarrow> u32 \<Rightarrow> u32 \<Rightarrow> nat \<Rightarrow> 'a tasking_scheme \<Rightarrow> 'a tasking_scheme res" where
  "copy_tables h f pd tr cpd i 0 s = Inr s"
| "copy_tables h f pd tr cpd i (Suc n) s =
     (let e = pmem s (pd + 4 * i) in
      bindR (if e = 0 then Inr s
             else if e AND PD_BIT_4KB_PAGE \<noteq> 0 then
               bindR (map_memory (malloc h) f 0x400000 (push_bit 22 i) tr s) (\<lambda>s.
               bindR (malloc h 0x400000 s) (\<lambda>(kbuffer, s). copy_between pd tr (push_bit 22 i) kbuffer 0x400000 cpd s))
             else copy_pages h f pd tr cpd i ((e AND PD_ADDRESS_MASK) + KERNEL_VIRTUAL_BASE) 0 1024 s)
        (copy_tables h f pd tr cpd (i + 1) n))"

definition copy_adress_space :: "'a tasking_scheme heap_ops \<Rightarrow> nat \<Rightarrow> u32 \<Rightarrow> 'a tasking_scheme \<Rightarrow> (u32 \<times> 'a tasking_scheme) res" where
  "copy_adress_space h f pd s =
     (let cpd = current_page_directory s in
      bindR (get_kernel_pd_clone s) (\<lambda>(tr, s).
      bindR (copy_tables h f pd tr cpd 0 768 s) (\<lambda>s. Inr (tr, pd_switch cpd s))))"

end
