(* ===== verification/VK_Process.thy ===== *)
theory VK_Process
  imports VK_Vfs VK_Space
begin

section \<open>Processes and executables (tasking/processes/process.c, elf.c)\<close>

text \<open>
  Creation, copying, loading and end of processes. The records of processes, threads, groups and sessions are the typed stores of
  \<open>VK_Task\<close>; the table of processes, the tables of open files, the list of loaded segments, the stacks of the kernel and the
  current directories are in byte memory. The user part of an address space is reached through its page directory (\<open>VK_Space\<close>).
\<close>

subsection \<open>State\<close>

record 'hw kernel = "'hw files" +
  label_fork_ret :: u32
  label_idle_loop :: u32

type_synonym ('hw, 'a) kst = "('hw, 'a) kernel_scheme"
type_synonym ('hw, 'a) kkenv = "('hw, ('hw, 'a) kernel_scheme) kenv"

definition PROCESS_DEFAULT_THREADS_SIZE :: u32 where "PROCESS_DEFAULT_THREADS_SIZE = 3"
definition PROCESSES_ARRAY_SIZE :: u32 where "PROCESSES_ARRAY_SIZE = 20"
definition PROCESS_INVALID_PID :: int where "PROCESS_INVALID_PID = -1"
definition PROCESS_KERNEL_PID :: int where "PROCESS_KERNEL_PID = -2"
definition PROCESS_IDLE_PID :: int where "PROCESS_IDLE_PID = -3"
definition ERROR_IS_NOT_ELF :: u32 where "ERROR_IS_NOT_ELF = 21"
definition ERROR_IS_64_BITS :: u32 where "ERROR_IS_64_BITS = 22"
definition ERROR_IS_NOT_EXECUTABLE :: u32 where "ERROR_IS_NOT_EXECUTABLE = 23"
definition ERROR_WRONG_INSTRUCTION_SET :: u32 where "ERROR_WRONG_INSTRUCTION_SET = 24"

text \<open>The array \<^verbatim>\<open>current_dir\<close> of the process at \<open>p\<close>, and the slot \<open>i\<close> of a table of pointers.\<close>

definition current_dir :: "u32 \<Rightarrow> u32" where "current_dir p = p + 192"
definition slot :: "u32 \<Rightarrow> u32 \<Rightarrow> u32" where "slot table i = table + 4 * i"

text \<open>Records in newly allocated memory hold what the memory held; their lists are set before they are used.\<close>

definition raw_thread :: "mem \<Rightarrow> u32 \<Rightarrow> thread" where
  "raw_thread m a =
     \<lparr>gregs = \<lparr>edi = load32 m a, esi = load32 m (a + 4), ebx = load32 m (a + 8), edx = load32 m (a + 12), ecx = load32 m (a + 16), eax = load32 m (a + 20)\<rparr>,
      sregs = \<lparr>ds = load32 m (a + 24), es = load32 m (a + 28), fs = load32 m (a + 32), gs = load32 m (a + 36), ss = load32 m (a + 40), cs = load32 m (a + 44)\<rparr>,
      t_eip = load32 m (a + 48), t_esp = load32 m (a + 52), t_ebp = load32 m (a + 56), t_kesp = load32 m (a + 60),
      t_base_stack = load32 m (a + 64), t_base_kstack = load32 m (a + 68), t_status = load32 m (a + 72)\<rparr>"

definition raw_process :: "mem \<Rightarrow> u32 \<Rightarrow> process" where
  "raw_process m a =
     \<lparr>active_thread = load32 m a, running_threads = load32 m (a + 4), waiting_threads = [], p_flags = load32 m (a + 12),
      page_directory = load32 m (a + 16), data_loc = load32 m (a + 20), data_size = load32 m (a + 24), heap_addr = load32 m (a + 28),
      heap_size = load32 m (a + 32), p_tty = load32 m (a + 36), files = load32 m (a + 40), files_size = load32 m (a + 44),
      files_count = load32 m (a + 48), pid = sint (load32 m (a + 52)), p_group = load32 m (a + 56), p_session = load32 m (a + 60),
      p_status = load32 m (a + 64), children = [], parent = load32 m (a + 72), signal_handlers = (\<lambda>i. load32 m (a + 76 + 4 * of_nat i))\<rparr>"

definition new_process :: "('hw, 'a) kkenv \<Rightarrow> ('hw, 'a) kst \<Rightarrow> (u32 \<times> ('hw, 'a) kst) res" where
  "new_process K s = bindR (malloc (kh K) 292 s) (\<lambda>(p, s). Inr (p, s\<lparr>procs := (procs s)(p \<mapsto> raw_process (kmem s) p)\<rparr>))"

definition upd_active :: "u32 \<Rightarrow> (thread \<Rightarrow> thread) \<Rightarrow> 'a tasking_scheme \<Rightarrow> 'a tasking_scheme res" where
  "upd_active p g s = bindR (proc p s) (\<lambda>x. upd_thr (active_thread x) g s)"

definition set_if :: "bool \<Rightarrow> 'a tasking_scheme \<Rightarrow> 'a tasking_scheme" where
  "set_if b s = s\<lparr>cpu := (cpu s)\<lparr>c_if := b\<rparr>\<rparr>"

subsection \<open>ELF executables\<close>

definition eh_bits :: "mem \<Rightarrow> u32 \<Rightarrow> u8" where "eh_bits m a = m (a + 4)"
definition eh_type :: "mem \<Rightarrow> u32 \<Rightarrow> u16" where "eh_type m a = load16 m (a + 16)"
definition eh_instruction_set :: "mem \<Rightarrow> u32 \<Rightarrow> u16" where "eh_instruction_set m a = load16 m (a + 18)"
definition eh_program_entry :: "mem \<Rightarrow> u32 \<Rightarrow> u32" where "eh_program_entry m a = load32 m (a + 24)"
definition eh_program_header_table :: "mem \<Rightarrow> u32 \<Rightarrow> u32" where "eh_program_header_table m a = load32 m (a + 28)"
definition eh_ph_entry_nbr :: "mem \<Rightarrow> u32 \<Rightarrow> u16" where "eh_ph_entry_nbr m a = load16 m (a + 44)"

definition ph_segment_type :: "mem \<Rightarrow> u32 \<Rightarrow> u32" where "ph_segment_type m a = load32 m a"
definition ph_offset :: "mem \<Rightarrow> u32 \<Rightarrow> u32" where "ph_offset m a = load32 m (a + 4)"
definition ph_vaddr :: "mem \<Rightarrow> u32 \<Rightarrow> u32" where "ph_vaddr m a = load32 m (a + 8)"
definition ph_filesz :: "mem \<Rightarrow> u32 \<Rightarrow> u32" where "ph_filesz m a = load32 m (a + 16)"
definition ph_memsz :: "mem \<Rightarrow> u32 \<Rightarrow> u32" where "ph_memsz m a = load32 m (a + 20)"

text \<open>What the header at \<open>a\<close> is found to be.\<close>

definition elf_verdict :: "mem \<Rightarrow> u32 \<Rightarrow> u32" where
  "elf_verdict m a =
     (if m a \<noteq> 0x7F \<or> m (a + 1) \<noteq> 69 \<or> m (a + 2) \<noteq> 76 \<or> m (a + 3) \<noteq> 70 then ERROR_IS_NOT_ELF
      else if eh_bits m a \<noteq> 1 then ERROR_IS_64_BITS
      else if eh_type m a \<noteq> 2 then ERROR_IS_NOT_EXECUTABLE
      else if eh_instruction_set m a \<noteq> 0 \<and> eh_instruction_set m a \<noteq> 3 then ERROR_WRONG_INSTRUCTION_SET
      else ERROR_NONE)"

text \<open>The header is a local variable. After three failed reads the offset is not restored.\<close>

definition elf_check :: "('hw, 'a) kkenv \<Rightarrow> nat \<Rightarrow> u32 \<Rightarrow> ('hw, 'a) kst \<Rightarrow> (u32, ('hw, 'a) kst) call res" where
  "elf_check K f fda s =
     (let eh = kloc K + 0x1000; rd = read_file K f fda eh 52 in
      bindR (the_obj (fds s fda)) (\<lambda>x.
      bindR (upd_fd fda (\<lambda>x. x\<lparr>fd_offset := 0\<rparr>) s) (\<lambda>s.
      bindV (tried_again rd rd s) (\<lambda>err s.
      if err \<noteq> ERROR_NONE then Inr (Ret err s)
      else bindR (upd_fd fda (\<lambda>y. y\<lparr>fd_offset := fd_offset x\<rparr>) s) (\<lambda>s. Inr (Ret (elf_verdict (kmem s) eh) s))))))"

text \<open>
  One segment: its memory, its entry in the list (a new empty entry is always the last), its contents. \<^verbatim>\<open>p_memsz - p_filesz\<close> wraps
  when the file has more bytes than the memory.
\<close>

definition load_segment :: "('hw, 'a) kkenv \<Rightarrow> nat \<Rightarrow> u32 \<Rightarrow> u32 \<Rightarrow> u32 \<Rightarrow> u32 \<Rightarrow> ('hw, 'a) kst \<Rightarrow> (u32 \<times> ('hw, 'a) kst) res" where
  "load_segment K f pd buffer ph loc s =
     bindR (map_memory (malloc (kh K)) f (ph_memsz (kmem s) ph) (ph_vaddr (kmem s) ph) pd s) (\<lambda>s.
     bindR (malloc (kh K) 12 s) (\<lambda>(element, s).
     let m = store32 (kmem s) loc element;
         m = store32 (store32 m element (ph_vaddr m ph)) (element + 4) (ph_memsz m ph) in
     bindR (malloc (kh K) 8 (s\<lparr>kmem := m\<rparr>)) (\<lambda>(next, s).
     let s = pd_switch pd (set_if False (s\<lparr>kmem := store32 (kmem s) (loc + 4) next\<rparr>));
         vaddr = ph_vaddr (kmem s) ph; filesz = ph_filesz (kmem s) ph; memsz = ph_memsz (kmem s) ph in
     bindR (copy_to_user vaddr (buffer + ph_offset (kmem s) ph) (unat filesz) s) (\<lambda>s.
     bindR (set_user (vaddr + filesz) 0 (unat (memsz - filesz)) s) (\<lambda>s.
     bindR (proc (current_process s) s) (\<lambda>x. Inr (next, set_if True (pd_switch (page_directory x) s))))))))"

text \<open>The test for the end of the file adds the index to the address, not the size of that many headers.\<close>

fun load_segments :: "('hw, 'a) kkenv \<Rightarrow> nat \<Rightarrow> u32 \<Rightarrow> u32 \<Rightarrow> u64 \<Rightarrow> u32 \<Rightarrow> u32 \<Rightarrow> nat \<Rightarrow> u32 \<Rightarrow> u32 \<Rightarrow> ('hw, 'a) kst
    \<Rightarrow> ((u32 \<times> bool) \<times> u32 \<times> ('hw, 'a) kst) res" where
  "load_segments K f pd buffer len table i 0 loc sz s = Inr ((loc, True), sz, s)"
| "load_segments K f pd buffer len table i (Suc n) loc sz s =
     (let ph = table + 32 * i in
      if ucast buffer + len < ucast (table + i) then Inr ((loc, False), sz, s)
      else if ph_segment_type (kmem s) ph \<noteq> 1 \<or> ph_memsz (kmem s) ph = 0 then load_segments K f pd buffer len table (i + 1) n loc sz s
      else bindR (load_segment K f pd buffer ph loc s) (\<lambda>(loc, s). load_segments K f pd buffer len table (i + 1) n loc (sz + 1) s))"

text \<open>
  The result is the entry point, or 0, and the number of segments. The two repeated reads do not change the result of the first,
  and neither error path frees the buffer or restores the offset.
\<close>

definition elf_load :: "('hw, 'a) kkenv \<Rightarrow> nat \<Rightarrow> u32 \<Rightarrow> u32 \<Rightarrow> u32 \<Rightarrow> ('hw, 'a) kst \<Rightarrow> (u32 \<times> u32, ('hw, 'a) kst) call res" where
  "elf_load K f fda pd loc s =
     bindR (the_obj (fds s fda)) (\<lambda>x.
     bindR (flength fda s) (\<lambda>len.
     bindR (malloc (kh K) (ucast len) s) (\<lambda>(buffer, s).
     bindR (upd_fd fda (\<lambda>x. x\<lparr>fd_offset := 0\<rparr>) s) (\<lambda>s.
     let rd = (\<lambda>s. bindR (flength fda s) (\<lambda>len. read_file K f fda buffer len s)) in
     bindV (rd s) (\<lambda>err s.
     if err \<noteq> ERROR_NONE then bindV (rd s) (\<lambda>_ s. bindV (rd s) (\<lambda>_ s. Inr (Ret (0, 0) s)))
     else
       bindR (upd_fd fda (\<lambda>y. y\<lparr>fd_offset := fd_offset x\<rparr>) s) (\<lambda>s.
       bindR (flength fda s) (\<lambda>len.
       bindR (load_segments K f pd buffer len (buffer + eh_program_header_table (kmem s) buffer) 0 (unat (eh_ph_entry_nbr (kmem s) buffer)) loc 0 s)
         (\<lambda>((loc, ok), sz, s).
       if \<not> ok then Inr (Ret (0, sz) s)
       else
         bindR (free (kh K) loc s) (\<lambda>s.
         let tr = eh_program_entry (kmem s) buffer in
         bindR (free (kh K) buffer s) (\<lambda>s. Inr (Ret (tr, sz) s)))))))))))"

subsection \<open>Loading an executable\<close>

text \<open>
  The strings whose addresses are in the table \<open>argv\<close>, one below the other on the user's stack; \<open>uparam\<close> gets their new addresses.
  Then the table of these addresses, a null pointer at its end.
\<close>

fun push_strings :: "u32 \<Rightarrow> u32 \<Rightarrow> u32 \<Rightarrow> nat \<Rightarrow> u32 \<Rightarrow> 'a paging_scheme \<Rightarrow> (u32 \<times> 'a paging_scheme) res" where
  "push_strings argv uparam i 0 sp s = Inr (sp, s)"
| "push_strings argv uparam i (Suc n) sp s =
     (let arg = load32 (kmem s) (slot argv i) in
      bindR (the_res (strlen (kmem s) arg)) (\<lambda>len.
      let sp = sp - (len + 1) in
      bindR (copy_to_user sp arg (Suc (unat len)) s) (\<lambda>s.
      push_strings argv uparam (i + 1) n sp (s\<lparr>kmem := store32 (kmem s) (slot uparam i) sp\<rparr>))))"

fun push_pointers :: "u32 \<Rightarrow> nat \<Rightarrow> u32 \<Rightarrow> 'a paging_scheme \<Rightarrow> (u32 \<times> 'a paging_scheme) res" where
  "push_pointers uparam 0 sp s = Inr (sp, s)"
| "push_pointers uparam (Suc i) sp s =
     bindR (store_user (sp - 4) (load32 (kmem s) (slot uparam (of_nat i))) s) (push_pointers uparam i (sp - 4))"

definition push_vector :: "('hw, 'a) kkenv \<Rightarrow> u32 \<Rightarrow> nat \<Rightarrow> u32 \<Rightarrow> ('hw, 'a) kst \<Rightarrow> (u32 \<times> ('hw, 'a) kst) res" where
  "push_vector K argv argc sp s =
     bindR (malloc (kh K) (4 * (of_nat argc + 1)) s) (\<lambda>(uparam, s).
     bindR (push_strings argv uparam 0 argc sp s) (\<lambda>(sp, s).
     bindR (store_user (sp - 4) 0 s) (push_pointers uparam argc (sp - 4))))"

text \<open>\<open>n\<close> steps along a list.\<close>

fun list_walk :: "nat \<Rightarrow> u32 \<Rightarrow> mem \<Rightarrow> u32" where
  "list_walk 0 ptr m = ptr"
| "list_walk (Suc n) ptr m = list_walk n (le_next m ptr) m"

definition user_registers :: "thread \<Rightarrow> thread" where
  "user_registers t = t\<lparr>gregs := \<lparr>edi = 0, esi = 0, ebx = 0, edx = 0, ecx = 0, eax = 0\<rparr>, t_ebp := 0,
     sregs := \<lparr>ds = 0x23, es = 0x23, fs = 0x23, gs = 0x23, ss = 0x23, cs = 0x1B\<rparr>\<rparr>"

text \<open>The stack of the new program: arguments, environment, then \<^verbatim>\<open>argv\<close>, \<^verbatim>\<open>argc\<close>, \<^verbatim>\<open>env\<close>, \<^verbatim>\<open>envc\<close> and one free word.\<close>

definition push_arguments :: "('hw, 'a) kkenv \<Rightarrow> nat \<Rightarrow> u32 \<Rightarrow> u32 \<Rightarrow> nat \<Rightarrow> ('hw, 'a) kst \<Rightarrow> (u32 \<times> ('hw, 'a) kst) res" where
  "push_arguments K argc argv env envc s =
     bindR (push_vector K argv argc 0xC0000000 s) (\<lambda>(argvaddr, s).
     bindR (push_vector K env envc argvaddr s) (\<lambda>(envaddr, s).
     bindR (store_user (envaddr - 4) argvaddr s) (\<lambda>s.
     bindR (store_user (envaddr - 8) (of_nat argc) s) (\<lambda>s.
     bindR (store_user (envaddr - 12) envaddr s) (\<lambda>s.
     bindR (store_user (envaddr - 16) (of_nat envc) s) (\<lambda>s. Inr (envaddr - 20, s)))))))"

definition load_executable :: "('hw, 'a) kkenv \<Rightarrow> nat \<Rightarrow> u32 \<Rightarrow> u32 \<Rightarrow> nat \<Rightarrow> u32 \<Rightarrow> u32 \<Rightarrow> nat \<Rightarrow> ('hw, 'a) kst \<Rightarrow> (u32, ('hw, 'a) kst) call res" where
  "load_executable K f p fda argc argv env envc s =
     bindV (elf_check K f fda s) (\<lambda>elfc s.
     if elfc \<noteq> ERROR_NONE then Inr (Ret elfc s)
     else
       bindR (malloc (kh K) 8 s) (\<lambda>(loc, s).
       bindR (proc p s) (\<lambda>x.
       bindV (elf_load K f fda (page_directory x) loc s) (\<lambda>(code_offset, sz) s.
       bindR (upd_proc p (\<lambda>x. x\<lparr>data_loc := loc, data_size := sz\<rparr>) s) (\<lambda>s.
       if code_offset = 0 \<or> 0xC0000000 < code_offset then bindR (free (kh K) loc s) (\<lambda>s. Inr (Ret UNKNOWN_ERROR s))
       else
         let s = set_if False s; base_stack = 0xC0000000 - PROCESS_STACK_SIZE_DEFAULT in
         bindR (map_memory (malloc (kh K)) f PROCESS_STACK_SIZE_DEFAULT base_stack (page_directory x) s) (\<lambda>s.
         bindR (upd_active p (\<lambda>t. t\<lparr>t_base_stack := base_stack\<rparr>) s) (\<lambda>s.
         bindR (push_arguments K argc argv env envc (pd_switch (page_directory x) s)) (\<lambda>(sp, s).
         bindR (proc (current_process s) s) (\<lambda>c.
         let s = pd_switch (page_directory c) s; lst = le_element (kmem s) (list_walk (unat (sz - 1)) loc (kmem s)) in
         bindR (upd_proc p (\<lambda>x. x\<lparr>heap_addr := load32 (kmem s) lst + load32 (kmem s) (lst + 4), heap_size := 0\<rparr>) s) (\<lambda>s.
         bindR (upd_active p (\<lambda>t. (user_registers t)\<lparr>t_esp := sp, t_eip := code_offset\<rparr>) s) (\<lambda>s.
         Inr (Ret ERROR_NONE (set_if True s)))))))))))))"

subsection \<open>The end of a process\<close>

fun free_running :: "'a tasking_scheme heap_ops \<Rightarrow> nat \<Rightarrow> u32 \<Rightarrow> u32 \<Rightarrow> 'a tasking_scheme \<Rightarrow> 'a tasking_scheme res" where
  "free_running h 0 p t s = Inl NoFuel"
| "free_running h (Suc f) p t s =
     (if t = 0 then Inr s
      else
        bindR (free_thread_memory h f p t s) (\<lambda>s.
        bindR (proc p s) (\<lambda>x. let (t, s) = queue_take (running_threads x) s in free_running h f p t s)))"

fun free_waiting :: "'a tasking_scheme heap_ops \<Rightarrow> nat \<Rightarrow> u32 \<Rightarrow> (u32 \<times> u32) list \<Rightarrow> 'a tasking_scheme \<Rightarrow> 'a tasking_scheme res" where
  "free_waiting h f p [] s = Inr s"
| "free_waiting h f p ((e, t) # ws) s = bindR (free_thread_memory h f p t s) (\<lambda>s. bindR (free h e s) (free_waiting h f p ws))"

fun free_segments :: "'a tasking_scheme heap_ops \<Rightarrow> nat \<Rightarrow> u32 \<Rightarrow> nat \<Rightarrow> u32 \<Rightarrow> 'a tasking_scheme \<Rightarrow> 'a tasking_scheme res" where
  "free_segments h f pd 0 ptr s = Inr s"
| "free_segments h f pd (Suc n) ptr s =
     (let e = le_element (kmem s) ptr; va = load32 (kmem s) e; ph = get_physical va pd s in
      bindR (unmap_flexible (load32 (kmem s) (e + 4)) va pd s) (\<lambda>s.
      bindR (free_block (free h) f (aligndown ph 4096) s) (\<lambda>s. free_segments h f pd n (le_next (kmem s) ptr) s)))"

definition free_process_memory :: "'a tasking_scheme heap_ops \<Rightarrow> nat \<Rightarrow> u32 \<Rightarrow> 'a tasking_scheme \<Rightarrow> 'a tasking_scheme res" where
  "free_process_memory h f p s =
     bindR (proc p s) (\<lambda>x.
     bindR (free_running h f p (active_thread x) s) (\<lambda>s.
     bindR (free_waiting h f p (waiting_threads x) s) (\<lambda>s.
     bindR (if data_loc x \<noteq> 0 then
              bindR (free_segments h f (page_directory x) (unat (data_size x)) (data_loc x) s) (\<lambda>s.
              bindR (list_free (free h) (data_loc x) (data_size x) s) (upd_proc p (\<lambda>x. x\<lparr>data_loc := 0\<rparr>)))
            else Inr s) (\<lambda>s.
     if heap_size x \<noteq> 0 then unmap_memory_if_mapped (heap_size x) (heap_addr x) (page_directory x) s else Inr s))))"

fun close_files :: "('hw, 'a) kkenv \<Rightarrow> u32 \<Rightarrow> u32 \<Rightarrow> nat \<Rightarrow> ('hw, 'a) kst \<Rightarrow> ('hw, 'a) kst res" where
  "close_files K table i 0 s = Inr s"
| "close_files K table i (Suc n) s =
     (let fda = load32 (kmem s) (slot table i) in
      bindR (if fda \<noteq> 0 then close_file K fda s else Inr s) (close_files K table (i + 1) n))"

fun orphan_children :: "'a tasking_scheme heap_ops \<Rightarrow> (u32 \<times> u32) list \<Rightarrow> 'a tasking_scheme \<Rightarrow> 'a tasking_scheme res" where
  "orphan_children h [] s = Inr s"
| "orphan_children h ((e, c) # cl) s =
     bindR (upd_proc c (\<lambda>x. x\<lparr>parent := processes_at 1 s\<rparr>) s) (\<lambda>s. bindR (free h e s) (orphan_children h cl))"

text \<open>Leaving the group: a match at the head ends the search, later ones do not. An empty list is read through its null pointer.\<close>

definition leave_group :: "'a tasking_scheme heap_ops \<Rightarrow> u32 \<Rightarrow> u32 \<Rightarrow> 'a tasking_scheme \<Rightarrow> 'a tasking_scheme res" where
  "leave_group h g p s =
     bindR (grp g s) (\<lambda>x.
     case g_processes x of [] \<Rightarrow> Inl BadPtr
     | (e, q) # rest \<Rightarrow>
         if q = p then bindR (upd_grp g (\<lambda>x. x\<lparr>g_processes := rest\<rparr>) s) (free h e)
         else
           let (ys, fr) = unlink_rest p rest in
           bindR (upd_grp g (\<lambda>x. x\<lparr>g_processes := (e, q) # ys\<rparr>) s) (free_all h fr))"

text \<open>The loop that wakes the parent looks at the first waiting thread again and again until it sleeps for a child.\<close>

fun wake_parent :: "'a tasking_scheme heap_ops \<Rightarrow> nat \<Rightarrow> u32 \<Rightarrow> 'a tasking_scheme \<Rightarrow> 'a tasking_scheme res" where
  "wake_parent h 0 q s = Inl NoFuel"
| "wake_parent h (Suc f) q s =
     bindR (proc q s) (\<lambda>x.
     case waiting_threads x of [] \<Rightarrow> Inr s
     | (e, t) # _ \<Rightarrow>
         bindR (thr t s) (\<lambda>th.
         if t_status th = THREAD_STATUS_ASLEEP_CHILD then scheduler_add_thread h q t s else wake_parent h f q s))"

definition exit_process :: "('hw, 'a) kkenv \<Rightarrow> nat \<Rightarrow> u32 \<Rightarrow> u32 \<Rightarrow> ('hw, 'a) kst \<Rightarrow> ('hw, 'a) kst ctl res" where
  "exit_process K f p exitcode s =
     bindR (proc p s) (\<lambda>x.
     if pid x = 1 then Inl (Fatal ''Init exited.'')
     else
       bindR (free_process_memory (kh K) f p (set_if False s)) (\<lambda>s.
       bindR (close_files K (files x) 0 (unat (files_size x)) s) (\<lambda>s.
       bindR (pt_free (page_directory x) s) (\<lambda>s.
       bindR (orphan_children (kh K) (children x) s) (\<lambda>s.
       bindR (leave_group (kh K) (p_group x) p s) (\<lambda>s.
       bindR (upd_proc p (\<lambda>x. x\<lparr>p_status := PROCESS_STATUS_ZOMBIE\<rparr>) s) (\<lambda>s.
       bindR (upd_active p (\<lambda>t. t\<lparr>t_status := THREAD_STATUS_ZOMBIE, gregs := (gregs t)\<lparr>eax := exitcode\<rparr>\<rparr>) s) (\<lambda>s.
       bindR (proc p s) (\<lambda>x.
       bindC (if parent x \<noteq> 0 then
                bindR (proc (parent x) s) (\<lambda>y.
                bindC (send_signal (kh K) f (pid y) SIGCHLD s) (\<lambda>s. returned (wake_parent (kh K) f (parent x) s)))
              else Inr (Returned s)) (\<lambda>s.
       bindR (thr (active_thread x) s) (\<lambda>t.
       bindR (free (kh K) (t_base_kstack t) s) (scheduler_remove_process p))))))))))))"

definition sbrk :: "('hw, 'a) kkenv \<Rightarrow> nat \<Rightarrow> u32 \<Rightarrow> u32 \<Rightarrow> ('hw, 'a) kst \<Rightarrow> (u32 \<times> ('hw, 'a) kst) res" where
  "sbrk K f p incr s =
     bindR (proc p s) (\<lambda>x.
     let old_last = heap_addr x + heap_size x in
     bindR (if is_mapped (old_last + incr) (page_directory x) s then Inr s
            else map_memory_if_not_mapped (malloc (kh K)) f incr old_last (page_directory x) s) (\<lambda>s.
     bindR (upd_proc p (\<lambda>x. x\<lparr>heap_size := heap_size x + incr\<rparr>) s) (\<lambda>s. Inr (old_last, s))))"

subsection \<open>New processes\<close>

text \<open>The first free place of the table from \<open>j\<close> on among \<open>n\<close>; the result is the index the loop ends with.\<close>

fun find_pid :: "int \<Rightarrow> nat \<Rightarrow> 'a tasking_scheme \<Rightarrow> int \<times> bool" where
  "find_pid j 0 s = (j, False)"
| "find_pid j (Suc n) s = (if processes_at j s = 0 then (j, True) else find_pid (j + 1) n s)"

definition set_process :: "int \<Rightarrow> u32 \<Rightarrow> 'a tasking_scheme \<Rightarrow> 'a tasking_scheme" where
  "set_process j p s = s\<lparr>kmem := store32 (kmem s) (processes s + 4 * word_of_int j) p\<rparr>"

text \<open>When the table is full it doubles, the place behind the first new one is used and the new places are not cleared.\<close>

definition register_process :: "('hw, 'a) kkenv \<Rightarrow> u32 \<Rightarrow> ('hw, 'a) kst \<Rightarrow> ('hw, 'a) kst res" where
  "register_process K p s =
     (let (j, found) = find_pid 1 (nat (sint (processes_size s) - 1)) s in
      if found then upd_proc p (\<lambda>x. x\<lparr>pid := j\<rparr>) (set_process j p s)
      else
        let n = processes_size s * 2 in
        bindR (realloc (kh K) (processes s) (n * 4) (s\<lparr>processes_size := n\<rparr>)) (\<lambda>(a, s).
        upd_proc p (\<lambda>x. x\<lparr>pid := j + 1\<rparr>) (set_process (j + 1) p (s\<lparr>processes := a\<rparr>))))"

text \<open>Membership in the group and session of the running process, and among its children.\<close>

definition adopt_process :: "('hw, 'a) kkenv \<Rightarrow> u32 \<Rightarrow> ('hw, 'a) kst \<Rightarrow> ('hw, 'a) kst res" where
  "adopt_process K p s =
     (let cur = current_process s in
      if cur \<noteq> 0 \<and> cur \<noteq> kernel_process s then
        bindR (proc cur s) (\<lambda>c.
        bindR (malloc (kh K) 8 s) (\<lambda>(e, s).
        bindR (upd_grp (p_group c) (\<lambda>g. g\<lparr>g_processes := g_processes g @ [(e, p)]\<rparr>) s) (\<lambda>s.
        bindR (malloc (kh K) 8 s) (\<lambda>(e, s).
        bindR (upd_proc p (\<lambda>x. x\<lparr>p_group := p_group c, p_session := p_session c, children := [], parent := cur\<rparr>) s)
          (upd_proc cur (\<lambda>x. x\<lparr>children := children x @ [(e, p)]\<rparr>))))))
      else upd_proc p (\<lambda>x. x\<lparr>children := [], parent := 0\<rparr>) s)"

definition init_process :: "('hw, 'a) kkenv \<Rightarrow> ('hw, 'a) kst \<Rightarrow> (u32 \<times> ('hw, 'a) kst) res" where
  "init_process K s =
     bindR (new_process K s) (\<lambda>(tr, s).
     bindR (queue_init (malloc (kh K)) PROCESS_DEFAULT_THREADS_SIZE s) (\<lambda>(q, s).
     bindR (upd_proc tr (\<lambda>x. x\<lparr>p_status := PROCESS_STATUS_INIT, running_threads := q, active_thread := 0, waiting_threads := []\<rparr>) s) (\<lambda>s.
     bindR (init_thread (kh K) s) (\<lambda>(t, s).
     bindR (scheduler_add_thread (kh K) tr t s) (\<lambda>s.
     bindR (upd_proc tr (\<lambda>x. x\<lparr>pid := PROCESS_INVALID_PID\<rparr>) s) (\<lambda>s.
     bindR (register_process K tr s) (\<lambda>s.
     bindR (adopt_process K tr s) (\<lambda>s. Inr (tr, s)))))))))"

fun copy_fds :: "('hw, 'a) kkenv \<Rightarrow> u32 \<Rightarrow> u32 \<Rightarrow> u32 \<Rightarrow> nat \<Rightarrow> ('hw, 'a) kst \<Rightarrow> ('hw, 'a) kst res" where
  "copy_fds K old table i 0 s = Inr s"
| "copy_fds K old table i (Suc n) s =
     (let tocopy = load32 (kmem s) (slot old i) in
      bindR (if tocopy = 0 then Inr s
             else
               bindR (malloc (kh K) 20 s) (\<lambda>(toadd, s).
               bindR (the_obj (fds s tocopy)) (\<lambda>x.
               Inr (s\<lparr>fds := (fds s)(toadd \<mapsto> x), kmem := store32 (kmem s) (slot table i) toadd\<rparr>)))) (copy_fds K old table (i + 1) n))"

text \<open>The new process continues in the kernel, at \<^verbatim>\<open>fork_ret\<close>, on a copy of the old one's kernel stack.\<close>

definition fork :: "('hw, 'a) kkenv \<Rightarrow> nat \<Rightarrow> u32 \<Rightarrow> u32 \<Rightarrow> ('hw, 'a) kst \<Rightarrow> (u32 \<times> ('hw, 'a) kst) res" where
  "fork K f old old_esp s =
     bindR (init_process K s) (\<lambda>(tr, s).
     bindR (proc tr s) (\<lambda>y.
     bindR (thr (active_thread y) s) (\<lambda>th.
     bindR (proc old s) (\<lambda>x.
     bindR (thr (active_thread x) s) (\<lambda>oth.
     let kstack = t_base_kstack th in
     bindR (upd_thr (active_thread y) (\<lambda>_. oth\<lparr>t_base_kstack := kstack\<rparr>) s) (\<lambda>s.
     bindR (malloc (kh K) 8 s) (\<lambda>(loc, s).
     bindR (list_copy (malloc (kh K)) (free (kh K)) loc (data_loc x) (data_size x) 12 s) (\<lambda>s.
     bindR (upd_proc tr (\<lambda>y. y\<lparr>p_flags := p_flags x, data_loc := loc, data_size := data_size x, heap_addr := heap_addr x,
       heap_size := heap_size x, p_tty := p_tty x, signal_handlers := (\<lambda>i. if i < nat NSIG then signal_handlers x i else signal_handlers y i)\<rparr>)
       (s\<lparr>kmem := memcpy (kmem s) (current_dir tr) (current_dir old) 100\<rparr>)) (\<lambda>s.
     bindR (copy_adress_space (kh K) f (page_directory x) s) (\<lambda>(pd, s).
     bindR (upd_proc tr (\<lambda>y. y\<lparr>page_directory := pd\<rparr>) s) (\<lambda>s.
     bindR (upd_thr (active_thread y) (\<lambda>t. t\<lparr>sregs := (sregs t)\<lparr>cs := 0x08, ss := 0x10\<rparr>, t_eip := label_fork_ret s,
       t_esp := old_esp - t_base_kstack oth + kstack, t_kesp := kstack + PROCESS_KSTACK_SIZE_DEFAULT\<rparr>)
       (s\<lparr>kmem := memcpy (kmem s) kstack (t_base_kstack oth) (unat PROCESS_KSTACK_SIZE_DEFAULT)\<rparr>)) (\<lambda>s.
     bindR (malloc (kh K) (files_size x * 20) s) (\<lambda>(table, s).
     bindR (upd_proc tr (\<lambda>y. y\<lparr>files_size := files_size x, files_count := files_count x, files := table\<rparr>)
       (s\<lparr>kmem := memset (kmem s) table 0 (unat (files_size x * 20))\<rparr>)) (\<lambda>s.
     bindR (copy_fds K (files x) table 0 (unat (files_size x)) s) (\<lambda>s.
     bindR (scheduler_add_process (kh K) tr s) (\<lambda>s. Inr (tr, s)))))))))))))))))"

subsection \<open>The first processes\<close>

definition spawn_init_process :: "('hw, 'a) kkenv \<Rightarrow> nat \<Rightarrow> ('hw, 'a) kst \<Rightarrow> (u32, ('hw, 'a) kst) call res" where
  "spawn_init_process K f s =
     bindV (open_file K f (lit s ''/sys/init'') OPEN_MODE_R s) (\<lambda>init_file s.
     if init_file = 0 then Inr (Ret ERROR_FILE_NOT_FOUND s)
     else
       bindR (init_process K s) (\<lambda>(tr, s).
       bindR (get_kernel_pd_clone s) (\<lambda>(pd, s).
       bindR (upd_proc tr (\<lambda>x. x\<lparr>page_directory := pd\<rparr>) s) (\<lambda>s.
       bindV (load_executable K f tr init_file 0 0 0 0 s) (\<lambda>elf s.
       bindR (close_file K init_file s) (\<lambda>s.
       if elf \<noteq> ERROR_NONE then Inr (Ret elf s)
       else
         bindR (malloc (kh K) 8 s) (\<lambda>(se, s).
         bindR (malloc (kh K) 8 s) (\<lambda>(ge, s).
         bindR (malloc (kh K) 12 s) (\<lambda>(g, s).
         bindR (malloc (kh K) 8 s) (\<lambda>(pe, s).
         let gr = \<lparr>gid = 1, g_processes = [(pe, tr)], g_session = se\<rparr>;
             s = s\<lparr>pgroups := (pgroups s)(g \<mapsto> gr, groups s \<mapsto> gr), groups_number := groups_number s + 1,
                   sessions := (sessions s)(se \<mapsto> \<lparr>s_groups = [(ge, g)], controlling_tty = tty1 s\<rparr>)\<rparr> in
         bindR (upd_active tr user_registers s) (\<lambda>s.
         bindR (malloc (kh K) 20 s) (\<lambda>(table, s).
         bindR (the_obj (ttys s (tty1 s))) (\<lambda>y.
         let s = s\<lparr>kmem := memset (kmem s) table 0 20, ttys := (ttys s)(tty1 s \<mapsto> y\<lparr>tty_session := se, foreground_processes := g\<rparr>)\<rparr> in
         bindR (malloc (kh K) 20 s) (\<lambda>(std, s).
         let m = store32 (store32 (store32 (kmem s) table std) (table + 4) std) (table + 8) std;
             s = s\<lparr>fds := (fds s)(std \<mapsto> \<lparr>fd_file = tty_pointer y, fd_offset = 0, fd_instances = 3, fd_path = load32 (kmem s) (std + 16)\<rparr>)\<rparr> in
         bindR (the_res (strcpy m (current_dir tr) (lit s ''/home''))) (\<lambda>m.
         bindR (upd_proc tr (\<lambda>x. x\<lparr>p_group := g, p_session := se, p_flags := 0x202, files_size := 5, files := table, p_tty := tty1 s,
           files_count := 3, signal_handlers := (\<lambda>i. if i < nat NSIG then 0 else signal_handlers x i)\<rparr>)
           (s\<lparr>kmem := m(current_dir tr + 5 := 0)\<rparr>)) (\<lambda>s.
         bindR (scheduler_add_process (kh K) tr s) (\<lambda>s. Inr (Ret ERROR_NONE s))))))))))))))))))"

text \<open>The flags register is given as \<open>eflags\<close>.\<close>

definition init_idle_process :: "('hw, 'a) kkenv \<Rightarrow> u32 \<Rightarrow> ('hw, 'a) kst \<Rightarrow> (u32 \<times> ('hw, 'a) kst) res" where
  "init_idle_process K eflags s =
     bindR (new_process K s) (\<lambda>(p, s).
     bindR (malloc (kh K) 76 (s\<lparr>idle_process := p\<rparr>)) (\<lambda>(t, s).
     let m = kmem s in
     bindR (queue_init (malloc (kh K)) 1 s) (\<lambda>(q, s).
     bindR (malloc (kh K) 1024 s) (\<lambda>(stack, s).
     let th = (raw_thread m t)\<lparr>gregs := \<lparr>edi = 0, esi = 0, ebx = 0, edx = 0, ecx = 0, eax = 0\<rparr>, t_ebp := 0,
           sregs := \<lparr>ds = 0x10, es = 0x10, fs = 0x10, gs = 0x10, ss = 0x10, cs = 0x08\<rparr>, t_eip := label_idle_loop s,
           t_esp := stack + 1024, t_kesp := stack + 1024, t_base_stack := stack, t_base_kstack := stack\<rparr> in
     bindR (upd_proc p (\<lambda>x. x\<lparr>p_status := PROCESS_STATUS_INIT, pid := PROCESS_IDLE_PID, active_thread := t, running_threads := q,
       p_flags := eflags, page_directory := kernel_page_directory s\<rparr>) (s\<lparr>thrs := (thrs s)(t \<mapsto> th)\<rparr>)) (\<lambda>s. Inr (p, s))))))"

definition init_kernel_process :: "('hw, 'a) kkenv \<Rightarrow> ('hw, 'a) kst \<Rightarrow> (u32 \<times> ('hw, 'a) kst) res" where
  "init_kernel_process K s =
     bindR (new_process K s) (\<lambda>(p, s).
     bindR (malloc (kh K) 76 (s\<lparr>kernel_process := p\<rparr>)) (\<lambda>(t, s).
     let s = s\<lparr>thrs := (thrs s)(t \<mapsto> raw_thread (kmem s) t)\<rparr> in
     bindR (queue_init (malloc (kh K)) 1 s) (\<lambda>(q, s).
     bindR (upd_proc p (\<lambda>x. x\<lparr>active_thread := t, running_threads := q, pid := PROCESS_KERNEL_PID,
       page_directory := kernel_page_directory s, p_status := PROCESS_STATUS_RUNNING\<rparr>) s) (\<lambda>s.
     Inr (p, s\<lparr>current_process := p\<rparr>)))))"

definition process_init :: "('hw, 'a) kkenv \<Rightarrow> nat \<Rightarrow> u32 \<Rightarrow> ('hw, 'a) kst \<Rightarrow> ('hw, 'a) kst ctl res" where
  "process_init K f eflags s =
     bindC (kp K f ''Initializing process layer...'' [] s) (\<lambda>s.
     let n = PROCESSES_ARRAY_SIZE * 4 in
     bindR (malloc (kh K) n (s\<lparr>processes_size := PROCESSES_ARRAY_SIZE\<rparr>)) (\<lambda>(a, s).
     let s = s\<lparr>processes := a, kmem := memset (kmem s) a 0 (unat n)\<rparr> in
     bindR (signals_init (kh K) s) (\<lambda>s.
     bindR (groups_init (kh K) s) (\<lambda>s.
     bindR (scheduler_init (kh K) s) (\<lambda>s.
     bindR (init_kernel_process K s) (\<lambda>(_, s).
     bindR (init_idle_process K eflags s) (\<lambda>(_, s). vga_text_okmsg (kh K) f s)))))))"

end
