(* ===== verification/VK_Syscall.thy ===== *)
theory VK_Syscall
  imports VK_Process
begin

section \<open>System calls (tasking/processes/syscalls.c)\<close>

text \<open>
  A system call gets the registers ebx, ecx and edx and leaves its results in eax and ecx; a register it does not set is \<open>None\<close>.
  The addresses below \<^verbatim>\<open>KERNEL_VIRTUAL_BASE\<close> that the caller passes are those of its own address space, which is the one that is
  loaded: \<open>kmem\<close> is here the memory as the running process and the kernel see it.
\<close>

type_synonym regs = "u32 option \<times> u32 option"

definition ERROR_INVALID_PID :: u32 where "ERROR_INVALID_PID = 25"
definition ERROR_INVALID_SIGNAL :: u32 where "ERROR_INVALID_SIGNAL = 26"
definition ERROR_HAS_NO_CHILD :: u32 where "ERROR_HAS_NO_CHILD = 29"
definition ERROR_INVALID_PTR :: u32 where "ERROR_INVALID_PTR = 36"
definition ERROR_NO_DEVICE :: u32 where "ERROR_NO_DEVICE = 43"
definition VK_FINFO_DEVICE_TYPE :: u32 where "VK_FINFO_DEVICE_TYPE = 1"
definition VK_FINFO_PATH :: u32 where "VK_FINFO_PATH = 2"
definition VK_NOT_A_DEVICE :: u32 where "VK_NOT_A_DEVICE = 1"
definition VK_PINFO_PID :: u32 where "VK_PINFO_PID = 1"
definition VK_PINFO_PPID :: u32 where "VK_PINFO_PPID = 2"
definition VK_PINFO_WORKING_DIRECTORY :: u32 where "VK_PINFO_WORKING_DIRECTORY = 3"
definition VK_PINFO_GID :: u32 where "VK_PINFO_GID = 4"
definition VK_FSINFO_MOUNTED_FS_NUMBER :: u32 where "VK_FSINFO_MOUNTED_FS_NUMBER = 1"
definition VK_FSINFO_MOUNTED_FS_ALL :: u32 where "VK_FSINFO_MOUNTED_FS_ALL = 2"
definition EXIT_CONDITION_USER :: u32 where "EXIT_CONDITION_USER = push_bit 8 1"

text \<open>The same value in both registers, and two values.\<close>

definition both :: "u32 \<Rightarrow> ('hw, 'a) kst \<Rightarrow> (regs, ('hw, 'a) kst) call res" where
  "both v s = Inr (Ret (Some v, Some v) s)"

definition two :: "u32 \<Rightarrow> u32 \<Rightarrow> ('hw, 'a) kst \<Rightarrow> (regs, ('hw, 'a) kst) call res" where
  "two a c s = Inr (Ret (Some a, Some c) s)"

subsection \<open>Arguments\<close>

text \<open>Only the first byte is looked at.\<close>

definition ptr_validate :: "u32 \<Rightarrow> u32 \<Rightarrow> 'a paging_scheme \<Rightarrow> bool" where
  "ptr_validate ptr pd s \<longleftrightarrow> \<not> 0xC0000000 \<le> ptr \<and> is_mapped ptr pd s"

text \<open>The running process and whether it can reach \<open>ptr\<close>; the open file with the number \<open>i\<close> or 0. The number may equal the table's size.\<close>

definition valid_ptr :: "u32 \<Rightarrow> ('hw, 'a) kst \<Rightarrow> bool res" where
  "valid_ptr ptr s = bindR (proc (current_process s) s) (\<lambda>x. Inr (ptr_validate ptr (page_directory x) s))"

definition file_nr :: "u32 \<Rightarrow> ('hw, 'a) kst \<Rightarrow> u32 res" where
  "file_nr i s = bindR (proc (current_process s) s) (\<lambda>x. Inr (if files_size x < i then 0 else load32 (kmem s) (slot (files x) i)))"

text \<open>A path that does not begin with a slash is taken from the current directory, in new memory.\<close>

definition absolute_path :: "('hw, 'a) kkenv \<Rightarrow> u32 \<Rightarrow> ('hw, 'a) kst \<Rightarrow> (u32 \<times> ('hw, 'a) kst) res" where
  "absolute_path K path s =
     (if kmem s path = 47 then Inr (path, s)
      else
        let dir = current_dir (current_process s) in
        bindR (the_res (strlen (kmem s) path)) (\<lambda>len.
        bindR (the_res (strlen (kmem s) dir)) (\<lambda>dirlen.
        bindR (malloc (kh K) (len + dirlen + 2) s) (\<lambda>(p, s).
        let m = strncpy (kmem s) p dir dirlen in
        bindR (the_res (strncat m p (lit s ''/'') 1)) (\<lambda>m.
        bindR (the_res (strncat m p path len)) (\<lambda>m. Inr (p, s\<lparr>kmem := m(p + len + dirlen + 1 := 0)\<rparr>)))))))"

subsection \<open>The table of open files\<close>

text \<open>Doubling the table; \<open>clear\<close> says which of the new bytes are cleared, from an address and a number.\<close>

definition double_files :: "('hw, 'a) kkenv \<Rightarrow> (u32 \<Rightarrow> u32 \<Rightarrow> u32 \<times> u32) \<Rightarrow> ('hw, 'a) kst \<Rightarrow> ('hw, 'a) kst res" where
  "double_files K clear s =
     bindR (proc (current_process s) s) (\<lambda>x.
     let n = files_size x * 2 in
     bindR (realloc (kh K) (files x) (n * 20) s) (\<lambda>(table, s).
     let (a, k) = clear table (n div 2) in
     upd_proc (current_process s) (\<lambda>x. x\<lparr>files_size := n, files := table\<rparr>) (s\<lparr>kmem := memset (kmem s) a 0 (unat k)\<rparr>)))"

fun find_slot :: "mem \<Rightarrow> u32 \<Rightarrow> u32 \<Rightarrow> nat \<Rightarrow> u32 \<times> bool" where
  "find_slot m table i 0 = (i, False)"
| "find_slot m table i (Suc n) = (if load32 m (slot table i) = 0 then (i, True) else find_slot m table (i + 1) n)"

text \<open>The file in the first free place from 3 on; without one the number is the table's size and nothing is stored.\<close>

definition place_file :: "('hw, 'a) kkenv \<Rightarrow> (u32 \<Rightarrow> u32 \<Rightarrow> u32 \<times> u32) \<Rightarrow> u32 \<Rightarrow> ('hw, 'a) kst \<Rightarrow> (u32 \<times> ('hw, 'a) kst) res" where
  "place_file K clear fda s =
     bindR (proc (current_process s) s) (\<lambda>x.
     bindR (if files_count x = files_size x then double_files K clear s else Inr s) (\<lambda>s.
     bindR (proc (current_process s) s) (\<lambda>x.
     let (i, found) = find_slot (kmem s) (files x) 3 (unat (files_size x) - 3);
         s = (if found then s\<lparr>kmem := store32 (kmem s) (slot (files x) i) fda\<rparr> else s) in
     bindR (upd_proc (current_process s) (\<lambda>x. x\<lparr>files_count := files_count x + 1\<rparr>) s) (\<lambda>s. Inr (i, s)))))"

definition clear_new :: "u32 \<Rightarrow> u32 \<Rightarrow> u32 \<times> u32" where "clear_new table half = (table + half * 20, half * 20)"
definition clear_none :: "u32 \<Rightarrow> u32 \<Rightarrow> u32 \<times> u32" where "clear_none table half = (table, 0)"
definition clear_some :: "u32 \<Rightarrow> u32 \<Rightarrow> u32 \<times> u32" where "clear_some table half = (slot table half, half)"

subsection \<open>Files\<close>

text \<open>The message prints the path after it may have been freed.\<close>

definition syscall_open :: "('hw, 'a) kkenv \<Rightarrow> nat \<Rightarrow> u32 \<Rightarrow> u32 \<Rightarrow> u32 \<Rightarrow> ('hw, 'a) kst \<Rightarrow> (regs, ('hw, 'a) kst) call res" where
  "syscall_open K f rbx rcx rdx s =
     bindR (valid_ptr rbx s) (\<lambda>ok.
     if \<not> ok then two 0 ERROR_INVALID_PTR s
     else
       bindR (absolute_path K rbx s) (\<lambda>(path, s).
       bindV (open_file K f path (ucast rcx) s) (\<lambda>file s.
       bindR (if path \<noteq> rbx then free (kh K) path s else Inr s) (\<lambda>s.
       if file = 0 then two 0 ERROR_FILE_NOT_FOUND s
       else
         bindR (place_file K clear_new file s) (\<lambda>(i, s).
         after (kp K f (''%lSYS_OPEN(%s, %u) = 0x%X (%u)'' @ newline) [3, path, rcx, file, i] s) (two i ERROR_NONE))))))"

definition syscall_close :: "('hw, 'a) kkenv \<Rightarrow> nat \<Rightarrow> u32 \<Rightarrow> u32 \<Rightarrow> u32 \<Rightarrow> ('hw, 'a) kst \<Rightarrow> (regs, ('hw, 'a) kst) call res" where
  "syscall_close K f rbx rcx rdx s =
     bindR (file_nr rbx s) (\<lambda>file.
     if 3 \<le> rbx \<and> file \<noteq> 0 then
       bindR (proc (current_process s) s) (\<lambda>x.
       bindR (upd_proc (current_process s) (\<lambda>x. x\<lparr>files_count := files_count x - 1\<rparr>) (s\<lparr>kmem := store32 (kmem s) (slot (files x) rbx) 0\<rparr>)) (\<lambda>s.
       bindR (close_file K file s) (\<lambda>s.
       after (kp K f (''%lSYS_CLOSE : closed file %u'' @ newline) [3, rbx] s) (\<lambda>s. Inr (Ret (None, None) s)))))
     else Inr (Ret (None, None) s))"

text \<open>Reading and writing: the number of bytes is how far the offset has moved.\<close>

definition transfer :: "('hw, 'a) kkenv \<Rightarrow> nat \<Rightarrow> string \<Rightarrow> (u32 \<Rightarrow> ('hw, 'a) kst \<Rightarrow> (u32, ('hw, 'a) kst) call res) \<Rightarrow> u32 \<Rightarrow> u32 \<Rightarrow> u32 \<Rightarrow> ('hw, 'a) kst
    \<Rightarrow> (regs, ('hw, 'a) kst) call res" where
  "transfer K f msg oper rbx rcx rdx s =
     bindR (file_nr rbx s) (\<lambda>file.
     bindR (valid_ptr rcx s) (\<lambda>ok.
     if file = 0 then two 0 ERROR_FILE_NOT_FOUND s
     else if \<not> ok then two 0 ERROR_INVALID_PTR s
     else
       after (if 3 \<le> rbx then kp K f msg [3, rbx, rdx] s else Inr (Returned s)) (\<lambda>s.
       bindR (the_obj (fds s file)) (\<lambda>x.
       bindV (oper file s) (\<lambda>tr s.
       bindR (file_nr rbx s) (\<lambda>file.
       bindR (the_obj (fds s file)) (\<lambda>y. two (ucast (fd_offset y - ucast (ucast (fd_offset x) :: u32))) tr s)))))))"

definition syscall_read :: "('hw, 'a) kkenv \<Rightarrow> nat \<Rightarrow> u32 \<Rightarrow> u32 \<Rightarrow> u32 \<Rightarrow> ('hw, 'a) kst \<Rightarrow> (regs, ('hw, 'a) kst) call res" where
  "syscall_read K f rbx rcx rdx s =
     transfer K f (''%lSYSCALL_READ(%u, count %u)'' @ newline) (\<lambda>file. read_file K f file rcx (ucast rdx)) rbx rcx rdx s"

definition syscall_write :: "('hw, 'a) kkenv \<Rightarrow> nat \<Rightarrow> u32 \<Rightarrow> u32 \<Rightarrow> u32 \<Rightarrow> ('hw, 'a) kst \<Rightarrow> (regs, ('hw, 'a) kst) call res" where
  "syscall_write K f rbx rcx rdx s =
     transfer K f ''%lSYS_WRITE(%u, count %u): '' (\<lambda>file. write_file K f file rcx (ucast rdx)) rbx rcx rdx s"

text \<open>Two pointers, then an operation whose error is the result.\<close>

definition on_paths :: "(('hw, 'a) kst \<Rightarrow> (u32, ('hw, 'a) kst) call res) \<Rightarrow> u32 \<Rightarrow> u32 \<Rightarrow> ('hw, 'a) kst \<Rightarrow> (regs, ('hw, 'a) kst) call res" where
  "on_paths oper rbx rcx s =
     bindR (valid_ptr rbx s) (\<lambda>ok1.
     bindR (valid_ptr rcx s) (\<lambda>ok2.
     if \<not> ok1 \<or> \<not> ok2 then both ERROR_INVALID_PTR s else bindV (oper s) both))"

definition syscall_link :: "('hw, 'a) kkenv \<Rightarrow> nat \<Rightarrow> u32 \<Rightarrow> u32 \<Rightarrow> u32 \<Rightarrow> ('hw, 'a) kst \<Rightarrow> (regs, ('hw, 'a) kst) call res" where
  "syscall_link K f rbx rcx rdx s = on_paths (link K f rbx rcx) rbx rcx s"

definition syscall_rename :: "('hw, 'a) kkenv \<Rightarrow> nat \<Rightarrow> u32 \<Rightarrow> u32 \<Rightarrow> u32 \<Rightarrow> ('hw, 'a) kst \<Rightarrow> (regs, ('hw, 'a) kst) call res" where
  "syscall_rename K f rbx rcx rdx s = on_paths (rename K f rbx rcx) rbx rcx s"

definition syscall_unlink :: "('hw, 'a) kkenv \<Rightarrow> nat \<Rightarrow> u32 \<Rightarrow> u32 \<Rightarrow> u32 \<Rightarrow> ('hw, 'a) kst \<Rightarrow> (regs, ('hw, 'a) kst) call res" where
  "syscall_unlink K f rbx rcx rdx s =
     bindR (valid_ptr rbx s) (\<lambda>ok.
     if \<not> ok then both ERROR_INVALID_PTR s
     else bindR (absolute_path K rbx s) (\<lambda>(path, s). bindV (unlink K f path s) both))"

definition syscall_mkdir :: "('hw, 'a) kkenv \<Rightarrow> nat \<Rightarrow> u32 \<Rightarrow> u32 \<Rightarrow> u32 \<Rightarrow> ('hw, 'a) kst \<Rightarrow> (regs, ('hw, 'a) kst) call res" where
  "syscall_mkdir K f rbx rcx rdx s =
     bindR (valid_ptr rbx s) (\<lambda>ok.
     if \<not> ok then both ERROR_INVALID_PTR s
     else
       bindR (absolute_path K rbx s) (\<lambda>(path, s).
       bindV (create_file K f path FILE_ATTR_DIR s) (\<lambda>node. both (if node = 0 then UNKNOWN_ERROR else ERROR_NONE))))"

definition syscall_seek :: "('hw, 'a) kkenv \<Rightarrow> nat \<Rightarrow> u32 \<Rightarrow> u32 \<Rightarrow> u32 \<Rightarrow> ('hw, 'a) kst \<Rightarrow> (regs, ('hw, 'a) kst) call res" where
  "syscall_seek K f rbx rcx rdx s =
     bindR (file_nr rbx s) (\<lambda>file.
     if file = 0 then two 0 ERROR_FILE_NOT_FOUND s
     else
       bindR (the_obj (fds s file)) (\<lambda>x.
       bindR (if rdx = 0 then Inr (ucast rcx) else if rdx = 1 then Inr (fd_offset x + ucast rcx)
              else if rdx = 2 then bindR (flength file s) (\<lambda>n. Inr (n + ucast rcx)) else Inr (fd_offset x)) (\<lambda>off.
       two (ucast off) ERROR_NONE (s\<lparr>fds := (fds s)(file \<mapsto> x\<lparr>fd_offset := off\<rparr>)\<rparr>))))"

text \<open>The structure \<^verbatim>\<open>stat_t\<close> at \<open>p\<close>; the number of the inode is cut to 16 bits, and the last change stands for the change of status.\<close>

definition store_stat :: "fsnode \<Rightarrow> u32 \<Rightarrow> mem \<Rightarrow> mem" where
  "store_stat x p m =
     (let m = store16 (store16 m p 0) (p + 2) 0x20;
          m = store32 m (p + 4) (if fn_attributes x AND FILE_ATTR_DIR \<noteq> 0 then 0x4000 else 0x8000);
          m = store32 m (p + 8) (fn_hard_links x);
          m = store32 (store32 (store32 m (p + 12) 0) (p + 16) 0) (p + 20) 0;
          m = store32 m (p + 24) (ucast (fn_length x));
          m = store32 m (p + 28) (word_of_int (fn_last_access_time x));
          m = store32 m (p + 32) (word_of_int (fn_last_modification_time x));
          m = store32 m (p + 36) (word_of_int (fn_last_modification_time x));
          m = store32 m (p + 40) 512
      in store32 m (p + 44) (ucast (fn_length x div 512)))"

definition syscall_stat :: "('hw, 'a) kkenv \<Rightarrow> nat \<Rightarrow> u32 \<Rightarrow> u32 \<Rightarrow> u32 \<Rightarrow> ('hw, 'a) kst \<Rightarrow> (regs, ('hw, 'a) kst) call res" where
  "syscall_stat K f rbx rcx rdx s =
     bindR (file_nr rbx s) (\<lambda>file.
     bindR (valid_ptr rdx s) (\<lambda>ok.
     if file = 0 then both ERROR_FILE_NOT_FOUND s
     else if \<not> ok then both ERROR_INVALID_PTR s
     else
       bindR (the_obj (fds s file)) (\<lambda>x.
       after (kp K f (''%lSYS_STAT(%u, 0x%X)'' @ newline) [3, rbx, rdx] s) (\<lambda>s.
       bindR (the_obj (fsnodes s (fd_file x))) (\<lambda>d.
       let m = store_stat d rdx (kmem s) in
       bindR (the_obj (fsystems s (fn_file_system d))) (\<lambda>y.
       let m = (if fs_type y = FS_TYPE_EXT2 \<or> fs_type y = FS_TYPE_ISO9660 then store16 m (rdx + 2) (ucast (load32 m (fn_specific d))) else m) in
       both ERROR_NONE (s\<lparr>kmem := m\<rparr>)))))))"

definition syscall_finfo :: "('hw, 'a) kkenv \<Rightarrow> nat \<Rightarrow> u32 \<Rightarrow> u32 \<Rightarrow> u32 \<Rightarrow> ('hw, 'a) kst \<Rightarrow> (regs, ('hw, 'a) kst) call res" where
  "syscall_finfo K f rbx rcx rdx s =
     bindR (file_nr rbx s) (\<lambda>file.
     bindR (valid_ptr rdx s) (\<lambda>ok.
     if file = 0 then both ERROR_FILE_NOT_FOUND s
     else if \<not> ok then both ERROR_INVALID_PTR s
     else
       after (kp K f (''%lSYS_FINFO(%u, 0x%X)'' @ newline) [3, rbx, rdx] s) (\<lambda>s.
       bindR (the_obj (fds s file)) (\<lambda>x.
       if rcx = VK_FINFO_DEVICE_TYPE then
         bindR (the_obj (fsnodes s (fd_file x))) (\<lambda>d.
         bindR (the_obj (fsystems s (fn_file_system d))) (\<lambda>y.
         bindR (if fs_type y = FS_TYPE_DEVFS then bindR (the_obj (devspecs s (fn_specific d))) (\<lambda>spe. Inr (device_type spe)) else Inr VK_NOT_A_DEVICE) (\<lambda>v.
         both ERROR_NONE (s\<lparr>kmem := store32 (kmem s) rdx v\<rparr>))))
       else if rcx = VK_FINFO_PATH then
         bindR (the_res (strlen (kmem s) (fd_path x))) (\<lambda>n.
         both ERROR_NONE (s\<lparr>kmem := (strncpy (kmem s) rdx (fd_path x) n)(rdx + n := 0)\<rparr>))
       else both UNKNOWN_ERROR s))))"

text \<open>\<^verbatim>\<open>syscall_mount\<close>, \<^verbatim>\<open>syscall_umount\<close> and \<^verbatim>\<open>syscall_sigret\<close> are empty.\<close>

definition syscall_nothing :: "('hw, 'a) kkenv \<Rightarrow> nat \<Rightarrow> u32 \<Rightarrow> u32 \<Rightarrow> u32 \<Rightarrow> ('hw, 'a) kst \<Rightarrow> (regs, ('hw, 'a) kst) call res" where
  "syscall_nothing K f rbx rcx rdx s = Inr (Ret (None, None) s)"

definition syscall_readdir :: "('hw, 'a) kkenv \<Rightarrow> nat \<Rightarrow> u32 \<Rightarrow> u32 \<Rightarrow> u32 \<Rightarrow> ('hw, 'a) kst \<Rightarrow> (regs, ('hw, 'a) kst) call res" where
  "syscall_readdir K f rbx rcx rdx s =
     bindR (file_nr rbx s) (\<lambda>file.
     bindR (valid_ptr rdx s) (\<lambda>ok.
     if file = 0 then both ERROR_FILE_NOT_FOUND s
     else if \<not> ok then both ERROR_INVALID_PTR s
     else
       bindR (malloc (kh K) 8 s) (\<lambda>(l, s).
       bindV (read_directory K f file l s) (\<lambda>(tr, n) s.
       if tr \<noteq> ERROR_NONE \<or> n \<le> rcx then
         bindR (list_free (free (kh K)) l n s) (both (if tr = ERROR_NONE then ERROR_FILE_OUT else tr))
       else
         let m = kmem s; dirent = le_element m (list_walk (unat rcx) l m);
             m = store32 m rdx (load32 m dirent); k = min (load32 m (dirent + 4)) 255;
             m = memcpy m (rdx + 4) (dirent + 8) (unat k) in
         bindR (list_free (free (kh K)) l n (s\<lparr>kmem := m(rdx + 4 + k := 0)\<rparr>)) (both ERROR_NONE)))))"

text \<open>Neither the number of instances nor the path of the new descriptor is set.\<close>

definition syscall_openio :: "('hw, 'a) kkenv \<Rightarrow> nat \<Rightarrow> u32 \<Rightarrow> u32 \<Rightarrow> u32 \<Rightarrow> ('hw, 'a) kst \<Rightarrow> (regs, ('hw, 'a) kst) call res" where
  "syscall_openio K f rbx rcx rdx s =
     bindR (iostream_alloc (kh K) s) (\<lambda>(io, s).
     bindR (malloc (kh K) 20 s) (\<lambda>(file, s).
     bindR (the_obj (streams s io)) (\<lambda>x.
     bindR (place_file K clear_none file (s\<lparr>fds := (fds s)(file \<mapsto> \<lparr>fd_file = io_file x, fd_offset = 0,
       fd_instances = load32 (kmem s) (file + 12), fd_path = load32 (kmem s) (file + 16)\<rparr>)\<rparr>)) (\<lambda>(i, s).
     two i ERROR_NONE s))))"

text \<open>A number that is asked for may lie behind the end of the table, whose new half is cleared in part only.\<close>

fun dup_room :: "('hw, 'a) kkenv \<Rightarrow> nat \<Rightarrow> u32 \<Rightarrow> ('hw, 'a) kst \<Rightarrow> ('hw, 'a) kst res" where
  "dup_room K 0 i s = Inl NoFuel"
| "dup_room K (Suc f) i s =
     bindR (proc (current_process s) s) (\<lambda>x. if files_size x < i then bindR (double_files K clear_some s) (dup_room K f i) else Inr s)"

definition dup_message :: "('hw, 'a) kkenv \<Rightarrow> nat \<Rightarrow> u32 \<Rightarrow> u32 \<Rightarrow> u32 \<Rightarrow> u32 \<Rightarrow> ('hw, 'a) kst \<Rightarrow> (regs, ('hw, 'a) kst) call res" where
  "dup_message K f rbx rcx oldf new s =
     after (kp K f (''%lSYS_DUP: duplicated file %d (0x%X) to %d %s'' @ newline)
       [3, rbx, oldf, new, lit s (if rcx \<noteq> 0 then ''(by choice)'' else ''(by default)'')] s) (two new ERROR_NONE)"

definition syscall_dup :: "('hw, 'a) kkenv \<Rightarrow> nat \<Rightarrow> u32 \<Rightarrow> u32 \<Rightarrow> u32 \<Rightarrow> ('hw, 'a) kst \<Rightarrow> (regs, ('hw, 'a) kst) call res" where
  "syscall_dup K f rbx rcx rdx s =
     bindR (file_nr rbx s) (\<lambda>oldf.
     let more = upd_fd oldf (\<lambda>x. x\<lparr>fd_instances := fd_instances x + 1\<rparr>) in
     if oldf = 0 then two 0 ERROR_FILE_NOT_FOUND s
     else if rcx \<noteq> 0 then
       if rcx < 3 then two 0 UNKNOWN_ERROR s
       else
         bindR (dup_room K f rcx s) (\<lambda>s.
         bindR (more s) (\<lambda>s.
         bindR (proc (current_process s) s) (\<lambda>x.
         let old = load32 (kmem s) (slot (files x) rcx) in
         bindR (if old \<noteq> 0 then close_file K old s else Inr s) (\<lambda>s.
         dup_message K f rbx rcx oldf rcx (s\<lparr>kmem := store32 (kmem s) (slot (files x) rcx) oldf\<rparr>)))))
     else
       bindR (place_file K clear_some oldf s) (\<lambda>(i, s).
       bindR (more s) (dup_message K f rbx rcx oldf i)))"

text \<open>All mount points are written to the same structure: its pointer is set again in every step. The drive of /dev is a null pointer.\<close>

definition store64 :: "mem \<Rightarrow> u32 \<Rightarrow> u64 \<Rightarrow> mem" where
  "store64 m a v = store32 (store32 m a (ucast v)) (a + 4) (ucast (drop_bit 32 v))"

definition store_statfs :: "mount_point \<Rightarrow> file_system \<Rightarrow> u32 \<Rightarrow> u32 \<Rightarrow> u32 \<Rightarrow> mem \<Rightarrow> mem" where
  "store_statfs p y blocks len dest m =
     (let m = store64 (store32 m dest (ucast (fs_type y))) (dest + 4) (ucast (fs_flags y));
          m = store32 m (dest + 12) 512;
          m = store64 (store64 (store64 m (dest + 16) (ucast blocks)) (dest + 24) (ucast blocks)) (dest + 32) (ucast blocks);
          m = store64 (store64 m (dest + 40) 0xFFFFFFFE) (dest + 48) 0xFFFFFFFE;
          m = store32 m (dest + 56) (mp_fs p);
          m = memcpy m (dest + 60) (mp_path p) (unat len)
      in m(dest + 60 + len := 0))"

fun store_mounts :: "nat \<Rightarrow> u32 \<Rightarrow> u32 \<Rightarrow> ('hw, 'a) kst \<Rightarrow> ('hw, 'a) kst res" where
  "store_mounts 0 ptr dest s = Inl NoFuel"
| "store_mounts (Suc f) ptr dest s =
     (if ptr = 0 then Inr s
      else
        bindR (the_obj (mount_points s ptr)) (\<lambda>p.
        bindR (the_obj (fsystems s (mp_fs p))) (\<lambda>y.
        bindR (if fs_partition y \<noteq> 0 then bindR (part_at (fs_drive y) (unat (fs_partition y) - 1) s) (\<lambda>d. Inr (pd_length d))
               else bindR (the_obj (block_devs s (fs_drive y))) (\<lambda>b. Inr (device_size b))) (\<lambda>blocks.
        bindR (the_res (strlen (kmem s) (mp_path p))) (\<lambda>len.
        store_mounts f (mp_next p) dest (s\<lparr>kmem := store_statfs p y blocks (if 99 < len then 99 else len) dest (kmem s)\<rparr>))))))"

definition syscall_fsinfo :: "('hw, 'a) kkenv \<Rightarrow> nat \<Rightarrow> u32 \<Rightarrow> u32 \<Rightarrow> u32 \<Rightarrow> ('hw, 'a) kst \<Rightarrow> (regs, ('hw, 'a) kst) call res" where
  "syscall_fsinfo K f rbx rcx rdx s =
     bindR (valid_ptr rcx s) (\<lambda>ok.
     let n = ucast (current_mount_points s) in
     if \<not> ok then both ERROR_INVALID_PTR s
     else if rbx = VK_FSINFO_MOUNTED_FS_NUMBER then two n ERROR_NONE (s\<lparr>kmem := store32 (kmem s) rcx n\<rparr>)
     else if rbx = VK_FSINFO_MOUNTED_FS_ALL then bindR (store_mounts f (root_point s) rcx s) (two n ERROR_NONE)
     else both UNKNOWN_ERROR s)"

subsection \<open>Processes\<close>

text \<open>The call pushes the stack pointer and returns the number of the new process; ecx is what \<^verbatim>\<open>fork\<close> left there.\<close>

definition syscall_fork :: "('hw, 'a) kkenv \<Rightarrow> nat \<Rightarrow> u32 \<Rightarrow> ('hw, 'a) kst \<Rightarrow> (regs, ('hw, 'a) kst) call res" where
  "syscall_fork K f esp s =
     bindR (fork K f (current_process s) esp s) (\<lambda>(tr, s).
     bindR (proc tr s) (\<lambda>x. Inr (Ret (Some (word_of_int (pid x)), None) s)))"

definition fork_ret :: u32 where "fork_ret = 0"

definition no_regs :: "('hw, 'a) kst ctl res \<Rightarrow> (regs, ('hw, 'a) kst) call res" where
  "no_regs r = after r (\<lambda>s. Inr (Ret (None, None) s))"

definition syscall_exit :: "('hw, 'a) kkenv \<Rightarrow> nat \<Rightarrow> u32 \<Rightarrow> u32 \<Rightarrow> u32 \<Rightarrow> ('hw, 'a) kst \<Rightarrow> (regs, ('hw, 'a) kst) call res" where
  "syscall_exit K f rbx rcx rdx s = no_regs (exit_process K f (current_process s) (EXIT_CONDITION_USER OR ucast (ucast rbx :: u8)) s)"

text \<open>The strings of a table of the caller, up to its null pointer, in kernel memory; the new table has room for \<open>room\<close> and doubles.\<close>

fun take_strings :: "('hw, 'a) kkenv \<Rightarrow> nat \<Rightarrow> u32 \<Rightarrow> nat \<Rightarrow> u32 \<Rightarrow> u32 \<Rightarrow> ('hw, 'a) kst \<Rightarrow> (u32 \<times> nat \<times> ('hw, 'a) kst) res" where
  "take_strings K 0 user n table room s = Inl NoFuel"
| "take_strings K (Suc f) user n table room s =
     (let old = load32 (kmem s) (slot user (of_nat n)) in
      if old = 0 then Inr (table, n, s\<lparr>kmem := store32 (kmem s) (slot table (of_nat n)) 0\<rparr>)
      else
        bindR (the_res (strlen (kmem s) old)) (\<lambda>len.
        bindR (malloc (kh K) (len + 1) s) (\<lambda>(new, s).
        bindR (the_res (strcpy (kmem s) new old)) (\<lambda>m.
        let s = s\<lparr>kmem := store32 m (slot table (of_nat n)) new\<rparr> in
        if room \<le> of_nat (Suc n) then
          bindR (realloc (kh K) table (4 * (room * 2)) s) (\<lambda>(table, s). take_strings K f user (Suc n) table (room * 2) s)
        else take_strings K f user (Suc n) table room s))))"

text \<open>Neither table is validated. The call ends with a switch to the thread, whose registers are in its record.\<close>

definition syscall_exec :: "('hw, 'a) kkenv \<Rightarrow> nat \<Rightarrow> u32 \<Rightarrow> u32 \<Rightarrow> u32 \<Rightarrow> ('hw, 'a) kst \<Rightarrow> (regs, ('hw, 'a) kst) call res" where
  "syscall_exec K f rbx rcx rdx s =
     bindR (file_nr rbx s) (\<lambda>file.
     if file = 0 then both ERROR_FILE_NOT_FOUND s
     else
       bindV (elf_check K f file s) (\<lambda>is_elf s.
       if is_elf \<noteq> ERROR_NONE then both is_elf s
       else
         bindR (malloc (kh K) 20 s) (\<lambda>(argv, s).
         bindR (take_strings K f rdx 0 argv 5 s) (\<lambda>(argv, argc, s).
         bindR (malloc (kh K) 20 s) (\<lambda>(env, s).
         bindR (take_strings K f rcx 0 env 5 s) (\<lambda>(env, envc, s).
         bindR (free_process_memory (kh K) f (current_process s) s) (\<lambda>s.
         bindR (proc (current_process s) s) (\<lambda>x.
         bindV (load_executable K f (current_process s) (load32 (kmem s) (slot (files x) rbx)) argc argv env envc s) (\<lambda>ld s.
         no_regs (bindC (if ld \<noteq> ERROR_NONE then
                           bindC (kp K f (''%lLOAD = %u'' @ newline) [3, ld] s) (\<lambda>s. exit_process K f (current_process s) (push_bit 8 3) s)
                         else Inr (Returned s)) (\<lambda>s.
         bindR (proc (current_process s) s) (\<lambda>x.
         bindR (schedule_switch (active_thread x) (current_process s) s) (\<lambda>s. Inr (Switched s))))))))))))))"

text \<open>
  The first child that is asked for and is a zombie, with the entries before and after it. Its record and its thread are freed; when it is
  the first of the list, the whole list is dropped.
\<close>

fun find_zombie :: "(process \<Rightarrow> bool res) \<Rightarrow> (u32 \<times> u32) list \<Rightarrow> (u32 \<times> u32) list \<Rightarrow> 'a tasking_scheme
    \<Rightarrow> ((u32 \<times> u32) list \<times> u32 \<times> u32 \<times> (u32 \<times> u32) list) option res" where
  "find_zombie wanted before [] s = Inr None"
| "find_zombie wanted before ((e, c) # cl) s =
     bindR (proc c s) (\<lambda>x.
     bindR (if p_status x = PROCESS_STATUS_ZOMBIE then wanted x else Inr False) (\<lambda>ok.
     if ok then Inr (Some (before, e, c, cl)) else find_zombie wanted (before @ [(e, c)]) cl s))"

definition asked_for :: "int \<Rightarrow> 'a tasking_scheme \<Rightarrow> process \<Rightarrow> bool res" where
  "asked_for nr s x =
     (if nr < -1 then bindR (grp (p_group x) s) (\<lambda>g. Inr (gid g = - nr))
      else if nr = -1 then Inr True
      else if nr = 0 then
        bindR (grp (p_group x) s) (\<lambda>g.
        bindR (proc (current_process s) s) (\<lambda>c.
        bindR (grp (p_group c) s) (\<lambda>h. Inr (gid g = gid h))))
      else Inr (pid x = nr))"

definition reap :: "('hw, 'a) kkenv \<Rightarrow> u32 \<Rightarrow> (u32 \<times> u32) list \<Rightarrow> u32 \<Rightarrow> u32 \<Rightarrow> (u32 \<times> u32) list \<Rightarrow> ('hw, 'a) kst \<Rightarrow> (regs, ('hw, 'a) kst) call res" where
  "reap K wstatus before e c rest s =
     bindR (proc c s) (\<lambda>x.
     bindR (thr (active_thread x) s) (\<lambda>t.
     let s = (set_process (pid x) 0 s)\<lparr>thrs := (thrs s)(active_thread x := None)\<rparr> in
     bindR (free (kh K) (active_thread x) s) (\<lambda>s.
     bindR (free (kh K) c (s\<lparr>procs := (procs s)(c := None)\<rparr>)) (\<lambda>s.
     bindR (upd_proc (current_process s) (\<lambda>y. y\<lparr>children := if before = [] then [] else before @ rest\<rparr>) s) (\<lambda>s.
     bindR (free (kh K) e s) (\<lambda>s.
     two (word_of_int (pid x)) ERROR_NONE
       (if wstatus \<noteq> 0 then s\<lparr>kmem := store32 (kmem s) wstatus (eax (gregs t))\<rparr> else s)))))))"

text \<open>
  Without such a child the thread sleeps and then looks again, also when no child has the number that was asked for: the error that is put in the
  registers then is not returned.
\<close>

fun wait_loop :: "('hw, 'a) kkenv \<Rightarrow> nat \<Rightarrow> int \<Rightarrow> u32 \<Rightarrow> ('hw, 'a) kst \<Rightarrow> (regs, ('hw, 'a) kst) call res" where
  "wait_loop K 0 nr wstatus s = Inl NoFuel"
| "wait_loop K (Suc f) nr wstatus s =
     bindR (proc (current_process s) s) (\<lambda>x.
     bindR (find_zombie (asked_for nr s) [] (children x) s) (\<lambda>z.
     case z of
       Some (before, e, c, rest) \<Rightarrow> reap K wstatus before e c rest s
     | None \<Rightarrow>
         bindR (upd_active (current_process s) (\<lambda>t. t\<lparr>t_status := THREAD_STATUS_ASLEEP_CHILD\<rparr>) s) (\<lambda>s.
         after (scheduler_remove_thread (kh K) (current_process s) (active_thread x) s) (wait_loop K f nr wstatus))))"

definition syscall_wait :: "('hw, 'a) kkenv \<Rightarrow> nat \<Rightarrow> u32 \<Rightarrow> u32 \<Rightarrow> u32 \<Rightarrow> ('hw, 'a) kst \<Rightarrow> (regs, ('hw, 'a) kst) call res" where
  "syscall_wait K f rbx rcx rdx s =
     bindR (valid_ptr rcx s) (\<lambda>ok.
     if rcx \<noteq> 0 \<and> \<not> ok then both ERROR_INVALID_PTR s
     else
       bindR (proc (current_process s) s) (\<lambda>x.
       if children x = [] \<or> snd (hd (children x)) = 0 then both ERROR_HAS_NO_CHILD s
       else wait_loop K f (sint rbx) rcx s))"

text \<open>
  The process a call is about, 0 for the caller itself. A number equal to the table's size is let through. The test for the right to see it
  evaluates both sides: for a free place it reads the parent through a null pointer.
\<close>

definition subject :: "u32 \<Rightarrow> ('hw, 'a) kst \<Rightarrow> (u32 + u32) res" where
  "subject rbx s =
     (if sint rbx < 0 \<or> sint (processes_size s) < sint rbx then Inr (Inl ERROR_INVALID_PID)
      else
        let cur = current_process s; p = (if rbx = 0 then cur else processes_at (sint rbx) s) in
        if p = cur then Inr (if p = 0 then Inl ERROR_PERMISSION else Inr p)
        else bindR (proc p s) (\<lambda>x. Inr (if parent x \<noteq> cur then Inl ERROR_PERMISSION else Inr p)))"

definition syscall_getpinfo :: "('hw, 'a) kkenv \<Rightarrow> nat \<Rightarrow> u32 \<Rightarrow> u32 \<Rightarrow> u32 \<Rightarrow> ('hw, 'a) kst \<Rightarrow> (regs, ('hw, 'a) kst) call res" where
  "syscall_getpinfo K f rbx rcx rdx s =
     bindR (valid_ptr rdx s) (\<lambda>ok.
     if \<not> ok then both ERROR_INVALID_PTR s
     else
       bindR (subject rbx s) (\<lambda>r.
       case r of Inl err \<Rightarrow> both err s
       | Inr p \<Rightarrow>
           bindR (proc p s) (\<lambda>x.
           let put_int = (\<lambda>i. both ERROR_NONE (s\<lparr>kmem := store32 (kmem s) rdx (word_of_int i)\<rparr>)) in
           if rcx = VK_PINFO_PID then put_int (pid x)
           else if rcx = VK_PINFO_PPID then
             (if parent x \<noteq> 0 then bindR (proc (parent x) s) (\<lambda>y. put_int (pid y)) else put_int (-1))
           else if rcx = VK_PINFO_WORKING_DIRECTORY then
             bindR (the_res (strcpy (kmem s) rdx (current_dir p))) (\<lambda>m. both ERROR_NONE (s\<lparr>kmem := m\<rparr>))
           else if rcx = VK_PINFO_GID then bindR (grp (p_group x) s) (\<lambda>g. put_int (gid g))
           else both UNKNOWN_ERROR s)))"

definition syscall_setpinfo :: "('hw, 'a) kkenv \<Rightarrow> nat \<Rightarrow> u32 \<Rightarrow> u32 \<Rightarrow> u32 \<Rightarrow> ('hw, 'a) kst \<Rightarrow> (regs, ('hw, 'a) kst) call res" where
  "syscall_setpinfo K f rbx rcx rdx s =
     bindR (subject rbx s) (\<lambda>r.
     case r of Inl err \<Rightarrow> both err s
     | Inr p \<Rightarrow>
         if rcx = VK_PINFO_WORKING_DIRECTORY then
           bindR (valid_ptr rdx s) (\<lambda>ok.
           if \<not> ok then both ERROR_INVALID_PTR s
           else
             bindR (the_res (strlen (kmem s) rdx)) (\<lambda>len.
             if 99 \<le> len then both ERROR_FILE_OUT s
             else
               bindV (open_file K f rdx 0 s) (\<lambda>t s.
               if t = 0 then both ERROR_FILE_NOT_FOUND s
               else
                 bindR (close_file K t s) (\<lambda>s.
                 both ERROR_NONE (s\<lparr>kmem := (strncpy (kmem s) (current_dir p) rdx len)(current_dir p + len := 0)\<rparr>)))))
         else if rcx = VK_PINFO_GID then bindR (process_setgroup (kh K) f (sint rdx) p s) (\<lambda>(tr, s). both tr s)
         else both UNKNOWN_ERROR s)"

subsection \<open>Signals, memory, devices\<close>

definition syscall_sig :: "('hw, 'a) kkenv \<Rightarrow> nat \<Rightarrow> u32 \<Rightarrow> u32 \<Rightarrow> u32 \<Rightarrow> ('hw, 'a) kst \<Rightarrow> (regs, ('hw, 'a) kst) call res" where
  "syscall_sig K f rbx rcx rdx s =
     (let nr = sint rbx; sig = sint rcx in
      if nr = 0 \<or> sint (processes_size s) < nr then both ERROR_INVALID_PID s
      else if 0 < nr \<and> processes_at nr s = 0 then both ERROR_INVALID_PID s
      else if sig \<le> 0 \<or> NSIG \<le> sig then both ERROR_INVALID_SIGNAL s
      else after (if nr < 0 then send_signal_to_group (kh K) f (- nr) sig s else send_signal (kh K) f nr sig s) (both ERROR_NONE))"

definition syscall_sigaction :: "('hw, 'a) kkenv \<Rightarrow> nat \<Rightarrow> u32 \<Rightarrow> u32 \<Rightarrow> u32 \<Rightarrow> ('hw, 'a) kst \<Rightarrow> (regs, ('hw, 'a) kst) call res" where
  "syscall_sigaction K f rbx rcx rdx s =
     (let sig = sint rbx in
      if NSIG \<le> sig \<or> sig \<le> 0 \<or> sig = SIGKILL \<or> sig = SIGSTOP then Inr (Ret (None, Some ERROR_INVALID_SIGNAL) s)
      else
        bindR (proc (current_process s) s) (\<lambda>x.
        bindR (upd_proc (current_process s) (\<lambda>x. x\<lparr>signal_handlers := (signal_handlers x)(nat sig := rcx)\<rparr>) s)
          (two (signal_handlers x (nat sig)) ERROR_NONE)))"

definition syscall_sbrk :: "('hw, 'a) kkenv \<Rightarrow> nat \<Rightarrow> u32 \<Rightarrow> u32 \<Rightarrow> u32 \<Rightarrow> ('hw, 'a) kst \<Rightarrow> (regs, ('hw, 'a) kst) call res" where
  "syscall_sbrk K f rbx rcx rdx s = bindR (sbrk K f (current_process s) rbx s) (\<lambda>(tr, s). two tr ERROR_NONE s)"

definition syscall_ioctl :: "('hw, 'a) kkenv \<Rightarrow> nat \<Rightarrow> u32 \<Rightarrow> u32 \<Rightarrow> u32 \<Rightarrow> ('hw, 'a) kst \<Rightarrow> (regs, ('hw, 'a) kst) call res" where
  "syscall_ioctl K f rbx rcx rdx s =
     bindR (file_nr rbx s) (\<lambda>file.
     if file = 0 then both ERROR_FILE_NOT_FOUND s
     else
       bindR (the_obj (fds s file)) (\<lambda>x.
       bindR (the_obj (fsnodes s (fd_file x))) (\<lambda>d.
       bindR (the_obj (fsystems s (fn_file_system d))) (\<lambda>y.
       if fs_type y \<noteq> FS_TYPE_DEVFS then both ERROR_NO_DEVICE s
       else
         bindR (the_obj (devspecs s (fn_specific d))) (\<lambda>spe.
         if device_type spe = DEVFS_TYPE_TTY then bindR (tty_ioctl f (device_struct spe) rcx rdx s) (\<lambda>(err, s). both err s)
         else both UNKNOWN_ERROR s)))))"

text \<open>
  The table of calls. The entry code does not test the number: a place that holds a null pointer and a place behind the end are jumped to, here
  \<open>BadPtr\<close>. The stack pointer is used by \<^verbatim>\<open>syscall_fork\<close> only.
\<close>

definition system_calls :: "('hw, 'a) kkenv \<Rightarrow> nat \<Rightarrow> u32 \<Rightarrow> (u32 \<Rightarrow> u32 \<Rightarrow> u32 \<Rightarrow> ('hw, 'a) kst \<Rightarrow> (regs, ('hw, 'a) kst) call res) option list" where
  "system_calls K f esp =
     [None, Some (syscall_open K f), Some (syscall_close K f), Some (syscall_read K f), Some (syscall_write K f), Some (syscall_link K f),
      Some (syscall_unlink K f), Some (syscall_seek K f), Some (syscall_stat K f), Some (syscall_rename K f), Some (syscall_finfo K f),
      Some (syscall_nothing K f), Some (syscall_nothing K f), Some (syscall_mkdir K f), Some (syscall_readdir K f), Some (syscall_openio K f),
      Some (syscall_dup K f), Some (syscall_fsinfo K f)] @ replicate 13 None @
     [Some (\<lambda>_ _ _. syscall_fork K f esp), Some (syscall_exit K f), Some (syscall_exec K f), Some (syscall_wait K f), Some (syscall_getpinfo K f),
      Some (syscall_setpinfo K f), Some (syscall_sig K f), Some (syscall_sigaction K f), Some (syscall_nothing K f), Some (syscall_sbrk K f)] @
     replicate 10 None @ [Some (syscall_ioctl K f)]"

definition system_call :: "('hw, 'a) kkenv \<Rightarrow> nat \<Rightarrow> u32 \<Rightarrow> u32 \<Rightarrow> u32 \<Rightarrow> u32 \<Rightarrow> u32 \<Rightarrow> ('hw, 'a) kst \<Rightarrow> (regs, ('hw, 'a) kst) call res" where
  "system_call K f esp rax rbx rcx rdx s =
     (let t = system_calls K f esp in
      if unat rax < length t then (case t ! unat rax of Some c \<Rightarrow> c rbx rcx rdx s | None \<Rightarrow> Inl BadPtr) else Inl BadPtr)"

end
