(* ===== verification/VK_Boot.thy ===== *)
theory VK_Boot
  imports VK_Syscall
begin

section \<open>The processor and the start of the kernel (cpu/, args.c, ckernel.c)\<close>

text \<open>
  The descriptor tables, what the processor says about itself, the command line, and the order in which \<^verbatim>\<open>kmain\<close> sets the parts up.
  The instructions that load a table are not part of the model: the tables are what the functions leave in memory. The answers of
  \<^verbatim>\<open>cpuid\<close> and the addresses of handlers are given as functions.
\<close>

subsection \<open>State\<close>

record gdt_desc =
  lim0_15 :: u16
  base0_15 :: u16
  base16_23 :: u8
  acces :: u8
  lim16_19 :: "4 word"
  gd_other :: "4 word"
  base24_31 :: u8

record idt_desc =
  offset0_15 :: u16
  id_select :: u16
  id_type :: u16
  offset16_31 :: u16

record tss_entry =
  tss_ss0 :: u32
  tss_es :: u32
  tss_cs :: u32
  tss_ss :: u32
  tss_ds :: u32
  tss_fs :: u32
  tss_gs :: u32

record 'hw machine = "'hw kernel" +
  GDT_ENTRIES :: "gdt_desc list"
  GDT_POINTER :: "u16 \<times> u32"
  TSS :: tss_entry
  IDT_ENTRIES :: "idt_desc list"
  IDT_POINTER :: "u16 \<times> u32"
  CPU_VENDOR :: "u8 list"
  CPU_MAX_CPUID :: u32
  cpu_f_edx :: u32
  cpu_f_ecx :: u32
  cpu_ef_ebx :: u32
  cpu_ef_ecx :: u32
  cpu_max_ecpuid :: u32
  cpu_e_support :: bool
  alive :: bool
  aboot_hint_present :: u8
  asilent :: bool
  addr_GDT_ENTRIES :: u32
  addr_IDT_ENTRIES :: u32
  addr_TSS :: u32

type_synonym ('hw, 'a) mst = "('hw, 'a) machine_scheme"
type_synonym ('hw, 'a) menv = "('hw, ('hw, 'a) machine_scheme) kenv"

definition GDT_SIZE :: nat where "GDT_SIZE = 6"
definition IDT_SIZE :: nat where "IDT_SIZE = 0xFF"
definition KERNEL_MODE_LIVE :: u8 where "KERNEL_MODE_LIVE = 1"
definition KERNEL_MODE_INSTALLED :: u8 where "KERNEL_MODE_INSTALLED = 2"

subsection \<open>Descriptor tables\<close>

definition gdt_entry :: "u32 \<Rightarrow> u32 \<Rightarrow> u8 \<Rightarrow> u8 \<Rightarrow> gdt_desc" where
  "gdt_entry base limite ac other =
     \<lparr>lim0_15 = ucast (limite AND 0xffff), base0_15 = ucast (base AND 0xffff), base16_23 = ucast (drop_bit 16 (base AND 0xff0000)),
      acces = ac, lim16_19 = ucast (drop_bit 16 (limite AND 0xf0000)), gd_other = ucast (other AND 0xf),
      base24_31 = ucast (drop_bit 24 (base AND 0xff000000))\<rparr>"

definition init_gdt_desc :: "nat \<Rightarrow> u32 \<Rightarrow> u32 \<Rightarrow> u8 \<Rightarrow> u8 \<Rightarrow> ('hw, 'a) mst \<Rightarrow> ('hw, 'a) mst" where
  "init_gdt_desc index base limite ac other s = s\<lparr>GDT_ENTRIES := (GDT_ENTRIES s)[index := gdt_entry base limite ac other]\<rparr>"

text \<open>The size of the structure is 104 bytes. The kernel's stack pointer is the field the switch to another thread sets.\<close>

definition tss_write :: "nat \<Rightarrow> u16 \<Rightarrow> u32 \<Rightarrow> ('hw, 'a) mst \<Rightarrow> ('hw, 'a) mst" where
  "tss_write index ss0 esp0 s =
     (init_gdt_desc index (addr_TSS s) 104 0xE9 0x00 s)\<lparr>tss_esp0 := esp0,
        TSS := \<lparr>tss_ss0 = ucast ss0, tss_es = 0x10, tss_cs = 0x08, tss_ss = 0x10, tss_ds = 0x10, tss_fs = 0x10, tss_gs = 0x10\<rparr>\<rparr>"

definition gdt_install :: "u32 \<Rightarrow> ('hw, 'a) mst \<Rightarrow> ('hw, 'a) mst" where
  "gdt_install stack_pointer s =
     (let s = s\<lparr>GDT_POINTER := (of_nat (GDT_SIZE * 8), addr_GDT_ENTRIES s)\<rparr>;
          s = init_gdt_desc 0 0 0 0 0 s;
          s = init_gdt_desc 1 0 0xFFFFFFFF 0x9A 0xCF s;
          s = init_gdt_desc 2 0 0xFFFFFFFF 0x92 0xCF s;
          s = init_gdt_desc 3 0 0xFFFFFFFF 0xFA 0xCF s;
          s = init_gdt_desc 4 0 0xFFFFFFFF 0xF2 0xCF s;
          s = tss_write 5 0x10 stack_pointer s
      in s\<lparr>cpu := (cpu s)\<lparr>c_sregs := (c_sregs (cpu s))\<lparr>ds := 0x10, es := 0x10, fs := 0x10, gs := 0x10, cs := 0x08\<rparr>\<rparr>\<rparr>)"

definition init_idt_desc :: "nat \<Rightarrow> u16 \<Rightarrow> u32 \<Rightarrow> u16 \<Rightarrow> ('hw, 'a) mst \<Rightarrow> ('hw, 'a) mst" where
  "init_idt_desc index select offset ty s =
     s\<lparr>IDT_ENTRIES := (IDT_ENTRIES s)[index := \<lparr>offset0_15 = ucast (offset AND 0xffff), id_select = select, id_type = ty,
         offset16_31 = ucast (drop_bit 16 (offset AND 0xffff0000))\<rparr>]\<rparr>"

text \<open>The handlers of a range of vectors, from \<open>i\<close> on.\<close>

fun init_idt_descs :: "nat \<Rightarrow> u32 list \<Rightarrow> ('hw, 'a) mst \<Rightarrow> ('hw, 'a) mst" where
  "init_idt_descs i [] s = s"
| "init_idt_descs i (h # hs) s = init_idt_descs (Suc i) hs (init_idt_desc i 0x08 h 0x8E00 s)"

record handlers =
  h_unhandled :: u32
  h_isr :: "nat \<Rightarrow> u32"
  h_schedule :: u32
  h_irq :: "nat \<Rightarrow> u32"
  h_syscall :: u32

definition idt_install :: "handlers \<Rightarrow> ('hw, 'a) mst \<Rightarrow> ('hw, 'a) mst" where
  "idt_install H s =
     (let s = init_idt_descs 0 (replicate IDT_SIZE (h_unhandled H)) s;
          s = init_idt_descs 0 (map (h_isr H) [0..<32]) s;
          s = init_idt_descs 32 (h_schedule H # map (h_irq H) [1..<21]) s;
          s = init_idt_desc 0x80 0x08 (h_syscall H) 0xEF00 s
      in s\<lparr>IDT_POINTER := (of_nat (IDT_SIZE * 8), addr_IDT_ENTRIES s)\<rparr>)"

text \<open>What a descriptor says.\<close>

definition desc_base :: "gdt_desc \<Rightarrow> u32" where
  "desc_base d = push_bit 24 (ucast (base24_31 d)) OR push_bit 16 (ucast (base16_23 d)) OR ucast (base0_15 d)"

definition desc_limit :: "gdt_desc \<Rightarrow> u32" where
  "desc_limit d = push_bit 16 (ucast (lim16_19 d)) OR ucast (lim0_15 d)"

definition gate_offset :: "idt_desc \<Rightarrow> u32" where
  "gate_offset d = push_bit 16 (ucast (offset16_31 d)) OR ucast (offset0_15 d)"

subsection \<open>The processor\<close>

text \<open>\<open>cpuid a c\<close> is what the instruction leaves in eax, ebx, ecx and edx.\<close>

definition word_bytes :: "u32 \<Rightarrow> u8 list" where
  "word_bytes w = [ucast w, ucast (drop_bit 8 w), ucast (drop_bit 16 w), ucast (drop_bit 24 w)]"

definition cpu_vendor_id :: "(u32 \<Rightarrow> u32 \<Rightarrow> u32 \<times> u32 \<times> u32 \<times> u32) \<Rightarrow> ('hw, 'a) mst \<Rightarrow> ('hw, 'a) mst" where
  "cpu_vendor_id cpuid s =
     (let (a, b, c, d) = cpuid 0 0 in s\<lparr>CPU_MAX_CPUID := a, CPU_VENDOR := word_bytes b @ word_bytes d @ word_bytes c @ [0]\<rparr>)"

definition cpu_features :: "(u32 \<Rightarrow> u32 \<Rightarrow> u32 \<times> u32 \<times> u32 \<times> u32) \<Rightarrow> ('hw, 'a) mst \<Rightarrow> ('hw, 'a) mst" where
  "cpu_features cpuid s =
     (if CPU_MAX_CPUID s = 0 then s
      else
        let (a, b, c, d) = cpuid 1 0;
            s = s\<lparr>cpu_f_ecx := c, cpu_f_edx := d, cpu_pse := drop_bit 31 (push_bit 28 d) \<noteq> 0\<rparr>;
            s = (if 7 \<le> CPU_MAX_CPUID s then let (a, b, c, d) = cpuid 7 0 in s\<lparr>cpu_ef_ebx := b, cpu_ef_ecx := c\<rparr> else s);
            (a, b, c, d) = cpuid 0x80000000 0;
            s = s\<lparr>cpu_max_ecpuid := a\<rparr>
        in if 0x80000000 < a then s\<lparr>cpu_e_support := True\<rparr> else s)"

definition cpu_detect :: "(u32 \<Rightarrow> u32 \<Rightarrow> u32 \<times> u32 \<times> u32 \<times> u32) \<Rightarrow> ('hw, 'a) mst \<Rightarrow> ('hw, 'a) mst" where
  "cpu_detect cpuid s = cpu_features cpuid (cpu_vendor_id cpuid s)"

subsection \<open>The command line (args.c)\<close>

fun args_loop :: "nat \<Rightarrow> u32 \<Rightarrow> ('hw, 'a) mst \<Rightarrow> ('hw, 'a) mst res" where
  "args_loop 0 ndash s = Inl NoFuel"
| "args_loop (Suc f) ndash s =
     (if ndash = 0 then Inr s
      else
        bindR (starts_with ''-live'' ndash s) (\<lambda>live.
        let s = (if live then s\<lparr>alive := True, aboot_hint_present := KERNEL_MODE_LIVE\<rparr> else s) in
        bindR (starts_with ''-silent'' ndash s) (\<lambda>silent.
        let s = (if silent then s\<lparr>asilent := True\<rparr> else s) in
        bindR (the_res (strchr (kmem s) (ndash + 1) 45)) (\<lambda>nx. args_loop f nx s))))"

definition args_parse :: "nat \<Rightarrow> u32 \<Rightarrow> ('hw, 'a) mst \<Rightarrow> ('hw, 'a) mst res" where
  "args_parse f cmdline s =
     (if kmem s cmdline = 0 then Inr s else bindR (the_res (strchr (kmem s) cmdline 45)) (\<lambda>ndash. args_loop f ndash s))"

subsection \<open>The start (ckernel.c)\<close>

record multiboot_info =
  mb_flags :: u32
  mb_boot_device :: u32
  mb_cmdline :: u32
  mb_mmap_length :: u32
  mb_mmap_addr :: u32

text \<open>What the kernel finds: the boot loader's data with the memory map, the handlers, the processor and the display's ports, the
  places of two page tables, what a new block of the memory map holds, and the flags register.\<close>

record boot =
  bt_info :: multiboot_info
  bt_map :: "u32 \<Rightarrow> memory_map"
  bt_handlers :: handlers
  bt_cpuid :: "u32 \<Rightarrow> u32 \<Rightarrow> u32 \<times> u32 \<times> u32 \<times> u32"
  bt_inb :: "(u16 \<times> u8) list \<Rightarrow> u16 \<Rightarrow> u8"
  bt_kheap_table :: u32
  bt_kpheap_table :: u32
  bt_junk :: block
  bt_eflags :: u32

definition boot_mode :: "multiboot_info \<Rightarrow> u8 \<Rightarrow> u8" where
  "boot_mode mbt hint =
     (let dev = drop_bit 24 (mb_boot_device mbt) in
      if hint \<noteq> 0 then hint
      else if mb_flags mbt AND 0b10 = 0 then 0
      else if dev = 0x80 \<or> dev = 0x81 then KERNEL_MODE_INSTALLED
      else if dev = 0xE0 \<or> dev = 0xA0 then KERNEL_MODE_LIVE
      else 0)"

text \<open>The first drive of a class; the index is a signed byte, the first drive is looked at before their number is.\<close>

fun find_drive :: "nat \<Rightarrow> u8 \<Rightarrow> string \<Rightarrow> u8 \<Rightarrow> ('hw, 'a) mst \<Rightarrow> u8 res" where
  "find_drive 0 cls msg drive s = Inl NoFuel"
| "find_drive (Suc f) cls msg drive s =
     bindR (the_obj (block_devs s (load32 (kmem s) (slot (block_devices s) (ucast drive))))) (\<lambda>b.
     if device_class b = cls then Inr drive
     else if sint (drive + 1) = uint (block_device_count s) then Inl (Fatal msg)
     else find_drive f cls msg (drive + 1) s)"

definition setup_cpu :: "('hw, 'a) menv \<Rightarrow> nat \<Rightarrow> boot \<Rightarrow> u32 \<Rightarrow> ('hw, 'a) mst \<Rightarrow> ('hw, 'a) mst ctl res" where
  "setup_cpu K f B stack_pointer s =
     bindC (kp K f ''Setting up CPU...'' [] s) (\<lambda>s.
     vga_text_okmsg (kh K) f (cpu_detect (bt_cpuid B) (idt_install (bt_handlers B) (gdt_install stack_pointer s))))"

definition setup_memory :: "('hw, 'a) menv \<Rightarrow> nat \<Rightarrow> boot \<Rightarrow> ('hw, 'a) mst \<Rightarrow> ('hw, 'a) mst ctl res" where
  "setup_memory K f B s =
     bindC (kp K f ''Setting up memory...'' [] s) (\<lambda>s.
     let s = kheap_install (kheap_install_map (bt_kheap_table B) s) in
     bindR (physmem_get (malloc (kh K)) (bt_junk B) (bt_map B) (mb_mmap_addr (bt_info B)) (mb_mmap_length (bt_info B)) f s) (\<lambda>s.
     bindR (install_page_heap (malloc (kh K)) f (bt_kpheap_table B) s) (\<lambda>s.
     bindR (kvmheap_install (malloc (kh K)) s) (vga_text_okmsg (kh K) f))))"

text \<open>Choosing and mounting the root drive.\<close>

definition mount_root :: "('hw, 'a) menv \<Rightarrow> nat \<Rightarrow> boot \<Rightarrow> ('hw, 'a) mst \<Rightarrow> ('hw, 'a) mst ctl res" where
  "mount_root K f B s =
     bindC (kp K f ''Getting kernel execution context...'' [] s) (\<lambda>s.
     let mode = boot_mode (bt_info B) (aboot_hint_present s) in
     if mode = 0 then bindC (vga_text_failmsg (kh K) f s) (\<lambda>s. Inl (Fatal ''Could not guess kernel context...''))
     else
       bindR (if mode = KERNEL_MODE_LIVE then bindR (find_drive f CD_DRIVE ''Could not find any CD Drive...'' 0 s) (\<lambda>d. Inr (d, 0))
              else if mode = KERNEL_MODE_INSTALLED then bindR (find_drive f HARD_DISK_DRIVE ''Could not find any Hard Disk...'' 0 s) (\<lambda>d. Inr (d, 1))
              else Inr (- 1, - 1)) (\<lambda>(root_drive, part_index).
       let context = (if mode = KERNEL_MODE_LIVE then ''LIVE'' else if mode = KERNEL_MODE_INSTALLED then ''INSTALLED'' else ''FAILED'');
           color = (if mode = KERNEL_MODE_LIVE \<or> mode = KERNEL_MODE_INSTALLED then 0b00001111 else 0b00001100) in
       bindC (vga_text_spemsg (kh K) f (lit s (context @ newline)) color s) (\<lambda>s.
       bindC (kp K f ''Mounting root directory...'' [] s) (\<lambda>s.
       let dev = load32 (kmem s) (slot (block_devices s) (ucast root_drive)) in
       if dev = 0 then Inl (Fatal ''Could not find root drive !'')
       else
         bindR (mount_volume K f (lit s ''/'') dev part_index s) (\<lambda>c.
         case c of Yield s \<Rightarrow> Inr (Switched s)
         | Ret t s \<Rightarrow>
             if t = 0 then bindC (vga_text_failmsg (kh K) f s) (\<lambda>s. Inl (Fatal ''Could not mount root directory.''))
             else vga_text_okmsg (kh K) f s)))))"

definition run_init :: "('hw, 'a) menv \<Rightarrow> nat \<Rightarrow> ('hw, 'a) mst \<Rightarrow> ('hw, 'a) mst ctl res" where
  "run_init K f s =
     bindR (spawn_init_process K f s) (\<lambda>c.
     case c of Yield s \<Rightarrow> Inr (Switched s)
     | Ret err s \<Rightarrow>
         if err \<noteq> ERROR_NONE then
           bindC (kp K f (''%lCould not run init process : %d'' @ newline) [2, err] s) (\<lambda>s. Inl (Fatal ''Could not run init''))
         else scheduler_remove_process (kernel_process s) s)"

definition kmain :: "('hw, 'a) menv \<Rightarrow> nat \<Rightarrow> boot \<Rightarrow> u32 \<Rightarrow> ('hw, 'a) mst \<Rightarrow> ('hw, 'a) mst ctl res" where
  "kmain K f B stack_pointer s =
     bindR (if mb_flags (bt_info B) AND 0b100 \<noteq> 0 then args_parse f (mb_cmdline (bt_info B) + KERNEL_VIRTUAL_BASE) s else Inr s) (\<lambda>s.
     bindC (bindR (vga_setup (kh K) f (kbuf K) (bt_inb B) s) (\<lambda>(_, c). Inr c)) (\<lambda>s.
     bindC (setup_cpu K f B stack_pointer s) (\<lambda>s.
     bindC (setup_memory K f B s) (\<lambda>s.
     bindC (pic_install (kh K) (kio K) f (kbuf K) s) (\<lambda>s.
     bindC (pci_install (kh K) (kio K) f (kbuf K) s) (\<lambda>s.
     bindC (install_block_devices K f s) (\<lambda>s.
     bindC (process_init K f (bt_eflags B) s) (\<lambda>s.
     bindC (mount_root K f B (scheduler_start s)) (\<lambda>s.
     bindC (devfs_init K f s) (\<lambda>s.
     bindC (ttys_init (kh K) (kreg K) f (kbuf K) s) (\<lambda>s.
     bindC (vga_text_tty_switch (kh K) f (current_tty s) s) (run_init K f))))))))))))"

end
