(* ===== verification/VK_AtaProps.thy ===== *)
theory VK_AtaProps
  imports VK_Ata VK_TaskHeap
begin

section \<open>Polling transfers against the ATA command protocol\<close>

text \<open>
  What the driver relies on of a drive that is ready and works: the registers keep what is written to them, a read command
  makes the data port deliver the bytes of the sectors that the registers name, a write command makes it take them, and the
  status never shows a fault. The transfers of \<^verbatim>\<open>ata_pio.c\<close> are proved against this interface.
\<close>

definition reg_lba :: "(u16 \<Rightarrow> u8) \<Rightarrow> nat" where
  "reg_lba r = unat (r 3) + 256 * unat (r 4) + 65536 * unat (r 5) + 16777216 * unat (r 6 AND 0xF)"

definition disk_bytes :: "(nat \<Rightarrow> u8) \<Rightarrow> nat \<Rightarrow> nat \<Rightarrow> u8 list" where
  "disk_bytes d a n = map (\<lambda>i. d (a + i)) [0..<n]"

lemma length_disk_bytes [simp]: "length (disk_bytes d a n) = n"
  by (simp add: disk_bytes_def)

lemma nth_disk_bytes [simp]: "i < n \<Longrightarrow> disk_bytes d a n ! i = d (a + i)"
  by (simp add: disk_bytes_def)

text \<open>\<open>inq\<close> are the bytes the data port will deliver, \<open>outq\<close> the place of the next byte written and the number of bytes still taken.\<close>

locale ata_drive =
  fixes io :: "'hw ports" and b c :: u16
    and reg :: "'hw \<Rightarrow> u16 \<Rightarrow> u8" and disk :: "'hw \<Rightarrow> nat \<Rightarrow> u8" and inq :: "'hw \<Rightarrow> u8 list" and outq :: "'hw \<Rightarrow> nat \<times> nat"
  assumes control: "p_inb io c x = (v, y) \<Longrightarrow> reg y = reg x \<and> disk y = disk x \<and> inq y = inq x \<and> outq y = outq x"
    and status: "p_inb io (b + 7) x = (v, y) \<Longrightarrow> v AND 0xA1 = 0 \<and> reg y = reg x \<and> disk y = disk x \<and> inq y = inq x \<and> outq y = outq x"
    and regs: "r \<in> {1, 2, 3, 4, 5, 6} \<Longrightarrow> reg (p_outb io (b + r) v x) = (reg x)(r := v) \<and> disk (p_outb io (b + r) v x) = disk x"
    and read_cmd: "inq (p_outb io (b + 7) 0xC4 x) = disk_bytes (disk x) (512 * reg_lba (reg x)) (512 * unat (reg x 2)) \<and>
      disk (p_outb io (b + 7) 0xC4 x) = disk x"
    and write_cmd: "outq (p_outb io (b + 7) 0x30 x) = (512 * reg_lba (reg x), 512 * unat (reg x 2)) \<and>
      disk (p_outb io (b + 7) 0x30 x) = disk x"
    and flush_cmd: "disk (p_outb io (b + 7) 0xE7 x) = disk x"
    and data_in: "inq x = l # h # q \<Longrightarrow> p_inw io b x = (w, y) \<Longrightarrow> w = word_of l h \<and> disk y = disk x \<and> inq y = q"
    and data_out: "outq x = (a, Suc (Suc n)) \<Longrightarrow>
      disk (p_outw io b w x) = (disk x)(a := ucast w, a + 1 := ucast (drop_bit 8 w)) \<and> outq (p_outw io b w x) = (a + 2, n)"

lemma mask_part:
  assumes "v AND 0xA1 = (0 :: u8)"
  shows "v AND 0x80 = 0" "v AND 0x20 = 0" "v AND 1 = 0"
proof -
  have *: "v AND k = 0" if "0xA1 AND k = k" for k
  proof -
    have "v AND k = v AND (0xA1 AND k)" using that by simp
    also have "\<dots> = (v AND 0xA1) AND k" by (simp only: and.assoc)
    finally show ?thesis using assms by simp
  qed
  show "v AND 0x80 = 0" "v AND 0x20 = 0" "v AND 1 = 0" by (rule *, simp)+
qed

lemma word_of_lo [simp]: "ucast (word_of l h) = l"
  by (rule bit_word_eqI) (simp add: word_of_def bit_simps)

lemma word_of_hi [simp]: "ucast (drop_bit 8 (word_of l h)) = h"
  by (rule bit_word_eqI) (auto simp: word_of_def bit_simps dest: bit_imp_le_length)

lemma unat_low_byte: "unat (ucast (x AND 0xFF) :: u8) = unat (x :: u32) mod 256"
proof -
  have "x AND 0xFF = take_bit 8 x" by (simp add: take_bit_eq_mask mask_eq_exp_minus_1 del: take_bit_eq_mod)
  then show ?thesis by (simp only: unsigned_ucast_eq unsigned_take_bit_eq) (simp add: take_bit_eq_mod)
qed

lemma unat_drop_bit: "unat (drop_bit n (x :: u32)) = unat x div 2 ^ n"
  using unat_lt_32 [of x] by (simp only: unsigned_drop_bit_eq) (simp add: drop_bit_eq_div take_bit_eq_mod)

lemma unat_byte_of:
  "unat (ucast (drop_bit 8 (x AND 0xFF00)) :: u8) = unat (x :: u32) div 256 mod 256"
  "unat (ucast (drop_bit 16 (x AND 0xFF0000)) :: u8) = unat x div 65536 mod 256"
proof -
  have *: "drop_bit 8 (x AND 0xFF00) = drop_bit 8 x AND 0xFF" "drop_bit 16 (x AND 0xFF0000) = drop_bit 16 x AND 0xFF"
    by (simp_all only: drop_bit_and) simp_all
  show "unat (ucast (drop_bit 8 (x AND 0xFF00)) :: u8) = unat (x :: u32) div 256 mod 256"
    "unat (ucast (drop_bit 16 (x AND 0xFF0000)) :: u8) = unat x div 65536 mod 256"
    unfolding * unat_low_byte unat_drop_bit by simp_all
qed

lemma unat_top_nibble:
  assumes "m = 0xE0 \<or> m = 0xF0"
  shows "unat ((m OR ucast (drop_bit 24 (x AND 0x0F000000))) AND 0xF :: u8) = unat (x :: u32) div 16777216 mod 16"
proof -
  have "(m OR ucast (drop_bit 24 (x AND 0x0F000000))) AND 0xF = (ucast (drop_bit 24 (x AND 0x0F000000)) AND 0xF :: u8)"
    using assms by (auto simp: bit.conj_disj_distrib2)
  also have "\<dots> = ucast (drop_bit 24 x AND 0xF)"
    by (rule bit_word_eqI) (auto simp: bit_simps drop_bit_and)
  also have "drop_bit 24 x AND 0xF = take_bit 4 (drop_bit 24 x)" by (simp add: take_bit_eq_mask mask_eq_exp_minus_1 del: take_bit_eq_mod)
  finally show ?thesis
    by (simp only: unsigned_ucast_eq unsigned_take_bit_eq unat_drop_bit) (simp add: take_bit_eq_mod mod_mod_cancel)
qed

lemma sector_28:
  assumes "sector AND 0xF0000000 = (0 :: u32)"
  shows "unat sector < 268435456"
proof -
  have "drop_bit 28 sector AND 0xF = 0" using drop_bit_and [of 28 sector "0xF0000000"] assms by simp
  then have "take_bit 4 (drop_bit 28 sector) = 0" by (simp add: take_bit_eq_mask mask_eq_exp_minus_1 del: take_bit_eq_mod)
  then have "unat (take_bit 4 (drop_bit 28 sector)) = 0" by simp
  then have "(unat sector div 268435456) mod 16 = 0"
    by (simp only: unsigned_take_bit_eq unat_drop_bit) (simp add: take_bit_eq_mod)
  moreover have "unat sector div 268435456 < 16" using unat_lt_32 [of sector] by (simp add: less_mult_imp_div_less)
  ultimately show ?thesis by (simp add: div_eq_0_iff)
qed

lemma lba_split: "n < 268435456 \<Longrightarrow> n mod 256 + 256 * (n div 256 mod 256) + 65536 * (n div 65536 mod 256) + 16777216 * (n div 16777216 mod 16) = (n :: nat)"
  using mod_mult2_eq [of n 256 256] mod_mult2_eq [of n 65536 256] mod_mult2_eq [of n 16777216 16] by simp

text \<open>What a read leaves in memory: \<open>m\<close> with the bytes \<open>B\<close> from \<open>offset\<close> on, from position \<open>lo\<close> of \<open>B\<close>, at \<open>data\<close>.\<close>

definition received :: "nat \<Rightarrow> u32 \<Rightarrow> u32 \<Rightarrow> nat \<Rightarrow> u8 list \<Rightarrow> mem \<Rightarrow> mem" where
  "received lo offset data count B m =
     (\<lambda>a. let k = unat (a - data) in if k < count \<and> lo \<le> k + unat offset then B ! (k + unat offset) else m a)"

lemma sub_eq_iff:
  fixes a data x y :: u32
  assumes "unat y \<le> unat x"
  shows "a = data + (x - y) \<longleftrightarrow> unat (a - data) + unat y = unat x"
proof -
  have "unat (x - y) = unat x - unat y" using assms by (simp add: unat_sub word_le_nat_alt)
  then have "unat (a - data) + unat y = unat x \<longleftrightarrow> a - data = x - y"
    using assms by (auto simp: word_unat_eq_iff)
  then show ?thesis by (auto simp: algebra_simps)
qed

lemma total_bytes:
  assumes "unat (count :: u64) + unat (offset :: u32) < 4294967294"
  shows "unat (count + ucast offset :: u64) = unat count + unat offset"
  using assms by (simp add: unat_word_ariths unsigned_ucast_eq take_bit_eq_mod)

lemma before_end_iff:
  assumes "unat (count :: u64) + unat (offset :: u32) < 4294967294"
  shows "ucast (i :: u32) < count + ucast offset \<longleftrightarrow> unat i < unat count + unat offset"
  using total_bytes [OF assms] unat_lt_32 [of i] by (simp add: word_less_nat_alt unsigned_ucast_eq take_bit_eq_mod)

lemma received_done: "\<not> lo < count + unat offset \<Longrightarrow> received lo offset data count B m = m"
  by (rule ext) (auto simp: received_def Let_def)

lemma received_step:
  assumes total: "unat count + unat offset < 4294967294" and i: "unat i < unat count + unat offset"
    and B: "unat i + 1 < length B"
  shows "received (unat i + 2) offset data (unat count) B
      (if i + 1 < offset then m else store_word i offset data count (word_of (B ! unat i) (B ! (unat i + 1))) m)
    = received (unat i) offset data (unat count) B m"
proof (rule ext)
  fix a
  have i1: "unat (i + 1) = unat i + 1" using total i by (subst unat_plus_small) auto
  let ?k = "unat (a - data)"
  show "received (unat i + 2) offset data (unat count) B
      (if i + 1 < offset then m else store_word i offset data count (word_of (B ! unat i) (B ! (unat i + 1))) m) a
    = received (unat i) offset data (unat count) B m a"
  proof (cases "i + 1 < offset")
    case True
    then show ?thesis using i1 by (auto simp: received_def Let_def word_less_nat_alt)
  next
    case False
    then have le: "unat offset \<le> unat (i + 1)" by (simp add: word_less_nat_alt)
    have e1: "a = data + (i + 1 - offset) \<longleftrightarrow> ?k + unat offset = unat i + 1"
      using sub_eq_iff [OF le] i1 by simp
    have e0: "offset \<le> i \<Longrightarrow> a = data + (i - offset) \<longleftrightarrow> ?k + unat offset = unat i"
      by (rule sub_eq_iff) (simp add: word_le_nat_alt)
    have "store_word i offset data count (word_of (B ! unat i) (B ! (unat i + 1))) m a =
      (if unat i + 1 < unat count + unat offset \<and> ?k + unat offset = unat i + 1 then B ! (unat i + 1)
       else if ?k + unat offset = unat i then B ! unat i else m a)"
    proof -
      have "?k + unat offset = unat i \<Longrightarrow> offset \<le> i" by (simp add: word_le_nat_alt)
      then show ?thesis
        using e0 e1 before_end_iff [OF total, of "i + 1"] i1
        by (auto simp: store_word_def Let_def)
    qed
    with False i show ?thesis by (auto simp: received_def Let_def)
  qed
qed

lemma low_sector:
  assumes "unat (sector :: u64) < 268435456"
  shows "\<not> U32_MAX < sector" "sector AND 0xF0000000 = 0" "(ucast sector :: u32) AND 0xF0000000 = 0" "unat (ucast sector :: u32) = unat sector"
proof -
  show "\<not> U32_MAX < sector" using assms by (simp add: U32_MAX_def word_less_nat_alt)
  have 28: "take_bit 28 sector = sector"
    using assms by (intro word_unat_eqI) (simp only: unsigned_take_bit_eq, simp add: take_bit_eq_mod)
  have *: "take_bit 28 x AND 0xF0000000 = 0" for x :: u64
    by (simp only: take_bit_eq_mask and.assoc) (simp add: mask_eq_exp_minus_1)
  show "sector AND 0xF0000000 = 0" using * [of sector] 28 by simp
  show u: "unat (ucast sector :: u32) = unat sector" using assms by (simp add: unsigned_ucast_eq take_bit_eq_mod)
  have 32: "take_bit 28 (ucast sector :: u32) = ucast sector"
    using assms u by (intro word_unat_eqI) (simp only: unsigned_take_bit_eq, simp add: take_bit_eq_mod)
  have **: "take_bit 28 x AND 0xF0000000 = 0" for x :: u32
    by (simp only: take_bit_eq_mask and.assoc) (simp add: mask_eq_exp_minus_1)
  show "(ucast sector :: u32) AND 0xF0000000 = 0" using ** [of "ucast sector"] 32 by simp
qed

text \<open>The disk after the bytes at \<open>data\<close> from position \<open>lo\<close> on were written behind \<open>a\<close>.\<close>

definition written :: "nat \<Rightarrow> nat \<Rightarrow> nat \<Rightarrow> u32 \<Rightarrow> mem \<Rightarrow> (nat \<Rightarrow> u8) \<Rightarrow> nat \<Rightarrow> u8" where
  "written lo count a data m dk = (\<lambda>p. if a + lo \<le> p \<and> p < a + count then m (data + of_nat (p - a)) else dk p)"

lemma written_done: "count \<le> lo \<Longrightarrow> written lo count a data m dk = dk"
  by (rule ext) (auto simp: written_def)

lemma written_cong:
  assumes "\<And>i. lo \<le> i \<Longrightarrow> i < count \<Longrightarrow> m (data + of_nat i) = m' (data + of_nat i)"
  shows "written lo count a data m dk = written lo count a data m' dk"
proof (rule ext)
  fix p
  show "written lo count a data m dk p = written lo count a data m' dk p"
  proof (cases "a + lo \<le> p \<and> p < a + count")
    case True
    then have "lo \<le> p - a" "p - a < count" by linarith+
    from assms [OF this] show ?thesis unfolding written_def by (rule if_cong [OF refl _ refl])
  next
    case False
    then show ?thesis unfolding written_def by (simp only: if_False)
  qed
qed

lemma written_step:
  assumes "lo + 1 < count"
  shows "written (lo + 2) count a data m (dk(a + lo := m (data + of_nat lo), a + lo + 1 := m (data + of_nat (lo + 1)))) = written lo count a data m dk"
proof (rule ext)
  fix p
  consider "p < a + lo" | "p = a + lo" | "p = a + lo + 1" | "a + lo + 2 \<le> p" by linarith
  then show "written (lo + 2) count a data m (dk(a + lo := m (data + of_nat lo), a + lo + 1 := m (data + of_nat (lo + 1)))) p = written lo count a data m dk p"
    using assms by cases (auto simp: written_def)
qed

text \<open>The drive's record names the ports of the drive.\<close>

definition wired :: "u16 \<Rightarrow> u16 \<Rightarrow> ata_device \<Rightarrow> bool" where
  "wired b c d \<longleftrightarrow> base_port d = b \<and> control_port d = c"

text \<open>
  A block device that is such a drive, and transfers that poll: a hard disk, and either the scheduler has not started or the
  transfer is short.
\<close>

definition polled :: "u16 \<Rightarrow> u16 \<Rightarrow> u32 \<Rightarrow> bool \<Rightarrow> ('hw, 'a) st \<Rightarrow> bool" where
  "polled b c bd short s \<longleftrightarrow> (case block_devs s bd of None \<Rightarrow> False | Some B \<Rightarrow> bd_type B = ATA_DEVICE \<and>
     (case ata_devs s (bd_struct B) of None \<Rightarrow> False | Some d \<Rightarrow> wired b c d \<and> \<not> flag_set (ata_flags d) ATA_FLAG_ATAPI)) \<and>
     (short \<or> \<not> scheduler_started s)"

lemma polledE:
  assumes "polled b c bd short s"
  obtains B d where "block_devs s bd = Some B" "bd_type B = ATA_DEVICE" "ata_devs s (bd_struct B) = Some d" "wired b c d"
    "\<not> flag_set (ata_flags d) ATA_FLAG_ATAPI" "short \<or> \<not> scheduler_started s"
  using assms unfolding polled_def by (auto split: option.splits)

lemma unat_sector_count:
  assumes "unat count \<le> 130560"
  shows "unat (sector_count count) = (unat count + 511) div 512"
proof -
  have dv: "unat (count div 512) = unat count div 512" by (simp add: unat_div_distrib)
  have md: "count mod 512 = 0 \<longleftrightarrow> unat count mod 512 = 0" by (simp add: word_unat_eq_iff unat_mod_distrib)
  have lt: "unat count div 512 \<le> 255" using assms by simp
  have u: "unat (ucast (count div 512) :: u32) = unat count div 512"
    using lt by (simp add: dv unsigned_ucast_eq take_bit_eq_mod)
  have *: "(n + 511) div 512 = (if n mod 512 \<noteq> 0 then n div 512 + 1 else n div 512)" for n :: nat
  proof -
    have "(n + 511) div 512 = ((n mod 512 + 511) + n div 512 * 512) div 512" by simp
    also have "\<dots> = n div 512 + (n mod 512 + 511) div 512" by (subst div_mult_self1) simp_all
    also have "(n mod 512 + 511) div 512 = (if n mod 512 \<noteq> 0 then 1 else 0)"
      using mod_less_divisor [of 512 n] by (auto intro!: div_nat_eqI)
    finally show ?thesis by simp
  qed
  show ?thesis
    using lt u unfolding sector_count_def Let_def * by (auto simp: md unat_word_ariths)
qed

lemma more_storage:
  assumes "paging.more s' = paging.more (s :: ('hw, 'a) st)"
  shows "hw s' = hw s" "ata_devs s' = ata_devs s" "block_devs s' = block_devs s" "scheduler_started s' = scheduler_started s"
  using assms by (cases s; cases s'; simp)+

context ata_drive begin

lemma inb_control: "port_inb io c s = (v, s') \<Longrightarrow> \<exists>y. s' = s\<lparr>hw := y\<rparr> \<and> reg y = reg (hw s) \<and> disk y = disk (hw s) \<and> inq y = inq (hw s) \<and> outq y = outq (hw s)"
  using control by (auto simp: port_inb_def split: prod.splits)

lemma io_wait:
  fixes s :: "('hw, 'z) st"
  assumes "wired b c d"
  shows "\<exists>y. ata_io_wait io d s = s\<lparr>hw := y\<rparr> \<and> reg y = reg (hw s) \<and> disk y = disk (hw s) \<and> inq y = inq (hw s) \<and> outq y = outq (hw s)"
proof -
  have *: "\<exists>y. snd (port_inb io c s) = s\<lparr>hw := y\<rparr> \<and> reg y = reg (hw s) \<and> disk y = disk (hw s) \<and> inq y = inq (hw s) \<and> outq y = outq (hw s)" for s :: "('hw, 'z) st"
    using inb_control [of s "fst (port_inb io c s)" "snd (port_inb io c s)"] by simp
  have c: "control_port d = c" using assms by (simp add: wired_def)
  obtain y1 where 1: "snd (port_inb io c s) = s\<lparr>hw := y1\<rparr>" "reg y1 = reg (hw s)" "disk y1 = disk (hw s)" "inq y1 = inq (hw s)" "outq y1 = outq (hw s)"
    using * by blast
  obtain y2 where 2: "snd (port_inb io c (s\<lparr>hw := y1\<rparr>)) = s\<lparr>hw := y2\<rparr>" "reg y2 = reg y1" "disk y2 = disk y1" "inq y2 = inq y1" "outq y2 = outq y1"
    using * [of "s\<lparr>hw := y1\<rparr>"] by auto
  obtain y3 where 3: "snd (port_inb io c (s\<lparr>hw := y2\<rparr>)) = s\<lparr>hw := y3\<rparr>" "reg y3 = reg y2" "disk y3 = disk y2" "inq y3 = inq y2" "outq y3 = outq y2"
    using * [of "s\<lparr>hw := y2\<rparr>"] by auto
  obtain y4 where 4: "snd (port_inb io c (s\<lparr>hw := y3\<rparr>)) = s\<lparr>hw := y4\<rparr>" "reg y4 = reg y3" "disk y4 = disk y3" "inq y4 = inq y3" "outq y4 = outq y3"
    using * [of "s\<lparr>hw := y3\<rparr>"] by auto
  have "ata_io_wait io d s = s\<lparr>hw := y4\<rparr>"
    unfolding ata_io_wait_def c 1 2 3 4 ..
  with 1 2 3 4 show ?thesis by (intro exI [of _ y4]) simp
qed

lemma poll_ready:
  assumes "wired b c d"
  shows "\<exists>y. ata_pio_poll_status io d s = (ERROR_NONE, s\<lparr>hw := y\<rparr>) \<and> reg y = reg (hw s) \<and> disk y = disk (hw s) \<and> inq y = inq (hw s) \<and> outq y = outq (hw s)"
proof -
  obtain v y where vy: "p_inb io (b + 7) (hw s) = (v, y)" by (cases "p_inb io (b + 7) (hw s)")
  note ok = status [OF vy]
  then have m: "v AND 0x80 = 0" "v AND 0x20 = 0" "v AND 1 = 0" using mask_part by blast+
  then have "\<not> busy v" by (simp add: busy_def)
  then have p: "poll_loop io (b + 7) 0xFFFFF v (s\<lparr>hw := y\<rparr>) = (0xFFFFF, v, s\<lparr>hw := y\<rparr>)" by (subst poll_loop.simps) simp
  have "ata_pio_poll_status io d s = (ERROR_NONE, s\<lparr>hw := y\<rparr>)"
    using assms m unfolding ata_pio_poll_status_def wired_def by (simp add: port_inb_def vy p Let_def del: numeral_eq_Suc)
  with ok show ?thesis by blast
qed

lemma poll_if:
  assumes "wired b c d"
  shows "\<exists>y. (if P then ata_pio_poll_status io d s else (ERROR_NONE, s)) = (ERROR_NONE, s\<lparr>hw := y\<rparr>) \<and> inq y = inq (hw s) \<and> disk y = disk (hw s)"
proof (cases P)
  case True
  with poll_ready [OF assms, of s] show ?thesis by auto
next
  case False
  then show ?thesis by (intro exI [of _ "hw s"]) simp
qed

lemma cmd_28:
  assumes at: "wired b c d" and lba: "sector AND 0xF0000000 = 0"
  shows "\<exists>y. ata_cmd_28 io sector scount cmd d s = s\<lparr>hw := p_outb io (b + 7) cmd y\<rparr> \<and>
    reg_lba (reg y) = unat sector \<and> reg y 2 = ucast scount \<and> disk y = disk (hw s)"
proof -
  let ?m = "if flag_set (ata_flags d) ATA_FLAG_MASTER then 0xE0 else 0xF0 :: u8"
  let ?v = "?m OR ucast (drop_bit 24 (sector AND 0x0F000000)) :: u8"
  obtain y where y: "ata_io_wait io d (s\<lparr>hw := p_outb io (b + 6) ?v (hw s)\<rparr>) = s\<lparr>hw := y\<rparr>"
    "reg y = (reg (hw s))(6 := ?v)" "disk y = disk (hw s)"
    using io_wait [OF at, of "s\<lparr>hw := p_outb io (b + 6) ?v (hw s)\<rparr>"] regs [of 6 ?v "hw s"] by auto
  define y1 where "y1 = p_outb io (b + 1) 0 y"
  define y2 where "y2 = p_outb io (b + 2) (ucast scount) y1"
  define y3 where "y3 = p_outb io (b + 3) (ucast (sector AND 0xFF)) y2"
  define y4 where "y4 = p_outb io (b + 4) (ucast (drop_bit 8 (sector AND 0xFF00))) y3"
  define y5 where "y5 = p_outb io (b + 5) (ucast (drop_bit 16 (sector AND 0xFF0000))) y4"
  note ys = y1_def y2_def y3_def y4_def y5_def
  have r: "reg y5 = (reg y)(1 := 0, 2 := ucast scount, 3 := ucast (sector AND 0xFF), 4 := ucast (drop_bit 8 (sector AND 0xFF00)),
      5 := ucast (drop_bit 16 (sector AND 0xFF0000)))" "disk y5 = disk y"
    by (simp_all add: ys regs)
  have "ata_cmd_28 io sector scount cmd d s = s\<lparr>hw := p_outb io (b + 7) cmd y5\<rparr>"
    using at y(1) by (simp add: ata_cmd_28_def wired_def Let_def port_outb_def ys)
  moreover have "reg_lba (reg y5) = unat sector"
  proof -
    have "reg y5 3 = ucast (sector AND 0xFF)" "reg y5 4 = ucast (drop_bit 8 (sector AND 0xFF00))"
      "reg y5 5 = ucast (drop_bit 16 (sector AND 0xFF0000))" "reg y5 6 = ?v"
      by (simp_all only: r y(2)) simp_all
    moreover have "unat (?v AND 0xF) = unat sector div 16777216 mod 16" by (rule unat_top_nibble) simp
    ultimately have "reg_lba (reg y5) = unat sector mod 256 + 256 * (unat sector div 256 mod 256) +
        65536 * (unat sector div 65536 mod 256) + 16777216 * (unat sector div 16777216 mod 16)"
      by (simp only: reg_lba_def unat_low_byte unat_byte_of)
    then show ?thesis by (simp only: lba_split [OF sector_28 [OF lba]])
  qed
  ultimately show ?thesis using r y(2,3) by (intro exI [of _ y5]) simp
qed

lemma inw_data:
  assumes "inq (hw s) = drop i B" "i + 1 < length B"
  shows "\<exists>y. port_inw io b s = (word_of (B ! i) (B ! (i + 1)), s\<lparr>hw := y\<rparr>) \<and> inq y = drop (i + 2) B \<and> disk y = disk (hw s)"
proof -
  have q: "inq (hw s) = B ! i # B ! (i + 1) # drop (i + 2) B"
    using assms by (simp add: Cons_nth_drop_Suc)
  obtain w y where w: "p_inw io b (hw s) = (w, y)" by (cases "p_inw io b (hw s)")
  from data_in [OF q w] show ?thesis by (intro exI [of _ y]) (simp add: port_inw_def w)
qed

lemma read_loop:
  assumes at: "wired b c d" and total: "unat count + unat offset < 4294967294" and B: "unat count + unat offset \<le> length B" "even (length B)"
  shows "inq (hw s) = drop (unat i) B \<Longrightarrow> even (unat i) \<Longrightarrow> unat count + unat offset \<le> unat i + 2 * f \<Longrightarrow>
    \<exists>y. pio_read_loop io (Suc f) i offset data count d dr s =
      Inr (ERROR_NONE, dr + of_nat (2 * ((unat count + unat offset - unat i + 1) div 2)),
        s\<lparr>kmem := received (unat i) offset data (unat count) B (kmem s), hw := y\<rparr>) \<and>
      inq y = drop (unat i + 2 * ((unat count + unat offset - unat i + 1) div 2)) B \<and> disk y = disk (hw s)"
proof (induction f arbitrary: i dr s)
  case 0
  then have "\<not> unat i < unat count + unat offset" by simp
  moreover from this have "received (unat i) offset data (unat count) B (kmem s) = kmem s" by (rule received_done)
  ultimately show ?case using 0 before_end_iff [OF total, of i] by (intro exI [of _ "hw s"]) simp
next
  case (Suc f)
  show ?case
  proof (cases "unat i < unat count + unat offset")
    case False
    then have "received (unat i) offset data (unat count) B (kmem s) = kmem s" by (rule received_done)
    with False Suc.prems before_end_iff [OF total, of i] show ?thesis by (intro exI [of _ "hw s"]) simp
  next
    case True
    have i1: "unat i + 1 < length B" using True B Suc.prems(2) by presburger
    have i2: "unat (i + 2) = unat i + 2" using total True by (subst unat_plus_small) auto
    let ?m = "if i + 1 < offset then kmem s else store_word i offset data count (word_of (B ! unat i) (B ! (unat i + 1))) (kmem s)"
    let ?dr = "dr + 2"
    obtain y where y: "port_inw io b s = (word_of (B ! unat i) (B ! (unat i + 1)), s\<lparr>hw := y\<rparr>)" "inq y = drop (unat i + 2) B" "disk y = disk (hw s)"
      using inw_data [OF Suc.prems(1) i1] by blast
    let ?s = "s\<lparr>kmem := ?m, hw := y\<rparr>"
    obtain z where z: "(if ?dr mod (512 * 2) = 0 then ata_pio_poll_status io d ?s else (ERROR_NONE, ?s)) = (ERROR_NONE, ?s\<lparr>hw := z\<rparr>)"
      "inq z = inq (hw ?s)" "disk z = disk (hw ?s)"
      using poll_if [OF at] by blast
    have hz: "?s\<lparr>hw := z\<rparr> = s\<lparr>kmem := ?m, hw := z\<rparr>" "inq z = drop (unat i + 2) B" "disk z = disk (hw s)"
      using z(2,3) y(2,3) by simp_all
    have step: "pio_read_loop io (Suc (Suc f)) i offset data count d dr s
        = pio_read_loop io (Suc f) (i + 2) offset data count d ?dr (s\<lparr>kmem := ?m, hw := z\<rparr>)"
    proof -
      have s: "(if i + 1 < offset then s\<lparr>hw := y\<rparr> else s\<lparr>hw := y, kmem := store_word i offset data count (word_of (B ! unat i) (B ! (unat i + 1))) (kmem (s\<lparr>hw := y\<rparr>))\<rparr>) = ?s"
        by simp
      show ?thesis
        using True at before_end_iff [OF total, of i] unfolding pio_read_loop.simps(2) [of io "Suc f"] wired_def
        by (simp only: y(1) Let_def prod.case s z(1) hz(1) if_True) simp
    qed
    have rest: "\<exists>w. pio_read_loop io (Suc f) (i + 2) offset data count d ?dr (s\<lparr>kmem := ?m, hw := z\<rparr>) =
      Inr (ERROR_NONE, ?dr + of_nat (2 * ((unat count + unat offset - unat (i + 2) + 1) div 2)),
        s\<lparr>kmem := received (unat (i + 2)) offset data (unat count) B ?m, hw := w\<rparr>) \<and>
      inq w = drop (unat (i + 2) + 2 * ((unat count + unat offset - unat (i + 2) + 1) div 2)) B \<and> disk w = disk (hw s)"
    proof -
      have q: "inq (hw (s\<lparr>kmem := ?m, hw := z\<rparr>)) = drop (unat (i + 2)) B" by (simp add: hz(2) i2)
      have ev: "even (unat (i + 2))" and le: "unat count + unat offset \<le> unat (i + 2) + 2 * f"
        using Suc.prems(2,3) by (simp_all add: i2)
      have r: "kmem (s\<lparr>kmem := ?m, hw := z\<rparr>) = ?m" "hw (s\<lparr>kmem := ?m, hw := z\<rparr>) = z"
        "\<And>M w. s\<lparr>kmem := ?m, hw := z\<rparr>\<lparr>kmem := M, hw := w\<rparr> = s\<lparr>kmem := M, hw := w\<rparr>" by simp_all
      show ?thesis using Suc.IH [OF q ev le, of ?dr] unfolding r hz(3) .
    qed
    have cnt: "unat i + 2 + 2 * ((unat count + unat offset - (unat i + 2) + 1) div 2) = unat i + 2 * ((unat count + unat offset - unat i + 1) div 2)"
    proof -
      from True obtain k where "unat count + unat offset = unat i + Suc k" using less_imp_Suc_add by fastforce
      then show ?thesis by (cases k) simp_all
    qed
    then have "2 + 2 * ((unat count + unat offset - (unat i + 2) + 1) div 2) = 2 * ((unat count + unat offset - unat i + 1) div 2)"
      by linarith
    then have "(of_nat (2 + 2 * ((unat count + unat offset - (unat i + 2) + 1) div 2)) :: u32) = of_nat (2 * ((unat count + unat offset - unat i + 1) div 2))"
      by (simp only:)
    then have "2 + of_nat (2 * ((unat count + unat offset - (unat i + 2) + 1) div 2)) = (of_nat (2 * ((unat count + unat offset - unat i + 1) div 2)) :: u32)"
      by (simp only: of_nat_add of_nat_numeral)
    then have dr: "?dr + of_nat (2 * ((unat count + unat offset - unat (i + 2) + 1) div 2)) = dr + of_nat (2 * ((unat count + unat offset - unat i + 1) div 2))"
      unfolding i2 by (simp only: add.assoc)
    have mem: "received (unat (i + 2)) offset data (unat count) B ?m = received (unat i) offset data (unat count) B (kmem s)"
      unfolding i2 by (rule received_step [OF total True i1])
    show ?thesis unfolding step using rest unfolding dr mem unfolding i2 cnt .
  qed
qed

lemma drain:
  assumes at: "wired b c d" and len: "length B = 512 * n" "n < 256"
  shows "inq (hw s) = drop k B \<Longrightarrow> even k \<Longrightarrow> k \<le> 512 * n \<Longrightarrow> 512 * n \<le> k + 2 * f \<Longrightarrow>
    \<exists>y. pio_drain io (Suc f) d (of_nat k) s = Inr (s\<lparr>hw := y\<rparr>) \<and> disk y = disk (hw s)"
proof (induction f arbitrary: k s)
  case 0
  then have "k = 512 * n" by simp
  moreover have "(of_nat (512 * n) :: u32) mod 512 = 0"
    using len(2) by (intro word_unat_eqI) (simp only: unat_mod_distrib unat_of_nat, simp)
  ultimately show ?case by (auto intro!: exI [of _ "hw s"])
next
  case (Suc f)
  have u: "unat (of_nat k :: u32) = k" using Suc.prems(3) len(2) by (simp add: unat_of_nat)
  show ?case
  proof (cases "(of_nat k :: u32) mod 512 = 0")
    case True
    then show ?thesis by (auto intro!: exI [of _ "hw s"])
  next
    case False
    then have "k mod 512 \<noteq> 0" using u unat_mod_distrib [of "of_nat k :: u32" 512] by (auto simp: word_unat_eq_iff)
    then have "k < 512 * n" using Suc.prems(3) by (metis mod_mult_self1_is_0 order_le_imp_less_or_eq)
    then have k1: "k + 1 < length B" using len Suc.prems(2) by presburger
    obtain y where y: "port_inw io b s = (word_of (B ! k) (B ! (k + 1)), s\<lparr>hw := y\<rparr>)" "inq y = drop (k + 2) B" "disk y = disk (hw s)"
      using inw_data [OF Suc.prems(1) k1] by blast
    have "\<exists>w. pio_drain io (Suc f) d (of_nat (k + 2)) (s\<lparr>hw := y\<rparr>) = Inr (s\<lparr>hw := w\<rparr>) \<and> disk w = disk (hw s)"
      using Suc.IH [of "s\<lparr>hw := y\<rparr>" "k + 2"] Suc.prems k1 len(1) y(2,3) by simp
    then show ?thesis using False at y(1) unfolding pio_drain.simps(2) [of io "Suc f"] wired_def by (simp add: add.commute del: pio_drain.simps)
  qed
qed

lemma cmd_read:
  assumes at: "wired b c d" and lba: "unat sector < 268435456" and n: "unat scount < 256"
  shows "\<exists>y. ata_cmd io sector scount ATA_CMD_PIO_READ_MULTIPLE_28 cmd d s = (ERROR_NONE, s\<lparr>hw := y\<rparr>) \<and>
    inq y = disk_bytes (disk (hw s)) (512 * unat sector) (512 * unat scount) \<and> disk y = disk (hw s)"
proof -
  note low = low_sector [OF lba]
  obtain y where y: "ata_cmd_28 io (ucast sector) scount ATA_CMD_PIO_READ_MULTIPLE_28 d s = s\<lparr>hw := p_outb io (b + 7) ATA_CMD_PIO_READ_MULTIPLE_28 y\<rparr>"
    "reg_lba (reg y) = unat sector" "reg y 2 = ucast scount" "disk y = disk (hw s)"
    using cmd_28 [OF at low(3), of scount ATA_CMD_PIO_READ_MULTIPLE_28 s] unfolding low(4) by blast
  have "unat (ucast scount :: u8) = unat scount" using n by (simp add: unsigned_ucast_eq take_bit_eq_mod)
  then show ?thesis using read_cmd [of y] low(1,2) y
    by (intro exI [of _ "p_outb io (b + 7) 0xC4 y"]) (simp add: ata_cmd_def ATA_CMD_PIO_READ_MULTIPLE_28_def)
qed

lemma pio_read:
  assumes drive: "ata_devs s drive = Some d" "wired b c d" and lba: "unat sector < 268435456"
    and count: "count \<noteq> 0" "unat (sector_count count) < 256" "unat offset + unat count \<le> 512 * unat (sector_count count)"
    and fuel: "65281 \<le> f"
  shows "\<exists>y. ata_pio_read_flexible io f sector offset data count drive s =
    Inr (ERROR_NONE, s\<lparr>kmem := received 0 offset data (unat count)
      (disk_bytes (disk (hw s)) (512 * unat sector) (512 * unat (sector_count count))) (kmem s), hw := y\<rparr>) \<and> disk y = disk (hw s)"
proof -
  let ?n = "sector_count count"
  let ?B = "disk_bytes (disk (hw s)) (512 * unat sector) (512 * unat ?n)"
  let ?m = "received 0 offset data (unat count) ?B (kmem s)"
  obtain g where g: "f = Suc g" using fuel by (cases f) auto
  obtain x where x: "ata_cmd io sector ?n ATA_CMD_PIO_READ_MULTIPLE_28 ATA_CMD_PIO_READ_MULTIPLE_48 d s = (ERROR_NONE, s\<lparr>hw := x\<rparr>)"
    "inq x = ?B" "disk x = disk (hw s)"
    using cmd_read [OF drive(2) lba count(2)] by blast
  obtain y where y: "ata_pio_poll_status io d (s\<lparr>hw := x\<rparr>) = (ERROR_NONE, s\<lparr>hw := y\<rparr>)" "inq y = ?B" "disk y = disk (hw s)"
    using poll_ready [OF drive(2), of "s\<lparr>hw := x\<rparr>"] x(2,3) by auto
  have total: "unat count + unat offset < 4294967294" "unat count + unat offset \<le> length ?B" "even (length ?B)"
    "unat count + unat offset \<le> unat (0 :: u32) + 2 * g"
    using count(2,3) fuel g by auto
  let ?e = "2 * ((unat count + unat offset + 1) div 2)"
  have l: "\<exists>z. pio_read_loop io f 0 offset data count d 0 (s\<lparr>hw := y\<rparr>) = Inr (ERROR_NONE, of_nat ?e, s\<lparr>kmem := ?m, hw := z\<rparr>) \<and>
      inq z = drop ?e ?B \<and> disk z = disk (hw s)"
    using read_loop [OF drive(2) total(1-3), of "s\<lparr>hw := y\<rparr>" 0 g data 0] total(4) y(2,3) by (simp add: g del: pio_read_loop.simps)
  then obtain z where z: "pio_read_loop io f 0 offset data count d 0 (s\<lparr>hw := y\<rparr>) = Inr (ERROR_NONE, of_nat ?e, s\<lparr>kmem := ?m, hw := z\<rparr>)"
    "inq z = drop ?e ?B" "disk z = disk (hw s)" by blast
  have "(unat count + unat offset + 1) div 2 \<le> (512 * unat ?n + 1) div 2" using count(3) by (intro div_le_mono) simp
  then have e: "?e \<le> 512 * unat ?n" "512 * unat ?n \<le> ?e + 2 * g" using count(2) fuel g by simp_all
  have "\<exists>w. pio_drain io f d (of_nat ?e) (s\<lparr>kmem := ?m, hw := z\<rparr>) = Inr (s\<lparr>kmem := ?m, hw := w\<rparr>) \<and> disk w = disk (hw s)"
    using drain [OF drive(2) length_disk_bytes count(2), of "s\<lparr>kmem := ?m, hw := z\<rparr>" ?e _ _ g] e z(2,3) by (simp add: g del: pio_drain.simps)
  then obtain w where w: "pio_drain io f d (of_nat ?e) (s\<lparr>kmem := ?m, hw := z\<rparr>) = Inr (s\<lparr>kmem := ?m, hw := w\<rparr>)" "disk w = disk (hw s)" by blast
  have small: "\<not> 255 < ?n" using count(2) by (simp add: word_less_nat_alt)
  have "ata_pio_read_flexible io f sector offset data count drive s = Inr (ERROR_NONE, s\<lparr>kmem := ?m, hw := w\<rparr>)"
    unfolding ata_pio_read_flexible_def drive(1) the_obj_simps bindR_simps
    by (simp only: x(1) y(1) z(1) w(1) count(1) small Let_def prod.case bindR_simps if_False simp_thms)
  with w(2) show ?thesis by blast
qed

lemma cmd_write:
  assumes at: "wired b c d" and lba: "unat sector < 268435456" and n: "unat scount < 256"
  shows "\<exists>y. ata_cmd io sector scount ATA_CMD_PIO_WRITE_MULTIPLE_28 cmd d s = (ERROR_NONE, s\<lparr>hw := y\<rparr>) \<and>
    outq y = (512 * unat sector, 512 * unat scount) \<and> disk y = disk (hw s)"
proof -
  note low = low_sector [OF lba]
  obtain y where y: "ata_cmd_28 io (ucast sector) scount ATA_CMD_PIO_WRITE_MULTIPLE_28 d s = s\<lparr>hw := p_outb io (b + 7) ATA_CMD_PIO_WRITE_MULTIPLE_28 y\<rparr>"
    "reg_lba (reg y) = unat sector" "reg y 2 = ucast scount" "disk y = disk (hw s)"
    using cmd_28 [OF at low(3), of scount ATA_CMD_PIO_WRITE_MULTIPLE_28 s] unfolding low(4) by blast
  have "unat (ucast scount :: u8) = unat scount" using n by (simp add: unsigned_ucast_eq take_bit_eq_mod)
  then show ?thesis using write_cmd [of y] low(1,2) y
    by (intro exI [of _ "p_outb io (b + 7) 0x30 y"]) (simp add: ata_cmd_def ATA_CMD_PIO_WRITE_MULTIPLE_28_def)
qed

text \<open>
  The words of a write that starts at a sector and may end inside one: the last word of an odd number of bytes has a zero
  as its second byte.
\<close>

lemma write_loop_any:
  assumes at: "wired b c d" and count: "unat count < 4294967294"
  shows "outq (hw s) = (a + unat i, n - unat i) \<Longrightarrow> even (unat i) \<Longrightarrow> unat i \<le> n \<Longrightarrow> unat count \<le> n \<Longrightarrow> even n \<Longrightarrow> unat count \<le> unat i + 2 * f \<Longrightarrow>
    unat i \<le> unat count + 1 \<Longrightarrow>
    \<exists>y. pio_write_loop io (Suc f) i 0 data count cf d s = Inr (s\<lparr>hw := y\<rparr>) \<and>
      outq y = (a + (unat count + unat count mod 2), n - (unat count + unat count mod 2)) \<and>
      disk y = (written (unat i) (unat count) a data (kmem s) (if odd (unat count) \<and> unat i < unat count then (disk (hw s))(a + unat count := 0) else disk (hw s)))"
proof (induction f arbitrary: i s)
  case 0
  then have ge: "\<not> unat i < unat count" by simp
  then have "\<not> i < count" by (simp add: word_less_nat_alt)
  moreover have "unat i = unat count + unat count mod 2" using ge "0.prems"(2,7) by presburger
  ultimately show ?case using 0 ge by (intro exI [of _ "hw s"]) (simp add: written_done)
next
  case (Suc f)
  show ?case
  proof (cases "unat i < unat count")
    case False
    then have "\<not> i < count" by (simp add: word_less_nat_alt)
    moreover have "unat i = unat count + unat count mod 2" using False Suc.prems(2,7) by presburger
    ultimately show ?thesis using False Suc.prems by (intro exI [of _ "hw s"]) (simp add: written_done)
  next
    case True
    have n: "unat i + 2 \<le> n" using True Suc.prems(2,4,5) by presburger
    have u: "unat (i + 1) = unat i + 1" "unat (i + 2) = unat i + 2"
      using count True by (simp_all add: unat_word_ariths)
    then have lt: "i < count" "i + 1 < count \<longleftrightarrow> unat i + 1 < unat count" using True by (simp_all add: word_less_nat_alt)
    have c0: "ucast i = (of_nat (unat i) :: u32)"
      by (rule word_unat_eqI) (simp add: unsigned_ucast_eq take_bit_eq_mod unat_of_nat)
    then have ci: "ucast i + 1 = (of_nat (unat i + 1) :: u32)" by (simp add: add.commute)
    let ?h = "if unat i + 1 < unat count then kmem s (data + of_nat (unat i + 1)) else 0"
    let ?w = "word_of (kmem s (data + of_nat (unat i))) ?h"
    have w: "write_word i 0 data count cf (kmem s) = ?w"
      using lt c0 ci unfolding write_word_def Let_def by (simp add: ac_simps)
    have o: "disk (p_outw io b ?w (hw s)) = (disk (hw s))(a + unat i := kmem s (data + of_nat (unat i)), a + unat i + 1 := ?h)"
      "outq (p_outw io b ?w (hw s)) = (a + unat i + 2, n - (unat i + 2))"
      using data_out [of "hw s" "a + unat i" "n - (unat i + 2)" ?w] Suc.prems(1) n by (simp_all add: Suc_diff_le numeral_2_eq_2)
    let ?s = "s\<lparr>hw := p_outw io b ?w (hw s)\<rparr>"
    have q: "outq (hw ?s) = (a + unat (i + 2), n - unat (i + 2))" "even (unat (i + 2))" "unat (i + 2) \<le> n" "unat count \<le> n" "even n"
      "unat count \<le> unat (i + 2) + 2 * f" "unat (i + 2) \<le> unat count + 1"
      using o(2) Suc.prems n u(2) True by simp_all
    obtain y where y: "pio_write_loop io (Suc f) (i + 2) 0 data count cf d ?s = Inr (?s\<lparr>hw := y\<rparr>)"
      "outq y = (a + (unat count + unat count mod 2), n - (unat count + unat count mod 2))"
      "disk y = written (unat (i + 2)) (unat count) a data (kmem ?s) (if odd (unat count) \<and> unat (i + 2) < unat count then (disk (hw ?s))(a + unat count := 0) else disk (hw ?s))"
      using Suc.IH [OF q] by blast
    have l: "pio_write_loop io (Suc (Suc f)) i 0 data count cf d s = Inr (s\<lparr>hw := y\<rparr>)"
      using at y(1) lt(1) unfolding pio_write_loop.simps(2) [of io "Suc f"] wired_def by (simp add: w port_outw_def del: pio_write_loop.simps)
    have r: "hw ?s = p_outw io b ?w (hw s)" "kmem ?s = kmem s" by simp_all
    let ?D = "\<lambda>h. (disk (hw s))(a + unat i := kmem s (data + of_nat (unat i)), a + unat i + 1 := h)"
    have yD: "disk y = written (unat i + 2) (unat count) a data (kmem s) (if odd (unat count) \<and> unat i + 2 < unat count then (?D ?h)(a + unat count := 0) else ?D ?h)"
      using y(3) unfolding r o(1) u(2) .
    have "disk y = written (unat i) (unat count) a data (kmem s) (if odd (unat count) \<and> unat i < unat count then (disk (hw s))(a + unat count := 0) else disk (hw s))"
    proof (cases "unat i + 1 < unat count")
      case True
      then have o: "odd (unat count) \<and> unat i + 2 < unat count \<longleftrightarrow> odd (unat count)" "odd (unat count) \<and> unat i < unat count \<longleftrightarrow> odd (unat count)"
        using Suc.prems(2) by presburger+
      have h: "?h = kmem s (data + of_nat (unat i + 1))" using True by (rule if_P)
      have tw: "(?D x)(a + unat count := 0) = ((disk (hw s))(a + unat count := 0))(a + unat i := kmem s (data + of_nat (unat i)), a + unat i + 1 := x)" for x
        using True by (auto simp: fun_upd_def)
      show ?thesis
        unfolding yD o h tw using written_step [OF True, of a data "kmem s"] by (cases "odd (unat count)") (simp_all only: if_True if_False not_False_eq_True)
    next
      case False
      then have e: "unat count = unat i + 1" using \<open>unat i < unat count\<close> by simp
      then have od: "odd (unat count)" using Suc.prems(2) by simp
      have h: "?h = 0" using False by (rule if_not_P)
      have "disk y = ?D 0" unfolding yD h e by (simp add: written_done)
      also have "\<dots> = written (unat i) (unat count) a data (kmem s) ((disk (hw s))(a + unat count := 0))"
        by (rule ext) (auto simp: written_def e)
      finally show ?thesis using od \<open>unat i < unat count\<close> by simp
    qed
    with l y(2) show ?thesis by blast
  qed
qed

lemma write_loop:
  assumes "wired b c d" "even (unat count)" "unat count < 4294967294" "outq (hw s) = (a, unat count)" "unat count \<le> 2 * f"
  shows "\<exists>y. pio_write_loop io (Suc f) 0 0 data count cf d s = Inr (s\<lparr>hw := y\<rparr>) \<and>
    disk y = written 0 (unat count) a data (kmem s) (disk (hw s))"
  using write_loop_any [of d count s a 0 "unat count" f data cf] assms by (auto simp del: pio_write_loop.simps)

lemma pio_write:
  assumes drive: "ata_devs s drive = Some d" "wired b c d" and lba: "unat sector < 268435456"
    and count: "count \<noteq> 0" "unat count mod 512 = 0" "unat count \<le> 130560"
    and fuel: "65281 \<le> f"
  shows "\<exists>y. ata_pio_write_flexible h io f sector 0 data count drive s = Inr (ERROR_NONE, s\<lparr>hw := y\<rparr>) \<and>
    disk y = written 0 (unat count) (512 * unat sector) data (kmem s) (disk (hw s))"
proof -
  obtain g where g: "f = Suc g" using fuel by (cases f) auto
  have m: "count mod 512 = 0" using count(2) by (intro word_unat_eqI) (simp add: unat_mod_distrib)
  have dv: "unat (count div 512) = unat count div 512" by (simp add: unat_div_distrib)
  have sc: "unat (sector_count count) = unat count div 512"
    using m count(3) by (simp add: sector_count_def dv unsigned_ucast_eq take_bit_eq_mod)
  have n: "unat (sector_count count) < 256" using count(3) by (simp add: sc)
  have c512: "512 * unat (sector_count count) = unat count" using count(2) mult_div_mod_eq [of 512 "unat count"] by (simp add: sc)
  obtain x where x: "ata_cmd io sector (sector_count count) ATA_CMD_PIO_WRITE_MULTIPLE_28 ATA_CMD_PIO_WRITE_MULTIPLE_48 d s = (ERROR_NONE, s\<lparr>hw := x\<rparr>)"
    "outq x = (512 * unat sector, unat count)" "disk x = disk (hw s)"
    using cmd_write [OF drive(2) lba n] unfolding c512 by blast
  have ev: "even (unat count)" "unat count < 4294967294" using count(2,3) by (auto simp: mod_0_imp_dvd dvd_trans [of 2 512])
  obtain y where y: "pio_write_loop io f 0 0 data count 0 d (s\<lparr>hw := x\<rparr>) = Inr (s\<lparr>hw := y\<rparr>)"
    "disk y = written 0 (unat count) (512 * unat sector) data (kmem s) (disk (hw s))"
    using write_loop [OF drive(2) ev, of "s\<lparr>hw := x\<rparr>" "512 * unat sector" g data 0] x(2,3) count(3) fuel
    by (auto simp: g simp del: pio_write_loop.simps)
  have fill: "pio_fill_loop io f (count + count mod 2) (ucast (512 * sector_count count)) k d t = Inr t" for k and t :: "('hw, 'z) st"
  proof -
    have "count mod 2 = 0" using ev(1) by (intro word_unat_eqI) (simp add: unat_mod_distrib)
    moreover have "unat (512 * sector_count count) = unat count"
      using c512 count(3) by (simp add: unat_word_ariths)
    ultimately have "\<not> count + count mod 2 < ucast (512 * sector_count count)"
      using count(3) by (simp add: word_less_nat_alt unsigned_ucast_eq take_bit_eq_mod)
    then show ?thesis by (simp add: g)
  qed
  let ?t = "s\<lparr>hw := p_outb io (b + 7) 0xE7 y\<rparr>"
  obtain z where z: "ata_pio_poll_status io d ?t = (ERROR_NONE, s\<lparr>hw := z\<rparr>)" "disk z = disk y"
    using poll_ready [OF drive(2), of ?t] flush_cmd [of y] by auto
  have b: "base_port d = b" using drive(2) by (simp add: wired_def)
  have "ata_pio_write_flexible h io f sector 0 data count drive s = Inr (ERROR_NONE, s\<lparr>hw := z\<rparr>)"
    by (simp add: ata_pio_write_flexible_def pio_cache_sector_def drive(1) m Let_def x(1) y(1) fill port_outb_def b z(1) del: pio_write_loop.simps pio_fill_loop.simps)
  then show ?thesis using y(2) z(2) by (intro exI [of _ z]) simp
qed

lemma block_read:
  assumes io: "kio K = io" and bd: "polled b c bd (count \<le> 1024) s"
    and lba: "unat sector + unat offset div 512 < 268435456" and count: "count \<noteq> 0" "unat count \<le> 130560"
      "unat offset mod 512 + unat count \<le> 512 * ((unat count + 511) div 512)"
    and fuel: "65281 \<le> f"
  shows "\<exists>y. block_read_flexible K f sector offset data count bd s = Inr (Ret ERROR_NONE (s\<lparr>kmem :=
      (\<lambda>a. if unat (a - data) < unat count then disk (hw s) (512 * unat sector + unat offset + unat (a - data)) else kmem s a), hw := y\<rparr>)) \<and>
    disk y = disk (hw s)"
proof -
  obtain B d where d: "block_devs s bd = Some B" "bd_type B = ATA_DEVICE" "ata_devs s (bd_struct B) = Some d" "wired b c d"
    "\<not> flag_set (ata_flags d) ATA_FLAG_ATAPI" "\<not> scheduler_started s \<or> count \<le> 1024"
    using bd by (rule polledE) blast
  obtain g where g: "f = Suc g" using fuel by (cases f) auto
  let ?sec = "sector + ucast (offset div 512)" and ?off = "offset mod 512"
  have o: "unat (offset div 512) = unat offset div 512" "unat ?off = unat offset mod 512"
    by (simp_all add: unat_div_distrib unat_mod_distrib)
  have "unat (ucast (offset div 512) :: u64) = unat offset div 512"
    using o(1) unat_lt_32 [of "offset div 512"] by (simp add: unsigned_ucast_eq take_bit_eq_mod)
  then have sec: "unat ?sec = unat sector + unat offset div 512" using lba by (simp add: unat_word_ariths)
  have n: "unat (sector_count count) < 256" using count(2) by (simp add: unat_sector_count)
  have fits: "unat ?off + unat count \<le> 512 * unat (sector_count count)" using count(2,3) by (simp add: o(2) unat_sector_count)
  obtain y where y: "ata_pio_read_flexible io f ?sec ?off data count (bd_struct B) s =
      Inr (ERROR_NONE, s\<lparr>kmem := received 0 ?off data (unat count)
        (disk_bytes (disk (hw s)) (512 * unat ?sec) (512 * unat (sector_count count))) (kmem s), hw := y\<rparr>)" "disk y = disk (hw s)"
    using pio_read [OF d(3,4) _ count(1) n fits fuel, of ?sec data] lba sec by auto
  have m: "received 0 ?off data (unat count) (disk_bytes (disk (hw s)) (512 * unat ?sec) (512 * unat (sector_count count))) (kmem s) =
      (\<lambda>a. if unat (a - data) < unat count then disk (hw s) (512 * unat sector + unat offset + unat (a - data)) else kmem s a)"
  proof (rule ext)
    fix a
    have "512 * (unat sector + unat offset div 512) + (unat (a - data) + unat offset mod 512) = 512 * unat sector + unat offset + unat (a - data)"
    proof -
      have "512 * (S + q) + (k + r) = 512 * S + (512 * q + r) + k" for S q k r :: nat by (simp add: algebra_simps)
      from this [of "unat sector" "unat offset div 512" "unat (a - data)" "unat offset mod 512"] show ?thesis unfolding mult_div_mod_eq .
    qed
    then show "received 0 ?off data (unat count) (disk_bytes (disk (hw s)) (512 * unat ?sec) (512 * unat (sector_count count))) (kmem s) a =
      (if unat (a - data) < unat count then disk (hw s) (512 * unat sector + unat offset + unat (a - data)) else kmem s a)"
      using fits unfolding received_def Let_def sec o(2) by (simp add: ac_simps)
  qed
  have small: "\<not> ucast (255 * 512 :: u32) < count" using count(2) by (simp add: word_less_nat_alt)
  have "block_read_flexible K f sector offset data count bd s = Inr (Ret ERROR_NONE (s\<lparr>kmem := 
      received 0 ?off data (unat count) (disk_bytes (disk (hw s)) (512 * unat ?sec) (512 * unat (sector_count count))) (kmem s), hw := y\<rparr>))"
    using d small by (simp add: block_read_flexible_def ata_read_flexible_def chunked_def g tried_again_def io y(1) [unfolded g])
  then show ?thesis using y(2) unfolding m by blast
qed

lemma block_write:
  assumes io: "kio K = io" and bd: "polled b c bd False s"
    and lba: "unat sector < 268435456" and count: "count \<noteq> 0" "unat count \<le> 130560" "unat count mod 512 = 0"
    and fuel: "65281 \<le> f"
  shows "\<exists>y. block_write_flexible K f sector 0 data count bd s = Inr (Ret ERROR_NONE (s\<lparr>hw := y\<rparr>)) \<and>
    disk y = written 0 (unat count) (512 * unat sector) data (kmem s) (disk (hw s))"
proof -
  obtain B d where d: "block_devs s bd = Some B" "bd_type B = ATA_DEVICE" "ata_devs s (bd_struct B) = Some d" "wired b c d"
    "\<not> flag_set (ata_flags d) ATA_FLAG_ATAPI" "\<not> scheduler_started s"
    using bd by (rule polledE) blast
  obtain g where g: "f = Suc g" using fuel by (cases f) auto
  obtain y where y: "ata_pio_write_flexible (kh K) io f sector 0 data count (bd_struct B) s = Inr (ERROR_NONE, s\<lparr>hw := y\<rparr>)"
    "disk y = written 0 (unat count) (512 * unat sector) data (kmem s) (disk (hw s))"
    using pio_write [OF d(3,4) lba count(1,3,2) fuel] by blast
  have small: "\<not> ucast (255 * 512 :: u32) < count" using count(2) by (simp add: word_less_nat_alt)
  have so: "split_offset sector 0 = (sector, 0)" by (simp add: split_offset.simps)
  have "block_write_flexible K f sector 0 data count bd s = Inr (Ret ERROR_NONE (s\<lparr>hw := y\<rparr>))"
    using d small so by (simp add: block_write_flexible_def ata_write_flexible_def chunked_def g io y(1) [unfolded g])
  then show ?thesis using y(2) by blast
qed

lemma fill_loop:
  assumes at: "wired b c d" and lim: "even (unat lim)" "unat lim < 4294967294"
  shows "outq (hw s) = (a + unat i, unat lim - unat i) \<Longrightarrow> even (unat i) \<Longrightarrow> unat lim \<le> unat i + 2 * f \<Longrightarrow>
    (\<And>j. unat i \<le> j \<Longrightarrow> j < unat lim \<Longrightarrow> kmem s (cache + of_nat j) = disk (hw s) (a + j)) \<Longrightarrow>
    \<exists>y. pio_fill_loop io (Suc f) i lim cache d s = Inr (s\<lparr>hw := y\<rparr>) \<and> disk y = disk (hw s)"
proof (induction f arbitrary: i s)
  case 0
  then have "\<not> i < lim" by (simp add: word_less_nat_alt)
  with 0 show ?case by (intro exI [of _ "hw s"]) simp
next
  case (Suc f)
  show ?case
  proof (cases "unat i < unat lim")
    case False
    then have "\<not> i < lim" by (simp add: word_less_nat_alt)
    then show ?thesis by (intro exI [of _ "hw s"]) simp
  next
    case True
    have i1: "unat i + 1 < unat lim" using True lim(1) Suc.prems(2) by presburger
    have u: "unat (i + 2) = unat i + 2" using lim(2) i1 by (simp add: unat_word_ariths)
    have lt: "i < lim" using True by (simp add: word_less_nat_alt)
    have c0: "ucast i = (of_nat (unat i) :: u32)"
      by (rule word_unat_eqI) (simp add: unsigned_ucast_eq take_bit_eq_mod unat_of_nat)
    have k0: "kmem s (cache + of_nat (unat i)) = disk (hw s) (a + unat i)" and k1: "kmem s (cache + of_nat (unat i + 1)) = disk (hw s) (a + unat i + 1)"
      using Suc.prems(4) [OF order_refl True] Suc.prems(4) [OF le_add1 i1] unfolding add.assoc [symmetric] by (simp_all only:)
    have c1: "cache + ucast i + 1 = cache + of_nat (unat i + 1)" by (simp add: ac_simps)
    let ?w = "word_of (disk (hw s) (a + unat i)) (disk (hw s) (a + unat i + 1))"
    have w: "word_of (kmem s (cache + ucast i)) (kmem s (cache + ucast i + 1)) = ?w"
      unfolding c1 k1 unfolding c0 k0 ..
    have o: "disk (p_outw io b ?w (hw s)) = disk (hw s)" "outq (p_outw io b ?w (hw s)) = (a + unat i + 2, unat lim - (unat i + 2))"
      using data_out [of "hw s" "a + unat i" "unat lim - (unat i + 2)" ?w] Suc.prems(1) i1
      by (simp_all add: Suc_diff_le numeral_2_eq_2 fun_upd_idem)
    let ?s = "s\<lparr>hw := p_outw io b ?w (hw s)\<rparr>"
    have "\<exists>y. pio_fill_loop io (Suc f) (i + 2) lim cache d ?s = Inr (?s\<lparr>hw := y\<rparr>) \<and> disk y = disk (hw ?s)"
    proof (rule Suc.IH)
      show "outq (hw ?s) = (a + unat (i + 2), unat lim - unat (i + 2))" "even (unat (i + 2))" "unat lim \<le> unat (i + 2) + 2 * f"
        using o(2) Suc.prems(2,3) u by simp_all
      show "kmem ?s (cache + of_nat j) = disk (hw ?s) (a + j)" if "unat (i + 2) \<le> j" "j < unat lim" for j
        using Suc.prems(4) [of j] that u o(1) by simp
    qed
    then obtain y where "pio_fill_loop io (Suc f) (i + 2) lim cache d ?s = Inr (?s\<lparr>hw := y\<rparr>)" "disk y = disk (hw ?s)" by blast
    then show ?thesis using at lt o(1) unfolding pio_fill_loop.simps(2) [of io "Suc f"] wired_def
      by (intro exI [of _ y]) (simp add: w port_outw_def del: pio_fill_loop.simps)
  qed
qed

lemma pio_write_part:
  assumes drive: "ata_devs s drive = Some d" "wired b c d" and lba: "unat sector < 268435456"
    and count: "count \<noteq> 0" "unat count < 512" and fuel: "65281 \<le> f"
    and heap: "task_heap h" "malloc h 512 s = Inr (cf, s1)"
    and data: "\<And>i. i < unat count \<Longrightarrow> kmem s1 (data + of_nat i) = kmem s (data + of_nat i) \<and> 512 \<le> unat (data + of_nat i - cf)"
  shows "\<exists>s'. ata_pio_write_flexible h io f sector 0 data count drive s = Inr (ERROR_NONE, s') \<and>
    disk (hw s') = written 0 (unat count) (512 * unat sector) data (kmem s)
      (if odd (unat count) then (disk (hw s))(512 * unat sector + unat count := 0) else disk (hw s))"
proof -
  obtain g where g: "f = Suc g" using fuel by (cases f) auto
  note s1 = more_storage [OF task_heap.malloc_keeps [OF heap]]
  have dv: "count div 512 = 0" "count mod 512 = count"
    using count(2) by (intro word_unat_eqI, simp add: unat_div_distrib, intro word_unat_eqI, simp add: unat_mod_distrib)
  have sc: "sector_count count = 1" "unat (sector_count count) = 1" using count(1) by (simp_all add: sector_count_def dv)
  let ?B = "disk_bytes (disk (hw s)) (512 * unat sector) 512"
  have sc512: "unat (sector_count 512) = 1" by (simp add: sector_count_def)
  obtain x where x: "ata_pio_read_flexible io f sector 0 cf 512 drive s1 = Inr (ERROR_NONE, s1\<lparr>kmem := received 0 0 cf 512 ?B (kmem s1), hw := x\<rparr>)"
    "disk x = disk (hw s)"
    using pio_read [of s1 drive d sector 512 0 f cf] drive lba fuel unfolding s1 sc512 by auto
  let ?m = "received 0 0 cf 512 ?B (kmem s1)"
  let ?s2 = "s1\<lparr>kmem := ?m, hw := x\<rparr>"
  have dat: "?m (data + of_nat i) = kmem s (data + of_nat i)" if "i < unat count" for i
    using data [OF that] by (simp add: received_def Let_def)
  have cache: "?m (cf + of_nat j) = disk (hw s) (512 * unat sector + j)" if "j < 512" for j
  proof -
    have "unat (of_nat j :: u32) = j" using that by (simp add: unat_of_nat)
    then show ?thesis using that by (simp add: received_def Let_def)
  qed
  obtain y where y: "ata_cmd io sector 1 ATA_CMD_PIO_WRITE_MULTIPLE_28 ATA_CMD_PIO_WRITE_MULTIPLE_48 d ?s2 = (ERROR_NONE, ?s2\<lparr>hw := y\<rparr>)"
    "outq y = (512 * unat sector, 512)" "disk y = disk (hw s)"
    using cmd_write [OF drive(2) lba, of 1 ATA_CMD_PIO_WRITE_MULTIPLE_48 ?s2] x(2) by auto
  let ?dk = "written 0 (unat count) (512 * unat sector) data (kmem s)
      (if odd (unat count) then (disk (hw s))(512 * unat sector + unat count := 0) else disk (hw s))"
  have wr: "written 0 (unat count) (512 * unat sector) data ?m D = written 0 (unat count) (512 * unat sector) data (kmem s) D" for D
    by (rule written_cong) (rule dat)
  let ?e = "unat count + unat count mod 2"
  obtain z where z: "pio_write_loop io f 0 0 data count cf d (?s2\<lparr>hw := y\<rparr>) = Inr (?s2\<lparr>hw := z\<rparr>)"
    "outq z = (512 * unat sector + ?e, 512 - ?e)" "disk z = ?dk"
  proof -
    have "unat count \<noteq> 0" using count(1) by (simp add: unat_eq_0)
    then show thesis
      using that write_loop_any [OF drive(2), of count "?s2\<lparr>hw := y\<rparr>" "512 * unat sector" 0 512 g data cf] y(2,3) count(2) fuel wr
      by (auto simp: g simp del: pio_write_loop.simps)
  qed
  have tot: "unat (count + count mod 2) = ?e" using count(2) by (simp add: unat_word_ariths unat_mod_distrib)
  obtain w where w: "pio_fill_loop io f (count + count mod 2) 512 cf d (?s2\<lparr>hw := z\<rparr>) = Inr (?s2\<lparr>hw := w\<rparr>)" "disk w = ?dk"
  proof -
    have keep: "?m (cf + of_nat j) = disk z (512 * unat sector + j)" if "?e \<le> j" "j < 512" for j
      using that cache [of j] unfolding z(3) by (auto simp: written_def)
    have "even ?e" by presburger
    then show thesis
      using that fill_loop [OF drive(2), of 512 "?s2\<lparr>hw := z\<rparr>" "512 * unat sector" "count + count mod 2" g cf] z(2,3) keep fuel tot
      by (auto simp: g simp del: pio_fill_loop.simps)
  qed
  let ?t = "?s2\<lparr>hw := p_outb io (b + 7) 0xE7 w\<rparr>"
  obtain v where v: "ata_pio_poll_status io d ?t = (ERROR_NONE, ?s2\<lparr>hw := v\<rparr>)" "disk v = ?dk"
    using poll_ready [OF drive(2), of ?t] flush_cmd [of w] w(2) by auto
  have b: "base_port d = b" using drive(2) by (simp add: wired_def)
  have cs: "pio_cache_sector h io f True sector drive s = Inr (cf, ?s2)"
    by (simp add: pio_cache_sector_def heap(2) x(1))
  have d2: "ata_devs ?s2 drive = Some d" using drive(1) s1(2) by simp
  have "ata_pio_write_flexible h io f sector 0 data count drive s = Inr (ERROR_NONE, ?s2\<lparr>hw := v\<rparr>)"
    using cs d2 y(1) z(1) w(1) v(1) count(1) b
    by (simp add: ata_pio_write_flexible_def Let_def dv sc port_outb_def pio_cache_sector_def [where needed = False] del: pio_write_loop.simps pio_fill_loop.simps)
  then show ?thesis using v(2) by (intro exI [of _ "?s2\<lparr>hw := v\<rparr>"]) simp
qed

end

subsection \<open>A drive\<close>

text \<open>A drive behind the ports of the primary channel, with the registers and the commands that the polling driver uses.\<close>

record drive_hw =
  dh_reg :: "u16 \<Rightarrow> u8"
  dh_disk :: "nat \<Rightarrow> u8"
  dh_in :: "u8 list"
  dh_out :: "nat \<times> nat"

definition drive_outb :: "u16 \<Rightarrow> u8 \<Rightarrow> drive_hw \<Rightarrow> drive_hw" where
  "drive_outb port v x =
     (if 0x1F1 \<le> port \<and> port \<le> 0x1F6 then x\<lparr>dh_reg := (dh_reg x)(port - 0x1F0 := v)\<rparr>
      else if port = 0x1F7 \<and> v = 0xC4 then x\<lparr>dh_in := disk_bytes (dh_disk x) (512 * reg_lba (dh_reg x)) (512 * unat (dh_reg x 2))\<rparr>
      else if port = 0x1F7 \<and> v = 0x30 then x\<lparr>dh_out := (512 * reg_lba (dh_reg x), 512 * unat (dh_reg x 2))\<rparr>
      else x)"

definition drive_inb :: "u16 \<Rightarrow> drive_hw \<Rightarrow> u8 \<times> drive_hw" where
  "drive_inb port x = (if 0x1F1 \<le> port \<and> port \<le> 0x1F6 then dh_reg x (port - 0x1F0) else if port = 0x1F7 then 0x50 else 0, x)"

definition drive_inw :: "u16 \<Rightarrow> drive_hw \<Rightarrow> u16 \<times> drive_hw" where
  "drive_inw port x = (if port = 0x1F0 then (case dh_in x of l # h # q \<Rightarrow> (word_of l h, x\<lparr>dh_in := q\<rparr>) | _ \<Rightarrow> (0xFFFF, x)) else (0xFFFF, x))"

definition drive_outw :: "u16 \<Rightarrow> u16 \<Rightarrow> drive_hw \<Rightarrow> drive_hw" where
  "drive_outw port w x =
     (case dh_out x of (a, n) \<Rightarrow>
        if port = 0x1F0 \<and> 2 \<le> n then x\<lparr>dh_disk := (dh_disk x)(a := ucast w, a + 1 := ucast (drop_bit 8 w)), dh_out := (a + 2, n - 2)\<rparr> else x)"

definition drive_ports :: "drive_hw ports" where
  "drive_ports = \<lparr>p_inb = drive_inb, p_outb = drive_outb, p_inw = drive_inw, p_outw = drive_outw, p_inl = (\<lambda>_ x. (0xFFFFFFFF, x)), p_outl = (\<lambda>_ _ x. x)\<rparr>"

interpretation primary: ata_drive drive_ports "0x1F0" "0x3F6" dh_reg dh_disk dh_in dh_out
proof
  fix x y :: drive_hw and v r and l h q w a n
  show "p_inb drive_ports 0x3F6 x = (v, y) \<Longrightarrow> dh_reg y = dh_reg x \<and> dh_disk y = dh_disk x \<and> dh_in y = dh_in x \<and> dh_out y = dh_out x"
    by (auto simp: drive_ports_def drive_inb_def)
  show "p_inb drive_ports (0x1F0 + 7) x = (v, y) \<Longrightarrow> v AND 0xA1 = 0 \<and> dh_reg y = dh_reg x \<and> dh_disk y = dh_disk x \<and> dh_in y = dh_in x \<and> dh_out y = dh_out x"
    by (auto simp: drive_ports_def drive_inb_def)
  show "r \<in> {1, 2, 3, 4, 5, 6} \<Longrightarrow> dh_reg (p_outb drive_ports (0x1F0 + r) v x) = (dh_reg x)(r := v) \<and> dh_disk (p_outb drive_ports (0x1F0 + r) v x) = dh_disk x"
    by (auto simp: drive_ports_def drive_outb_def)
  show "dh_in x = l # h # q \<Longrightarrow> p_inw drive_ports 0x1F0 x = (w, y) \<Longrightarrow> w = word_of l h \<and> dh_disk y = dh_disk x \<and> dh_in y = q"
    by (auto simp: drive_ports_def drive_inw_def)
  show "dh_out x = (a, Suc (Suc n)) \<Longrightarrow>
      dh_disk (p_outw drive_ports 0x1F0 w x) = (dh_disk x)(a := ucast w, a + 1 := ucast (drop_bit 8 w)) \<and> dh_out (p_outw drive_ports 0x1F0 w x) = (a + 2, n)"
    by (simp add: drive_ports_def drive_outw_def)
qed (simp_all add: drive_ports_def drive_outb_def)

subsection \<open>Transfers\<close>



text \<open>A write of an odd number of bytes, less than a sector, to the start of a sector stores the bytes and sets the byte that follows them on
  the disk to 0; the rest of the sector and of the disk is kept.\<close>

theorem odd_write_clears_next_byte:
  assumes drv: "ata_drive io b c reg disk inq outq" "ata_devs s drive = Some d" "wired b c d"
    and args: "unat sector < 268435456" "odd (unat count)" "unat count < 512" "65281 \<le> f"
    and heap: "task_heap h" "malloc h 512 s = Inr (cf, s1)"
    and data: "\<And>i. i < unat count \<Longrightarrow> kmem s1 (data + of_nat i) = kmem s (data + of_nat i) \<and> 512 \<le> unat (data + of_nat i - cf)"
  shows "\<exists>s'. ata_pio_write_flexible h io f sector 0 data count drive s = Inr (ERROR_NONE, s') \<and>
    (\<forall>i < unat count. disk (hw s') (512 * unat sector + i) = kmem s (data + of_nat i)) \<and>
    disk (hw s') (512 * unat sector + unat count) = 0 \<and>
    (\<forall>p. p < 512 * unat sector \<or> 512 * unat sector + unat count < p \<longrightarrow> disk (hw s') p = disk (hw s) p)"
proof -
  have "count \<noteq> 0" using args(2) by auto
  from ata_drive.pio_write_part [OF drv args(1) this args(3,4) heap data] args(2)
  obtain s' where "ata_pio_write_flexible h io f sector 0 data count drive s = Inr (ERROR_NONE, s')"
    "disk (hw s') = written 0 (unat count) (512 * unat sector) data (kmem s) ((disk (hw s))(512 * unat sector + unat count := 0))"
    by auto
  then show ?thesis by (intro exI [of _ s']) (simp add: written_def)
qed

end
