(* ===== verification/VK_VfsProps.thy ===== *)
theory VK_VfsProps
  imports VK_Vfs VK_AtaProps
begin

section \<open>Properties of the virtual file system and of the bitmaps of ext2\<close>

text \<open>
  A read through all layers: the virtual file system, FAT32, the block device, the ATA driver and the drive. What a read at the end of a file
  does. The bitmaps of ext2: what is marked when a block or an inode is taken, and what is cleared when one is freed.
\<close>

subsection \<open>Reading a file\<close>

text \<open>The number of bytes a read is cut to.\<close>

definition read_count :: "u64 \<Rightarrow> u64 \<Rightarrow> u64 \<Rightarrow> u64" where
  "read_count len offset count = (if len < count + offset then len - offset else count)"

text \<open>Reading a FAT32 file on a working disk by polling, from an offset before its end and inside its first cluster, returns without error: the
  bytes of the disk from the file's first sector and the offset on are in the buffer, cut to the end of the file, the offset has moved on
  by their number, and all other memory, the disk and all other open files are as before.\<close>

theorem read_file_returns_disk:
  assumes drv: "ata_drive (kio K) b c reg disk inq outq" "polled b c (fs_drive y) (n \<le> 1024) s"
    and opened: "fds s fda = Some x" "fsnodes s (fd_file x) = Some node" "fn_attributes node AND FILE_ATTR_DIR = 0"
    and fat: "fsystems s (fn_file_system node) = Some y" "fs_type y = FS_TYPE_FAT32" "fatfss s (fs_specific y) = Some spe" "fatnodes s (fn_specific node) = Some nd"
    and n: "n = read_count (fn_length node) (fd_offset x) count" "n \<noteq> 0" "fd_offset x < fn_length node" "n + fd_offset x < cluster_bytes spe s"
    and lba: "lba = fat32fs_cluster_to_lba spe (fat_cluster nd) (kmem s)" "unat lba + unat (ucast (fd_offset x) :: u32) div 512 < 268435456"
    and size: "unat n \<le> 130560" "unat (ucast (fd_offset x) :: u32) mod 512 + unat n \<le> 512 * ((unat n + 511) div 512)" "65281 \<le> f"
  shows "\<exists>z. read_file K f fda buffer count s = Inr (Ret ERROR_NONE (s\<lparr>kmem :=
      (\<lambda>a. if unat (a - buffer) < unat n then disk (hw s) (512 * unat lba + unat (ucast (fd_offset x) :: u32) + unat (a - buffer)) else kmem s a),
      hw := z, fds := (fds s)(fda \<mapsto> x\<lparr>fd_offset := fd_offset x + n\<rparr>)\<rparr>)) \<and> disk z = disk (hw s)"
proof -
  obtain z where z: "block_read_flexible K f lba (ucast (fd_offset x)) buffer n (fs_drive y) s = Inr (Ret ERROR_NONE (s\<lparr>kmem :=
      (\<lambda>a. if unat (a - buffer) < unat n then disk (hw s) (512 * unat lba + unat (ucast (fd_offset x) :: u32) + unat (a - buffer)) else kmem s a), hw := z\<rparr>))"
    "disk z = disk (hw s)"
    using ata_drive.block_read [OF drv(1) refl drv(2) lba(2) n(2) size] by blast
  have r: "fat32_read_file K f fda buffer n s = block_read_flexible K f lba (ucast (fd_offset x)) buffer n (fs_drive y) s"
    using opened fat n(4) lba(1) by (simp add: fat32_read_file_def fat_of_def)
  have l: "fn_length node \<noteq> 0" "\<not> fn_length node \<le> fd_offset x" using n(3) by auto
  have c: "(if fn_length node \<noteq> 0 \<and> fn_length node < count + fd_offset x then fn_length node - fd_offset x else count) = n"
    using l n(1) by (simp add: read_count_def)
  have "read_file K f fda buffer count s = bindV (block_read_flexible K f lba (ucast (fd_offset x)) buffer n (fs_drive y) s) (advance_fd fda n)"
    unfolding read_file_def using opened fat(1,2) l n(2) c r by (simp add: Let_def FILE_ATTR_DIR_def driver_read_def)
  then show ?thesis using z opened(1) by (intro exI [of _ z]) (simp add: advance_fd_def)
qed

text \<open>At the end of a file and in a directory nothing is read.\<close>

lemma read_file_at_end:
  assumes "fds s fda = Some x" "fsnodes s (fd_file x) = Some file" "fn_attributes file AND FILE_ATTR_DIR = 0" "fn_length file \<noteq> 0" "fn_length file \<le> fd_offset x"
  shows "read_file K f fda buffer count s = Inr (Ret ERROR_EOF (s\<lparr>kmem := (kmem s)(buffer := 0)\<rparr>))"
  using assms by (simp add: read_file_def FILE_ATTR_DIR_def)

subsection \<open>Bitmaps\<close>

definition bitmap_bit :: "mem \<Rightarrow> u32 \<Rightarrow> nat \<Rightarrow> bool" where
  "bitmap_bit m bitmap k \<longleftrightarrow> bit (m (bitmap + of_nat (k div 8))) (k mod 8)"

lemma zero_bit_iff:
  assumes "j \<le> 8"
  shows "zero_bit v (of_nat j) (8 - j) = (case filter (\<lambda>i. \<not> bit v i) [j..<8] of [] \<Rightarrow> None | i # _ \<Rightarrow> Some (of_nat i))"
  using assms
proof (induction "8 - j" arbitrary: j)
  case (Suc n)
  then have j: "j < 8" "8 - j = Suc (8 - Suc j)" by simp_all
  have u: "unat (of_nat j :: u8) = j" using j(1) by (simp add: unat_of_nat)
  have b: "v AND push_bit j 1 = 0 \<longleftrightarrow> \<not> bit v j"
  proof
    assume "v AND push_bit j 1 = 0"
    moreover have "bit (v AND push_bit j 1) j = bit v j" using j(1) by (simp add: bit_simps)
    ultimately show "\<not> bit v j" by simp
  next
    assume "\<not> bit v j"
    then show "v AND push_bit j 1 = 0" by (intro bit_word_eqI) (auto simp: bit_simps)
  qed
  have "zero_bit v (of_nat (Suc j)) (8 - Suc j) = (case filter (\<lambda>i. \<not> bit v i) [Suc j..<8] of [] \<Rightarrow> None | i # _ \<Rightarrow> Some (of_nat i))"
    using Suc.hyps(1) [of "Suc j"] Suc.hyps(2) Suc.prems by simp
  then show ?case unfolding j(2) using j(1) u b by (simp add: upt_conv_Cons add.commute)
qed simp

lemma zero_bit_first:
  assumes "j < 8" "\<not> bit v j" "\<And>i. i < j \<Longrightarrow> bit v i"
  shows "zero_bit v 0 8 = Some (of_nat j)"
proof -
  have "[0..<8] = [0..<j] @ j # [Suc j..<8]" using assms(1) upt_add_eq_append [of 0 j "8 - j"] upt_conv_Cons [of j 8] by simp
  then have "filter (\<lambda>i. \<not> bit v i) [0..<8] = j # filter (\<lambda>i. \<not> bit v i) [Suc j..<8]" using assms by simp
  then show ?thesis using zero_bit_iff [of 0 v] by simp
qed

lemma zero_bit_none: "(\<And>i. i < 8 \<Longrightarrow> bit v i) \<Longrightarrow> zero_bit v 0 8 = None"
  using zero_bit_iff [of 0 v] by simp

lemma mark_first_from_marks:
  assumes "N * 8 < 4294967296" "k < 8 * N" "8 * q \<le> k" "\<not> bitmap_bit m bm k" "\<And>i. 8 * q \<le> i \<Longrightarrow> i < k \<Longrightarrow> bitmap_bit m bm i"
  shows "mark_first_from m bm (of_nat q) (N - q) =
    (of_nat k, m(bm + of_nat (k div 8) := m (bm + of_nat (k div 8)) OR push_bit (k mod 8) 1))"
  using assms(3,5)
proof (induction "N - q" arbitrary: q)
  case 0
  then show ?case using assms(2) by simp
next
  case (Suc n)
  have N: "N - q = Suc (N - Suc q)" using Suc.hyps(2) by simp
  let ?v = "m (bm + of_nat q)"
  show ?case
  proof (cases "k div 8 = q")
    case True
    have k: "k = q * 8 + k mod 8" using True div_mult_mod_eq [of k 8] by simp
    have "bit ?v i" if "i < k mod 8" for i
      using Suc.prems(2) [of "8 * q + i"] that k True by (simp add: bitmap_bit_def)
    moreover have "\<not> bit ?v (k mod 8)" using assms(4) True by (simp add: bitmap_bit_def)
    ultimately have z: "zero_bit ?v 0 8 = Some (of_nat (k mod 8))" by (intro zero_bit_first) simp_all
    have u: "unat (of_nat (k mod 8) :: u8) = k mod 8" by (simp add: unat_of_nat)
    then have "ucast (of_nat (k mod 8) :: u8) = (of_nat (k mod 8) :: u32)" by (metis of_nat_unat)
    then have "of_nat q * 8 + ucast (of_nat (k mod 8) :: u8) = (of_nat k :: u32)" by (subst (2) k) simp
    then show ?thesis unfolding N using z u True by simp
  next
    case False
    then have q: "8 * Suc q \<le> k" using Suc.prems(1) by (metis One_nat_def Suc_eq_plus1 div_le_mono div_mult_self1_is_m le_antisym mult.commute not_less_eq_eq zero_less_numeral mult_le_mono2 times_div_less_eq_dividend order_trans)
    have "bit ?v i" if "i < 8" for i
      using Suc.prems(2) [of "8 * q + i"] that q by (simp add: bitmap_bit_def)
    then have "zero_bit ?v 0 8 = None" by (rule zero_bit_none)
    moreover have "mark_first_from m bm (of_nat (Suc q)) (N - Suc q) =
        (of_nat k, m(bm + of_nat (k div 8) := m (bm + of_nat (k div 8)) OR push_bit (k mod 8) 1))"
      using Suc.hyps q Suc.prems(2) by (intro Suc.hyps(1)) simp_all
    ultimately show ?thesis unfolding N by (simp add: add.commute)
  qed
qed

text \<open>C33: When the first zero bit of a bitmap is bit \<open>k\<close>, \<^verbatim>\<open>ext2_bitmap_mark_first_zero_bit\<close> returns \<open>k\<close> and sets that bit; all other bits and all
  memory outside the bitmap are kept.\<close>

theorem bitmap_mark_first_zero_bit:
  assumes len: "unat len * 8 < 4294967296" and k: "k < 8 * unat len" "\<not> bitmap_bit m bm k" "\<And>i. i < k \<Longrightarrow> bitmap_bit m bm i"
  shows "\<exists>m'. ext2_bitmap_mark_first_zero_bit m bm len = (of_nat k, m') \<and>
    (\<forall>i < 8 * unat len. bitmap_bit m' bm i = (i = k \<or> bitmap_bit m bm i)) \<and> (\<forall>a. unat len \<le> unat (a - bm) \<longrightarrow> m' a = m a)"
proof -
  let ?p = "bm + of_nat (k div 8)"
  define m' where "m' = m(?p := m ?p OR push_bit (k mod 8) 1)"
  have u: "unat (of_nat i :: u32) = i" if "i < unat len" for i using that unat_lt_32 [of len] by (simp add: unat_of_nat)
  have kd: "k div 8 < unat len" using k(1) by (simp add: div_less_iff_less_mult mult.commute)
  have "ext2_bitmap_mark_first_zero_bit m bm len = (of_nat k, m')"
    using mark_first_from_marks [OF len k(1), of 0 m bm] k by (simp add: ext2_bitmap_mark_first_zero_bit_def m'_def)
  moreover have "bitmap_bit m' bm i = (i = k \<or> bitmap_bit m bm i)" if "i < 8 * unat len" for i
  proof -
    have i: "i div 8 < unat len" using that by (simp add: div_less_iff_less_mult mult.commute)
    have "(of_nat (i div 8) :: u32) = of_nat (k div 8) \<longleftrightarrow> i div 8 = k div 8" using u [OF i] u [OF kd] by metis
    moreover have "i = k \<longleftrightarrow> i div 8 = k div 8 \<and> i mod 8 = k mod 8" by (metis div_mult_mod_eq)
    ultimately show ?thesis by (auto simp: bitmap_bit_def m'_def bit_simps)
  qed
  moreover have "m' a = m a" if "unat len \<le> unat (a - bm)" for a
  proof -
    have "a \<noteq> ?p" using that u [OF kd] kd by auto
    then show ?thesis by (simp add: m'_def)
  qed
  ultimately show ?thesis by blast
qed

text \<open>\<^verbatim>\<open>ext2_bitmap_mark_bit_free\<close> frees, with the bit it is given, all eight bits of its byte: blocks or inodes that are in use are marked
  free. Other bytes are kept.\<close>

theorem bitmap_mark_bit_free_clears_byte:
  "bitmap_bit (ext2_bitmap_mark_bit_free m bm b) bm (unat i) = (bitmap_bit m bm (unat i) \<and> i div 8 \<noteq> b div 8)"
proof -
  have "unat i div 8 = unat (i div 8)" by (simp add: unat_div)
  then have "of_nat (unat i div 8) = i div 8" by simp
  then show ?thesis by (auto simp: bitmap_bit_def ext2_bitmap_mark_bit_free_def Let_def)
qed

end
