(* ===== verification/VK_KernelProps.thy ===== *)
theory VK_KernelProps
  imports VK_Boot VK_VfsProps
begin

section \<open>Properties of processes, system calls and descriptor tables\<close>

text \<open>
  A page that is copied to a new address space has the same contents there; the interrupt table leads every vector to its handler
  and lets user code raise only the system call; the calls about processes reach only the caller and its children; handlers of
  signals that cannot be caught stay as they are; a new file number never replaces an open file; and when the loop that
  wakes a waiting parent ends.
\<close>

subsection \<open>Copying a page to another address space\<close>

lemma page_number:
  assumes "(va :: u32) mod 4096 = 0"
  obtains k where "unat va = 4096 * k" "k < 1048576"
proof -
  have "unat va mod 4096 = 0" using assms by (simp add: word_unat_eq_iff unat_mod_distrib)
  then obtain k where k: "unat va = 4096 * k" by auto
  moreover have "k < 1048576" using unat_lt_32 [of va] k by linarith
  ultimately show ?thesis by (rule that)
qed

lemma page_offset:
  fixes va :: u32
  assumes "va mod 4096 = 0" "i < 4096"
  shows "unat (va + of_nat i) = unat va + i"
proof -
  obtain k where k: "unat va = 4096 * k" "k < 1048576" using assms(1) by (rule page_number)
  have i: "unat (of_nat i :: u32) = i" using assms(2) by (simp add: unat_of_nat)
  have "4096 * k + i < 4294967296" using k(2) assms(2) by linarith
  then have "unat va + unat (of_nat i :: u32) < 2 ^ 32" by (simp add: i k(1))
  then show ?thesis by (simp only: unat_plus_small i)
qed

lemma page_parts:
  fixes va :: u32
  assumes "va mod 4096 = 0" "i < 4096"
  shows "drop_bit 22 (va + of_nat i) = drop_bit 22 va" "drop_bit 12 (va + of_nat i) = drop_bit 12 va"
    "(va + of_nat i) mod 4096 = of_nat i" "(va + of_nat i) mod 0x400000 = va mod 0x400000 + of_nat i"
proof -
  obtain k where k: "unat va = 4096 * k" "k < 1048576" using assms(1) by (rule page_number)
  have u: "unat (va + of_nat i) = 4096 * k + i" using page_offset [OF assms] k(1) by simp
  have i: "unat (of_nat i :: u32) = i" using assms(2) by (simp add: unat_of_nat)
  have big: "(4194304 :: nat) = 4096 * 1024" by simp
  have d: "(4096 * k + i) div 4194304 = k div 1024" "4096 * k div 4194304 = k div 1024"
    using assms(2) by (simp_all only: big div_mult2_eq, simp_all?)
  have m: "(4096 * k + i) mod 4194304 = 4096 * (k mod 1024) + i" "4096 * k mod 4194304 = 4096 * (k mod 1024)"
    using assms(2) by (simp_all only: big mod_mult2_eq, simp_all?)
  show "drop_bit 12 (va + of_nat i) = drop_bit 12 va"
    using assms(2) by (simp add: word_unat_eq_iff drop_bit_eq_div unat_div_distrib u k(1))
  show "drop_bit 22 (va + of_nat i) = drop_bit 22 va"
    by (simp add: word_unat_eq_iff drop_bit_eq_div unat_div_distrib u k(1) d)
  show "(va + of_nat i) mod 4096 = of_nat i"
    using assms(2) by (simp add: word_unat_eq_iff unat_mod_distrib u i)
  have v: "unat (va mod 0x400000) = 4096 * (k mod 1024)" by (simp add: unat_mod_distrib k(1) m(2))
  have "k mod 1024 < 1024" by simp
  then have "4096 * (k mod 1024) + i < 4294967296" using assms(2) by linarith
  then have s: "unat (va mod 0x400000) + unat (of_nat i :: u32) < 2 ^ 32" by (simp add: v i)
  have "unat (va mod 0x400000 + of_nat i) = 4096 * (k mod 1024) + i" by (simp only: unat_plus_small [OF s] v i)
  also have "\<dots> = unat ((va + of_nat i) mod 0x400000)" by (simp add: unat_mod_distrib u m(1))
  finally show "(va + of_nat i) mod 0x400000 = va mod 0x400000 + of_nat i" by (simp only: word_unat_eq_iff)
qed

lemma user_addr_page:
  assumes "va mod 4096 = 0" "i < 4096" "user_addr pd va s = Some p"
  shows "user_addr pd (va + of_nat i) s = Some (p + of_nat i)"
  using assms(3) page_parts [OF assms(1,2)] assms(1)
  by (auto simp: user_addr_def Let_def pd_entry_def pte_addr_def add.assoc split: if_splits)

lemma user_addr_cong: "pmem s' = pmem s \<Longrightarrow> user_addr pd va s' = user_addr pd va s"
  by (simp add: user_addr_def pd_entry_def Let_def)

text \<open>What the copies leave, on a range that is translated to consecutive addresses.\<close>

lemma copy_from_user_range:
  assumes "\<And>i. i < n \<Longrightarrow> user_addr (current_page_directory s) (src + of_nat i) s = Some (p + of_nat i)" "n < 2 ^ 32"
  shows "copy_from_user dest src n s = Inr (s\<lparr>kmem := (\<lambda>a. if unat (a - dest) < n then phys s (p + (a - dest)) else kmem s a)\<rparr>)"
  using assms
proof (induction n arbitrary: dest src p s)
  case (Suc n)
  have f: "user_addr (current_page_directory s) src s = Some p" using Suc.prems(1) [of 0] by simp
  let ?s = "s\<lparr>kmem := (kmem s)(dest := phys s p)\<rparr>"
  have "user_addr (current_page_directory ?s) (src + 1 + of_nat i) ?s = Some (p + 1 + of_nat i)" if "i < n" for i
    using Suc.prems(1) [of "Suc i"] that user_addr_cong [of ?s s] by (simp add: add.assoc)
  then have "copy_from_user (dest + 1) (src + 1) n ?s =
     Inr (?s\<lparr>kmem := (\<lambda>a. if unat (a - (dest + 1)) < n then phys ?s (p + 1 + (a - (dest + 1))) else kmem ?s a)\<rparr>)"
    using Suc.prems(2) by (intro Suc.IH) auto
  moreover have "(\<lambda>a. if unat (a - (dest + 1)) < n then phys ?s (p + 1 + (a - (dest + 1))) else kmem ?s a) =
     (\<lambda>a. if unat (a - dest) < Suc n then phys s (p + (a - dest)) else kmem s a)"
  proof
    fix a :: u32
    have d: "a \<noteq> dest \<Longrightarrow> unat (a - (dest + 1)) = unat (a - dest) - 1"
      using unat_minus_one [of "a - dest"] by (simp add: diff_diff_eq)
    have "unat (dest - (dest + 1)) = 4294967295" by (simp add: unsigned_minus_1_eq_mask mask_eq_exp_minus_1)
    moreover have "a \<noteq> dest \<Longrightarrow> 0 < unat (a - dest)" by (simp add: unat_gt_0)
    ultimately show "(if unat (a - (dest + 1)) < n then phys ?s (p + 1 + (a - (dest + 1))) else kmem ?s a) =
        (if unat (a - dest) < Suc n then phys s (p + (a - dest)) else kmem s a)"
      using Suc.prems(2) d by (cases "a = dest") auto
  qed
  ultimately show ?case by (simp add: user_byte_def f)
qed simp

lemma copy_to_user_range:
  assumes "\<And>i. i < n \<Longrightarrow> user_addr (current_page_directory s) (dest + of_nat i) s = Some (p + of_nat i)" "n < 2 ^ 32"
  shows "copy_to_user dest src n s = Inr (s\<lparr>phys := (\<lambda>a. if unat (a - p) < n then kmem s (src + (a - p)) else phys s a)\<rparr>)"
  using assms
proof (induction n arbitrary: dest src p s)
  case (Suc n)
  have f: "user_addr (current_page_directory s) dest s = Some p" using Suc.prems(1) [of 0] by simp
  let ?s = "s\<lparr>phys := (phys s)(p := kmem s src)\<rparr>"
  have "user_addr (current_page_directory ?s) (dest + 1 + of_nat i) ?s = Some (p + 1 + of_nat i)" if "i < n" for i
    using Suc.prems(1) [of "Suc i"] that user_addr_cong [of ?s s] by (simp add: add.assoc)
  then have "copy_to_user (dest + 1) (src + 1) n ?s =
     Inr (?s\<lparr>phys := (\<lambda>a. if unat (a - (p + 1)) < n then kmem ?s (src + 1 + (a - (p + 1))) else phys ?s a)\<rparr>)"
    using Suc.prems(2) by (intro Suc.IH) auto
  moreover have "(\<lambda>a. if unat (a - (p + 1)) < n then kmem ?s (src + 1 + (a - (p + 1))) else phys ?s a) =
     (\<lambda>a. if unat (a - p) < Suc n then kmem s (src + (a - p)) else phys s a)"
  proof
    fix a :: u32
    have d: "a \<noteq> p \<Longrightarrow> unat (a - (p + 1)) = unat (a - p) - 1"
      using unat_minus_one [of "a - p"] by (simp add: diff_diff_eq)
    have "unat (p - (p + 1)) = 4294967295" by (simp add: unsigned_minus_1_eq_mask mask_eq_exp_minus_1)
    moreover have "a \<noteq> p \<Longrightarrow> 0 < unat (a - p)" by (simp add: unat_gt_0)
    ultimately show "(if unat (a - (p + 1)) < n then kmem ?s (src + 1 + (a - (p + 1))) else phys ?s a) =
        (if unat (a - p) < Suc n then kmem s (src + (a - p)) else phys s a)"
      using Suc.prems(2) d by (cases "a = p") auto
  qed
  ultimately show ?case by (simp add: set_user_byte_def f)
qed simp

text \<open>C10: copying a page of an address space through a kernel buffer to the same address of another one succeeds when both have a page
  there, leaves the original page directory loaded, and afterwards every byte of the page reads in the new address space
  as it read in the old one; nothing but the buffer and the new page changes.\<close>

theorem copy_between_copies_page:
  fixes s :: "'a paging_scheme"
  assumes "va mod 4096 = 0" "user_addr pd va s = Some p" "user_addr tr va s = Some q"
  shows "\<exists>s'. copy_between pd tr va kbuffer 4096 cpd s = Inr s' \<and> current_page_directory s' = cpd \<and>
    (\<forall>i < 4096. user_byte tr (va + of_nat i) s' = user_byte pd (va + of_nat i) s) \<and>
    (\<forall>a. 4096 \<le> unat (a - q) \<longrightarrow> phys s' a = phys s a) \<and>
    (\<forall>a. 4096 \<le> unat (a - kbuffer) \<longrightarrow> kmem s' a = kmem s a) \<and> pmem s' = pmem s"
proof -
  have sw: "current_page_directory (pd_switch d t) = d \<and> pmem (pd_switch d t) = pmem t \<and> phys (pd_switch d t) = phys t \<and> kmem (pd_switch d t) = kmem t"
    for d and t :: "'a paging_scheme" by (simp add: pd_switch_def)
  have addr: "user_addr d (va + of_nat i) t = Some (r + of_nat i)"
    if "user_addr d va s = Some r" "pmem t = pmem s" "i < 4096" for d r i and t :: "'a paging_scheme"
    using user_addr_page [OF assms(1) that(3,1)] user_addr_cong [OF that(2)] by simp
  let ?s1 = "pd_switch pd s"
  let ?s2 = "pd_switch tr (?s1\<lparr>kmem := (\<lambda>a. if unat (a - kbuffer) < 4096 then phys s (p + (a - kbuffer)) else kmem s a)\<rparr>)"
  let ?s3 = "?s2\<lparr>phys := (\<lambda>a. if unat (a - q) < 4096 then kmem ?s2 (kbuffer + (a - q)) else phys s a)\<rparr>"
  have 1: "copy_from_user kbuffer va 4096 ?s1 = Inr (?s1\<lparr>kmem := (\<lambda>a. if unat (a - kbuffer) < 4096 then phys s (p + (a - kbuffer)) else kmem s a)\<rparr>)"
    using copy_from_user_range [of 4096 ?s1 va p kbuffer] addr [OF assms(2), of ?s1] by (simp add: sw del: copy_from_user.simps cong: if_cong)
  have 2: "copy_to_user va kbuffer 4096 ?s2 = Inr ?s3"
    using copy_to_user_range [of 4096 ?s2 va q kbuffer] addr [OF assms(3), of ?s2] by (simp add: sw del: copy_to_user.simps cong: if_cong)
  have r: "copy_between pd tr va kbuffer 4096 cpd s = Inr (pd_switch cpd ?s3)"
    unfolding copy_between_def 1 bindR_simps 2 by simp
  have b: "user_byte tr (va + of_nat i) (pd_switch cpd ?s3) = user_byte pd (va + of_nat i) s" if "i < 4096" for i
    using that addr [OF assms(3) _ that, of "pd_switch cpd ?s3"] addr [OF assms(2) _ that, of s]
    by (simp add: user_byte_def sw unat_of_nat)
  show ?thesis by (rule exI [of _ "pd_switch cpd ?s3"]) (use r b in \<open>auto simp: sw not_less [symmetric]\<close>)
qed

subsection \<open>Descriptor tables\<close>

definition idt_gate :: "u16 \<Rightarrow> u32 \<Rightarrow> u16 \<Rightarrow> idt_desc" where
  "idt_gate select offset ty = \<lparr>offset0_15 = ucast (offset AND 0xffff), id_select = select, id_type = ty,
     offset16_31 = ucast (drop_bit 16 (offset AND 0xffff0000))\<rparr>"

lemma init_idt_desc_entries:
  "IDT_ENTRIES (init_idt_desc i select offset ty s) = (IDT_ENTRIES s)[i := idt_gate select offset ty]"
  by (simp add: init_idt_desc_def idt_gate_def)

lemma init_idt_descs_entries:
  "length (IDT_ENTRIES (init_idt_descs i hs s)) = length (IDT_ENTRIES s)"
  "j < length (IDT_ENTRIES s) \<Longrightarrow> IDT_ENTRIES (init_idt_descs i hs s) ! j =
     (if i \<le> j \<and> j < i + length hs then idt_gate 0x08 (hs ! (j - i)) 0x8E00 else IDT_ENTRIES s ! j)"
proof (induction hs arbitrary: i s)
  case (Cons h hs)
  { case 1 show ?case by (simp add: Cons.IH(1) init_idt_desc_entries)
  next
    case 2
    then have "j < length (IDT_ENTRIES (init_idt_desc i 0x08 h 0x8E00 s))" by (simp add: init_idt_desc_entries)
    from Cons.IH(2) [OF this, of "Suc i"] 2 show ?case by (auto simp: init_idt_desc_entries nth_list_update nth_Cons' Suc_diff_le) }
qed auto

lemma mask_fields:
  "(0xffff :: u32) = mask 16" "(0xffff0000 :: u32) = push_bit 16 (mask 16)" "(0xff0000 :: u32) = push_bit 16 (mask 8)"
  "(0xff000000 :: u32) = push_bit 24 (mask 8)" "(0xf0000 :: u32) = push_bit 16 (mask 4)"
  by (simp_all add: mask_eq_exp_minus_1 push_bit_eq_mult)

lemma gate_offset_idt_gate [simp]: "gate_offset (idt_gate select offset ty) = offset"
  unfolding gate_offset_def idt_gate_def idt_desc.simps mask_fields
  by (rule bit_word_eqI) (auto simp: bit_simps)

text \<open>The handler a vector should lead to.\<close>

definition vector_handler :: "handlers \<Rightarrow> nat \<Rightarrow> u32" where
  "vector_handler H i =
     (if i < 32 then h_isr H i else if i = 32 then h_schedule H else if i \<le> 52 then h_irq H (i - 32)
      else if i = 0x80 then h_syscall H else h_unhandled H)"

text \<open>C35: after the installation every vector of the interrupt table leads to its handler, in the kernel's code segment, and user code
  (privilege level 3) may raise only the system call.\<close>

theorem idt_install_dispatch:
  assumes "length (IDT_ENTRIES s) = IDT_SIZE" "i < IDT_SIZE"
  shows "gate_offset (IDT_ENTRIES (idt_install H s) ! i) = vector_handler H i \<and>
    id_select (IDT_ENTRIES (idt_install H s) ! i) = 0x08 \<and>
    (drop_bit 13 (id_type (IDT_ENTRIES (idt_install H s) ! i)) AND 3 = 3 \<longleftrightarrow> i = 0x80)"
proof -
  let ?s1 = "init_idt_descs 0 (replicate IDT_SIZE (h_unhandled H)) s"
  let ?s2 = "init_idt_descs 0 (map (h_isr H) [0..<32]) ?s1"
  let ?s3 = "init_idt_descs 32 (h_schedule H # map (h_irq H) [1..<21]) ?s2"
  have l: "length (IDT_ENTRIES ?s1) = IDT_SIZE" "length (IDT_ENTRIES ?s2) = IDT_SIZE" "length (IDT_ENTRIES ?s3) = IDT_SIZE"
    using assms(1) by (simp_all only: init_idt_descs_entries(1))
  have 1: "IDT_ENTRIES ?s1 ! i = idt_gate 0x08 (h_unhandled H) 0x8E00"
    using assms init_idt_descs_entries(2) [of i s 0 "replicate IDT_SIZE (h_unhandled H)"] by simp
  have 2: "IDT_ENTRIES ?s2 ! i = (if i < 32 then idt_gate 0x08 (h_isr H i) 0x8E00 else idt_gate 0x08 (h_unhandled H) 0x8E00)"
    using assms(2) init_idt_descs_entries(2) [of i ?s1 0 "map (h_isr H) [0..<32]"] 1 by (simp add: l del: upt_conv_Cons_Cons upt_rec_numeral)
  have 3: "IDT_ENTRIES ?s3 ! i =
      (if 32 \<le> i \<and> i < 53 then idt_gate 0x08 ((h_schedule H # map (h_irq H) [1..<21]) ! (i - 32)) 0x8E00 else IDT_ENTRIES ?s2 ! i)"
    using assms(2) init_idt_descs_entries(2) [of i ?s2 32 "h_schedule H # map (h_irq H) [1..<21]"] by (simp add: l del: upt_rec_numeral)
  have 4: "(h_schedule H # map (h_irq H) [1..<21]) ! (i - 32) = (if i = 32 then h_schedule H else h_irq H (i - 32))" if "32 \<le> i" "i < 53"
    using that by (cases "i - 32") (auto simp del: upt_rec_numeral)
  have e: "IDT_ENTRIES (idt_install H s) ! i = idt_gate 0x08 (vector_handler H i) (if i = 0x80 then 0xEF00 else 0x8E00)"
    using assms(2) 2 3 4 l(3) by (auto simp: idt_install_def Let_def init_idt_desc_entries nth_list_update vector_handler_def IDT_SIZE_def)
  have t: "drop_bit 13 (0xEF00 :: u16) AND 3 = 3" "drop_bit 13 (0x8E00 :: u16) AND 3 \<noteq> 3" by simp_all
  show ?thesis unfolding e gate_offset_idt_gate using t by (auto simp: idt_gate_def)
qed

text \<open>C40: a segment descriptor, whose base and limit are spread over its fields, gives back the base, the lowest 20 bits of the limit and
  the access byte it was made from; the other descriptors stay.\<close>

theorem init_gdt_desc_roundtrip:
  assumes "n < length (GDT_ENTRIES s)"
  shows "let g = GDT_ENTRIES (init_gdt_desc n base limite ac other s) in
    desc_base (g ! n) = base \<and> desc_limit (g ! n) = take_bit 20 limite \<and> acces (g ! n) = ac \<and>
    gd_other (g ! n) = ucast other \<and> (\<forall>k. k \<noteq> n \<longrightarrow> g ! k = GDT_ENTRIES s ! k)"
proof -
  have b: "desc_base (gdt_entry base limite ac other) = base"
    unfolding desc_base_def gdt_entry_def gdt_desc.simps mask_fields
  proof (rule bit_word_eqI, goal_cases)
    case (1 n)
    then show ?case by (cases "24 \<le> n") (auto simp: bit_simps)
  qed
  have l: "desc_limit (gdt_entry base limite ac other) = take_bit 20 limite"
    unfolding desc_limit_def gdt_entry_def gdt_desc.simps mask_fields by (rule bit_word_eqI) (auto simp: bit_simps)
  have m: "(0xf :: u8) = mask 4" by (simp add: mask_eq_exp_minus_1)
  have o: "gd_other (gdt_entry base limite ac other) = ucast other"
    unfolding gdt_entry_def gdt_desc.simps m by (rule bit_word_eqI) (auto simp: bit_simps)
  show ?thesis using assms by (simp add: init_gdt_desc_def Let_def b l o) (simp add: gdt_entry_def)
qed

subsection \<open>Waiting for children\<close>

text \<open>C38: the loop that should wake a parent waiting for the end of a child returns only when the first of the parent's sleeping threads
  sleeps for a child (and can be woken): otherwise it looks at the same thread for ever, whatever the others wait for.\<close>

theorem wake_parent_returns_iff:
  assumes "procs s q = Some x" "waiting_threads x = (e, t) # ws" "thrs s t = Some th"
  shows "(\<exists>f s'. wake_parent h f q s = Inr s') \<longleftrightarrow>
    t_status th = THREAD_STATUS_ASLEEP_CHILD \<and> (\<exists>s'. scheduler_add_thread h q t s = Inr s')"
proof -
  have p: "proc q s = Inr x" "thr t s = Inr th" using assms by (simp_all add: proc_def thr_def)
  have n: "wake_parent h f q s = Inl NoFuel" if "t_status th \<noteq> THREAD_STATUS_ASLEEP_CHILD" for f
    using that by (induction f) (simp_all add: p assms(2))
  have y: "wake_parent h (Suc f) q s = scheduler_add_thread h q t s" if "t_status th = THREAD_STATUS_ASLEEP_CHILD" for f
    using that by (simp add: p assms(2))
  have z: "wake_parent h f q s = Inr s' \<Longrightarrow> t_status th = THREAD_STATUS_ASLEEP_CHILD \<Longrightarrow> scheduler_add_thread h q t s = Inr s'" for f s'
    using y by (cases f) auto
  show ?thesis
  proof
    assume "\<exists>f s'. wake_parent h f q s = Inr s'"
    then obtain f s' where r: "wake_parent h f q s = Inr s'" by blast
    then have t: "t_status th = THREAD_STATUS_ASLEEP_CHILD" using n [of f] by (cases "t_status th = THREAD_STATUS_ASLEEP_CHILD") simp_all
    with z [OF r] show "t_status th = THREAD_STATUS_ASLEEP_CHILD \<and> (\<exists>s'. scheduler_add_thread h q t s = Inr s')" by blast
  next
    assume "t_status th = THREAD_STATUS_ASLEEP_CHILD \<and> (\<exists>s'. scheduler_add_thread h q t s = Inr s')"
    with y [of 0] show "\<exists>f s'. wake_parent h f q s = Inr s'" by metis
  qed
qed

definition zombie_child :: "(process \<Rightarrow> bool) \<Rightarrow> 'a tasking_scheme \<Rightarrow> u32 \<times> u32 \<Rightarrow> bool" where
  "zombie_child P s ec = (case procs s (snd ec) of None \<Rightarrow> False | Some x \<Rightarrow> p_status x = PROCESS_STATUS_ZOMBIE \<and> P x)"

lemma find_zombie_extract:
  assumes "\<forall>ec \<in> set cl. \<exists>x. procs s (snd ec) = Some x"
  shows "find_zombie (\<lambda>x. Inr (P x)) before cl s =
    Inr (map_option (\<lambda>(ys, (e, c), zs). (before @ ys, e, c, zs)) (List.extract (zombie_child P s) cl))"
  using assms
proof (induction cl arbitrary: before)
  case (Cons ec cl)
  obtain e c where ec: "ec = (e, c)" by (cases ec)
  obtain x where x: "procs s c = Some x" using Cons.prems ec by auto
  have "zombie_child P s ec = (p_status x = PROCESS_STATUS_ZOMBIE \<and> P x)" by (simp add: zombie_child_def ec x)
  then show ?case using Cons.prems Cons.IH [of "before @ [(e, c)]"]
    by (cases "zombie_child P s ec") (auto simp: ec x proc_def extract_Cons_code split: option.splits)
qed (simp add: extract_Nil_code)


subsection \<open>What a process can see of another\<close>

lemma subject_own_or_child:
  assumes "subject rbx s = Inr (Inr p)"
  shows "p = current_process s \<or> (\<exists>x. procs s p = Some x \<and> parent x = current_process s)"
  using assms by (auto simp: subject_def Let_def proc_def split: if_splits option.splits)

text \<open>C34: the call that reports on a process changes nothing but memory, and only when it succeeds; it succeeds only with a pointer
  into a page of the caller below the kernel, about the caller itself or one of its children; every error is in both registers.\<close>

theorem getpinfo_safe:
  assumes "procs s (current_process s) = Some c" "syscall_getpinfo K f rbx rcx rdx s = Inr (Ret r s')"
  shows "\<exists>err m. r = (Some err, Some err) \<and> s' = s\<lparr>kmem := m\<rparr> \<and>
    (if err = ERROR_NONE
     then ptr_validate rdx (page_directory c) s \<and>
       (\<exists>p. subject rbx s = Inr (Inr p) \<and> (p = current_process s \<or> (\<exists>x. procs s p = Some x \<and> parent x = current_process s)))
     else m = kmem s)"
proof -
  have v: "valid_ptr rdx s = Inr (ptr_validate rdx (page_directory c) s)" using assms(1) by (simp add: valid_ptr_def proc_def)
  have b: "both e t = Inr (Ret r s') \<longleftrightarrow> r = (Some e, Some e) \<and> s' = t" for e t by (auto simp: both_def)
  show ?thesis
  proof (cases "ptr_validate rdx (page_directory c) s")
    case False
    with assms(2) have "r = (Some ERROR_INVALID_PTR, Some ERROR_INVALID_PTR)" "s' = s" by (simp_all add: syscall_getpinfo_def v b)
    then show ?thesis
      by (intro exI [of _ ERROR_INVALID_PTR] exI [of _ "kmem s"]) (simp add: ERROR_INVALID_PTR_def ERROR_NONE_def)
  next
    case True
    from assms(2) True obtain q where q: "subject rbx s = Inr q" by (auto simp: syscall_getpinfo_def v bindR_Inr_iff)
    show ?thesis
    proof (cases q)
      case (Inl e)
      have "e \<noteq> ERROR_NONE" using q Inl
        by (auto simp: subject_def Let_def proc_def ERROR_INVALID_PID_def ERROR_PERMISSION_def ERROR_NONE_def split: if_splits option.splits)
      moreover from assms(2) True q Inl have "r = (Some e, Some e)" "s' = s" by (simp_all add: syscall_getpinfo_def v b)
      ultimately show ?thesis by (intro exI [of _ e] exI [of _ "kmem s"]) simp
    next
      case (Inr p)
      from assms(2) True q Inr have "\<exists>err. r = (Some err, Some err) \<and> (s' = s \<or> err = ERROR_NONE \<and> (\<exists>m. s' = s\<lparr>kmem := m\<rparr>))"
        by (auto simp: syscall_getpinfo_def v b Let_def bindR_Inr_iff split: if_splits)
      then obtain err where e: "r = (Some err, Some err)" "s' = s \<or> err = ERROR_NONE \<and> (\<exists>m. s' = s\<lparr>kmem := m\<rparr>)" by blast
      then obtain m where m: "s' = s\<lparr>kmem := m\<rparr>" "err = ERROR_NONE \<or> m = kmem s"
        by (metis kheap.surjective kheap.update_convs(1) kheap.select_convs(1))
      show ?thesis
        using e(1) m True q Inr subject_own_or_child [of rbx s p] by (intro exI [of _ err] exI [of _ m]) auto
    qed
  qed
qed

subsection \<open>File numbers\<close>

lemma find_slot_first:
  assumes "k < n" "load32 m (slot table (i + of_nat k)) = 0"
  shows "\<exists>l \<le> k. find_slot m table i n = (i + of_nat l, True) \<and> load32 m (slot table (i + of_nat l)) = 0 \<and>
    (\<forall>j < l. load32 m (slot table (i + of_nat j)) \<noteq> 0)"
  using assms
proof (induction n arbitrary: i k)
  case (Suc n)
  show ?case
  proof (cases "load32 m (slot table i) = 0")
    case False
    with Suc.prems obtain k' where k: "k = Suc k'" by (cases k) auto
    with Suc.prems have "k' < n" "load32 m (slot table (i + 1 + of_nat k')) = 0" by (simp_all add: add.assoc)
    from Suc.IH [OF this] obtain l where l: "l \<le> k'" "find_slot m table (i + 1) n = (i + 1 + of_nat l, True)"
      "load32 m (slot table (i + 1 + of_nat l)) = 0" "\<forall>j < l. load32 m (slot table (i + 1 + of_nat j)) \<noteq> 0" by blast
    have "load32 m (slot table (i + of_nat j)) \<noteq> 0" if "j < Suc l" for j
      using that l(4) False by (cases j) (auto simp: add.assoc)
    then show ?thesis using l False k by (intro exI [of _ "Suc l"]) (simp add: add.assoc)
  qed auto
qed simp

lemma slots_apart:
  assumes "unat table + 4 * n \<le> 2 ^ 32" "i < n" "j < n" "i \<noteq> j"
  shows "load32 (store32 m (slot table (of_nat i)) v) (slot table (of_nat j)) = load32 m (slot table (of_nat j))"
proof -
  have u: "unat (slot table (of_nat k)) = unat table + 4 * k" if "k < n" for k
  proof -
    have "4 * k < 4294967296" using that assms(1) by simp
    then have e: "unat (4 * of_nat k :: u32) = 4 * k" by (simp add: unat_word_ariths unat_of_nat)
    then have "unat table + unat (4 * of_nat k :: u32) < 2 ^ 32" using that assms(1) by simp
    from unat_plus_small [OF this] e show ?thesis by (simp add: slot_def)
  qed
  show ?thesis by (rule load32_store32_apart) (use u [OF assms(2)] u [OF assms(3)] assms in auto)
qed


subsection \<open>The root drive\<close>

lemma find_drive_from:
  assumes "\<And>i. i < n \<Longrightarrow> block_devs s (load32 (kmem s) (slot (block_devices s) (of_nat i))) = Some (b i)"
    "unat (block_device_count s) = n" "n < 128" "j < n"
  shows "find_drive (n - j + g) cls msg (of_nat j) s =
    (case find (\<lambda>i. device_class (b i) = cls) [j..<n] of Some i \<Rightarrow> Inr (of_nat i) | None \<Rightarrow> Inl (Fatal msg))"
  using assms(4)
proof (induction "n - j" arbitrary: j)
  case (Suc k)
  have j: "[j..<n] = j # [Suc j..<n]" using Suc.prems by (rule upt_conv_Cons)
  have u: "ucast (of_nat j :: u8) = (of_nat j :: u32)"
    using Suc.prems assms(3) by (simp add: word_unat_eq_iff unsigned_ucast_eq unat_of_nat take_bit_nat_eq_self)
  have w: "(of_nat j :: u8) + 1 = of_nat (Suc j)" by simp
  have d: "sint (of_nat (Suc j) :: u8) = int (Suc j)"
    using Suc.prems assms(3) by (simp add: signed_of_nat signed_take_bit_int_eq_self del: of_nat_Suc)
  have f: "n - j + g = Suc (k + g)" using Suc.hyps(2) by simp
  have dev: "the_obj (block_devs s (load32 (kmem s) (slot (block_devices s) (of_nat j)))) = Inr (b j)"
    using assms(1) [OF Suc.prems] by (simp add: the_obj_def)
  have c: "uint (block_device_count s) = int n" by (simp flip: assms(2))
  show ?case
  proof (cases "Suc j < n")
    case True
    then have "find_drive (n - Suc j + g) cls msg (of_nat (Suc j)) s =
      (case find (\<lambda>i. device_class (b i) = cls) [Suc j..<n] of Some i \<Rightarrow> Inr (of_nat i) | None \<Rightarrow> Inl (Fatal msg))"
      using Suc.hyps(2) by (intro Suc.hyps(1)) simp_all
    moreover have "n - Suc j + g = k + g" using Suc.hyps(2) by simp
    ultimately show ?thesis using True by (simp add: j f u dev w d c del: of_nat_Suc)
  next
    case False
    then have n: "Suc j = n" using Suc.prems by simp
    have "sint (of_nat n :: u8) = int n" using d n by simp
    then show ?thesis using n by (simp add: j f u dev w c del: of_nat_Suc)
  qed
qed simp


subsection \<open>Reading through a system call\<close>

lemma moved_by:
  "(ucast (off + n - ucast (ucast off :: u32)) :: u32) = ucast (n :: u64)"
proof -
  have "uint (ucast (off + n - ucast (ucast off :: u32)) :: u32) = (uint off + uint n - uint off mod 4294967296) mod 4294967296"
    by (simp add: unsigned_ucast_eq uint_word_ariths take_bit_eq_mod mod_mod_cancel mod_diff_left_eq uint_mod)
  also have "\<dots> = uint n mod 4294967296" by (simp add: mod_simps)
  also have "\<dots> = uint (ucast n :: u32)" by (simp add: unsigned_ucast_eq take_bit_eq_mod)
  finally show ?thesis by (simp add: word_uint_eq_iff)
qed

lemma load32_outside:
  assumes "unat buffer + n \<le> unat a" "unat a + 4 \<le> 2 ^ 32"
  shows "load32 (\<lambda>b. if unat (b - buffer) < n then g b else m b) a = load32 m a"
proof -
  have "\<not> unat (a + k - buffer) < n" if "unat k < 4" for k
  proof -
    have u: "unat (a + k) = unat a + unat k" using that assms(2) by (intro unat_plus_small) simp
    have "buffer \<le> a + k" using assms(1) u by (simp add: word_le_nat_alt)
    then have "unat (a + k - buffer) = unat a + unat k - unat buffer" using u by (simp add: unat_sub)
    then show ?thesis using assms(1) by simp
  qed
  from this [of 0] this [of 1] this [of 2] this [of 3] show ?thesis by (simp add: load32_def)
qed


subsection \<open>The check of an executable\<close>

lemma elf_verdict_none:
  "elf_verdict m a = ERROR_NONE \<longleftrightarrow> m a = 0x7F \<and> m (a + 1) = 69 \<and> m (a + 2) = 76 \<and> m (a + 3) = 70 \<and>
    eh_bits m a = 1 \<and> eh_type m a = 2 \<and> (eh_instruction_set m a = 0 \<or> eh_instruction_set m a = 3)"
  by (auto simp: elf_verdict_def ERROR_NONE_def ERROR_IS_NOT_ELF_def ERROR_IS_64_BITS_def ERROR_IS_NOT_EXECUTABLE_def ERROR_WRONG_INSTRUCTION_SET_def)

lemma elf_verdict_moved:
  assumes "\<And>k. unat k < 52 \<Longrightarrow> m (a + k) = m' k"
  shows "elf_verdict m a = elf_verdict m' 0"
  using assms [of 0] assms [of 1] assms [of 2] assms [of 3] assms [of 4] assms [of 16] assms [of 17] assms [of 18] assms [of 19]
  by (simp add: elf_verdict_def eh_bits_def eh_type_def eh_instruction_set_def load16_def add.assoc)


end
