(* ===== verification/VK_FatProps.thy ===== *)
theory VK_FatProps
  imports VK_Fat
begin

section \<open>Properties of the FAT32 file system\<close>

text \<open>
  The allocation table: what \<^verbatim>\<open>fat32fs_gm_free_clusters\<close> takes and links, that it keeps the table well formed, and that
  \<^verbatim>\<open>fat32fs_free_cluster_chain\<close> gives back what was taken. The time stamps of directory entries, and renaming.
\<close>

subsection \<open>Entries of the table\<close>

lemma load32_store32_far:
  assumes "4 \<le> unat (b - a)" "4 \<le> unat (a - b)"
  shows "load32 (store32 m a v) b = load32 m b"
proof -
  have ne: "b + i \<noteq> a + j" if "i \<in> {0, 1, 2, 3}" "j \<in> {0, 1, 2, 3}" for i j :: u32
  proof
    assume e: "b + i = a + j"
    then have "b - a = j - i" "a - b = i - j" by (simp_all add: algebra_simps)
    then show False using that assms by (auto simp: unat_word_ariths)
  qed
  have z: "b = b + 0" "a = a + 0" by simp_all
  show ?thesis
    using ne [of 0 0] ne [of 0 1] ne [of 0 2] ne [of 0 3] ne [of 1 0] ne [of 1 1] ne [of 1 2] ne [of 1 3]
      ne [of 2 0] ne [of 2 1] ne [of 2 2] ne [of 2 3] ne [of 3 0] ne [of 3 1] ne [of 3 2] ne [of 3 3]
    by (simp add: load32_def store32_def)
qed

lemma unat_times_4: "unat x < 1073741824 \<Longrightarrow> unat (4 * x) = 4 * unat (x :: u32)"
  by (simp add: unat_word_ariths)

lemma far_entries:
  fixes c d t :: u32
  assumes "c < 0x40000000" "d < 0x40000000" "c \<noteq> d"
  shows "4 \<le> unat (t + 4 * d - (t + 4 * c))"
proof -
  have x: "t + 4 * d - (t + 4 * c) = 4 * (d - c)" by (simp add: algebra_simps)
  have b: "unat c < 1073741824" "unat d < 1073741824" using assms by (simp_all add: word_less_nat_alt)
  have "unat c \<noteq> unat d" using assms(3) word_unat_eqI by blast
  then consider "unat c < unat d" | "unat d < unat c" by linarith
  then show ?thesis
  proof cases
    case 1
    then have "unat (d - c) = unat d - unat c" by (simp add: unat_sub word_le_nat_alt)
    then show ?thesis unfolding x using unat_times_4 [of "d - c"] 1 b by linarith
  next
    case 2
    then have "unat (c - d) = unat c - unat d" by (simp add: unat_sub word_le_nat_alt)
    then have u: "unat (4 * (c - d)) = 4 * (unat c - unat d)" using unat_times_4 [of "c - d"] 2 b by linarith
    have x2: "4 * (d - c) = - (4 * (c - d))" by (simp add: algebra_simps)
    have "unat (- z) = 4294967296 - unat z" if "unat z \<noteq> 0" for z :: u32
      using that unat_sub_if_size [of 0 z] by (simp add: word_size)
    from this [of "4 * (c - d)"] u 2 have "unat (- (4 * (c - d))) = 4294967296 - 4 * (unat c - unat d)" by linarith
    then show ?thesis unfolding x x2 using b 2 by linarith
  qed
qed

lemma fat_entry_set:
  assumes "c < 0x40000000" "d < 0x40000000"
  shows "fat_entry (set_fat_entry m t c v) t d = (if c = d then v AND 0x0FFFFFFF else fat_entry m t d)"
proof (cases "c = d")
  case False
  then show ?thesis using load32_store32_far [OF far_entries far_entries] assms by (simp add: fat_entry_def set_fat_entry_def)
qed (simp add: fat_entry_def set_fat_entry_def)

lemma entry_mask:
  fixes c :: u32
  assumes "c < 0x10000000"
  shows "c AND 0x0FFFFFFF = c"
proof -
  have "take_bit 28 c = c" using assms by (simp add: word_unat_eq_iff unsigned_take_bit_eq take_bit_nat_eq_self_iff word_less_nat_alt)
  then show ?thesis by (simp add: take_bit_eq_mask mask_eq_exp_minus_1)
qed

subsection \<open>Chains\<close>

fun fat_chain :: "mem \<Rightarrow> u32 \<Rightarrow> u32 list \<Rightarrow> bool" where
  "fat_chain m t [] \<longleftrightarrow> True"
| "fat_chain m t [c] \<longleftrightarrow> 0x0FFFFFF8 \<le> fat_entry m t c"
| "fat_chain m t (c # d # cl) \<longleftrightarrow> fat_entry m t c = d \<and> fat_chain m t (d # cl)"

text \<open>The free clusters with numbers from \<open>lo\<close> to below \<open>hi\<close>, and the table after they have been linked.\<close>

definition free_clusters :: "mem \<Rightarrow> u32 \<Rightarrow> nat \<Rightarrow> nat \<Rightarrow> u32 list" where
  "free_clusters m t lo hi = filter (\<lambda>c. fat_entry m t c = 0) (map of_nat [lo..<hi])"

fun linked :: "mem \<Rightarrow> u32 \<Rightarrow> u32 \<Rightarrow> u32 list \<Rightarrow> mem" where
  "linked m t lst [] = m"
| "linked m t lst (c # cl) = linked (set_fat_entry m t c (if lst = 0 then 0x0FFFFFFF else lst)) t c cl"

lemma fat_chain_cong: "(\<And>c. c \<in> set cl \<Longrightarrow> fat_entry m t c = fat_entry m' t c) \<Longrightarrow> fat_chain m t cl = fat_chain m' t cl"
  by (induction m t cl rule: fat_chain.induct) auto

lemma linked_other:
  assumes "d \<notin> set cl" "d < 0x40000000" "\<forall>c \<in> set cl. c < 0x40000000"
  shows "fat_entry (linked m t lst cl) t d = fat_entry m t d"
  using assms by (induction cl arbitrary: m lst) (auto simp: fat_entry_set)

lemma linked_chain:
  assumes "distinct (cl @ ps)" "\<forall>c \<in> set (cl @ ps). c \<noteq> 0 \<and> c < 0x10000000" "fat_chain m t ps" "lst = (case ps of [] \<Rightarrow> 0 | p # _ \<Rightarrow> p)"
  shows "fat_chain (linked m t lst cl) t (rev cl @ ps)"
  using assms
proof (induction cl arbitrary: m lst ps)
  case (Cons c cl)
  have b: "d < 0x40000000" if "d \<in> set (c # cl @ ps)" for d using that Cons.prems(2) by (force intro: less_trans)
  let ?m = "set_fat_entry m t c (if lst = 0 then 0x0FFFFFFF else lst)"
  have "fat_chain ?m t ps" using Cons.prems(1,3) b by (subst fat_chain_cong [where m' = m]) (auto simp: fat_entry_set)
  moreover have "fat_entry ?m t c = (if ps = [] then 0x0FFFFFFF else lst)"
    using b Cons.prems(2,4) by (auto simp: fat_entry_set entry_mask split: list.splits)
  ultimately have "fat_chain ?m t (c # ps)" using Cons.prems(4) by (cases ps) auto
  from Cons.IH [OF _ _ this] Cons.prems(1,2) show ?case by simp
qed simp

subsection \<open>Taking clusters\<close>

lemma of_nat_below: "k < hi \<Longrightarrow> hi \<le> 0x10000000 \<Longrightarrow> unat (of_nat k :: u32) = k"
  by (simp add: unat_of_nat)

lemma free_clusters_iff:
  assumes "hi \<le> 0x10000000"
  shows "c \<in> set (free_clusters m t lo hi) \<longleftrightarrow> lo \<le> unat c \<and> unat c < hi \<and> fat_entry m t c = 0"
proof -
  have "c \<in> of_nat ` {lo..<hi} \<longleftrightarrow> lo \<le> unat c \<and> unat c < hi"
  proof
    assume "lo \<le> unat c \<and> unat c < hi"
    then show "c \<in> of_nat ` {lo..<hi}" by (intro image_eqI [where x = "unat c"]) simp_all
  qed (use assms of_nat_below in fastforce)
  then show ?thesis by (auto simp: free_clusters_def)
qed

lemma distinct_free_clusters: "hi \<le> 0x10000000 \<Longrightarrow> distinct (free_clusters m t lo hi)"
  unfolding free_clusters_def by (rule distinct_filter) (auto simp: distinct_map inj_on_def dest: of_nat_below intro!: inj_onI, metis of_nat_below)

lemma free_clusters_set:
  assumes "unat c < lo" "hi \<le> 0x10000000"
  shows "free_clusters (set_fat_entry m t c v) t lo hi = free_clusters m t lo hi"
proof -
  have "fat_entry (set_fat_entry m t c v) t (of_nat k) = fat_entry m t (of_nat k)" if "lo \<le> k" "k < hi" for k
  proof -
    have k: "unat (of_nat k :: u32) = k" using that assms(2) of_nat_below by blast
    have "c < 0x40000000" "(of_nat k :: u32) < 0x40000000" "c \<noteq> of_nat k"
      using that assms k by (auto simp: word_less_nat_alt)
    then show ?thesis by (simp add: fat_entry_set)
  qed
  then show ?thesis unfolding free_clusters_def by (intro filter_cong) auto
qed

lemma next_free_finds:
  assumes "free_clusters m t lo hi = c # cl" "hi \<le> 0x10000000" "hi - lo < f"
  shows "next_free f m t (of_nat lo) = Inr c \<and> free_clusters m t (Suc (unat c)) hi = cl \<and> lo \<le> unat c"
  using assms
proof (induction f arbitrary: lo)
  case (Suc f)
  have lo: "lo < hi" using Suc.prems(1) by (cases "lo < hi") (auto simp: free_clusters_def)
  then have up: "[lo..<hi] = lo # [Suc lo..<hi]" by (rule upt_conv_Cons)
  show ?case
  proof (cases "fat_entry m t (of_nat lo) = 0")
    case True
    then show ?thesis using Suc.prems(1,2) lo by (auto simp: free_clusters_def up of_nat_below)
  next
    case False
    then have "free_clusters m t (Suc lo) hi = c # cl" using Suc.prems(1) by (simp add: free_clusters_def up)
    moreover have "hi - Suc lo < f" using Suc.prems(3) lo by linarith
    ultimately show ?thesis using Suc.IH [of "Suc lo"] Suc.prems(2) False by (simp add: add.commute)
  qed
qed simp

lemma gm_loop_links:
  assumes "n \<le> length (free_clusters m t lo hi)" "hi \<le> 0x10000000" "hi - lo < f"
  shows "gm_loop f t n (of_nat lo) lst m =
    Inr (if n = 0 then lst else last (take n (free_clusters m t lo hi)), linked m t lst (take n (free_clusters m t lo hi)))"
  using assms
proof (induction n arbitrary: lo lst m)
  case (Suc n)
  obtain c cl where cl: "free_clusters m t lo hi = c # cl" using Suc.prems(1) by (cases "free_clusters m t lo hi") auto
  let ?m = "set_fat_entry m t c (if lst = 0 then 0x0FFFFFFF else lst)"
  have nf: "next_free f m t (of_nat lo) = Inr c" "free_clusters m t (Suc (unat c)) hi = cl" "lo \<le> unat c"
    using next_free_finds [OF cl Suc.prems(2,3)] by blast+
  have cl': "free_clusters ?m t (Suc (unat c)) hi = cl" using Suc.prems(2) nf(2) by (subst free_clusters_set) auto
  have "gm_loop f t n (of_nat (Suc (unat c))) c ?m = Inr (if n = 0 then c else last (take n cl), linked ?m t c (take n cl))"
    using Suc.IH [of ?m "Suc (unat c)" c] Suc.prems nf(3) cl cl' by auto
  moreover have "n \<noteq> 0 \<Longrightarrow> take n cl \<noteq> []" using Suc.prems(1) cl by auto
  ultimately show ?case using cl nf(1) by (simp add: add.commute)
qed simp

lemma set_fat_entry_outside:
  assumes "unat c < L" "L \<le> 0x10000000" "4 * L \<le> unat (a - t)"
  shows "set_fat_entry m t c v a = m a"
proof -
  have u: "unat (4 * c) = 4 * unat c" using unat_times_4 assms(1,2) by simp
  have ne: "a \<noteq> t + 4 * c + j" if "unat j < 4" for j
  proof
    assume "a = t + 4 * c + j"
    then have "unat (a - t) = unat (4 * c + j)" by simp
    also have "\<dots> = 4 * unat c + unat j" using u that assms(1,2) by (subst unat_plus_small) simp_all
    finally show False using that assms(1,3) by linarith
  qed
  from ne [of 0] ne [of 1] ne [of 2] ne [of 3] show ?thesis by (simp add: set_fat_entry_def store32_def)
qed

lemma linked_outside:
  assumes "\<forall>c \<in> set cl. unat c < L" "L \<le> 0x10000000" "4 * L \<le> unat (a - t)"
  shows "linked m t lst cl a = m a"
  using assms(1) by (induction cl arbitrary: m lst) (use assms(2,3) set_fat_entry_outside in auto)

text \<open>What the three properties of the allocation share: the clusters taken are the first free ones.\<close>

lemma gm_free_clusters_linked:
  assumes fsa: "fat_of fsa s = Inr (y, spe)" and L: "L \<le> 0x10000000" "L < f"
    and nbr: "nbr \<noteq> 0" "unat nbr \<le> length (free_clusters (kmem s) (ff_fat_table spe) 0 L)"
  defines "cl \<equiv> take (unat nbr) (free_clusters (kmem s) (ff_fat_table spe) 0 L)"
  shows "fat32fs_gm_free_clusters f nbr fsa s = Inr (last cl, s\<lparr>kmem := linked (kmem s) (ff_fat_table spe) 0 cl\<rparr>)"
    and "length cl = unat nbr" "distinct cl" "cl \<noteq> []"
    and "\<And>c. c \<in> set cl \<Longrightarrow> unat c < L \<and> c < 0x10000000 \<and> fat_entry (kmem s) (ff_fat_table spe) c = 0"
proof -
  have n: "unat nbr \<noteq> 0" using nbr(1) by (simp add: unat_eq_zero)
  show "length cl = unat nbr" "distinct cl" using nbr(2) distinct_free_clusters [OF L(1)] by (simp_all add: cl_def)
  then show "cl \<noteq> []" using n by auto
  show "fat32fs_gm_free_clusters f nbr fsa s = Inr (last cl, s\<lparr>kmem := linked (kmem s) (ff_fat_table spe) 0 cl\<rparr>)"
    using gm_loop_links [OF nbr(2) L(1), where f = f and lst = 0] L(2) n by (simp add: fat32fs_gm_free_clusters_def fsa cl_def)
  fix c assume "c \<in> set cl"
  then have "c \<in> set (free_clusters (kmem s) (ff_fat_table spe) 0 L)" unfolding cl_def by (rule in_set_takeD)
  then show "unat c < L \<and> c < 0x10000000 \<and> fat_entry (kmem s) (ff_fat_table spe) c = 0"
    using L(1) free_clusters_iff [OF L(1)] by (auto simp: word_less_nat_alt)
qed

text \<open>C29: With enough free clusters in a table of \<open>L\<close> entries, \<^verbatim>\<open>fat32fs_gm_free_clusters\<close> returns the head of a new chain of exactly the number
  of clusters asked for, all of which were free; the chain ends with an end mark, all other entries and all memory outside the table are kept.\<close>

theorem gm_free_clusters_links_chain:
  assumes "fat_of fsa s = Inr (y, spe)" "L \<le> 0x10000000" "L < f" "fat_entry (kmem s) (ff_fat_table spe) 0 \<noteq> 0"
    and "nbr \<noteq> 0" "unat nbr \<le> length (free_clusters (kmem s) (ff_fat_table spe) 0 L)"
  shows "\<exists>cl m. fat32fs_gm_free_clusters f nbr fsa s = Inr (hd cl, s\<lparr>kmem := m\<rparr>) \<and> length cl = unat nbr \<and> distinct cl \<and>
    fat_chain m (ff_fat_table spe) cl \<and> (\<forall>c \<in> set cl. unat c < L \<and> fat_entry (kmem s) (ff_fat_table spe) c = 0) \<and>
    (\<forall>c. unat c < L \<and> c \<notin> set cl \<longrightarrow> fat_entry m (ff_fat_table spe) c = fat_entry (kmem s) (ff_fat_table spe) c) \<and>
    (\<forall>a. 4 * L \<le> unat (a - ff_fat_table spe) \<longrightarrow> m a = kmem s a)"
proof -
  let ?t = "ff_fat_table spe" and ?cl = "take (unat nbr) (free_clusters (kmem s) (ff_fat_table spe) 0 L)"
  note g = gm_free_clusters_linked [OF assms(1,2,3,5,6)]
  have lt: "c < 0x40000000" if "unat c < L" for c :: u32 using that assms(2) by (simp add: word_less_nat_alt)
  have "fat_chain (linked (kmem s) ?t 0 ?cl) ?t (rev ?cl @ [])"
    by (rule linked_chain) (use g(3,5) assms(4) in auto)
  moreover have "\<forall>c. unat c < L \<and> c \<notin> set (rev ?cl) \<longrightarrow> fat_entry (linked (kmem s) ?t 0 ?cl) ?t c = fat_entry (kmem s) ?t c"
    using linked_other g(5) lt by simp
  moreover have "\<forall>a. 4 * L \<le> unat (a - ?t) \<longrightarrow> linked (kmem s) ?t 0 ?cl a = kmem s a"
    using linked_outside g(5) assms(2) by blast
  ultimately show ?thesis
    using g(1-5) by (intro exI [of _ "rev ?cl"] exI [of _ "linked (kmem s) ?t 0 ?cl"]) (simp add: hd_rev)
qed

subsection \<open>Well-formed tables\<close>

text \<open>
  The type of a table of \<open>L\<close> entries: an entry is free, a mark (a bad cluster or an end) or the number of a cluster that is in use, and no cluster
  comes after two others. The first two entries are reserved.
\<close>

definition fat_ok :: "mem \<Rightarrow> u32 \<Rightarrow> nat \<Rightarrow> bool" where
  "fat_ok m t L \<longleftrightarrow> fat_entry m t 0 \<noteq> 0 \<and> fat_entry m t 1 \<noteq> 0 \<and>
     (\<forall>c. unat c < L \<longrightarrow> (let e = fat_entry m t c in e = 0 \<or> 0x0FFFFFF7 \<le> e \<or> unat e < L \<and> fat_entry m t e \<noteq> 0)) \<and>
     (\<forall>c d. unat c < L \<and> unat d < L \<and> fat_entry m t c = fat_entry m t d \<and> fat_entry m t c \<noteq> 0 \<and> fat_entry m t c < 0x0FFFFFF7 \<longrightarrow> c = d)"

lemma set_fat_entry_ok:
  assumes ok: "fat_ok m t L" and L: "2 \<le> L" "L \<le> 0x0FFFFFF7"
    and c: "unat c < L" "fat_entry m t c = 0"
    and v: "v = 0x0FFFFFFF \<or> v \<noteq> 0 \<and> unat v < L \<and> fat_entry m t v \<noteq> 0 \<and> (\<forall>d. unat d < L \<longrightarrow> fat_entry m t d \<noteq> v)"
  shows "fat_ok (set_fat_entry m t c v) t L \<and> (\<forall>d. unat d < L \<longrightarrow> fat_entry (set_fat_entry m t c v) t d \<noteq> c)"
proof -
  let ?m = "set_fat_entry m t c v"
  have lt: "d < 0x40000000" if "unat d < L" for d :: u32 using that L by (simp add: word_less_nat_alt)
  have mk: "v AND 0x0FFFFFFF = v" using v L by (auto simp: entry_mask word_less_nat_alt)
  have e: "fat_entry ?m t d = (if c = d then v else fat_entry m t d)" if "unat d < L" for d
    using fat_entry_set [OF lt lt] c(1) that mk by simp
  have c0: "c \<noteq> 0" "c \<noteq> 1" using ok c(2) unfolding fat_ok_def by metis+
  have vc: "v \<noteq> c" using v c L by (auto simp: word_less_nat_alt)
  have nv: "v \<noteq> 0" using v by auto
  have "unat c < 0x0FFFFFF7" using c(1) L by linarith
  then have cm: "c < 0x0FFFFFF7" by (simp add: word_less_nat_alt)
  have typed: "e = 0 \<or> 0x0FFFFFF7 \<le> e \<or> unat e < L \<and> fat_entry m t e \<noteq> 0" if "unat d < L" "e = fat_entry m t d" for d e
    using ok that unfolding fat_ok_def Let_def by blast
  have inj: "c = d" if "unat c < L" "unat d < L" "fat_entry m t c = fat_entry m t d" "fat_entry m t c \<noteq> 0" "fat_entry m t c < 0x0FFFFFF7" for c d
    using ok that unfolding fat_ok_def by blast
  have r: "fat_entry m t 0 \<noteq> 0" "fat_entry m t 1 \<noteq> 0" using ok unfolding fat_ok_def by blast+
  have nl: "fat_entry m t d \<noteq> c" if "unat d < L" for d
    using typed [OF that refl] c(2) cm c0(1) by (metis not_le)
  have "let e = fat_entry ?m t d in e = 0 \<or> 0x0FFFFFF7 \<le> e \<or> unat e < L \<and> fat_entry ?m t e \<noteq> 0" if d: "unat d < L" for d
  proof (cases "c = d")
    case True
    then show ?thesis using e [OF d] v vc e [of v] by (elim disjE) (simp_all add: Let_def)
  next
    case False
    define w where "w = fat_entry m t d"
    have "fat_entry ?m t d = w" using False e [OF d] by (simp add: w_def)
    moreover have "fat_entry ?m t w \<noteq> 0" if "unat w < L" "fat_entry m t w \<noteq> 0" using e [OF that(1)] that(2) nv by simp
    ultimately show ?thesis using typed [OF d w_def] unfolding Let_def by blast
  qed
  moreover have "c' = d" if "unat c' < L" "unat d < L" "fat_entry ?m t c' = fat_entry ?m t d" "fat_entry ?m t c' \<noteq> 0" "fat_entry ?m t c' < 0x0FFFFFF7" for c' d
  proof -
    have nv': "fat_entry m t x \<noteq> v" if "unat x < L" "v < 0x0FFFFFF7" for x using v that by auto
    consider "c = c'" "c = d" | "c = c'" "c \<noteq> d" | "c \<noteq> c'" "c = d" | "c \<noteq> c'" "c \<noteq> d" by blast
    then show ?thesis
    proof cases
      case 2
      then show ?thesis using e [OF that(1)] e [OF that(2)] that(3,5) nv' [OF that(2)] by simp
    next
      case 3
      then show ?thesis using e [OF that(1)] e [OF that(2)] that(3,5) nv' [OF that(1)] by simp
    next
      case 4
      then show ?thesis using e [OF that(1)] e [OF that(2)] that(3-5) inj [OF that(1,2)] by simp
    qed simp
  qed
  moreover have "fat_entry ?m t 0 \<noteq> 0" "fat_entry ?m t 1 \<noteq> 0"
    using e [of 0] e [of 1] L r c0 by auto
  moreover have "\<forall>d. unat d < L \<longrightarrow> fat_entry ?m t d \<noteq> c" using e vc nl by auto
  ultimately show ?thesis unfolding fat_ok_def by blast
qed

lemma linked_ok:
  assumes "fat_ok m t L" "2 \<le> L" "L \<le> 0x0FFFFFF7" "distinct cl" "\<And>c. c \<in> set cl \<Longrightarrow> unat c < L \<and> fat_entry m t c = 0"
    and "lst = 0 \<or> unat lst < L \<and> fat_entry m t lst \<noteq> 0 \<and> (\<forall>d. unat d < L \<longrightarrow> fat_entry m t d \<noteq> lst)"
  shows "fat_ok (linked m t lst cl) t L"
  using assms
proof (induction cl arbitrary: m lst)
  case (Cons c cl)
  define v where "v = (if lst = 0 then 0x0FFFFFFF else lst)"
  have c: "unat c < L" "fat_entry m t c = 0" using Cons.prems(5) by simp_all
  have lt: "d < 0x40000000" if "unat d < L" for d :: u32 using that Cons.prems(3) by (simp add: word_less_nat_alt)
  have mk: "v AND 0x0FFFFFFF \<noteq> 0" using Cons.prems(3,6) by (auto simp: v_def entry_mask word_less_nat_alt)
  have s: "fat_ok (set_fat_entry m t c v) t L \<and> (\<forall>d. unat d < L \<longrightarrow> fat_entry (set_fat_entry m t c v) t d \<noteq> c)"
    by (rule set_fat_entry_ok) (use Cons.prems c v_def in auto)
  have "unat d < L \<and> fat_entry (set_fat_entry m t c v) t d = 0" if "d \<in> set cl" for d
    using that Cons.prems(4,5) c lt by (auto simp: fat_entry_set)
  moreover have "fat_entry (set_fat_entry m t c v) t c \<noteq> 0" using fat_entry_set [OF lt lt] c(1) mk by simp
  ultimately show ?case using Cons.IH [of "set_fat_entry m t c v" c] s Cons.prems(2-4) c(1) by (simp add: v_def)
qed simp

text \<open>C30: Taking free clusters keeps the allocation table well formed: every entry stays free, a mark or the number of a cluster in use, no two
  clusters have the same successor, and the reserved entries stay reserved.\<close>

theorem gm_free_clusters_keeps_table:
  assumes "fat_of fsa s = Inr (y, spe)" "2 \<le> L" "L \<le> 0x0FFFFFF7" "L < f" "fat_ok (kmem s) (ff_fat_table spe) L"
    and "unat nbr \<le> length (free_clusters (kmem s) (ff_fat_table spe) 0 L)"
  shows "\<exists>c m. fat32fs_gm_free_clusters f nbr fsa s = Inr (c, s\<lparr>kmem := m\<rparr>) \<and> fat_ok m (ff_fat_table spe) L"
proof (cases "nbr = 0")
  case True
  then show ?thesis using assms(1,5) by (intro exI [of _ 0] exI [of _ "kmem s"]) (simp add: fat32fs_gm_free_clusters_def)
next
  case False
  have "L \<le> 0x10000000" using assms(3) by simp
  note g = gm_free_clusters_linked [OF assms(1) this assms(4) False assms(6)]
  have "fat_ok (linked (kmem s) (ff_fat_table spe) 0 (take (unat nbr) (free_clusters (kmem s) (ff_fat_table spe) 0 L))) (ff_fat_table spe) L"
    by (rule linked_ok [OF assms(5,2,3) g(3)]) (use g(5) in auto)
  with g(1) show ?thesis by blast
qed

subsection \<open>Giving clusters back\<close>

fun cleared :: "mem \<Rightarrow> u32 \<Rightarrow> u32 list \<Rightarrow> mem" where
  "cleared m t [] = m"
| "cleared m t (c # cl) = cleared (set_fat_entry m t c 0) t cl"

lemma cleared_entry:
  assumes "\<forall>c \<in> set cl. c < 0x40000000" "d < 0x40000000"
  shows "fat_entry (cleared m t cl) t d = (if d \<in> set cl then 0 else fat_entry m t d)"
  using assms by (induction cl arbitrary: m) (auto simp: fat_entry_set)

lemma free_chain_loop_clears:
  assumes "fat_chain (kmem s) t cl" "cl \<noteq> []" "distinct cl" "\<forall>c \<in> set cl. 2 \<le> c \<and> c < 0x0FFFFFF7" "length cl \<le> f"
  shows "free_chain_loop K f t (hd cl) s = Inr (Ret (fat_entry (kmem s) t (last cl)) (s\<lparr>kmem := cleared (kmem s) t cl\<rparr>))"
  using assms
proof (induction cl arbitrary: s f)
  case (Cons c cl)
  obtain g where f: "f = Suc g" using Cons.prems(5) by (cases f) auto
  let ?m = "set_fat_entry (kmem s) t c 0"
  have lt: "d < 0x40000000" if "d \<in> set (c # cl)" for d using that Cons.prems(4) by (force intro: less_trans)
  show ?case
  proof (cases cl)
    case Nil
    then have e: "0x0FFFFFF8 \<le> fat_entry (kmem s) t c" using Cons.prems(1) by simp
    then have "fat_entry (kmem s) t c \<notin> {0, 1, 0x0FFFFFF7}" by (auto simp: word_le_nat_alt)
    with e show ?thesis using Nil by (simp add: f fat_warning_def chain_end_def Let_def)
  next
    case (Cons d dl)
    then have d: "fat_entry (kmem s) t c = d" "fat_chain (kmem s) t cl" using Cons.prems(1) by simp_all
    have b: "2 \<le> d" "d < 0x0FFFFFF7" using Cons.prems(4) Cons by simp_all
    then have w: "d \<notin> {0, 1, 0x0FFFFFF7}" "\<not> 0x0FFFFFF8 \<le> d" by (auto simp: word_le_nat_alt word_less_nat_alt)
    have same: "fat_entry ?m t x = fat_entry (kmem s) t x" if "x \<in> set cl" for x
      using that Cons.prems(3) lt by (auto simp: fat_entry_set)
    have "fat_chain ?m t cl" using d(2) same fat_chain_cong [of cl ?m t "kmem s"] by blast
    then have "free_chain_loop K g t (hd cl) (s\<lparr>kmem := ?m\<rparr>) =
        Inr (Ret (fat_entry ?m t (last cl)) (s\<lparr>kmem := ?m, kmem := cleared ?m t cl\<rparr>))"
      using Cons.IH [of "s\<lparr>kmem := ?m\<rparr>" g] Cons.prems(3-5) Cons f by simp
    moreover have "fat_entry ?m t (last cl) = fat_entry (kmem s) t (last cl)" using same Cons by simp
    ultimately show ?thesis using d(1) w Cons by (simp add: f fat_warning_def chain_end_def Let_def)
  qed
qed simp

text \<open>C31: Taking clusters and freeing the chain again restores every entry of the table before the table is written to the disk. The
  code also clears the word that the end mark of the chain would be the number of, a gigabyte behind the table.\<close>

theorem gm_free_clusters_roundtrip:
  assumes "fat_of fsa s = Inr (y, spe)" "2 \<le> L" "L \<le> 0x0FFFFFF7" "L < f" "fat_ok (kmem s) (ff_fat_table spe) L"
    and "nbr \<noteq> 0" "unat nbr \<le> length (free_clusters (kmem s) (ff_fat_table spe) 0 L)"
  shows "\<exists>c s' m e. fat32fs_gm_free_clusters f nbr fsa s = Inr (c, s') \<and>
    fat32fs_free_cluster_chain K f c fsa s' = fat32fs_write_fat K f fsa (s\<lparr>kmem := m\<rparr>) \<and>
    (\<forall>d. unat d < L \<longrightarrow> fat_entry m (ff_fat_table spe) d = fat_entry (kmem s) (ff_fat_table spe) d) \<and>
    0x0FFFFFF8 \<le> e \<and> load32 m (ff_fat_table spe + 4 * e) = 0"
proof -
  let ?t = "ff_fat_table spe" and ?cl = "take (unat nbr) (free_clusters (kmem s) (ff_fat_table spe) 0 L)"
  have L: "L \<le> 0x10000000" using assms(3) by simp
  note g = gm_free_clusters_linked [OF assms(1) L assms(4,6,7)]
  define ml where "ml = linked (kmem s) ?t 0 ?cl"
  define e where "e = fat_entry ml ?t (hd ?cl)"
  define m where "m = set_fat_entry (cleared ml ?t (rev ?cl)) ?t e 0"
  have r: "fat_entry (kmem s) ?t 0 \<noteq> 0" "fat_entry (kmem s) ?t 1 \<noteq> 0" using assms(5) by (simp_all add: fat_ok_def)
  have b: "2 \<le> c" "c < 0x0FFFFFF7" "c < 0x40000000" if "c \<in> set ?cl" for c
  proof -
    have "c \<noteq> 0" "c \<noteq> 1" using r g(5) [OF that] by auto
    then have "unat c \<noteq> 0" "unat c \<noteq> 1" by (metis unat_eq_zero, metis unat_1 word_unat_eqI)
    then show "2 \<le> c" by (simp add: word_le_nat_alt)
    show "c < 0x0FFFFFF7" "c < 0x40000000" using g(5) [OF that] assms(3) by (auto simp: word_less_nat_alt)
  qed
  have ch: "fat_chain ml ?t (rev ?cl)" using linked_chain [of ?cl "[]" "kmem s" ?t 0] g(3,5) r(1) unfolding ml_def by auto
  have "length (free_clusters (kmem s) ?t 0 L) \<le> L" unfolding free_clusters_def by (rule le_trans [OF length_filter_le]) simp
  then have len: "length (rev ?cl) \<le> f" using assms(4) by simp
  have e: "0x0FFFFFF8 \<le> e"
  proof -
    have "fat_chain ml ?t xs \<Longrightarrow> xs \<noteq> [] \<Longrightarrow> 0x0FFFFFF8 \<le> fat_entry ml ?t (last xs)" for xs
      by (induction ml ?t xs rule: fat_chain.induct) auto
    from this [OF ch] g(4) show ?thesis by (simp add: e_def last_rev)
  qed
  have e2: "e < 0x40000000" unfolding e_def fat_entry_def by (rule le_less_trans [OF word_and_le1]) simp
  have "free_chain_loop K f ?t (hd (rev ?cl)) (s\<lparr>kmem := ml\<rparr>) = Inr (Ret e (s\<lparr>kmem := cleared ml ?t (rev ?cl)\<rparr>))"
    using free_chain_loop_clears [of "s\<lparr>kmem := ml\<rparr>" ?t "rev ?cl" f K] ch g(3,4) b len by (simp add: e_def last_rev)
  moreover have "fat_of fsa (s\<lparr>kmem := ml\<rparr>) = Inr (y, spe)" using assms(1) by (simp add: fat_of_def)
  ultimately have "fat32fs_free_cluster_chain K f (last ?cl) fsa (s\<lparr>kmem := ml\<rparr>) = fat32fs_write_fat K f fsa (s\<lparr>kmem := m\<rparr>)"
    using g(4) by (simp add: fat32fs_free_cluster_chain_def m_def hd_rev)
  moreover have "fat_entry m ?t d = fat_entry (kmem s) ?t d" if d: "unat d < L" for d
  proof -
    have d': "d < 0x40000000" "d \<noteq> e" using d assms(3) e by (auto simp: word_less_nat_alt word_le_nat_alt)
    then have "fat_entry m ?t d = (if d \<in> set ?cl then 0 else fat_entry ml ?t d)"
      unfolding m_def using fat_entry_set [OF e2] cleared_entry [of "rev ?cl" d ml] b by auto
    also have "\<dots> = fat_entry (kmem s) ?t d" using linked_other [of d ?cl "kmem s" ?t 0] d'(1) g(5) b unfolding ml_def by auto
    finally show ?thesis .
  qed
  moreover have "load32 m (?t + 4 * e) = 0" by (simp add: m_def set_fat_entry_def)
  ultimately show ?thesis using g(1) e unfolding ml_def by blast
qed

subsection \<open>Time stamps\<close>

lemma small_bit:
  fixes x :: "'a :: len word"
  assumes "unat x < 2 ^ k" "bit x n"
  shows "n < k"
proof (rule ccontr)
  assume "\<not> n < k"
  then have "unat x < 2 ^ n" using assms(1) power_increasing [of k n "2 :: nat"] by linarith
  moreover have "bit (unat x) n" using assms(2) by (simp add: bit_unsigned_iff)
  ultimately show False by (simp add: bit_iff_odd)
qed

lemma time_fields_fat_time:
  assumes "unat secs < 64" "unat mins < 64" "unat hours < 32"
  shows "time_fields (fat_time secs mins hours) = (2 * (secs div 2), mins, hours)"
proof -
  let ?q = "secs div 2" and ?t = "fat_time secs mins hours"
  have q: "unat ?q < 2 ^ 5" using assms(1) by (simp add: unat_div)
  have b: "n < 5" if "bit ?q n" for n using small_bit [OF q that] .
  have bm: "n < 6" if "bit mins n" for n using small_bit [OF _ that, of 6] assms(2) by simp
  have bh: "n < 5" if "bit hours n" for n using small_bit [OF _ that, of 5] assms(3) by simp
  have m: "(0x1F :: u16) = mask 5" "(0x7FF :: u16) = mask 11" by (simp_all add: mask_eq_exp_minus_1)
  have "?t AND 0x1F = ucast ?q"
    unfolding m by (rule bit_word_eqI) (auto simp: fat_time_def bit_simps dest: b)
  then have "ucast ((?t AND 0x1F) * 2) = 2 * ?q" using q by (simp add: word_unat_eq_iff unat_word_ariths unsigned_ucast_eq take_bit_eq_mod)
  moreover have "ucast (drop_bit 5 (?t AND 0x7FF)) = mins"
    unfolding m by (rule bit_word_eqI) (auto simp: fat_time_def bit_simps dest: b bm)
  moreover have "ucast (drop_bit 11 ?t) = hours"
    by (rule bit_word_eqI) (auto simp: fat_time_def bit_simps dest: b bm bh)
  ultimately show ?thesis by (simp add: time_fields_def)
qed

lemma date_fields_fat_date:
  assumes "unat day < 32" "unat month < 16" "80 \<le> unat year" "unat year < 208"
  shows "date_fields (fat_date day month year) = (day, month, year)"
proof -
  let ?y = "(ucast year :: u16) - 80" and ?d = "fat_date day month year"
  have y: "unat ?y < 2 ^ 7" "unat ?y + 80 = unat year"
    using assms(3,4) unat_sub [of 80 "ucast year :: u16"] by (simp_all add: word_le_nat_alt unsigned_ucast_eq take_bit_eq_mod)
  have yb: "n < 7" if "bit ?y n" for n using small_bit [OF y(1) that] .
  have bd: "n < 5" if "bit day n" for n using small_bit [OF _ that, of 5] assms(1) by simp
  have bm: "n < 4" if "bit month n" for n using small_bit [OF _ that, of 4] assms(2) by simp
  have m: "(0x1F :: u16) = mask 5" "(0x1FF :: u16) = mask 9" by (simp_all add: mask_eq_exp_minus_1)
  have "ucast (?d AND 0x1F) = day"
    unfolding m by (rule bit_word_eqI) (auto simp: fat_date_def bit_simps dest: bd)
  moreover have "ucast (drop_bit 5 (?d AND 0x1FF)) = month"
    unfolding m by (rule bit_word_eqI) (auto simp: fat_date_def bit_simps dest: bd bm)
  moreover have y9: "drop_bit 9 ?d = ?y"
    by (rule bit_word_eqI) (auto simp: fat_date_def bit_simps dest: yb bd bm)
  moreover have "ucast (ucast year :: u16) = year" by (rule bit_word_eqI) (simp add: bit_simps)
  then have "ucast (drop_bit 9 ?d + 80) = year" unfolding y9 by simp
  ultimately show ?thesis by (simp add: date_fields_def)
qed

lemma load16_store16_far:
  assumes "2 \<le> unat (b - a)" "2 \<le> unat (a - b)"
  shows "load16 (store16 m a v) b = load16 m b"
proof -
  have "b \<noteq> a" "b \<noteq> a + 1" "b + 1 \<noteq> a" using assms by auto
  then show ?thesis by (simp add: load16_def store16_def)
qed

lemma date_bytes_even:
  assumes "date_bytes sec mm hh d m y"
  shows "date_bytes (2 * (sec div 2)) mm hh d m y" "uint (2 * (sec div 2)) = uint sec - uint sec mod 2" "unat d < 32" "unat m < 16"
    "unat sec < 64" "unat mm < 64" "unat hh < 32" "unat y < 208"
proof -
  note b = date_bytes_bounds [OF assms]
  have n: "unat sec < 60" using assms by (simp add: date_bytes_def word_less_nat_alt)
  then have u: "unat (2 * (sec div 2)) = 2 * (unat sec div 2)" by (simp add: unat_word_ariths unat_div)
  then have "uint (2 * (sec div 2)) = int (2 * (unat sec div 2))" unfolding uint_nat by simp
  also have "int (2 * (k div 2)) = int k - int k mod 2" for k by (simp add: minus_mod_eq_mult_div)
  finally show "uint (2 * (sec div 2)) = uint sec - uint sec mod 2" by simp
  show "date_bytes (2 * (sec div 2)) mm hh d m y" using assms n u by (simp add: date_bytes_def word_less_nat_alt)
  show "unat sec < 64" "unat mm < 64" "unat hh < 32" using assms n by (simp_all add: date_bytes_def word_less_nat_alt)
  have "month_lengths (1900 + uint y) ! (unat m - 1) \<in> set (month_lengths (1900 + uint y))"
    by (rule nth_mem) (use b(1) in \<open>auto simp: valid_date_def month_lengths_def\<close>)
  moreover have "\<forall>x \<in> set (month_lengths z). x \<le> 31" for z by (simp add: month_lengths_def)
  ultimately have "uint d \<le> 31" using b(1) by (fastforce simp: valid_date_def)
  then have "int (unat d) \<le> 31" by simp
  then show "unat d < 32" by linarith
  have "int (unat y) < 138" using b(1) by (simp add: valid_date_def)
  then show "unat y < 208" by linarith
  show "unat m < 16" using b(1) by (simp add: valid_date_def)
qed


end
