(* ===== verification/VK_StorageDemo.thy ===== *)
theory VK_StorageDemo
  imports VK_FatProps VK_VfsProps VK_ConsoleDemo
begin

section \<open>The properties of storage on concrete states\<close>

text \<open>
  The machine of \<open>VK_ConsoleDemo\<close> before the scheduler has started, with one hard disk behind the primary channel; the disk's bytes are the
  numbers of their places.
\<close>

definition demo_ata :: ata_device where
  "demo_ata = \<lparr>controller = 0, prdt_phys = 0, prdt_virt = 0, base_port = 0x1F0, control_port = 0x3F6, bar4 = 0xC000,
     sectors_per_block = 1, ata_irq = 14, ata_flags = ATA_FLAG_MASTER, ata_mutex = 200\<rparr>"

definition demo_disk :: block_device where
  "demo_disk = \<lparr>bd_struct = 0x700, device_size = 1000, bd_partitions = [0, 0, 0, 0], bd_type = ATA_DEVICE, device_class = HARD_DISK_DRIVE, partition_count = 0\<rparr>"

definition demo_hw :: drive_hw where
  "demo_hw = \<lparr>dh_reg = (\<lambda>_. 0), dh_disk = of_nat, dh_in = [], dh_out = (0, 0)\<rparr>"

definition sdemo :: "drive_hw files" where
  "sdemo = storage.extend
     (console.extend (cdemo 0\<lparr>scheduler_started := False\<rparr>)
        (storage.fields demo_hw Map.empty 0 0 0 [0x800 \<mapsto> demo_disk] Map.empty [0x700 \<mapsto> demo_ata] 0 0))
     (files.fields Map.empty Map.empty 0 0 Map.empty Map.empty)"

lemmas sdemo_defs = sdemo_def console.extend_def storage.extend_def storage.fields_def files.fields_def cdemo_defs

lemma sdemo_simps [simp]:
  "kmem sdemo = demo_mem" "hw sdemo = demo_hw" "block_devs sdemo = [0x800 \<mapsto> demo_disk]" "ata_devs sdemo = [0x700 \<mapsto> demo_ata]"
  "\<not> scheduler_started sdemo"
  by (simp_all add: sdemo_defs)

text \<open>A heap whose memory is handed out once, at a fixed place.\<close>

definition one_block_heap :: "'s heap_ops" where
  "one_block_heap = \<lparr>malloc = (\<lambda>n s. Inr (0x9000, s)), free = (\<lambda>p s. Inr s), realloc = (\<lambda>p n s. Inr (p, s))\<rparr>"

lemma one_block_heap_keeps: "task_heap one_block_heap"
  by unfold_locales (auto simp: one_block_heap_def)

lemma one_block_malloc: "malloc one_block_heap n s = Inr (0x9000, s)"
  by (simp add: one_block_heap_def)

abbreviation demo_env :: "(drive_hw, drive_hw files) kenv" where
  "demo_env \<equiv> \<lparr>kh = kernel_heap (map_memory_d 0 0 0 []) [] (Suc 10), kio = drive_ports, kbuf = 0x100, kreg = (\<lambda>_. 0), kloc = 0x200\<rparr>"

lemma demo_drive: "ata_drive (kio demo_env) 0x1F0 0x3F6 dh_reg dh_disk dh_in dh_out"
  by (simp add: primary.ata_drive_axioms)

lemma demo_wired: "wired 0x1F0 0x3F6 demo_ata"
  by (simp add: wired_def demo_ata_def)

lemma demo_polled: "polled 0x1F0 0x3F6 0x800 short sdemo"
  by (simp add: polled_def demo_wired demo_disk_def) (simp add: demo_ata_def flag_set_def ata_consts)



theorem odd_write_clears_next_byte_witness:
  "\<exists>s'. ata_pio_write_flexible one_block_heap (kio demo_env) 65281 3 0 0x2000 1 0x700 sdemo = Inr (ERROR_NONE, s') \<and>
    (\<forall>i < unat (1 :: u64). dh_disk (hw s') (512 * unat (3 :: u64) + i) = kmem sdemo (0x2000 + of_nat i)) \<and>
    dh_disk (hw s') (512 * unat (3 :: u64) + unat (1 :: u64)) = 0 \<and>
    (\<forall>p. p < 512 * unat (3 :: u64) \<or> 512 * unat (3 :: u64) + unat (1 :: u64) < p \<longrightarrow> dh_disk (hw s') p = dh_disk (hw sdemo) p)"
  by (rule odd_write_clears_next_byte [OF demo_drive _ demo_wired _ _ _ _ one_block_heap_keeps one_block_malloc]) simp_all

subsection \<open>A FAT32 volume\<close>

text \<open>The same machine with a mounted volume whose allocation table, at \<open>0x5000\<close>, has four entries: two reserved ones and two free clusters.\<close>

definition fat_mem :: mem where
  "fat_mem = set_fat_entry (set_fat_entry (\<lambda>_. 0) 0x5000 0 0x0FFFFFF8) 0x5000 1 0x0FFFFFFF"

abbreviation demo_volume :: fat32fs_specific where
  "demo_volume \<equiv> \<lparr>ff_bpb = 0x6000, ff_bpb_offset = 0, ff_fat_table = 0x5000\<rparr>"

definition fdemo :: "drive_hw files" where
  "fdemo = sdemo\<lparr>kmem := fat_mem,
     fsystems := [0x300 \<mapsto> \<lparr>fs_drive = 0x800, fs_partition = 0, fs_type = FS_TYPE_FAT32, fs_flags = FS_FLAG_CASE_INSENSITIVE, fs_root_dir = 0,
       fs_inode_cache = 0, fs_cache_mutex = 0, fs_inode_cache_size = 0, fs_specific = 0x310\<rparr>],
     fatfss := [0x310 \<mapsto> demo_volume]\<rparr>"

lemma fat_mem_entry: "c < 0x40000000 \<Longrightarrow> fat_entry fat_mem 0x5000 c = (if c = 0 then 0x0FFFFFF8 else if c = 1 then 0x0FFFFFFF else 0)"
  by (auto simp: fat_mem_def fat_entry_set) (simp add: fat_entry_def load32_def)

lemma fdemo_kmem: "kmem fdemo = fat_mem"
  by (simp add: fdemo_def)

lemma fdemo_fat: "fat_of 0x300 fdemo = Inr (the (fsystems fdemo 0x300), demo_volume)"
  by (simp add: fdemo_def fat_of_def the_obj_def)

lemma fdemo_free: "free_clusters fat_mem 0x5000 0 4 = [2, 3]"
  by (simp add: free_clusters_def upt_rec fat_mem_entry)

lemma fdemo_ok: "fat_ok (kmem fdemo) (ff_fat_table demo_volume) 4"
proof -
  have lt: "c < 0x40000000" if "unat c < 4" for c :: u32 using that by (simp add: word_less_nat_alt)
  show ?thesis unfolding fat_ok_def fdemo_kmem by (auto simp: fat_mem_entry lt Let_def split: if_splits)
qed

theorem gm_free_clusters_links_chain_witness:
  "\<exists>cl m. fat32fs_gm_free_clusters 10 2 0x300 fdemo = Inr (hd cl, fdemo\<lparr>kmem := m\<rparr>) \<and> length cl = unat (2 :: u32) \<and> distinct cl \<and>
    fat_chain m 0x5000 cl \<and> (\<forall>c \<in> set cl. unat c < 4 \<and> fat_entry (kmem fdemo) 0x5000 c = 0) \<and>
    (\<forall>c. unat c < 4 \<and> c \<notin> set cl \<longrightarrow> fat_entry m 0x5000 c = fat_entry (kmem fdemo) 0x5000 c) \<and>
    (\<forall>a. 4 * 4 \<le> unat (a - 0x5000) \<longrightarrow> m a = kmem fdemo a)"
  using gm_free_clusters_links_chain [OF fdemo_fat, of 4 10 2] by (simp add: fdemo_free fdemo_kmem fat_mem_entry)

theorem gm_free_clusters_keeps_table_witness:
  "\<exists>c m. fat32fs_gm_free_clusters 10 2 0x300 fdemo = Inr (c, fdemo\<lparr>kmem := m\<rparr>) \<and> fat_ok m 0x5000 4"
  using gm_free_clusters_keeps_table [OF fdemo_fat _ _ _ fdemo_ok, of 10 2] by (simp add: fdemo_free fdemo_kmem)

theorem gm_free_clusters_roundtrip_witness:
  "\<exists>c s' m e. fat32fs_gm_free_clusters 10 2 0x300 fdemo = Inr (c, s') \<and>
    fat32fs_free_cluster_chain demo_env 10 c 0x300 s' = fat32fs_write_fat demo_env 10 0x300 (fdemo\<lparr>kmem := m\<rparr>) \<and>
    (\<forall>d. unat d < 4 \<longrightarrow> fat_entry m 0x5000 d = fat_entry (kmem fdemo) 0x5000 d) \<and> 0x0FFFFFF8 \<le> e \<and> load32 m (0x5000 + 4 * e) = 0"
  using gm_free_clusters_roundtrip [OF fdemo_fat _ _ _ fdemo_ok, of 10 2 demo_env] by (simp add: fdemo_free fdemo_kmem)


subsection \<open>A file on the volume\<close>

text \<open>A file of 700 bytes in cluster 5, of two sectors, open at offset 100.\<close>

abbreviation demo_file :: fsnode where
  "demo_file \<equiv> \<lparr>fn_file_system = 0x300, fn_length = 700, fn_attributes = 0, fn_hard_links = 1, fn_creation_time = 0, fn_last_access_time = 0,
     fn_last_modification_time = 0, fn_specific = 0x420\<rparr>"

abbreviation demo_fd :: fd where
  "demo_fd \<equiv> \<lparr>fd_file = 0x400, fd_offset = 100, fd_instances = 1, fd_path = 0\<rparr>"

definition ndemo :: "drive_hw files" where
  "ndemo = fdemo\<lparr>kmem := (\<lambda>a. if a = 0x600D then 2 else 0), fsnodes := [0x400 \<mapsto> demo_file],
     fatnodes := [0x420 \<mapsto> \<lparr>fat_cluster = 5, fat_dir_cluster = 2\<rparr>], fds := [0x440 \<mapsto> demo_fd]\<rparr>"

lemma ndemo_polled: "polled 0x1F0 0x3F6 (fs_drive (the (fsystems ndemo 0x300))) short ndemo"
  using demo_polled by (simp add: polled_def ndemo_def fdemo_def)

lemma ndemo_cluster:
  "cluster_bytes demo_volume ndemo = 1024" "fat32fs_cluster_to_lba demo_volume 5 (kmem ndemo) = 6"
  by (simp_all add: ndemo_def cluster_bytes_def fat32fs_cluster_to_lba_def fat_fields load16_def load32_def Let_def)

theorem read_file_returns_disk_witness:
  "\<exists>z. read_file demo_env 65281 0x440 0x9000 400 ndemo = Inr (Ret ERROR_NONE (ndemo\<lparr>kmem :=
      (\<lambda>a. if unat (a - 0x9000) < unat (400 :: u64) then dh_disk (hw ndemo) (512 * unat (6 :: u64) + unat (ucast (fd_offset demo_fd) :: u32) + unat (a - 0x9000)) else kmem ndemo a),
      hw := z, fds := (fds ndemo)(0x440 \<mapsto> demo_fd\<lparr>fd_offset := fd_offset demo_fd + 400\<rparr>)\<rparr>)) \<and> dh_disk z = dh_disk (hw ndemo)"
  by (rule read_file_returns_disk [where y = "the (fsystems ndemo 0x300)" and node = demo_file and spe = demo_volume and
        nd = "\<lparr>fat_cluster = 5, fat_dir_cluster = 2\<rparr>", OF demo_drive ndemo_polled])
    (simp_all add: ndemo_cluster read_count_def, simp_all add: ndemo_def fdemo_def)

theorem bitmap_mark_first_zero_bit_witness:
  "\<exists>m'. ext2_bitmap_mark_first_zero_bit (\<lambda>_. 3) 0x2000 4 = (of_nat 2, m') \<and>
    (\<forall>i < 8 * unat (4 :: u32). bitmap_bit m' 0x2000 i = (i = 2 \<or> bitmap_bit (\<lambda>_. 3) 0x2000 i)) \<and>
    (\<forall>a. unat (4 :: u32) \<le> unat (a - 0x2000) \<longrightarrow> m' a = 3)"
proof -
  have "bitmap_bit (\<lambda>_. 3) 0x2000 i" if "i < 2" for i using that by (cases i) (auto simp: bitmap_bit_def less_Suc_eq numeral_2_eq_2)
  then show ?thesis by (intro bitmap_mark_first_zero_bit) (simp_all add: bitmap_bit_def)
qed

end
