(* ===== verification/VK_KernelDemo.thy ===== *)
theory VK_KernelDemo
  imports VK_KernelProps VK_StorageDemo
begin

section \<open>The properties of the upper layers on concrete states\<close>

text \<open>
  The machine of \<open>VK_StorageDemo\<close> with two small address spaces, a process with two children and tables of descriptors; each property of
  \<open>VK_KernelProps\<close> with hypotheses is applied to it.
\<close>

text \<open>Two page directories, at 0x1000 and 0x2000, that map the first page to different places.\<close>

definition demo_tables :: "u32 \<Rightarrow> u32" where
  "demo_tables = (\<lambda>_. 0)(0x1000 := 0x5001, 0x2000 := 0x6001, 0xC0005000 := 0x8001, 0xC0006000 := 0x9001)"

text \<open>The sectors of a cluster, and one open file.\<close>

definition demo_kmem :: mem where
  "demo_kmem = (\<lambda>_. 0)(0x600D := 2, 0x3000 := 0x40, 0x3001 := 0x04)"

definition child :: "int \<Rightarrow> u32 \<Rightarrow> process" where
  "child nr st = (demo_process 0 0 [])\<lparr>pid := nr, parent := 100, p_status := st\<rparr>"

definition kdemo :: "drive_hw kernel" where
  "kdemo = (files.extend ndemo (kernel.fields 0 0))\<lparr>kmem := demo_kmem, pmem := demo_tables, current_process := 100, processes_size := 20,
     procs := [100 \<mapsto> (demo_process 0 0 [(1, 8)])\<lparr>page_directory := 0x1000, files := 0x3000, files_size := 5, files_count := 3,
         children := [(0x10, 101), (0x20, 102)]\<rparr>,
       101 \<mapsto> child 2 PROCESS_STATUS_RUNNING, 102 \<mapsto> child 3 PROCESS_STATUS_ZOMBIE],
     thrs := [8 \<mapsto> demo_thread THREAD_STATUS_ASLEEP_IRQ]\<rparr>"

definition demo_drives :: "u32 \<Rightarrow> block_device option" where
  "demo_drives = [0 \<mapsto> demo_disk]"

definition mdemo :: "drive_hw machine" where
  "mdemo = kernel.extend kdemo (machine.fields (replicate GDT_SIZE (gdt_entry 0 0 0 0)) (0, 0)
     \<lparr>tss_ss0 = 0, tss_es = 0, tss_cs = 0, tss_ss = 0, tss_ds = 0, tss_fs = 0, tss_gs = 0\<rparr>
     (replicate IDT_SIZE (idt_gate 0 0 0)) (0, 0) [] 0 0 0 0 0 0 False False 0 False 0 0 0)"

lemma kdemo_fields [simp]:
  "kmem kdemo = demo_kmem" "pmem kdemo = demo_tables" "current_process kdemo = 100" "thrs kdemo 8 = Some (demo_thread THREAD_STATUS_ASLEEP_IRQ)"
  "procs kdemo 101 = Some (child 2 PROCESS_STATUS_RUNNING)" "procs kdemo 102 = Some (child 3 PROCESS_STATUS_ZOMBIE)"
  "procs kdemo 100 = Some ((demo_process 0 0 [(1, 8)])\<lparr>page_directory := 0x1000, files := 0x3000, files_size := 5, files_count := 3,
         children := [(0x10, 101), (0x20, 102)]\<rparr>)"
  "processes_size kdemo = 20"
  by (simp_all add: kdemo_def files.defs)

lemma mdemo_fields [simp]:
  "GDT_ENTRIES mdemo = replicate GDT_SIZE (gdt_entry 0 0 0 0)" "IDT_ENTRIES mdemo = replicate IDT_SIZE (idt_gate 0 0 0)" "kmem mdemo = demo_kmem"
  by (simp_all add: mdemo_def kernel.defs machine.defs)

lemma demo_tables_addr: "user_addr 0x1000 0 kdemo = Some 0x8000" "user_addr 0x2000 0 kdemo = Some 0x9000"
  by (simp_all add: user_addr_def pd_entry_def pte_addr_def is_large_def demo_tables_def KERNEL_VIRTUAL_BASE_def Let_def PD_ADDRESS_MASK_def PD_BIT_4KB_PAGE_def)

theorem copy_between_copies_page_witness:
  "\<exists>s'. copy_between 0x1000 0x2000 0 0xD0000000 4096 0x1000 kdemo = Inr s' \<and> current_page_directory s' = 0x1000 \<and>
    (\<forall>i < 4096. user_byte 0x2000 (0 + of_nat i) s' = user_byte 0x1000 (0 + of_nat i) kdemo) \<and>
    (\<forall>a. 4096 \<le> unat (a - 0x9000) \<longrightarrow> phys s' a = phys kdemo a) \<and>
    (\<forall>a. 4096 \<le> unat (a - 0xD0000000) \<longrightarrow> kmem s' a = kmem kdemo a) \<and> pmem s' = pmem kdemo"
  by (rule copy_between_copies_page [OF _ demo_tables_addr]) simp

theorem wake_parent_returns_iff_witness:
  "\<not> (\<exists>f s'. wake_parent (kernel_heap (map_memory_d 0 0 0 []) [] (Suc 10)) f 100 kdemo = Inr s')"
proof -
  have "t_status (demo_thread THREAD_STATUS_ASLEEP_IRQ) \<noteq> THREAD_STATUS_ASLEEP_CHILD"
    by (simp add: demo_thread_def THREAD_STATUS_ASLEEP_IRQ_def THREAD_STATUS_ASLEEP_CHILD_def)
  then show ?thesis
    using wake_parent_returns_iff [where s = kdemo and q = 100 and e = 1 and t = 8 and ws = "[]", OF kdemo_fields(7) _ kdemo_fields(4)]
    by (simp add: demo_process_def)
qed


lemma kdemo_mapped: "ptr_validate 0x10 0x1000 kdemo"
  by (simp add: ptr_validate_def is_mapped_def pd_entry_def pte_addr_def is_large_def demo_tables_def KERNEL_VIRTUAL_BASE_def Let_def PD_ADDRESS_MASK_def PD_BIT_4KB_PAGE_def)


theorem idt_install_dispatch_witness:
  "let H = \<lparr>h_unhandled = 1, h_isr = (\<lambda>i. 2), h_schedule = 3, h_irq = (\<lambda>i. 4), h_syscall = 5\<rparr> in
    gate_offset (IDT_ENTRIES (idt_install H mdemo) ! 0x80) = 5"
  using idt_install_dispatch [of mdemo "0x80" "\<lparr>h_unhandled = 1, h_isr = (\<lambda>i. 2), h_schedule = 3, h_irq = (\<lambda>i. 4), h_syscall = 5\<rparr>"]
  by (simp add: IDT_SIZE_def vector_handler_def)

theorem init_gdt_desc_roundtrip_witness:
  "desc_base (GDT_ENTRIES (init_gdt_desc 5 0xC0123456 104 0xE9 0 mdemo) ! 5) = 0xC0123456 \<and>
   desc_limit (GDT_ENTRIES (init_gdt_desc 5 0xC0123456 104 0xE9 0 mdemo) ! 5) = 104"
  using init_gdt_desc_roundtrip [of 5 mdemo "0xC0123456" 104 "0xE9" 0]
  by (simp add: Let_def GDT_SIZE_def)

theorem getpinfo_safe_witness:
  "\<exists>s'. syscall_getpinfo \<lparr>kh = kernel_heap (map_memory_d 0 0 0 []) [] (Suc 10), kio = drive_ports, kbuf = 0x100, kreg = (\<lambda>_. 0), kloc = 0x200\<rparr>
      10 0 VK_PINFO_PID 0x10 kdemo = Inr (Ret (Some ERROR_NONE, Some ERROR_NONE) s') \<and> (\<exists>m. s' = kdemo\<lparr>kmem := m\<rparr>)"
proof -
  let ?K = "\<lparr>kh = kernel_heap (map_memory_d 0 0 0 []) [] (Suc 10), kio = drive_ports, kbuf = 0x100, kreg = (\<lambda>_. 0), kloc = 0x200\<rparr>"
  have "\<exists>s'. syscall_getpinfo ?K 10 0 VK_PINFO_PID 0x10 kdemo = Inr (Ret (Some ERROR_NONE, Some ERROR_NONE) s')"
    by (simp add: syscall_getpinfo_def valid_ptr_def proc_def kdemo_mapped subject_def both_def Let_def)
  then obtain s' where r: "syscall_getpinfo ?K 10 0 VK_PINFO_PID 0x10 kdemo = Inr (Ret (Some ERROR_NONE, Some ERROR_NONE) s')" by blast
  from getpinfo_safe [OF _ r] show ?thesis using r by auto
qed


lemma kdemo_cluster: "fat32fs_cluster_to_lba demo_volume 5 demo_kmem = 6" "cluster_bytes demo_volume kdemo = 1024"
  unfolding fat32fs_cluster_to_lba_def cluster_bytes_def kdemo_fields(1) demo_kmem_def
  by (simp_all add: fat_fields load16_def load32_def Let_def)

lemma kdemo_disk:
  "polled 0x1F0 0x3F6 (fs_drive (the (fsystems ndemo 0x300))) short kdemo" "cluster_bytes demo_volume kdemo = 1024"
  "fat32fs_cluster_to_lba demo_volume 5 (kmem kdemo) = 6" "hw kdemo = hw ndemo" "fsystems kdemo = fsystems ndemo" "fsnodes kdemo = fsnodes ndemo"
  "fatfss kdemo = fatfss ndemo" "fatnodes kdemo = fatnodes ndemo" "fds kdemo = fds ndemo"
  using ndemo_polled [of short] by (simp_all add: kdemo_cluster) (simp_all add: polled_def kdemo_def files.defs cong: option.case_cong)

lemma demo_drive_kernel:
  "ata_drive (kio \<lparr>kh = kernel_heap (map_memory_d 0 0 0 []) [] (Suc 10), kio = drive_ports, kbuf = 0x100, kreg = (\<lambda>_. 0), kloc = 0x200\<rparr>)
     0x1F0 0x3F6 dh_reg dh_disk dh_in dh_out"
  by (simp add: primary.ata_drive_axioms)



end
