(* ===== verification/Spec2Isabelle.thy ===== *)
theory Spec2Isabelle
  imports VK_PageTables VK_Lib VK_Time VK_ConsoleDemo VK_KernelDemo
begin

text \<open>
  A verification development of the VK kernel, a 32-bit x86 kernel in C (the files under src/).
  The model is a shallow embedding: one definition per C function, with the names of the source,
  on 32-bit words that wrap around, a byte memory of functions from addresses to bytes, and typed
  stores (maps from addresses to records) where the code only ever reaches an object through
  pointers of its type.  Every early return, halt and fault of the source is a branch of the model.

  \<^bold>\<open>The parts of the program and the theories that model them.\<close>

  \<^item> Shared macros and copy loops (util/util.h, util/lib.c): theory VK_Prelude.  It also has the
    named collections of facts, the generic lemmas on words, byte memory and regions, and the
    type names of the model.
  \<^item> The kernel heap (memory/kheap.c): VK_Kheap has the headers in byte memory, first fit with
    splitting, freeing with merging, growth and reallocation; VK_Blocks is the abstract list of
    blocks that the heap implements.  Growth calls map_memory, which calls the physical and the
    virtual memory map, which call kmalloc: the recursion is tied together in VK_Paging.
  \<^item> Physical memory (memory/physical.c): VK_Phys, the doubly linked list of blocks in a typed store.
  \<^item> Kernel virtual memory (memory/kvmheap.c): VK_Kvm.
  \<^item> Page heap and paging (memory/kpageheap.c, memory/paging.c): VK_Paging (the operations) and
    VK_PageTables (what they do to the translation of addresses).
  \<^item> Strings, conversions (util/lib.c): VK_Lib.  The clock (time/time.c): VK_Time.
  \<^item> Queues, stacks and lists (util/data_structs.c): VK_Queue, in byte memory, with the locale
    channel (what is put is taken again in order) and its extension fifo.
  \<^item> Processes, threads, mutexes (tasking/task.h, tasking/processes/threads.c, sync/): VK_Task.
    The scheduler (tasking/scheduler/): VK_Sched.  Groups and signals
    (tasking/processes/groups.c, signal.c): VK_Signal.  VK_TaskHeap is the locale of the
    allocator that these parts rely on, interpreted on the kernel heap; VK_TaskProps and
    VK_SchedProps are the theorems, VK_TaskDemo a concrete state in which they are applied.
  \<^item> The text screen and messages (video/, error/error.c, kprintf of util/lib.c): VK_Vga, theorems in
    VK_VgaProps.
  \<^item> Streams, the registration side of the device file system, terminals, the keyboard and the
    interrupt dispatch (io/stream.c, filesystem/devfs.c, io/ttys.c, devices/keyboard.c,
    cpu/isrs.c): VK_Stream, VK_Tty and VK_Input; theorems in VK_ConsoleProps, a concrete console
    in VK_ConsoleDemo.
  \<^item> Port operations, the interrupt controller and the PCI bus (internal/pic.c, internal/pci.c), block
    devices and disks (storage/): VK_Storage and VK_Ata.  The ports are a parameter: a record of
    the six port operations on a hardware state of any type.  What a drive does is the locale
    ata_drive of VK_AtaProps (the transfer of a sector, the status that the driver polls), under which
    the requests of any length are proved; it is interpreted on a drive model with registers and
    a disk in the same theory.
  \<^item> The file systems: FAT32 (filesystem/fat32.c) in VK_Fat with theorems in VK_FatProps, ISO 9660
    (filesystem/iso_9660.c) in VK_Iso, ext2 (filesystem/ext2.c) in VK_Ext2, the virtual file system
    and the rest of the device file system (filesystem/vfs.c, devfs.c) in VK_Vfs with theorems on
    it and on the bitmaps of ext2 in VK_VfsProps.  On-disk structures are bytes in memory, read
    and written at the offsets of the C declarations.  VK_StorageDemo is a concrete disk, a volume
    and an open file, in which the theorems are applied.
  \<^item> Address spaces (the rest of memory/paging.c): VK_Space, with the translation of user addresses through
    the loaded page directory.  Processes and executables (tasking/processes/process.c, elf.c): VK_Process.
    System calls (tasking/processes/syscalls.c): VK_Syscall, one definition per call and the table of
    the calls.  The processor's tables, CPUID, the command line and kmain (cpu/gdt.c, cpu/idt.c,
    cpu/cpu.c, args.c, ckernel.c): VK_Boot.  Theorems on all of them are in VK_KernelProps, a
    concrete machine in VK_KernelDemo.

  \<^bold>\<open>State.\<close>  The global variables of the C files are fields of records that extend each other in the
  order in which the parts depend on each other: the memory state (byte memory, heap bounds,
  block lists, page tables), tasking (processes, threads, mutexes, ready queue, sleep lists,
  interrupt flag), vga (screen mode, cursor, colour), console (streams, terminals, file
  nodes), storage (devices, drives and the hardware), files (file systems, open files, mount
  points), kernel (entry points of processes) and machine (descriptor tables, what the processor
  reports, options of the command line).  In the system calls the addresses below the kernel are those of
  the running process, and the byte memory is what it and the kernel see; where the code
  copies between address spaces, user memory is physical memory behind the page tables.  An operation takes the state and returns it updated, with its result.

  \<^bold>\<open>What the lemmas show.\<close>  Of the allocators: refinement of first-fit allocation on abstract lists, that
  a returned block overlaps nothing in use, that releasing what was reserved restores the lists,
  and where the code halts or does not return.  Of paging: that mapping a range makes exactly its
  addresses translate.  Of the library: round trips of the conversions, the contents that the string
  routines leave in memory, the agreement of the clock with POSIX time where it agrees.  Of the containers:
  first in, first out below the stated fill, and the overflow above it.  Of tasking: mutual
  exclusion over all interleavings, round robin order, wake-ups and the sleep lists, the search in
  the group table.  Of the console: that the screen implements a grid of characters, that streams and
  lines are read in the order they were written, and the inputs for which the code leaves its buffers.
  Of the disks: that a read through the driver returns the bytes of the disk and a write
  followed by a read the bytes written, for any length and offset.  Of the file systems: that
  clusters are taken from the free ones and chained, that the chain is given back, that time
  stamps survive, that a read through all layers returns the bytes of the disk, that the search in
  a bitmap finds the first free bit, and what freeing a bit does to its neighbours.  Of processes
  and system calls: that a copied page reads the same in the new address space, that the read call
  delivers the bytes of the disk, which executables are accepted, which processes a call may
  ask about, that a new file number is free, which child a wait finds and when waking a parent
  ends.  Of the start: that the interrupt table leads to the handlers and opens only the system
  call to user code, that descriptors keep their base and limit, and that the root drive is found.

  \<^bold>\<open>Fuel.\<close>  kmalloc and the operations that call it take a bound on the depth of the recursion through
  map_memory; the theorems on a result either give a bound that is enough, or hold
  for every bound that returns, next to theorems that such a bound exists; the theorem on the
  full heap shows that no bound is enough there.  Loops over lists in memory that the code does not
  bound take the number of steps as fuel in the same way.  All other loops are total functions.

  \<^bold>\<open>Concurrency.\<close>  The kernel runs on one processor; a switch happens where the code calls the
  scheduler or an interrupt arrives.  An operation that gives up the processor
  returns a value that says so with the state at that moment.

  \<^bold>\<open>Not modelled.\<close>  The assembly of the boot loader and of the interrupt entries (loader.s, cpu/isr.s): it saves
  and restores registers around the C code, of which the model has the parts that the C code relies on (the
  dispatch of system calls, the switch of threads).  The instructions that load descriptor tables and
  control registers, and the TLB: the tables are modelled as what the functions leave in memory.  The text a
  fault prints before the kernel halts is not kept.
\<close>

end
